(* ===== verification/Prelude.thy ===== *)
theory Prelude
  imports Main "HOL-Library.Word" "HOL-Library.Multiset" "HOL-Library.Sublist"
begin

text \<open>
  The shared part of the development: results of fallible Rust code as sums with the error
  on the left (\<open>rbind\<close> is the \<open>?\<close> operator), folds over such results, the saturating
  arithmetic of the unsigned machine integers, Rust's \<open>Ordering\<close> with a stable comparator
  sort, and small facts on lists and maps that several components use.
\<close>

named_theorems result_simps \<open>evaluation of fallible code\<close>
named_theorems unat_simps \<open>machine integers read as natural numbers\<close>

type_synonym u8 = "8 word"
type_synonym u32 = "32 word"
type_synonym u64 = "64 word"
type_synonym u128 = "128 word"

text \<open>Byte strings. A Rust \<open>String\<close> is its UTF-8 bytes, so text is a byte string too.\<close>

type_synonym bytes = "char list"

section \<open>Results\<close>

definition rbind :: "'e + 'a \<Rightarrow> ('a \<Rightarrow> 'e + 'b) \<Rightarrow> 'e + 'b" where
  "rbind m f = (case m of Inl e \<Rightarrow> Inl e | Inr x \<Rightarrow> f x)"

definition map_err :: "('e \<Rightarrow> 'f) \<Rightarrow> 'e + 'a \<Rightarrow> 'f + 'a" where
  "map_err g m = (case m of Inl e \<Rightarrow> Inl (g e) | Inr x \<Rightarrow> Inr x)"

definition ok_or :: "'e \<Rightarrow> 'a option \<Rightarrow> 'e + 'a" where
  "ok_or e x = (case x of None \<Rightarrow> Inl e | Some v \<Rightarrow> Inr v)"

lemma rbind_simps [simp, result_simps]:
  "rbind (Inl e) f = Inl e"
  "rbind (Inr x) f = f x"
  by (simp_all add: rbind_def)

lemma map_err_simps [simp, result_simps]:
  "map_err g (Inl e) = Inl (g e)"
  "map_err g (Inr x) = Inr x"
  by (simp_all add: map_err_def)

lemma ok_or_simps [simp, result_simps]:
  "ok_or e None = Inl e"
  "ok_or e (Some v) = Inr v"
  by (simp_all add: ok_or_def)

lemma rbind_Inr_iff [result_simps]: "rbind m f = Inr y \<longleftrightarrow> (\<exists>x. m = Inr x \<and> f x = Inr y)"
  by (cases m) simp_all

lemma rbind_Inl_iff: "rbind m f = Inl e \<longleftrightarrow> m = Inl e \<or> (\<exists>x. m = Inr x \<and> f x = Inl e)"
  by (cases m) auto

lemma rbind_InrE:
  assumes "rbind m f = Inr y"
  obtains x where "m = Inr x" "f x = Inr y"
  using assms by (auto simp: rbind_Inr_iff)

lemma map_err_Inr_iff [simp, result_simps]: "map_err g m = Inr y \<longleftrightarrow> m = Inr y"
  by (cases m) simp_all

lemma ok_or_Inr_iff [simp, result_simps]: "ok_or e x = Inr y \<longleftrightarrow> x = Some y"
  by (cases x) simp_all

lemma rbind_assoc: "rbind (rbind m f) g = rbind m (\<lambda>x. rbind (f x) g)"
  by (cases m) simp_all

lemma rbind_cong [fundef_cong]:
  "m = m' \<Longrightarrow> (\<And>x. m' = Inr x \<Longrightarrow> f x = f' x) \<Longrightarrow> rbind m f = rbind m' f'"
  by (cases m') simp_all

text \<open>A \<open>for\<close> loop whose body may return early with an error.\<close>

fun for_each :: "('x \<Rightarrow> 's \<Rightarrow> 'e + 's) \<Rightarrow> 'x list \<Rightarrow> 's \<Rightarrow> 'e + 's" where
  "for_each f [] s = Inr s"
| "for_each f (x # xs) s = rbind (f x s) (for_each f xs)"

fun map_res :: "('a \<Rightarrow> 'e + 'b) \<Rightarrow> 'a list \<Rightarrow> 'e + 'b list" where
  "map_res f [] = Inr []"
| "map_res f (x # xs) = rbind (f x) (\<lambda>y. rbind (map_res f xs) (\<lambda>ys. Inr (y # ys)))"

lemma for_each_append:
  "for_each f (xs @ ys) s = rbind (for_each f xs s) (for_each f ys)"
  by (induction xs arbitrary: s) (simp_all add: rbind_assoc cong: rbind_cong)

lemma for_each_inv:
  assumes "for_each f xs s = Inr s'" and "P s"
    and "\<And>x s s'. x \<in> set xs \<Longrightarrow> P s \<Longrightarrow> f x s = Inr s' \<Longrightarrow> P s'"
  shows "P s'"
  using assms
proof (induction xs arbitrary: s)
  case Nil
  then show ?case by simp
next
  case (Cons x xs)
  from Cons.prems(1) obtain t where t: "f x s = Inr t" "for_each f xs t = Inr s'"
    by (auto simp: rbind_Inr_iff)
  have "P t" using Cons.prems t by auto
  with t(2) Cons.prems(3) show ?case by (intro Cons.IH [of t]) auto
qed

text \<open>What one element establishes and the others keep holds at the end.\<close>

lemma for_each_reach:
  assumes "for_each f xs s = Inr s'" and "x \<in> set xs"
    and "\<And>s s'. f x s = Inr s' \<Longrightarrow> Q s'"
    and "\<And>y s s'. y \<in> set xs \<Longrightarrow> f y s = Inr s' \<Longrightarrow> Q s \<Longrightarrow> Q s'"
  shows "Q s'"
proof -
  from assms(2) obtain ys zs where xs: "xs = ys @ x # zs" by (auto dest: split_list)
  with assms(1) obtain t u where "f x t = Inr u" "for_each f zs u = Inr s'"
    by (auto simp: for_each_append rbind_Inr_iff)
  then show ?thesis
    using assms(3) [of t u] assms(4) xs by (intro for_each_inv [of f zs u s' Q]) auto
qed

lemma for_each_total:
  assumes "\<And>x s. x \<in> set xs \<Longrightarrow> \<exists>s'. f x s = Inr s'"
  shows "\<exists>s'. for_each f xs s = Inr s'"
  using assms
proof (induction xs arbitrary: s)
  case Nil
  then show ?case by simp
next
  case (Cons x xs)
  then obtain t where "f x s = Inr t" by fastforce
  with Cons show ?case by (simp add: Cons.IH)
qed

lemma for_each_Inr_fold:
  assumes "\<And>x s. x \<in> set xs \<Longrightarrow> f x s = Inr (g x s)"
  shows "for_each f xs s = Inr (fold g xs s)"
  using assms by (induction xs arbitrary: s) simp_all

text \<open>A result that is not an error.\<close>

definition returns :: "'e + 'a \<Rightarrow> bool" where
  "returns m \<longleftrightarrow> (\<exists>x. m = Inr x)"

lemma returns_simps [simp]: "returns (Inr x)" "\<not> returns (Inl e)" "returns (map_err g m) = returns m"
  by (auto simp: returns_def)

lemma returns_rbind [intro]:
  "returns m \<Longrightarrow> (\<And>x. m = Inr x \<Longrightarrow> returns (f x)) \<Longrightarrow> returns (rbind m f)"
  by (auto simp: returns_def)

lemma returns_for_each: "(\<And>x s. x \<in> set xs \<Longrightarrow> returns (f x s)) \<Longrightarrow> returns (for_each f xs s)"
  unfolding returns_def by (rule for_each_total)

lemma map_res_Inr_length: "map_res f xs = Inr ys \<Longrightarrow> length ys = length xs"
  by (induction xs arbitrary: ys) (auto simp: rbind_Inr_iff)

lemma map_res_Inr_nth:
  "map_res f xs = Inr ys \<Longrightarrow> i < length xs \<Longrightarrow> f (xs ! i) = Inr (ys ! i)"
  by (induction xs arbitrary: ys i) (auto simp: rbind_Inr_iff nth_Cons split: nat.splits)

lemma map_res_Inr_iff:
  "map_res f xs = Inr ys \<longleftrightarrow> list_all2 (\<lambda>x y. f x = Inr y) xs ys"
  by (induction xs arbitrary: ys) (auto simp: rbind_Inr_iff list_all2_Cons1)

lemma map_res_pure: "(\<And>x. x \<in> set xs \<Longrightarrow> f x = Inr (g x)) \<Longrightarrow> map_res f xs = Inr (map g xs)"
  by (induction xs) auto

section \<open>Saturating arithmetic\<close>

definition sat_add :: "'a::len word \<Rightarrow> 'a word \<Rightarrow> 'a word" where
  "sat_add a b = (if unat a + unat b < 2 ^ LENGTH('a) then a + b else - 1)"

definition sat_sub :: "'a::len word \<Rightarrow> 'a word \<Rightarrow> 'a word" where
  "sat_sub a b = (if b \<le> a then a - b else 0)"

lemma unat_lt_max: "unat (a :: 'a::len word) < 2 ^ LENGTH('a)"
  by (rule unsigned_less)

lemma unat_max_word: "unat (- 1 :: 'a::len word) = 2 ^ LENGTH('a) - 1"
  by (simp add: unsigned_minus_1_eq_mask mask_eq_exp_minus_1)

lemma unat_sat_add [unat_simps]:
  "unat (sat_add a b) = min (unat a + unat b) (2 ^ LENGTH('a) - 1)"
  for a b :: "'a::len word"
proof (cases "unat a + unat b < 2 ^ LENGTH('a)")
  case True
  then have "unat (a + b) = unat a + unat b"
    by (simp add: unat_word_ariths)
  with True show ?thesis by (simp add: sat_add_def)
next
  case False
  then show ?thesis by (simp add: sat_add_def unat_max_word)
qed

lemma unat_sat_sub [unat_simps]: "unat (sat_sub a b) = unat a - unat b"
  by (simp add: sat_sub_def unat_sub word_le_nat_alt)

lemma sat_add_le_mono: "a \<le> sat_add a b" for a b :: "'a::len word"
proof -
  have "unat a \<le> 2 ^ LENGTH('a) - 1" using unat_lt_max [of a] by linarith
  then show ?thesis by (simp add: word_le_nat_alt unat_simps)
qed

lemma sat_add_0 [simp]: "sat_add 0 b = b" "sat_add b 0 = b" for b :: "'a::len word"
  using unat_lt_max [of b] by (simp_all add: sat_add_def)

section \<open>Rust's Ordering and the stable sort\<close>

datatype ordering = Less | Equal | Greater

definition cmp_of :: "'a::linorder \<Rightarrow> 'a \<Rightarrow> ordering" where
  "cmp_of a b = (if a < b then Less else if a = b then Equal else Greater)"

fun then_with :: "ordering \<Rightarrow> ordering \<Rightarrow> ordering" where
  "then_with Equal c = c"
| "then_with c _ = c"

lemma cmp_of_simps [simp]:
  "cmp_of a b = Less \<longleftrightarrow> a < b" "cmp_of a b = Equal \<longleftrightarrow> a = b" "cmp_of a b = Greater \<longleftrightarrow> b < a"
  by (auto simp: cmp_of_def)

lemma then_with_Greater [simp]:
  "then_with a b = Greater \<longleftrightarrow> a = Greater \<or> a = Equal \<and> b = Greater"
  by (cases a) simp_all

lemma then_with_Equal [simp]: "then_with a b = Equal \<longleftrightarrow> a = Equal \<and> b = Equal"
  by (cases a) simp_all

text \<open>
  \<open>slice::sort_by\<close> is a stable sort. Where the comparator is a total preorder every stable
  sort returns the same list; insertion from the right gives it.
\<close>

fun insert_by :: "('a \<Rightarrow> 'a \<Rightarrow> ordering) \<Rightarrow> 'a \<Rightarrow> 'a list \<Rightarrow> 'a list" where
  "insert_by c x [] = [x]"
| "insert_by c x (y # ys) = (if c x y = Greater then y # insert_by c x ys else x # y # ys)"

fun sort_by :: "('a \<Rightarrow> 'a \<Rightarrow> ordering) \<Rightarrow> 'a list \<Rightarrow> 'a list" where
  "sort_by c [] = []"
| "sort_by c (x # xs) = insert_by c x (sort_by c xs)"

lemma mset_insert_by [simp]: "mset (insert_by c x xs) = add_mset x (mset xs)"
  by (induction xs) auto

lemma mset_sort_by [simp]: "mset (sort_by c xs) = mset xs"
  by (induction xs) auto

lemma set_sort_by [simp]: "set (sort_by c xs) = set xs"
  by (metis mset_sort_by set_mset_mset)

lemma length_sort_by [simp]: "length (sort_by c xs) = length xs"
  by (metis mset_sort_by size_mset)

lemma distinct_sort_by [simp]: "distinct (sort_by c xs) \<longleftrightarrow> distinct xs"
  by (metis mset_sort_by mset_eq_imp_distinct_iff)

definition total_preorder_on :: "'a set \<Rightarrow> ('a \<Rightarrow> 'a \<Rightarrow> ordering) \<Rightarrow> bool" where
  "total_preorder_on A c \<longleftrightarrow>
     (\<forall>x\<in>A. \<forall>y\<in>A. c x y = Greater \<longrightarrow> c y x \<noteq> Greater) \<and>
     (\<forall>x\<in>A. \<forall>y\<in>A. \<forall>z\<in>A. c x y \<noteq> Greater \<longrightarrow> c y z \<noteq> Greater \<longrightarrow> c x z \<noteq> Greater)"

lemma total_preorder_onD:
  assumes "total_preorder_on A c"
  shows "x \<in> A \<Longrightarrow> y \<in> A \<Longrightarrow> c x y = Greater \<Longrightarrow> c y x \<noteq> Greater"
    and "x \<in> A \<Longrightarrow> y \<in> A \<Longrightarrow> z \<in> A \<Longrightarrow> c x y \<noteq> Greater \<Longrightarrow> c y z \<noteq> Greater \<Longrightarrow> c x z \<noteq> Greater"
  using assms unfolding total_preorder_on_def by blast+

lemma total_preorder_on_subset:
  "total_preorder_on A c \<Longrightarrow> B \<subseteq> A \<Longrightarrow> total_preorder_on B c"
  unfolding total_preorder_on_def by blast

lemma set_insert_by [simp]: "set (insert_by c x xs) = insert x (set xs)"
  by (metis mset_insert_by set_mset_add_mset_insert set_mset_mset)

lemma sorted_wrt_insert_by:
  assumes "total_preorder_on (insert x (set xs)) c"
    and "sorted_wrt (\<lambda>a b. c a b \<noteq> Greater) xs"
  shows "sorted_wrt (\<lambda>a b. c a b \<noteq> Greater) (insert_by c x xs)"
  using assms
proof (induction xs)
  case Nil
  then show ?case by simp
next
  case (Cons y ys)
  have tp: "total_preorder_on (insert x (set ys)) c"
    using Cons.prems(1) by (rule total_preorder_on_subset) auto
  show ?case
  proof (cases "c x y = Greater")
    case True
    then have "c y x \<noteq> Greater"
      using total_preorder_onD(1) [OF Cons.prems(1)] by simp
    with True Cons.prems(2) Cons.IH [OF tp] show ?thesis by simp
  next
    case False
    have "c x z \<noteq> Greater" if "z \<in> set ys" for z
    proof -
      have "c y z \<noteq> Greater" using Cons.prems(2) that by simp
      with False show ?thesis
        using total_preorder_onD(2) [OF Cons.prems(1), of x y z] that by simp
    qed
    with False Cons.prems(2) show ?thesis by auto
  qed
qed

lemma sorted_wrt_sort_by:
  "total_preorder_on (set xs) c \<Longrightarrow> sorted_wrt (\<lambda>a b. c a b \<noteq> Greater) (sort_by c xs)"
proof (induction xs)
  case Nil
  then show ?case by simp
next
  case (Cons x xs)
  then have "total_preorder_on (set xs) c" by (auto intro: total_preorder_on_subset)
  with Cons show ?case by (auto intro!: sorted_wrt_insert_by)
qed

text \<open>
  A comparator that separates distinct elements sorts every permutation of a list to the
  same list.
\<close>

lemma sorted_wrt_unique:
  assumes "mset xs = mset ys"
    and "sorted_wrt R xs" and "sorted_wrt R ys"
    and "\<And>a b. a \<in> set xs \<Longrightarrow> b \<in> set xs \<Longrightarrow> R a b \<Longrightarrow> R b a \<Longrightarrow> a = b"
  shows "xs = ys"
  using assms
proof (induction xs arbitrary: ys)
  case Nil
  then show ?case by simp
next
  case (Cons x xs)
  then obtain y zs where ys: "ys = y # zs" by (cases ys) auto
  have sets: "set (x # xs) = set (y # zs)"
    using Cons.prems(1) ys by (metis set_mset_mset)
  have "x = y"
  proof (rule ccontr)
    assume ne: "x \<noteq> y"
    with sets have "x \<in> set zs" "y \<in> set xs" by (auto simp: set_eq_iff)
    with Cons.prems(2,3) ys have "R y x" "R x y" by auto
    with Cons.prems(4) [of x y] \<open>y \<in> set xs\<close> ne show False by simp
  qed
  moreover have "xs = zs"
    using Cons.prems ys \<open>x = y\<close> by (intro Cons.IH) auto
  ultimately show ?case using ys by simp
qed

lemma sort_by_perm:
  assumes "mset xs = mset ys" and "total_preorder_on (set xs) c"
    and "\<And>a b. a \<in> set xs \<Longrightarrow> b \<in> set xs \<Longrightarrow> c a b \<noteq> Greater \<Longrightarrow> c b a \<noteq> Greater \<Longrightarrow> a = b"
  shows "sort_by c xs = sort_by c ys"
proof (rule sorted_wrt_unique)
  have sets: "set xs = set ys" using assms(1) by (metis set_mset_mset)
  show "mset (sort_by c xs) = mset (sort_by c ys)" using assms(1) by simp
  show "sorted_wrt (\<lambda>a b. c a b \<noteq> Greater) (sort_by c xs)"
    by (rule sorted_wrt_sort_by [OF assms(2)])
  show "sorted_wrt (\<lambda>a b. c a b \<noteq> Greater) (sort_by c ys)"
    using assms(2) sets by (intro sorted_wrt_sort_by) simp
qed (use assms(3) in auto)

text \<open>\<open>sort_by_key\<close> and the comparator it uses.\<close>

definition sort_by_key :: "('a \<Rightarrow> 'k::linorder) \<Rightarrow> 'a list \<Rightarrow> 'a list" where
  "sort_by_key k = sort_by (\<lambda>a b. cmp_of (k a) (k b))"

lemma total_preorder_on_cmp_of [simp, intro]: "total_preorder_on A (\<lambda>a b. cmp_of (k a) (k b))"
  by (auto simp: total_preorder_on_def)

lemma total_preorder_on_cmp_of_desc [simp, intro]:
  "total_preorder_on A (\<lambda>a b. cmp_of (k b) (k a))"
  by (auto simp: total_preorder_on_def)

lemma mset_sort_by_key [simp]: "mset (sort_by_key k xs) = mset xs"
  by (simp add: sort_by_key_def)

lemma set_sort_by_key [simp]: "set (sort_by_key k xs) = set xs"
  by (simp add: sort_by_key_def)

lemma length_sort_by_key [simp]: "length (sort_by_key k xs) = length xs"
  by (simp add: sort_by_key_def)

lemma sorted_sort_by_key: "sorted (map k (sort_by_key k xs))"
  using sorted_wrt_sort_by [of xs "\<lambda>a b. cmp_of (k a) (k b)"]
  by (simp add: sort_by_key_def sorted_map not_less)

lemma sort_by_key_perm:
  "mset xs = mset ys \<Longrightarrow> inj_on k (set xs) \<Longrightarrow> sort_by_key k xs = sort_by_key k ys"
  unfolding sort_by_key_def
  by (rule sort_by_perm) (auto simp: inj_on_def)

section \<open>Lists and maps\<close>

definition nub :: "'a list \<Rightarrow> 'a list" where
  "nub xs = rev (remdups (rev xs))"

lemma set_nub [simp]: "set (nub xs) = set xs"
  by (simp add: nub_def)

lemma distinct_nub [simp]: "distinct (nub xs)"
  by (simp add: nub_def)

lemma list_all2_right:
  "list_all2 R xs ys \<Longrightarrow> y \<in> set ys \<Longrightarrow> \<exists>x \<in> set xs. R x y"
  by (induction rule: list_all2_induct) auto

lemma sum_list_map_remove1:
  "x \<in> set xs \<Longrightarrow> sum_list (map f (remove1 x xs)) + f x = (sum_list (map f xs) :: nat)"
  by (induction xs) auto

lemma sum_list_map_filter_split:
  "sum_list (map f (filter P xs)) + sum_list (map f (filter (\<lambda>x. \<not> P x) xs)) = (sum_list (map f xs) :: nat)"
  by (induction xs) auto

end
