(* ===== verification/Rust_Text.thy ===== *)
theory Rust_Text
  imports Prelude
begin

text \<open>
  What the code uses of Rust's text and number formatting: UTF-8 validation as done by
  \<open>std::str::from_utf8\<close>, the split of a string into characters, Unicode white space,
  \<open>split_whitespace\<close>, \<open>trim_end\<close>, \<open>trim\<close>, \<open>rsplit\<close>, ASCII case folding, decimal and
  hexadecimal formatting with a minimum width, and \<open>from_str_radix\<close>.
  A string is its list of UTF-8 bytes. Case mapping and the alphanumeric class of
  all of Unicode are tables of the standard library: functions that need them take them
  as arguments.
\<close>

section \<open>UTF-8\<close>

abbreviation byte_val :: "char \<Rightarrow> nat" where
  "byte_val c \<equiv> of_char c"

definition is_cont :: "char \<Rightarrow> bool" where
  "is_cont c \<longleftrightarrow> 128 \<le> byte_val c \<and> byte_val c \<le> 191"

text \<open>The number of bytes the character that starts with this byte has, 0 if none does.\<close>

definition utf8_width :: "char \<Rightarrow> nat" where
  "utf8_width c =
     (let b = byte_val c in
      if b \<le> 127 then 1
      else if 194 \<le> b \<and> b \<le> 223 then 2
      else if 224 \<le> b \<and> b \<le> 239 then 3
      else if 240 \<le> b \<and> b \<le> 244 then 4
      else 0)"

text \<open>
  Overlong forms, surrogates and values above U+10FFFF are refused by the range of the
  second byte.
\<close>

definition second_ok :: "char \<Rightarrow> char \<Rightarrow> bool" where
  "second_ok c d =
     (let b = byte_val c; e = byte_val d in
      if b = 224 then 160 \<le> e \<and> e \<le> 191
      else if b = 237 then 128 \<le> e \<and> e \<le> 159
      else if b = 240 then 144 \<le> e \<and> e \<le> 191
      else if b = 244 then 128 \<le> e \<and> e \<le> 143
      else is_cont d)"

definition utf8_next :: "bytes \<Rightarrow> (bytes \<times> bytes) option" where
  "utf8_next s =
     (case s of
        [] \<Rightarrow> None
      | c # r \<Rightarrow>
          (let w = utf8_width c in
           if w = 0 \<or> length s < w then None
           else if w = 1 then Some ([c], r)
           else if second_ok c (hd r) \<and> (\<forall>d \<in> set (take (w - 1) r). is_cont d)
           then Some (take w s, drop w s)
           else None))"

lemma utf8_next_split: "utf8_next s = Some (c, r) \<Longrightarrow> s = c @ r \<and> c \<noteq> []"
  by (auto simp: utf8_next_def Let_def utf8_width_def split: list.splits if_splits)

lemma utf8_next_shorter: "utf8_next s = Some (c, r) \<Longrightarrow> length r < length s"
  by (auto dest!: utf8_next_split)

function utf8_chars :: "bytes \<Rightarrow> bytes list option" where
  "utf8_chars s =
     (if s = [] then Some []
      else case utf8_next s of
             None \<Rightarrow> None
           | Some (c, r) \<Rightarrow> map_option (Cons c) (utf8_chars r))"
  by pat_completeness auto
termination
  by (relation "measure length") (auto dest: utf8_next_shorter)

declare utf8_chars.simps [simp del]

definition utf8_valid :: "bytes \<Rightarrow> bool" where
  "utf8_valid s \<longleftrightarrow> utf8_chars s \<noteq> None"

text \<open>The characters of a valid string, each as its own bytes (\<open>str::chars\<close>).\<close>

definition chars_of :: "bytes \<Rightarrow> bytes list" where
  "chars_of s = (case utf8_chars s of None \<Rightarrow> [] | Some cs \<Rightarrow> cs)"

lemma utf8_chars_concat: "utf8_chars s = Some cs \<Longrightarrow> concat cs = s"
proof (induction s arbitrary: cs rule: utf8_chars.induct)
  case (1 s)
  show ?case
  proof (cases "s = []")
    case True
    with 1 show ?thesis by (simp add: utf8_chars.simps)
  next
    case False
    with "1.prems" obtain c r ds where
      "utf8_next s = Some (c, r)" "utf8_chars r = Some ds" "cs = c # ds"
      by (subst (asm) utf8_chars.simps) (auto split: option.splits)
    with 1 False show ?thesis by (auto dest!: utf8_next_split)
  qed
qed

lemma chars_of_concat: "utf8_valid s \<Longrightarrow> concat (chars_of s) = s"
  by (auto simp: utf8_valid_def chars_of_def dest: utf8_chars_concat)

lemma utf8_width_ascii: "byte_val c \<le> 127 \<Longrightarrow> utf8_width c = 1"
  by (simp add: utf8_width_def)

lemma utf8_chars_ascii_Cons:
  "byte_val c \<le> 127 \<Longrightarrow> utf8_chars (c # s) = map_option (Cons [c]) (utf8_chars s)"
  by (subst utf8_chars.simps) (simp add: utf8_next_def utf8_width_ascii)

lemma utf8_chars_ascii:
  "(\<forall>c \<in> set s. byte_val c \<le> 127) \<Longrightarrow> utf8_chars s = Some (map (\<lambda>c. [c]) s)"
  by (induction s) (simp_all add: utf8_chars_ascii_Cons utf8_chars.simps [of "[]"])

lemma utf8_valid_ascii: "(\<forall>c \<in> set s. byte_val c \<le> 127) \<Longrightarrow> utf8_valid s"
  by (simp add: utf8_valid_def utf8_chars_ascii)

text \<open>\<open>std::str::from_utf8\<close>. The message is that of \<open>Utf8Error\<close>, which the code prints.\<close>

definition from_utf8 :: "bytes \<Rightarrow> bytes option" where
  "from_utf8 s = (if utf8_valid s then Some s else None)"

lemma from_utf8_Some [simp]: "from_utf8 s = Some t \<longleftrightarrow> utf8_valid s \<and> t = s"
  by (auto simp: from_utf8_def)

lemma from_utf8_None [simp]: "from_utf8 s = None \<longleftrightarrow> \<not> utf8_valid s"
  by (auto simp: from_utf8_def)

section \<open>White space\<close>

definition code_point :: "bytes \<Rightarrow> nat" where
  "code_point c =
     (case map byte_val c of
        [a] \<Rightarrow> a
      | [a, b] \<Rightarrow> (a mod 32) * 64 + b mod 64
      | [a, b, d] \<Rightarrow> ((a mod 16) * 64 + b mod 64) * 64 + d mod 64
      | [a, b, d, e] \<Rightarrow> (((a mod 8) * 64 + b mod 64) * 64 + d mod 64) * 64 + e mod 64
      | _ \<Rightarrow> 0)"

text \<open>The Unicode property \<open>White_Space\<close>, as \<open>char::is_whitespace\<close> tests it.\<close>

definition is_whitespace :: "bytes \<Rightarrow> bool" where
  "is_whitespace c =
     (let p = code_point c in
      c \<noteq> [] \<and>
      (9 \<le> p \<and> p \<le> 13 \<or> p = 32 \<or> p = 133 \<or> p = 160 \<or> p = 5760 \<or> 8192 \<le> p \<and> p \<le> 8202 \<or>
       p = 8232 \<or> p = 8233 \<or> p = 8239 \<or> p = 8287 \<or> p = 12288))"

fun split_ws :: "bytes list \<Rightarrow> bytes list \<Rightarrow> bytes list" where
  "split_ws [] acc = (if acc = [] then [] else [concat (rev acc)])"
| "split_ws (c # cs) acc =
     (if is_whitespace c
      then (if acc = [] then split_ws cs [] else concat (rev acc) # split_ws cs [])
      else split_ws cs (c # acc))"

definition split_whitespace :: "bytes \<Rightarrow> bytes list" where
  "split_whitespace s = split_ws (chars_of s) []"

definition trim_end :: "bytes \<Rightarrow> bytes" where
  "trim_end s = concat (rev (dropWhile is_whitespace (rev (chars_of s))))"

definition trim :: "bytes \<Rightarrow> bytes" where
  "trim s = concat (rev (dropWhile is_whitespace (rev (dropWhile is_whitespace (chars_of s)))))"

lemma trim_end_ascii:
  assumes "\<forall>c \<in> set s. byte_val c \<le> 127"
  shows "trim_end s = rev (dropWhile (\<lambda>c. is_whitespace [c]) (rev s))"
proof -
  have "trim_end s = concat (rev (dropWhile is_whitespace (map (\<lambda>c. [c]) (rev s))))"
    by (simp add: trim_end_def chars_of_def utf8_chars_ascii [OF assms] rev_map)
  also have "\<dots> = concat (map (\<lambda>c. [c]) (rev (dropWhile (\<lambda>c. is_whitespace [c]) (rev s))))"
    by (simp add: dropWhile_map rev_map comp_def)
  finally show ?thesis by simp
qed

lemma concat_rev_dropWhile_prefix:
  "\<exists>t. concat (rev xs) = concat (rev (dropWhile P xs)) @ t"
proof -
  have "concat (rev xs) = concat (rev (dropWhile P xs)) @ concat (rev (takeWhile P xs))"
    by (metis concat_append rev_append takeWhile_dropWhile_id)
  then show ?thesis ..
qed

lemma trim_end_prefix: "utf8_valid s \<Longrightarrow> \<exists>t. s = trim_end s @ t"
  using concat_rev_dropWhile_prefix [of "rev (chars_of s)" is_whitespace]
  by (simp add: trim_end_def chars_of_concat)

section \<open>Splitting, joining, ASCII case\<close>

fun last_segment :: "char \<Rightarrow> bytes \<Rightarrow> bytes \<Rightarrow> bytes" where
  "last_segment d acc [] = acc"
| "last_segment d acc (c # s) = last_segment d (if c = d then [] else acc @ [c]) s"

text \<open>\<open>s.rsplit(d).next()\<close>: the text after the last \<open>d\<close>, all of it if there is none.\<close>

definition rsplit_next :: "char \<Rightarrow> bytes \<Rightarrow> bytes" where
  "rsplit_next d s = last_segment d [] s"

lemma last_segment_acc: "d \<notin> set s \<Longrightarrow> last_segment d acc s = acc @ s"
  by (induction s arbitrary: acc) auto

lemma last_segment_append:
  "last_segment d acc (s @ t) = last_segment d (last_segment d acc s) t"
  by (induction s arbitrary: acc) auto

lemma rsplit_next_absent [simp]: "d \<notin> set s \<Longrightarrow> rsplit_next d s = s"
  by (simp add: rsplit_next_def last_segment_acc)

lemma rsplit_next_sep: "d \<notin> set t \<Longrightarrow> rsplit_next d (s @ d # t) = t"
  by (simp add: rsplit_next_def last_segment_append last_segment_acc)

lemma last_segment_absent: "d \<notin> set acc \<Longrightarrow> d \<notin> set (last_segment d acc s)"
  by (induction s arbitrary: acc) auto

lemma rsplit_next_no_sep: "d \<notin> set (rsplit_next d s)"
  by (simp add: rsplit_next_def last_segment_absent)

fun join :: "bytes \<Rightarrow> bytes list \<Rightarrow> bytes" where
  "join sep [] = []"
| "join sep [x] = x"
| "join sep (x # y # ys) = x @ sep @ join sep (y # ys)"

definition ascii_lower :: "char \<Rightarrow> char" where
  "ascii_lower c = (if 65 \<le> byte_val c \<and> byte_val c \<le> 90 then char_of (byte_val c + 32) else c)"

definition to_ascii_lowercase :: "bytes \<Rightarrow> bytes" where
  "to_ascii_lowercase = map ascii_lower"

definition is_ascii_alphabetic :: "char \<Rightarrow> bool" where
  "is_ascii_alphabetic c =
     (let b = byte_val c in 65 \<le> b \<and> b \<le> 90 \<or> 97 \<le> b \<and> b \<le> 122)"

definition is_ascii_digit :: "char \<Rightarrow> bool" where
  "is_ascii_digit c = (let b = byte_val c in 48 \<le> b \<and> b \<le> 57)"

definition is_ascii_alphanumeric :: "char \<Rightarrow> bool" where
  "is_ascii_alphanumeric c \<longleftrightarrow> is_ascii_alphabetic c \<or> is_ascii_digit c"

definition starts_with :: "bytes \<Rightarrow> bytes \<Rightarrow> bool" where
  "starts_with p s = (take (length p) s = p)"

lemma starts_with_prefix: "starts_with p s \<longleftrightarrow> prefix p s"
  unfolding starts_with_def prefix_def by (metis append_take_drop_id append_eq_conv_conj)

end
