(* ===== verification/Rust_Num.thy ===== *)
theory Rust_Num
  imports Rust_Text
begin

text \<open>
  Numbers as text: the digits Rust's \<open>{}\<close> and \<open>{:x}\<close> print for an unsigned integer, zero
  padding to a minimum width (\<open>{:04}\<close>, \<open>{:032x}\<close>), the signed form \<open>{:+}\<close>, and
  \<open>from_str_radix\<close> with its optional plus sign and its range check. The last part are
  the big-endian bytes of a fixed-width integer and their inverse.
\<close>

section \<open>Digits\<close>

definition digit_char :: "nat \<Rightarrow> char" where
  "digit_char d = (if d < 10 then char_of (48 + d) else char_of (87 + d))"

definition digit_val :: "nat \<Rightarrow> char \<Rightarrow> nat option" where
  "digit_val radix c =
     (let b = byte_val c;
          v = (if 48 \<le> b \<and> b \<le> 57 then b - 48
               else if 97 \<le> b \<and> b \<le> 122 then b - 87
               else if 65 \<le> b \<and> b \<le> 90 then b - 55
               else 99)
      in if v < radix then Some v else None)"

lemma digit_val_char:
  "d < radix \<Longrightarrow> radix \<le> 36 \<Longrightarrow> digit_val radix (digit_char d) = Some d"
  by (auto simp: digit_val_def digit_char_def Let_def)

fun radix_digits :: "nat \<Rightarrow> nat \<Rightarrow> bytes" where
  "radix_digits r n =
     (if r < 2 \<or> n < r then [digit_char n]
      else radix_digits r (n div r) @ [digit_char (n mod r)])"

declare radix_digits.simps [simp del]

definition pad_left :: "nat \<Rightarrow> char \<Rightarrow> bytes \<Rightarrow> bytes" where
  "pad_left w c s = replicate (w - length s) c @ s"

definition dec :: "nat \<Rightarrow> bytes" where
  "dec n = radix_digits 10 n"

definition dec_pad :: "nat \<Rightarrow> nat \<Rightarrow> bytes" where
  "dec_pad w n = pad_left w (CHR ''0'') (dec n)"

definition hex_pad :: "nat \<Rightarrow> nat \<Rightarrow> bytes" where
  "hex_pad w n = pad_left w (CHR ''0'') (radix_digits 16 n)"

text \<open>\<open>{:+}\<close> of a signed integer.\<close>

definition dec_signed :: "int \<Rightarrow> bytes" where
  "dec_signed i = (if i < 0 then ''-'' @ dec (nat (- i)) else ''+'' @ dec (nat i))"

fun digits_val :: "nat \<Rightarrow> nat \<Rightarrow> bytes \<Rightarrow> nat option" where
  "digits_val r acc [] = Some acc"
| "digits_val r acc (c # s) =
     (case digit_val r c of None \<Rightarrow> None | Some d \<Rightarrow> digits_val r (acc * r + d) s)"

text \<open>
  \<open>from_str_radix\<close> for an unsigned type with \<open>bits\<close> bits: a single leading plus is
  accepted, an empty digit string is not, and a value out of range is an error.
\<close>

definition from_str_radix :: "nat \<Rightarrow> nat \<Rightarrow> bytes \<Rightarrow> nat option" where
  "from_str_radix bits r s =
     (let t = (case s of [] \<Rightarrow> [] | c # u \<Rightarrow> if c = CHR ''+'' \<and> u \<noteq> [] then u else s) in
      if t = [] then None
      else case digits_val r 0 t of
             None \<Rightarrow> None
           | Some n \<Rightarrow> if n < 2 ^ bits then Some n else None)"

lemma radix_digits_nonempty [simp]: "radix_digits r n \<noteq> []"
  by (subst radix_digits.simps) simp

lemma digits_val_append:
  "digits_val r acc (s @ t) =
     (case digits_val r acc s of None \<Rightarrow> None | Some a \<Rightarrow> digits_val r a t)"
  by (induction s arbitrary: acc) (auto split: option.splits)

lemma digits_val_replicate_0:
  "2 \<le> r \<Longrightarrow> digits_val r 0 (replicate k (CHR ''0'') @ s) = digits_val r 0 s"
  by (induction k) (simp_all add: digit_val_def)

lemma digits_val_radix:
  "2 \<le> r \<Longrightarrow> r \<le> 36 \<Longrightarrow> digits_val r 0 (radix_digits r n) = Some n"
proof (induction r n rule: radix_digits.induct)
  case (1 r n)
  show ?case
  proof (cases "n < r")
    case True
    with 1 show ?thesis by (subst radix_digits.simps) (simp add: digit_val_char)
  next
    case False
    with 1 have "digits_val r 0 (radix_digits r (n div r)) = Some (n div r)" by simp
    with False 1 show ?thesis
      by (subst radix_digits.simps) (simp add: digits_val_append digit_val_char)
  qed
qed

lemma length_radix_digits:
  "2 \<le> r \<Longrightarrow> n < r ^ k \<Longrightarrow> 0 < k \<Longrightarrow> length (radix_digits r n) \<le> k"
proof (induction k arbitrary: n)
  case 0
  then show ?case by simp
next
  case (Suc k)
  show ?case
  proof (cases "n < r")
    case True
    then show ?thesis by (subst radix_digits.simps) simp
  next
    case False
    with Suc.prems have k: "0 < k" by (cases k) auto
    from Suc.prems have "n div r < r ^ k" by (simp add: less_mult_imp_div_less mult.commute)
    with Suc k False show ?thesis by (subst radix_digits.simps) auto
  qed
qed

lemma digit_char_not_plus: "d < 16 \<Longrightarrow> digit_char d \<noteq> CHR ''+''"
proof
  assume "d < 16" "digit_char d = CHR ''+''"
  then have "digit_val 16 (digit_char d) = digit_val 16 (CHR ''+'')" by simp
  with digit_val_char [OF \<open>d < 16\<close>] show False by (simp add: digit_val_def)
qed

lemma radix_digits_no_plus: "2 \<le> r \<Longrightarrow> r \<le> 16 \<Longrightarrow> CHR ''+'' \<notin> set (radix_digits r n)"
proof (induction r n rule: radix_digits.induct)
  case (1 r n)
  have "n < r \<Longrightarrow> CHR ''+'' \<noteq> digit_char n" "CHR ''+'' \<noteq> digit_char (n mod r)"
    using 1 by (metis digit_char_not_plus order_less_le_trans)
      (metis "1.prems" digit_char_not_plus mod_less_divisor order_less_le_trans zero_less_numeral)
  with 1 show ?case by (subst radix_digits.simps) auto
qed

lemma length_pad_left: "length (pad_left w c s) = max w (length s)"
  by (simp add: pad_left_def)

lemma from_str_radix_hex_pad:
  assumes "n < 2 ^ bits" "0 < w"
  shows "from_str_radix bits 16 (hex_pad w n) = Some n"
proof -
  let ?s = "hex_pad w n"
  have np: "CHR ''+'' \<notin> set ?s"
    using radix_digits_no_plus [of 16 n] by (simp add: hex_pad_def pad_left_def)
  have ne: "?s \<noteq> []" by (simp add: hex_pad_def pad_left_def)
  have "digits_val 16 0 ?s = Some n"
    by (simp add: hex_pad_def pad_left_def digits_val_replicate_0 digits_val_radix)
  with np ne assms show ?thesis
    by (auto simp: from_str_radix_def Let_def split: list.splits)
qed

section \<open>Big-endian bytes\<close>

fun be_bytes :: "nat \<Rightarrow> nat \<Rightarrow> u8 list" where
  "be_bytes 0 n = []"
| "be_bytes (Suc k) n = be_bytes k (n div 256) @ [word_of_nat (n mod 256)]"

definition from_be :: "u8 list \<Rightarrow> nat" where
  "from_be bs = foldl (\<lambda>acc b. acc * 256 + unat b) 0 bs"

definition le_bytes :: "nat \<Rightarrow> nat \<Rightarrow> u8 list" where
  "le_bytes k n = rev (be_bytes k n)"

definition from_le :: "u8 list \<Rightarrow> nat" where
  "from_le bs = from_be (rev bs)"

lemma length_be_bytes [simp]: "length (be_bytes k n) = k"
  by (induction k arbitrary: n) auto

lemma length_le_bytes [simp]: "length (le_bytes k n) = k"
  by (simp add: le_bytes_def)

lemma unat_byte_mod: "unat (word_of_nat (n mod 256) :: u8) = n mod 256"
  by (simp add: unat_of_nat)

lemma from_be_append_one: "from_be (bs @ [b]) = from_be bs * 256 + unat b"
  by (simp add: from_be_def)

lemma from_be_be_bytes: "from_be (be_bytes k n) = n mod 256 ^ k"
proof (induction k arbitrary: n)
  case 0
  then show ?case by (simp add: from_be_def)
next
  case (Suc k)
  have "n mod 256 ^ Suc k = (n div 256) mod 256 ^ k * 256 + n mod 256"
    by (simp add: mod_mult2_eq mult.commute add.commute)
  with Suc show ?case by (simp add: from_be_append_one unat_byte_mod)
qed

lemma be_bytes_inject:
  "m < 256 ^ k \<Longrightarrow> n < 256 ^ k \<Longrightarrow> be_bytes k m = be_bytes k n \<longleftrightarrow> m = n"
  by (metis from_be_be_bytes mod_less)

lemma from_le_le_bytes: "from_le (le_bytes k n) = n mod 256 ^ k"
  by (simp add: from_le_def le_bytes_def from_be_be_bytes)

lemma from_be_less: "from_be bs < 256 ^ length bs"
proof (induction bs rule: rev_induct)
  case Nil
  then show ?case by (simp add: from_be_def)
next
  case (snoc b bs)
  have "unat b < 256" using unat_lt_max [of b] by simp
  with snoc show ?case by (simp add: from_be_append_one)
qed

lemma be_bytes_from_be: "length bs = k \<Longrightarrow> be_bytes k (from_be bs) = bs"
proof (induction bs arbitrary: k rule: rev_induct)
  case Nil
  then show ?case by simp
next
  case (snoc b bs)
  have b: "unat b < 256" using unat_lt_max [of b] by simp
  obtain j where k: "k = Suc j" "length bs = j" using snoc.prems by (cases k) auto
  have "(from_be bs * 256 + unat b) div 256 = from_be bs"
    and "(from_be bs * 256 + unat b) mod 256 = unat b"
    using b by simp_all
  with k snoc.IH show ?case by (simp add: from_be_append_one)
qed

end
