(* ===== verification/Ids.thy ===== *)
theory Ids
  imports Rust_Num
begin

text \<open>
  \<open>llm386-core/src/ids.rs\<close>: block, session and call identifiers as 128-bit words, the
  content hash as a 256-bit word (its 32 bytes read big-endian), time stamps, and token
  counts with their saturating arithmetic. The lemmas give the numeric layout of an
  identifier, its chronological order, and what its textual form accepts.
\<close>

unbundle bit_operations_syntax

type_synonym block_id = u128
type_synonym session_id = u128
type_synonym call_id = u128
type_synonym content_hash = "256 word"
type_synonym timestamp = u64
type_synonym token_count = u32

section \<open>Block identifiers\<close>

definition from_parts :: "u64 \<Rightarrow> u128 \<Rightarrow> block_id" where
  "from_parts timestamp_ms random_bits =
     (let ts_low_48 = ucast (timestamp_ms AND (push_bit 48 1 - 1)) :: u128;
          rnd_low_80 = random_bits AND (push_bit 80 1 - 1)
      in push_bit 80 ts_low_48 OR rnd_low_80)"

definition u64_try_from :: "u128 \<Rightarrow> u64 option" where
  "u64_try_from w = (if unat w < 2 ^ 64 then Some (ucast w) else None)"

text \<open>\<open>None\<close> is the panic of the \<open>expect\<close>.\<close>

definition timestamp_ms :: "block_id \<Rightarrow> u64 option" where
  "timestamp_ms b = u64_try_from (drop_bit 80 b AND (push_bit 48 1 - 1))"

datatype parse_block_id_error = ParseBlockIdError bytes

definition parse_block_id_error_display :: "parse_block_id_error \<Rightarrow> bytes" where
  "parse_block_id_error_display e =
     (case e of ParseBlockIdError s \<Rightarrow>
        ''invalid BlockId `'' @ s @ ''`: expected 32 hex characters'')"

definition block_id_display :: "block_id \<Rightarrow> bytes" where
  "block_id_display b = hex_pad 32 (unat b)"

definition session_id_display :: "session_id \<Rightarrow> bytes" where
  "session_id_display s = hex_pad 32 (unat s)"

definition call_id_display :: "call_id \<Rightarrow> bytes" where
  "call_id_display c = hex_pad 32 (unat c)"

text \<open>The debug forms; the 64 digits of a hash are those of its bytes in order.\<close>

definition block_id_debug :: "block_id \<Rightarrow> bytes" where
  "block_id_debug b = ''BlockId('' @ hex_pad 32 (unat b) @ '')''"

definition session_id_debug :: "session_id \<Rightarrow> bytes" where
  "session_id_debug s = ''SessionId('' @ hex_pad 32 (unat s) @ '')''"

definition call_id_debug :: "call_id \<Rightarrow> bytes" where
  "call_id_debug c = ''CallId('' @ hex_pad 32 (unat c) @ '')''"

definition content_hash_debug :: "content_hash \<Rightarrow> bytes" where
  "content_hash_debug h = ''ContentHash('' @ hex_pad 64 (unat h) @ '')''"

definition block_id_from_str :: "bytes \<Rightarrow> parse_block_id_error + block_id" where
  "block_id_from_str s =
     (if length s \<noteq> 32 then Inl (ParseBlockIdError s)
      else case from_str_radix 128 16 s of
             None \<Rightarrow> Inl (ParseBlockIdError s)
           | Some n \<Rightarrow> Inr (word_of_nat n))"

section \<open>Token counts\<close>

definition token_count_zero :: token_count where
  "token_count_zero = 0"

definition token_count_display :: "token_count \<Rightarrow> bytes" where
  "token_count_display n = dec (unat n)"

definition token_saturating_add :: "token_count \<Rightarrow> token_count \<Rightarrow> token_count" where
  "token_saturating_add a b = sat_add a b"

definition token_saturating_sub :: "token_count \<Rightarrow> token_count \<Rightarrow> token_count" where
  "token_saturating_sub a b = sat_sub a b"

lemma unat_token_saturating_add [unat_simps]:
  "unat (token_saturating_add a b) = min (unat a + unat b) (2 ^ 32 - 1)"
  by (simp add: token_saturating_add_def unat_simps)

lemma unat_token_saturating_sub [unat_simps]:
  "unat (token_saturating_sub a b) = unat a - unat b"
  by (simp add: token_saturating_sub_def unat_simps)

text \<open>Below a bound that fits, a saturating sum is the exact sum.\<close>

lemma token_add_exact:
  "token_saturating_add a b \<le> c \<Longrightarrow> c < - 1 \<Longrightarrow> unat (token_saturating_add a b) = unat a + unat b"
  by (simp add: word_le_nat_alt word_less_nat_alt unat_simps unat_max_word)

section \<open>The layout of an identifier\<close>

lemma and_mask_take: "w AND (push_bit n 1 - 1) = take_bit n (w :: 'a::len word)"
proof -
  have "push_bit n 1 - 1 = (mask n :: 'a word)" by (simp add: mask_eq_exp_minus_1)
  then show ?thesis by (simp only: take_bit_eq_mask)
qed

lemma uint_from_parts:
  "uint (from_parts t r) = uint t mod 2 ^ 48 * 2 ^ 80 + uint r mod 2 ^ 80"
proof -
  have "from_parts t r = push_bit 80 (ucast (take_bit 48 t)) OR take_bit 80 r"
    by (simp only: from_parts_def Let_def and_mask_take)
  then have "uint (from_parts t r) = concat_bit 80 (uint r) (take_bit 48 (uint t))"
    by (simp add: unsigned_or_eq unsigned_push_bit_eq unsigned_ucast_eq unsigned_take_bit_eq
        take_bit_push_bit concat_bit_def or.commute)
  also have "\<dots> = uint t mod 2 ^ 48 * 2 ^ 80 + uint r mod 2 ^ 80"
    by (simp add: concat_bit_eq take_bit_eq_mod push_bit_eq_mult)
  finally show ?thesis .
qed

lemma unat_from_parts:
  "unat (from_parts t r) = unat t mod 2 ^ 48 * 2 ^ 80 + unat r mod 2 ^ 80"
proof -
  have "int (unat (from_parts t r)) = int (unat t mod 2 ^ 48 * 2 ^ 80 + unat r mod 2 ^ 80)"
    by (simp add: uint_from_parts of_nat_mod)
  then show ?thesis by (simp only: of_nat_eq_iff)
qed

lemma timestamp_bits: "drop_bit 80 b AND (push_bit 48 1 - 1) = drop_bit 80 (b :: block_id)"
proof -
  have "drop_bit 80 b = take_bit 48 (drop_bit 80 b)"
    by (rule bit_word_eqI) (auto simp: bit_take_bit_iff bit_drop_bit_eq dest: bit_imp_le_length)
  then show ?thesis by (simp only: and_mask_take)
qed

lemma unat_drop_80: "unat (drop_bit 80 (b :: block_id)) = unat b div 2 ^ 80"
proof -
  have "unat (drop_bit 80 b) = drop_bit 80 (take_bit 128 (unat b))"
    using unsigned_drop_bit_eq [of 80 b, where ?'a = nat] by simp
  also have "take_bit 128 (unat b) = unat b"
    using unat_lt_max [of b] by (simp add: take_bit_nat_eq_self)
  finally show ?thesis by (simp only: drop_bit_eq_div)
qed

lemma unat_drop_80_less: "unat (drop_bit 80 (b :: block_id)) < 2 ^ 48"
proof -
  have "unat b < 2 ^ 48 * 2 ^ 80" using unat_lt_max [of b] by simp
  then show ?thesis unfolding unat_drop_80 by (rule less_mult_imp_div_less)
qed

definition ts_of :: "block_id \<Rightarrow> u64" where
  "ts_of b = ucast (drop_bit 80 b)"

lemma timestamp_ms_Some: "timestamp_ms b = Some (ts_of b)"
proof -
  have "unat (drop_bit 80 b) < 2 ^ 64" by (rule less_trans [OF unat_drop_80_less]) simp
  then show ?thesis by (simp only: timestamp_ms_def timestamp_bits u64_try_from_def ts_of_def if_True)
qed

lemma unat_ts_of: "unat (ts_of b) = unat b div 2 ^ 80"
proof -
  have "unat (ts_of b) = unat (drop_bit 80 b) mod 2 ^ 64"
    by (simp only: ts_of_def unsigned_ucast_eq take_bit_eq_mod) simp
  also have "\<dots> = unat (drop_bit 80 b)"
    using unat_drop_80_less [of b] by simp
  finally show ?thesis by (simp add: unat_drop_80)
qed

lemma ts_of_mono: "a \<le> b \<Longrightarrow> ts_of a \<le> ts_of b"
  by (simp add: word_le_nat_alt unat_ts_of div_le_mono)

section \<open>The textual form\<close>

lemma length_block_id_display: "length (block_id_display b) = 32"
proof -
  have "unat b < 16 ^ 32" using unat_lt_max [of b] by simp
  then have "length (radix_digits 16 (unat b)) \<le> 32" by (intro length_radix_digits) simp_all
  then show ?thesis by (simp add: block_id_display_def hex_pad_def length_pad_left)
qed

lemma block_id_display_inject: "block_id_display a = block_id_display b \<longleftrightarrow> a = b"
proof
  assume "block_id_display a = block_id_display b"
  then have "from_str_radix 128 16 (hex_pad 32 (unat a)) = from_str_radix 128 16 (hex_pad 32 (unat b))"
    by (simp add: block_id_display_def)
  then show "a = b"
    using unat_lt_max [of a] unat_lt_max [of b] by (simp add: from_str_radix_hex_pad unsigned_word_eqI)
qed simp

text \<open>The 32-digit hexadecimal form of a block id parses back to the same id.\<close>

lemma block_id_roundtrip: "block_id_from_str (block_id_display b) = Inr b"
proof -
  have "from_str_radix 128 16 (block_id_display b) = Some (unat b)"
    using unat_lt_max [of b] by (simp add: block_id_display_def from_str_radix_hex_pad)
  then show ?thesis by (simp add: block_id_from_str_def length_block_id_display)
qed

definition hex_digit :: "char \<Rightarrow> bool" where
  "hex_digit c \<longleftrightarrow> digit_val 16 c \<noteq> None"

lemma digits_val_Some_iff: "(\<exists>n. digits_val r acc s = Some n) \<longleftrightarrow> (\<forall>c \<in> set s. digit_val r c \<noteq> None)"
  by (induction s arbitrary: acc) (auto split: option.splits)

lemma digit_val_less: "digit_val r c = Some d \<Longrightarrow> d < r"
  by (auto simp: digit_val_def Let_def split: if_splits)

lemma digits_val_less: "digits_val r acc s = Some n \<Longrightarrow> n < (acc + 1) * r ^ length s"
proof (induction s arbitrary: acc)
  case Nil
  then show ?case by simp
next
  case (Cons c s)
  then obtain d where d: "digit_val r c = Some d" "digits_val r (acc * r + d) s = Some n"
    by (auto split: option.splits)
  have "n < (acc * r + d + 1) * r ^ length s" using d(2) by (rule Cons.IH)
  also have "\<dots> \<le> ((acc + 1) * r) * r ^ length s"
    using digit_val_less [OF d(1)] by (intro mult_right_mono) (simp_all add: algebra_simps)
  finally show ?case by (simp add: algebra_simps)
qed

lemma digits_val_hex_bound:
  assumes "digits_val 16 0 t = Some n" "length t \<le> 32"
  shows "n < 2 ^ 128"
proof -
  have "n < 16 ^ length t" using digits_val_less [OF assms(1)] by simp
  also have "(16::nat) ^ length t \<le> 16 ^ 32" using assms(2) by (intro power_increasing) simp_all
  finally show ?thesis by simp
qed

lemma hex_digit_plus: "\<not> hex_digit (CHR ''+'')"
  by (simp add: hex_digit_def digit_val_def)

text \<open>
  Which strings parse as a block id: exactly those of 32 bytes that are all hexadecimal
  digits of either case, or a plus sign followed by 31 of them.
\<close>

lemma block_id_from_str_accepts:
  "(\<exists>b. block_id_from_str s = Inr b) \<longleftrightarrow>
     length s = 32 \<and> (list_all hex_digit s \<or> hd s = CHR ''+'' \<and> list_all hex_digit (tl s))"
proof (cases "length s = 32")
  case False
  then show ?thesis by (simp add: block_id_from_str_def)
next
  case True
  then obtain c u where s: "s = c # u" "u \<noteq> []" by (cases s) (auto, cases "tl s", auto)
  define t where "t = (if c = CHR ''+'' then u else s)"
  have t: "t \<noteq> []" "length t \<le> 32" using True s by (auto simp: t_def)
  have "from_str_radix 128 16 s = (case digits_val 16 0 t of None \<Rightarrow> None | Some n \<Rightarrow> if n < 2 ^ 128 then Some n else None)"
    using s by (simp add: from_str_radix_def t_def Let_def)
  also have "\<dots> = digits_val 16 0 t"
    using digits_val_hex_bound [OF _ t(2)] by (auto split: option.splits)
  finally have "(\<exists>b. block_id_from_str s = Inr b) \<longleftrightarrow> (\<exists>n. digits_val 16 0 t = Some n)"
    using True by (auto simp: block_id_from_str_def split: option.splits)
  also have "\<dots> \<longleftrightarrow> list_all hex_digit t"
    by (simp only: digits_val_Some_iff) (simp add: hex_digit_def list_all_iff)
  also have "\<dots> \<longleftrightarrow> list_all hex_digit s \<or> hd s = CHR ''+'' \<and> list_all hex_digit (tl s)"
    using s hex_digit_plus by (auto simp: t_def)
  finally show ?thesis using True by simp
qed

text \<open>
  An identifier keeps the low 48 bits of its time stamp, which \<open>timestamp_ms\<close> returns
  without panicking, and identifiers made at a later (48-bit) time compare greater whatever
  their random bits.
\<close>

lemma from_parts_chronological:
  "timestamp_ms (from_parts t r) = Some (take_bit 48 t) \<and>
   (take_bit 48 t < take_bit 48 t' \<longrightarrow> from_parts t r < from_parts t' r')"
proof
  have tb: "unat (take_bit 48 x) = unat x mod 2 ^ 48" for x :: u64
    by (simp only: unsigned_take_bit_eq) (simp only: take_bit_eq_mod)
  have "unat (ts_of (from_parts t r)) = unat (take_bit 48 t)"
    by (simp add: unat_ts_of unat_from_parts tb)
  then show "timestamp_ms (from_parts t r) = Some (take_bit 48 t)"
    by (simp add: timestamp_ms_Some unsigned_word_eqI)
  show "take_bit 48 t < take_bit 48 t' \<longrightarrow> from_parts t r < from_parts t' r'"
  proof
    assume "take_bit 48 t < take_bit 48 t'"
    then have "unat t mod 2 ^ 48 + 1 \<le> unat t' mod 2 ^ 48"
      by (simp add: word_less_nat_alt tb)
    then have "(unat t mod 2 ^ 48 + 1) * 2 ^ 80 \<le> unat t' mod 2 ^ 48 * 2 ^ 80"
      by (rule mult_right_mono) simp
    moreover have "unat r mod 2 ^ 80 < 2 ^ 80" by simp
    ultimately have "unat (from_parts t r) < unat (from_parts t' r')"
      unfolding unat_from_parts by (simp only: distrib_right)
    then show "from_parts t r < from_parts t' r'" by (simp add: word_less_nat_alt)
  qed
qed

lemma from_parts_chronological_witness:
  "(1000 :: u64) < 2000 \<and> from_parts 1000 (- 1) < from_parts 2000 0"
  using from_parts_chronological [of 1000 "- 1" 2000 0] by (simp add: take_bit_eq_mod)

end
