(* ===== verification/Model.thy ===== *)
theory Model
  imports Ids Rust_Text
begin

text \<open>
  \<open>llm386-core/src/model.rs\<close>: model profiles, their input budget, and the registry that
  resolves any caller-supplied model name: exact match, longest family prefix, default.
\<close>

type_synonym tokenizer_id = bytes

record model_profile =
  mp_name :: bytes
  mp_max_context_tokens :: u32
  mp_reserved_output_tokens :: u32
  mp_safety_margin_tokens :: u32
  mp_tokenizer :: tokenizer_id
  mp_supports_system_role :: bool
  mp_supports_tools :: bool
  mp_family :: "bytes option"

definition input_budget :: "model_profile \<Rightarrow> token_count" where
  "input_budget p =
     sat_sub (sat_sub (mp_max_context_tokens p) (mp_reserved_output_tokens p))
       (mp_safety_margin_tokens p)"

datatype resolution = Exact | FamilyFallback | DefaultFallback

text \<open>
  The registry: profiles in registration order, the name index into them, the default name,
  and the inputs that have already been warned about.
\<close>

record model_registry =
  reg_profiles :: "model_profile list"
  reg_by_name :: "bytes \<rightharpoonup> nat"
  reg_default_name :: "bytes option"
  reg_warned :: "bytes list"

definition registry_new :: model_registry where
  "registry_new =
     \<lparr>reg_profiles = [], reg_by_name = Map.empty, reg_default_name = None, reg_warned = []\<rparr>"

definition register :: "model_profile \<Rightarrow> model_registry \<Rightarrow> model_registry" where
  "register p r =
     (let idx = length (reg_profiles r)
      in r\<lparr>reg_by_name := (reg_by_name r)(mp_name p \<mapsto> idx), reg_profiles := reg_profiles r @ [p]\<rparr>)"

definition set_default :: "bytes \<Rightarrow> model_registry \<Rightarrow> model_registry" where
  "set_default n r = r\<lparr>reg_default_name := Some n\<rparr>"

definition registry_get :: "model_registry \<Rightarrow> bytes \<Rightarrow> model_profile option" where
  "registry_get r n = map_option (\<lambda>i. reg_profiles r ! i) (reg_by_name r n)"

definition registry_names :: "model_registry \<Rightarrow> bytes list" where
  "registry_names r = map mp_name (reg_profiles r)"

definition registry_len :: "model_registry \<Rightarrow> nat" where
  "registry_len r = length (reg_profiles r)"

definition registry_is_empty :: "model_registry \<Rightarrow> bool" where
  "registry_is_empty r \<longleftrightarrow> reg_profiles r = []"

definition strip_provider_prefix :: "bytes \<Rightarrow> bytes" where
  "strip_provider_prefix input = rsplit_next (CHR ''/'') input"

fun family_scan ::
    "bytes \<Rightarrow> nat \<Rightarrow> model_profile list \<Rightarrow> (nat \<times> nat) option \<Rightarrow> (nat \<times> nat) option" where
  "family_scan name idx [] best = best"
| "family_scan name idx (p # ps) best =
     family_scan name (Suc idx) ps
       (case mp_family p of
          None \<Rightarrow> best
        | Some family \<Rightarrow>
            if family = [] \<or> \<not> starts_with family name then best
            else (case best of
                    Some (best_len, i) \<Rightarrow>
                      if length family < best_len then best else Some (length family, idx)
                  | None \<Rightarrow> Some (length family, idx)))"

definition family_match :: "model_registry \<Rightarrow> bytes \<Rightarrow> model_profile option" where
  "family_match r name =
     map_option (\<lambda>(l, idx). reg_profiles r ! idx) (family_scan name 0 (reg_profiles r) None)"

definition default_profile :: "model_registry \<Rightarrow> model_profile option" where
  "default_profile r =
     (case Option.bind (reg_default_name r) (registry_get r) of
        Some p \<Rightarrow> Some p
      | None \<Rightarrow> (case reg_profiles r of [] \<Rightarrow> None | p # ps \<Rightarrow> Some p))"

text \<open>
  The warning is logged only the first time an input is seen. The result has the flag that
  says whether it was logged.
\<close>

definition warn_once :: "bytes \<Rightarrow> model_registry \<Rightarrow> bool \<times> model_registry" where
  "warn_once input r =
     (if input \<in> set (reg_warned r) then (False, r)
      else (True, r\<lparr>reg_warned := input # reg_warned r\<rparr>))"

text \<open>\<open>None\<close> is the panic of the \<open>expect\<close>.\<close>

definition resolve_with_outcome ::
    "bytes \<Rightarrow> model_registry \<Rightarrow> ((resolution \<times> model_profile) \<times> model_registry) option" where
  "resolve_with_outcome input r =
     (let normalized = strip_provider_prefix input in
      case registry_get r normalized of
        Some p \<Rightarrow> Some ((Exact, p), r)
      | None \<Rightarrow>
          (case family_match r normalized of
             Some p \<Rightarrow> Some ((FamilyFallback, p), snd (warn_once input r))
           | None \<Rightarrow>
               (case default_profile r of
                  None \<Rightarrow> None
                | Some d \<Rightarrow> Some ((DefaultFallback, d), snd (warn_once input r)))))"

definition resolve :: "bytes \<Rightarrow> model_registry \<Rightarrow> (model_profile \<times> model_registry) option" where
  "resolve input r = map_option (\<lambda>((_, p), r'). (p, r')) (resolve_with_outcome input r)"

record models_file =
  mf_default :: "bytes option"
  mf_models :: "model_profile list"

definition registry_of_file :: "models_file \<Rightarrow> model_registry" where
  "registry_of_file file =
     (let reg = fold register (mf_models file) registry_new
      in case mf_default file of Some n \<Rightarrow> set_default n reg | None \<Rightarrow> reg)"

section \<open>The registry invariant\<close>

text \<open>The name index points at the last profile registered under each name.\<close>

definition last_named :: "model_profile list \<Rightarrow> bytes \<Rightarrow> nat \<Rightarrow> bool" where
  "last_named ps n i \<longleftrightarrow> i < length ps \<and> mp_name (ps ! i) = n \<and> (\<forall>j<length ps. i < j \<longrightarrow> mp_name (ps ! j) \<noteq> n)"

definition registry_wf :: "model_registry \<Rightarrow> bool" where
  "registry_wf r \<longleftrightarrow>
     (\<forall>n i. reg_by_name r n = Some i \<longrightarrow> last_named (reg_profiles r) n i) \<and>
     (\<forall>p\<in>set (reg_profiles r). reg_by_name r (mp_name p) \<noteq> None)"

lemma registry_wf_new: "registry_wf registry_new"
  by (simp add: registry_wf_def registry_new_def)

lemma last_named_snoc:
  "last_named (ps @ [p]) n i \<longleftrightarrow>
     (if mp_name p = n then i = length ps else last_named ps n i)"
  by (auto simp: last_named_def nth_append less_Suc_eq)

lemma registry_wf_register: "registry_wf r \<Longrightarrow> registry_wf (register p r)"
  unfolding registry_wf_def
  by (auto simp: register_def Let_def last_named_snoc)

lemma registry_wf_set_default: "registry_wf r \<Longrightarrow> registry_wf (set_default n r)"
  by (simp add: registry_wf_def set_default_def)

lemma warn_once_fields [simp]:
  "reg_profiles (snd (warn_once i r)) = reg_profiles r"
  "reg_by_name (snd (warn_once i r)) = reg_by_name r"
  "reg_default_name (snd (warn_once i r)) = reg_default_name r"
  by (simp_all add: warn_once_def)

lemma resolve_fields:
  assumes "resolve_with_outcome input r = Some (op, r')"
  shows "reg_profiles r' = reg_profiles r \<and> reg_by_name r' = reg_by_name r \<and> reg_default_name r' = reg_default_name r"
  using assms by (auto simp: resolve_with_outcome_def Let_def split: option.splits)

text \<open>The registries a program can build.\<close>

inductive registry_reachable :: "model_registry \<Rightarrow> bool" where
  new: "registry_reachable registry_new"
| register: "registry_reachable r \<Longrightarrow> registry_reachable (register p r)"
| set_default: "registry_reachable r \<Longrightarrow> registry_reachable (set_default n r)"
| resolve: "registry_reachable r \<Longrightarrow> resolve_with_outcome i r = Some (op, r') \<Longrightarrow> registry_reachable r'"

lemma registry_reachable_wf: "registry_reachable r \<Longrightarrow> registry_wf r"
proof (induction rule: registry_reachable.induct)
  case (resolve r i op r')
  then show ?case using resolve_fields [of i r op r'] by (simp add: registry_wf_def)
qed (simp_all add: registry_wf_new registry_wf_register registry_wf_set_default)

lemma last_named_unique: "last_named ps n i \<Longrightarrow> last_named ps n j \<Longrightarrow> i = j"
  by (metis last_named_def linorder_neqE_nat)

lemma registry_get_Some:
  assumes "registry_wf r"
  shows "registry_get r n = Some p \<longleftrightarrow> (\<exists>i. last_named (reg_profiles r) n i \<and> reg_profiles r ! i = p)"
proof (cases "reg_by_name r n")
  case None
  then have "\<not> last_named (reg_profiles r) n i" for i
    using assms None unfolding registry_wf_def last_named_def by (metis nth_mem)
  with None show ?thesis by (simp add: registry_get_def)
next
  case (Some i)
  then have "last_named (reg_profiles r) n i" using assms by (simp add: registry_wf_def)
  with Some show ?thesis by (auto simp: registry_get_def dest: last_named_unique)
qed

lemma registry_get_None:
  assumes "registry_wf r"
  shows "registry_get r n = None \<longleftrightarrow> n \<notin> set (registry_names r)"
proof (cases "reg_by_name r n")
  case None
  with assms show ?thesis by (auto simp: registry_wf_def registry_get_def registry_names_def)
next
  case (Some i)
  then have "last_named (reg_profiles r) n i" using assms by (simp add: registry_wf_def)
  with Some show ?thesis by (auto simp: registry_get_def registry_names_def last_named_def)
qed

section \<open>The family scan\<close>

text \<open>The length of the family of profile \<open>i\<close> when it is a non-empty prefix of the name.\<close>

definition family_len :: "bytes \<Rightarrow> model_profile \<Rightarrow> nat option" where
  "family_len name p =
     (case mp_family p of
        None \<Rightarrow> None
      | Some f \<Rightarrow> if f \<noteq> [] \<and> prefix f name then Some (length f) else None)"

definition best_family :: "bytes \<Rightarrow> model_profile list \<Rightarrow> (nat \<times> nat) option \<Rightarrow> bool" where
  "best_family name ps b \<longleftrightarrow>
     (case b of
        None \<Rightarrow> \<forall>p\<in>set ps. family_len name p = None
      | Some (l, i) \<Rightarrow>
          i < length ps \<and> family_len name (ps ! i) = Some l \<and>
          (\<forall>j<length ps. \<forall>m. family_len name (ps ! j) = Some m \<longrightarrow> m \<le> l \<and> (i < j \<longrightarrow> m < l)))"

lemma best_family_snoc:
  "best_family name (ps @ [p])
     (case family_len name p of
        None \<Rightarrow> b
      | Some m \<Rightarrow> (case b of
                     Some (l, i) \<Rightarrow> if m < l then b else Some (m, length ps)
                   | None \<Rightarrow> Some (m, length ps)))"
  if "best_family name ps b"
  using that
  by (cases "family_len name p"; cases b)
    (fastforce simp: best_family_def nth_append less_Suc_eq all_conj_distrib split: if_splits)+

lemma family_scan_best:
  "best_family name qs b \<Longrightarrow> best_family name (qs @ ps) (family_scan name (length qs) ps b)"
proof (induction ps arbitrary: qs b)
  case Nil
  then show ?case by simp
next
  case (Cons p ps)
  let ?b = "case family_len name p of
        None \<Rightarrow> b
      | Some m \<Rightarrow> (case b of
                     Some (l, i) \<Rightarrow> if m < l then b else Some (m, length qs)
                   | None \<Rightarrow> Some (m, length qs))"
  have "family_scan name (length qs) (p # ps) b = family_scan name (length (qs @ [p])) ps ?b"
    by (auto simp: family_len_def starts_with_prefix split: option.splits)
  with Cons.IH [OF best_family_snoc [OF Cons.prems, of p]] show ?case by simp
qed

lemma family_scan_spec: "best_family name ps (family_scan name 0 ps None)"
  using family_scan_best [of name "[]" None ps] by (simp add: best_family_def)

section \<open>Resolution\<close>

lemma unat_input_budget [unat_simps]:
  "unat (input_budget p) =
     unat (mp_max_context_tokens p) - unat (mp_reserved_output_tokens p) - unat (mp_safety_margin_tokens p)"
  by (simp add: input_budget_def unat_simps)

lemma family_match_Some:
  assumes "family_match r name = Some p"
  shows "\<exists>i l. i < length (reg_profiles r) \<and> reg_profiles r ! i = p \<and> family_len name p = Some l \<and>
           (\<forall>j<length (reg_profiles r). \<forall>m. family_len name (reg_profiles r ! j) = Some m \<longrightarrow>
              m \<le> l \<and> (i < j \<longrightarrow> m < l))"
proof -
  from assms obtain l i where b: "family_scan name 0 (reg_profiles r) None = Some (l, i)" "p = reg_profiles r ! i"
    by (auto simp: family_match_def)
  with family_scan_spec [of name "reg_profiles r"] show ?thesis by (auto simp: best_family_def)
qed

lemma family_match_None:
  "family_match r name = None \<longleftrightarrow> (\<forall>p\<in>set (reg_profiles r). family_len name p = None)"
  using family_scan_spec [of name "reg_profiles r"]
  by (fastforce simp: family_match_def best_family_def split: option.splits prod.splits dest: nth_mem)

lemma default_profile_None: "registry_wf r \<Longrightarrow> default_profile r = None \<longleftrightarrow> reg_profiles r = []"
  by (auto simp: default_profile_def registry_get_None registry_names_def bind_eq_None_conv
      split: option.splits list.splits)

text \<open>
  A built registry resolves every input, unless it has no profile at all: then resolving
  panics, whether or not a default name has been set.
\<close>

lemma resolve_total:
  assumes "registry_reachable r"
  shows "(\<exists>p r'. resolve input r = Some (p, r')) \<longleftrightarrow> reg_profiles r \<noteq> []"
proof -
  have wf: "registry_wf r" using assms by (rule registry_reachable_wf)
  have "resolve_with_outcome input r = None \<longleftrightarrow> reg_profiles r = []"
    using registry_get_None [OF wf, of "strip_provider_prefix input"]
      family_match_None [of r "strip_provider_prefix input"] default_profile_None [OF wf]
    by (auto simp: resolve_with_outcome_def Let_def registry_names_def split: option.splits)
  then show ?thesis by (cases "resolve_with_outcome input r") (auto simp: resolve_def)
qed

text \<open>
  C39: how a name resolves. With the provider segments stripped, the last profile registered
  under exactly that name; if there is none, a profile whose non-empty family is a longest
  prefix of the name, the last registered of those; if no family matches, the last profile
  registered under the default name, or else the first profile of the registry.
\<close>

theorem resolve_outcome_spec:
  assumes "registry_reachable r"
    and "resolve_with_outcome input r = Some ((oc, p), r')"
  shows "let name = strip_provider_prefix input; ps = reg_profiles r in
         (case oc of
            Exact \<Rightarrow> r' = r \<and> (\<exists>i. last_named ps name i \<and> p = ps ! i)
          | FamilyFallback \<Rightarrow>
              name \<notin> set (registry_names r) \<and>
              (\<exists>i<length ps. \<exists>l. p = ps ! i \<and> family_len name p = Some l \<and>
                (\<forall>j<length ps. \<forall>m. family_len name (ps ! j) = Some m \<longrightarrow> m \<le> l \<and> (i < j \<longrightarrow> m < l)))
          | DefaultFallback \<Rightarrow>
              name \<notin> set (registry_names r) \<and> (\<forall>q\<in>set ps. family_len name q = None) \<and>
              (case reg_default_name r of
                 None \<Rightarrow> p = hd ps
               | Some d \<Rightarrow> if d \<in> set (registry_names r) then \<exists>i. last_named ps d i \<and> p = ps ! i
                          else p = hd ps))"
proof -
  let ?n = "strip_provider_prefix input"
  have wf: "registry_wf r" using assms(1) by (rule registry_reachable_wf)
  show ?thesis
  proof (cases "registry_get r ?n")
    case (Some q)
    with assms(2) have "oc = Exact" "p = q" "r' = r" by (auto simp: resolve_with_outcome_def)
    with Some show ?thesis by (auto simp: Let_def registry_get_Some [OF wf])
  next
    case None
    then have nn: "?n \<notin> set (registry_names r)" using registry_get_None [OF wf] by simp
    show ?thesis
    proof (cases "family_match r ?n")
      case (Some q)
      with assms(2) None have "oc = FamilyFallback" "p = q" by (auto simp: resolve_with_outcome_def)
      with nn family_match_Some [OF Some] show ?thesis by (auto simp: Let_def)
    next
      case None': None
      with assms(2) None have d: "oc = DefaultFallback" "default_profile r = Some p"
        by (auto simp: resolve_with_outcome_def split: option.splits)
      have "case reg_default_name r of
              None \<Rightarrow> p = hd (reg_profiles r)
            | Some d \<Rightarrow> if d \<in> set (registry_names r) then \<exists>i. last_named (reg_profiles r) d i \<and> p = reg_profiles r ! i
                       else p = hd (reg_profiles r)"
      proof (cases "reg_default_name r")
        case None
        with d(2) show ?thesis by (auto simp: default_profile_def split: list.splits)
      next
        case (Some n)
        show ?thesis
        proof (cases "registry_get r n")
          case None
          with Some d(2) registry_get_None [OF wf, of n] show ?thesis
            by (auto simp: default_profile_def split: list.splits)
        next
          case (Some q)
          with \<open>reg_default_name r = Some n\<close> d(2) registry_get_None [OF wf, of n] registry_get_Some [OF wf, of n q]
          show ?thesis by (auto simp: default_profile_def)
        qed
      qed
      with nn None' d(1) show ?thesis by (simp add: Let_def family_match_None)
    qed
  qed
qed

definition demo_profile :: "bytes \<Rightarrow> bytes option \<Rightarrow> u32 \<Rightarrow> model_profile" where
  "demo_profile n f k =
     \<lparr>mp_name = n, mp_max_context_tokens = k, mp_reserved_output_tokens = 100,
      mp_safety_margin_tokens = 0, mp_tokenizer = ''cl100k_base'', mp_supports_system_role = True,
      mp_supports_tools = True, mp_family = f\<rparr>"

definition demo_registry :: model_registry where
  "demo_registry =
     set_default ''gpt-4o''
       (register (demo_profile ''gpt-4.1'' (Some ''gpt-4.1'') 3000)
         (register (demo_profile ''gpt-4o'' (Some ''gpt-4'') 2000) registry_new))"

lemma demo_registry_reachable: "registry_reachable demo_registry"
  unfolding demo_registry_def by (intro registry_reachable.intros)

lemma demo_registry_eval:
  "resolve_with_outcome ''openrouter/gpt-4.1-mini'' demo_registry =
     Some ((FamilyFallback, demo_profile ''gpt-4.1'' (Some ''gpt-4.1'') 3000),
       demo_registry\<lparr>reg_warned := [''openrouter/gpt-4.1-mini'']\<rparr>)"
  by (simp add: demo_registry_def demo_profile_def resolve_with_outcome_def Let_def register_def
      registry_new_def set_default_def registry_get_def strip_provider_prefix_def rsplit_next_def
      family_match_def starts_with_def warn_once_def)

lemma resolve_total_witness: "\<exists>p r'. resolve ''gpt-4o-2024'' demo_registry = Some (p, r')"
  using resolve_total [OF demo_registry_reachable, of "''gpt-4o-2024''"]
  by (simp add: demo_registry_def register_def set_default_def)

theorem resolve_outcome_spec_witness:
  "family_len ''gpt-4.1-mini'' (demo_profile ''gpt-4.1'' (Some ''gpt-4.1'') 3000) = Some 7 \<and>
   ''gpt-4.1-mini'' \<notin> set (registry_names demo_registry)"
  using resolve_outcome_spec [OF demo_registry_reachable demo_registry_eval]
  by (simp add: Let_def strip_provider_prefix_def rsplit_next_def family_len_def demo_profile_def)

text \<open>
  Resolving is idempotent and warns once. Resolving the same input again gives the same
  profile and leaves the registry, its set of warned inputs included, as it is.
\<close>

lemma resolve_again:
  assumes "resolve input r = Some (p, r')"
  shows "resolve input r' = Some (p, r')"
proof -
  let ?w = "snd (warn_once input r)"
  have w: "snd (warn_once input ?w) = ?w" by (simp add: warn_once_def)
  have rg: "registry_get ?w = registry_get r"
    by (simp add: fun_eq_iff registry_get_def)
  have same: "family_match ?w = family_match r" "default_profile ?w = default_profile r"
    by (simp_all add: fun_eq_iff family_match_def default_profile_def rg cong: option.case_cong list.case_cong)
  note same = same rg
  from assms obtain oc where oc: "resolve_with_outcome input r = Some ((oc, p), r')"
    by (auto simp: resolve_def)
  then have "oc = Exact \<and> r' = r \<or> resolve_with_outcome input ?w = Some ((oc, p), ?w) \<and> r' = ?w"
    by (simp add: resolve_with_outcome_def same w Let_def split: option.splits)
  with oc have "resolve_with_outcome input r' = Some ((oc, p), r')" by auto
  then show ?thesis by (simp add: resolve_def)
qed

lemma resolve_again_witness:
  "\<exists>r'. resolve ''openrouter/gpt-4.1-mini'' r' = Some (demo_profile ''gpt-4.1'' (Some ''gpt-4.1'') 3000, r')"
  using resolve_again [of "''openrouter/gpt-4.1-mini''" demo_registry] demo_registry_eval
  by (auto simp: resolve_def)

end
