(* ===== verification/Ordered_Map.thy ===== *)
theory Ordered_Map
  imports Prelude "HOL-Library.List_Lexorder" "HOL-Library.Char_ord"
begin

text \<open>
  Rust's \<open>BTreeMap\<close> as its sorted list of entries: insertion, lookup and removal, with the
  lemmas that make it a map and keep it sorted. Byte strings are ordered bytewise, as
  \<open>String\<close> and \<open>[u8]\<close> are. The contract is stated as a locale that the sorted list provides.
\<close>

type_synonym ('k, 'v) btree = "('k \<times> 'v) list"

fun bt_insert :: "'k::linorder \<Rightarrow> 'v \<Rightarrow> ('k, 'v) btree \<Rightarrow> ('k, 'v) btree" where
  "bt_insert k v [] = [(k, v)]"
| "bt_insert k v ((a, b) # m) =
     (if k < a then (k, v) # (a, b) # m
      else if k = a then (k, v) # m
      else (a, b) # bt_insert k v m)"

definition bt_get :: "('k, 'v) btree \<Rightarrow> 'k \<Rightarrow> 'v option" where
  "bt_get m k = map_of m k"

definition bt_remove :: "'k \<Rightarrow> ('k, 'v) btree \<Rightarrow> ('k, 'v) btree" where
  "bt_remove k m = filter (\<lambda>e. fst e \<noteq> k) m"

definition bt_of_list :: "('k::linorder \<times> 'v) list \<Rightarrow> ('k, 'v) btree" where
  "bt_of_list kvs = fold (\<lambda>(k, v). bt_insert k v) kvs []"

abbreviation bt_sorted :: "('k::linorder, 'v) btree \<Rightarrow> bool" where
  "bt_sorted m \<equiv> sorted_wrt (<) (map fst m)"

lemma map_of_bt_insert: "map_of (bt_insert k v m) = (map_of m)(k \<mapsto> v)"
  by (induction k v m rule: bt_insert.induct) auto

lemma set_keys_bt_insert: "fst ` set (bt_insert k v m) = insert k (fst ` set m)"
  by (induction k v m rule: bt_insert.induct) auto

lemma bt_sorted_insert: "bt_sorted m \<Longrightarrow> bt_sorted (bt_insert k v m)"
proof (induction k v m rule: bt_insert.induct)
  case (1 k v)
  then show ?case by simp
next
  case (2 k v a b m)
  have "\<forall>x \<in> fst ` set (bt_insert k v m). a < x" if "a < k"
    using 2 that by (simp add: set_keys_bt_insert)
  with 2 show ?case by (auto dest: less_trans)
qed

lemma map_of_bt_remove: "map_of (bt_remove k m) = (map_of m)(k := None)"
  by (induction m) (auto simp: bt_remove_def fun_eq_iff)

lemma bt_sorted_remove: "bt_sorted m \<Longrightarrow> bt_sorted (bt_remove k m)"
  by (induction m) (auto simp: bt_remove_def)

lemma bt_sorted_distinct: "bt_sorted m \<Longrightarrow> distinct (map fst m)"
  by (simp only: strict_sorted_iff)

lemma bt_sorted_sorted: "bt_sorted m \<Longrightarrow> sorted (map fst m)"
  by (simp only: strict_sorted_iff)

text \<open>Two sorted lists with the same lookups are the same list.\<close>

lemma bt_sorted_unique:
  assumes "bt_sorted m" "bt_sorted n" "map_of m = map_of n"
  shows "m = n"
proof (rule sorted_wrt_unique)
  have dm: "distinct (map fst m)" and dn: "distinct (map fst n)"
    using assms by (simp_all only: bt_sorted_distinct)
  have "set m = set n"
    using assms(3) map_of_inject_set [OF dm dn] by simp
  then show "mset m = mset n"
    using dm dn by (simp add: distinct_map set_eq_iff_mset_eq_distinct)
  show "sorted_wrt (\<lambda>a b. fst a \<le> fst b) m" "sorted_wrt (\<lambda>a b. fst a \<le> fst b) n"
    using bt_sorted_sorted [OF assms(1)] bt_sorted_sorted [OF assms(2)] by (simp_all add: sorted_map)
  show "a = b" if "a \<in> set m" "b \<in> set m" "fst a \<le> fst b" "fst b \<le> fst a" for a b
    using dm that by (auto simp: distinct_map inj_on_def)
qed

section \<open>The contract of an ordered map\<close>

locale ordered_map =
  fixes empty :: "'m"
    and lookup :: "'m \<Rightarrow> 'k::linorder \<Rightarrow> 'v option"
    and insert :: "'k \<Rightarrow> 'v \<Rightarrow> 'm \<Rightarrow> 'm"
    and remove :: "'k \<Rightarrow> 'm \<Rightarrow> 'm"
    and entries :: "'m \<Rightarrow> ('k \<times> 'v) list"
    and wf :: "'m \<Rightarrow> bool"
  assumes wf_empty: "wf empty"
    and wf_insert: "wf m \<Longrightarrow> wf (insert k v m)"
    and wf_remove: "wf m \<Longrightarrow> wf (remove k m)"
    and lookup_empty: "lookup empty k = None"
    and lookup_insert: "wf m \<Longrightarrow> lookup (insert k v m) k' = (if k' = k then Some v else lookup m k')"
    and lookup_remove: "wf m \<Longrightarrow> lookup (remove k m) k' = (if k' = k then None else lookup m k')"
    and entries_sorted: "wf m \<Longrightarrow> sorted_wrt (<) (map fst (entries m))"
    and entries_lookup: "wf m \<Longrightarrow> map_of (entries m) k = lookup m k"
begin

lemma insert_comm_lookup:
  "wf m \<Longrightarrow> a \<noteq> b \<Longrightarrow> lookup (insert a x (insert b y m)) k = lookup (insert b y (insert a x m)) k"
  by (simp add: lookup_insert wf_insert)

lemma mem_entries: "wf m \<Longrightarrow> (k, v) \<in> set (entries m) \<longleftrightarrow> lookup m k = Some v"
  using entries_sorted [of m] entries_lookup [of m k]
  by (metis map_of_eq_Some_iff bt_sorted_distinct)

end

interpretation bt: ordered_map "[]" bt_get bt_insert bt_remove "\<lambda>m. m" bt_sorted
  by unfold_locales
    (auto simp: bt_get_def map_of_bt_insert map_of_bt_remove bt_sorted_insert bt_sorted_remove)

end
