(* ===== verification/Rust_Float.thy ===== *)
theory Rust_Float
  imports Rust_Num Complex_Main
begin

text \<open>
  IEEE 754 binary floating point as the code uses it. A finite value is its exact rational;
  every operation rounds the exact result to nearest, ties to even, in the format's precision
  and exponent range, with overflow to an infinity. The sign of zero is not kept: no
  operation of the modelled code divides by zero or prints a zero's sign.
\<close>

datatype fl = NaN | PInf | NInf | Fin rat

type_synonym f32 = fl
type_synonym f64 = fl

section \<open>Rounding\<close>

definition pow2 :: "int \<Rightarrow> rat" where
  "pow2 e = (if 0 \<le> e then 2 ^ nat e else 1 / 2 ^ nat (- e))"

fun nlog2 :: "nat \<Rightarrow> nat" where
  "nlog2 n = (if n < 2 then 0 else Suc (nlog2 (n div 2)))"

declare nlog2.simps [simp del]

lemma nlog2_numeral [simp]:
  "nlog2 0 = 0" "nlog2 (Suc 0) = 0" "nlog2 (numeral num.One) = 0"
  "nlog2 (numeral (num.Bit0 k)) = Suc (nlog2 (numeral k))"
  "nlog2 (numeral (num.Bit1 k)) = Suc (nlog2 (numeral k))"
proof -
  have b0: "(numeral (num.Bit0 k) :: nat) div 2 = numeral k"
    and b1: "(numeral (num.Bit1 k) :: nat) div 2 = numeral k"
    by simp_all
  have ge: "\<not> (numeral (num.Bit0 k) :: nat) < 2" "\<not> (numeral (num.Bit1 k) :: nat) < 2"
    by simp_all
  show "nlog2 (numeral (num.Bit0 k)) = Suc (nlog2 (numeral k))"
    and "nlog2 (numeral (num.Bit1 k)) = Suc (nlog2 (numeral k))"
    using b0 b1 ge by (subst nlog2.simps, simp only: if_False)+
qed (simp_all add: nlog2.simps [of 0] nlog2.simps [of "Suc 0"])

text \<open>The exponent of a positive rational: \<open>2 ^ ilog2 x \<le> x < 2 ^ (ilog2 x + 1)\<close>.\<close>

definition ilog2 :: "rat \<Rightarrow> int" where
  "ilog2 x =
     (if 1 \<le> x then int (nlog2 (nat \<lfloor>x\<rfloor>))
      else let e = int (nlog2 (nat \<lfloor>1 / x\<rfloor>)) in if x = pow2 (- e) then - e else - e - 1)"

definition round_half_even :: "rat \<Rightarrow> int" where
  "round_half_even x =
     (let f = \<lfloor>x\<rfloor>; d = x - of_int f in
      if d < 1 / 2 then f
      else if 1 / 2 < d then f + 1
      else if even f then f else f + 1)"

text \<open>The weight of the last bit of the significand for a value of this magnitude.\<close>

definition ulp_exp :: "int \<Rightarrow> int \<Rightarrow> rat \<Rightarrow> int" where
  "ulp_exp p umin x = max (ilog2 \<bar>x\<bar> - (p - 1)) umin"

definition max_fin :: "int \<Rightarrow> int \<Rightarrow> rat" where
  "max_fin p emax = (pow2 p - 1) * pow2 (emax - p + 1)"

definition rnd_rat :: "int \<Rightarrow> int \<Rightarrow> rat \<Rightarrow> rat" where
  "rnd_rat p umin x =
     (if x = 0 then 0
      else let u = ulp_exp p umin x in of_int (round_half_even (x / pow2 u)) * pow2 u)"

definition rnd :: "int \<Rightarrow> int \<Rightarrow> int \<Rightarrow> rat \<Rightarrow> fl" where
  "rnd p umin emax x =
     (let r = rnd_rat p umin x in
      if max_fin p emax < r then PInf
      else if r < - max_fin p emax then NInf
      else Fin r)"

definition rnd32 :: "rat \<Rightarrow> f32" where
  "rnd32 = rnd 24 (- 149) 127"

definition rnd64 :: "rat \<Rightarrow> f64" where
  "rnd64 = rnd 53 (- 1074) 1023"

text \<open>Floors of closed fractions, so that closed roundings evaluate by \<open>simp\<close>.\<close>

lemma floor_rat_numeral [simp]:
  "\<lfloor>numeral a / numeral b :: rat\<rfloor> = numeral a div numeral b"
  "\<lfloor>1 / numeral b :: rat\<rfloor> = 1 div numeral b"
  "\<lfloor>- (numeral a / numeral b) :: rat\<rfloor> = (- numeral a) div numeral b"
  "\<lfloor>- (1 / numeral b) :: rat\<rfloor> = (- 1) div numeral b"
  using floor_divide_of_int_eq [of "numeral a" "numeral b", where ?'a = rat]
    floor_divide_of_int_eq [of 1 "numeral b", where ?'a = rat]
    floor_divide_of_int_eq [of "- numeral a" "numeral b", where ?'a = rat]
    floor_divide_of_int_eq [of "- 1" "numeral b", where ?'a = rat]
  by simp_all

lemmas rnd_eval = rnd32_def rnd64_def rnd_def rnd_rat_def ulp_exp_def ilog2_def
  round_half_even_def max_fin_def pow2_def Let_def

section \<open>Operations\<close>

fun fadd :: "(rat \<Rightarrow> fl) \<Rightarrow> fl \<Rightarrow> fl \<Rightarrow> fl" where
  "fadd R (Fin a) (Fin b) = R (a + b)"
| "fadd R NaN _ = NaN"
| "fadd R _ NaN = NaN"
| "fadd R PInf NInf = NaN"
| "fadd R NInf PInf = NaN"
| "fadd R PInf _ = PInf"
| "fadd R NInf _ = NInf"
| "fadd R _ PInf = PInf"
| "fadd R _ NInf = NInf"

fun fneg :: "fl \<Rightarrow> fl" where
  "fneg NaN = NaN"
| "fneg PInf = NInf"
| "fneg NInf = PInf"
| "fneg (Fin a) = Fin (- a)"

definition fsub :: "(rat \<Rightarrow> fl) \<Rightarrow> fl \<Rightarrow> fl \<Rightarrow> fl" where
  "fsub R a b = fadd R a (fneg b)"

fun fsgn :: "fl \<Rightarrow> rat" where
  "fsgn NaN = 0"
| "fsgn PInf = 1"
| "fsgn NInf = - 1"
| "fsgn (Fin a) = sgn a"

definition inf_of_sign :: "rat \<Rightarrow> fl" where
  "inf_of_sign s = (if s = 0 then NaN else if 0 < s then PInf else NInf)"

fun fmul :: "(rat \<Rightarrow> fl) \<Rightarrow> fl \<Rightarrow> fl \<Rightarrow> fl" where
  "fmul R (Fin a) (Fin b) = R (a * b)"
| "fmul R NaN _ = NaN"
| "fmul R _ NaN = NaN"
| "fmul R a b = inf_of_sign (fsgn a * fsgn b)"

fun fdiv :: "(rat \<Rightarrow> fl) \<Rightarrow> fl \<Rightarrow> fl \<Rightarrow> fl" where
  "fdiv R (Fin a) (Fin b) = (if b = 0 then inf_of_sign (sgn a) else R (a / b))"
| "fdiv R NaN _ = NaN"
| "fdiv R _ NaN = NaN"
| "fdiv R (Fin a) _ = Fin 0"
| "fdiv R a (Fin b) = inf_of_sign (fsgn a * (if b < 0 then - 1 else 1))"
| "fdiv R _ _ = NaN"

fun flt :: "fl \<Rightarrow> fl \<Rightarrow> bool" where
  "flt (Fin a) (Fin b) = (a < b)"
| "flt NaN _ = False"
| "flt _ NaN = False"
| "flt NInf NInf = False"
| "flt NInf _ = True"
| "flt PInf _ = False"
| "flt _ PInf = True"
| "flt _ NInf = False"

definition feq :: "fl \<Rightarrow> fl \<Rightarrow> bool" where
  "feq a b \<longleftrightarrow> a \<noteq> NaN \<and> a = b"

definition fle :: "fl \<Rightarrow> fl \<Rightarrow> bool" where
  "fle a b \<longleftrightarrow> flt a b \<or> feq a b"

definition partial_cmp :: "fl \<Rightarrow> fl \<Rightarrow> ordering option" where
  "partial_cmp a b =
     (if flt a b then Some Less else if flt b a then Some Greater
      else if feq a b then Some Equal else None)"

definition unwrap_equal :: "ordering option \<Rightarrow> ordering" where
  "unwrap_equal c = (case c of None \<Rightarrow> Equal | Some o' \<Rightarrow> o')"

text \<open>\<open>f32::clamp\<close> keeps NaN; \<open>f32::max\<close> drops it.\<close>

definition fclamp :: "fl \<Rightarrow> fl \<Rightarrow> fl \<Rightarrow> fl" where
  "fclamp x lo hi =
     (let y = (if flt x lo then lo else x) in if flt hi y then hi else y)"

definition fmax :: "fl \<Rightarrow> fl \<Rightarrow> fl" where
  "fmax a b = (if a = NaN then b else if b = NaN then a else if flt a b then b else a)"

text \<open>\<open>as\<close> casts: integers round to nearest; to an integer truncates and saturates.\<close>

definition nat_as_f32 :: "nat \<Rightarrow> f32" where
  "nat_as_f32 n = rnd32 (of_nat n)"

definition f64_as_u32 :: "f64 \<Rightarrow> u32" where
  "f64_as_u32 x =
     (case x of
        NaN \<Rightarrow> 0
      | NInf \<Rightarrow> 0
      | PInf \<Rightarrow> - 1
      | Fin a \<Rightarrow> if a \<le> 0 then 0
                 else if 2 ^ 32 \<le> a then - 1
                 else word_of_nat (nat \<lfloor>a\<rfloor>))"

text \<open>The literals of the source, as the \<open>f32\<close> nearest to the decimal.\<close>

abbreviation f32_0 :: f32 where "f32_0 \<equiv> Fin 0"
abbreviation f32_1 :: f32 where "f32_1 \<equiv> Fin 1"

definition f32_epsilon :: f32 where
  "f32_epsilon = Fin (1 / 8388608)"

section \<open>Order\<close>

lemma flt_irrefl [simp]: "\<not> flt a a"
  by (cases a) auto

lemma flt_asym: "flt a b \<Longrightarrow> \<not> flt b a"
  by (cases a; cases b) auto

lemma flt_trans: "flt a b \<Longrightarrow> flt b c \<Longrightarrow> flt a c"
  by (cases a; cases b; cases c) auto

lemma flt_total: "a \<noteq> NaN \<Longrightarrow> b \<noteq> NaN \<Longrightarrow> flt a b \<or> a = b \<or> flt b a"
  by (cases a; cases b) auto

lemma not_flt_trans: "a \<noteq> NaN \<Longrightarrow> b \<noteq> NaN \<Longrightarrow> c \<noteq> NaN \<Longrightarrow> \<not> flt a b \<Longrightarrow> \<not> flt b c \<Longrightarrow> \<not> flt a c"
  by (metis flt_total flt_trans flt_irrefl)

lemma flt_NaN [simp]: "\<not> flt NaN a" "\<not> flt a NaN"
  by (cases a; simp)+

lemma fle_Fin [simp]: "fle (Fin a) (Fin b) \<longleftrightarrow> a \<le> b"
  by (auto simp: fle_def feq_def)

lemma unwrap_partial_cmp [simp]:
  "unwrap_equal (partial_cmp a b) = Greater \<longleftrightarrow> flt b a"
  "unwrap_equal (partial_cmp a b) = Less \<longleftrightarrow> flt a b"
  by (auto simp: unwrap_equal_def partial_cmp_def dest: flt_asym)

lemma unwrap_partial_cmp_Equal:
  "a \<noteq> NaN \<Longrightarrow> b \<noteq> NaN \<Longrightarrow> unwrap_equal (partial_cmp a b) = Equal \<longleftrightarrow> a = b"
  using flt_total [of a b] by (auto simp: unwrap_equal_def partial_cmp_def)

lemma fclamp_range:
  "x \<noteq> NaN \<Longrightarrow> lo \<le> hi \<Longrightarrow> \<exists>a. fclamp x (Fin lo) (Fin hi) = Fin a \<and> lo \<le> a \<and> a \<le> hi"
  by (cases x) (auto simp: fclamp_def Let_def)

lemma fclamp_NaN [simp]: "fclamp NaN lo hi = NaN"
  by (simp add: fclamp_def)

lemma fclamp_Fin_id: "lo \<le> a \<Longrightarrow> a \<le> hi \<Longrightarrow> fclamp (Fin a) (Fin lo) (Fin hi) = Fin a"
  by (simp add: fclamp_def)

section \<open>Rounding error\<close>

lemma pow2_powi: "pow2 e = 2 powi e"
  by (simp add: pow2_def power_int_def field_simps)

lemma pow2_pos [simp]: "0 < pow2 e"
  by (simp add: pow2_def)

lemma pow2_add: "pow2 (a + b) = pow2 a * pow2 b"
  by (simp add: pow2_powi power_int_add)

lemma pow2_Suc: "pow2 (a + 1) = 2 * pow2 a"
  by (simp add: pow2_add) (simp add: pow2_def)

lemma pow2_mono: "a \<le> b \<Longrightarrow> pow2 a \<le> pow2 b"
  by (simp add: pow2_powi power_int_increasing)

lemma pow2_minus: "pow2 (- a) = 1 / pow2 a"
  by (simp add: pow2_powi power_int_minus inverse_eq_divide)

lemma pow2_diff: "pow2 (a - b) = pow2 a / pow2 b"
  using pow2_add [of a "- b"] by (simp add: pow2_minus)

lemma pow2_nat: "pow2 (int k) = 2 ^ k"
  by (simp add: pow2_def)

lemma pow2_nonpos_int:
  assumes "u \<le> 0" shows "\<exists>m::int. of_int k / pow2 u = of_int m"
proof
  from assms have "k * 2 ^ nat (- u) = k * 2 ^ nat (- u)" by simp
  show "of_int k / pow2 u = of_int (k * 2 ^ nat (- u))"
    using assms by (cases "u = 0") (simp_all add: pow2_def)
qed

lemma nlog2_spec: "0 < n \<Longrightarrow> 2 ^ nlog2 n \<le> n \<and> n < 2 ^ Suc (nlog2 n)"
proof (induction n rule: nlog2.induct)
  case (1 n)
  show ?case
  proof (cases "n < 2")
    case True
    with 1 show ?thesis by (simp add: nlog2.simps [of n])
  next
    case False
    then have "0 < n div 2" by simp
    with 1 False have "2 ^ nlog2 (n div 2) \<le> n div 2" "n div 2 < 2 ^ Suc (nlog2 (n div 2))"
      by auto
    with False show ?thesis by (simp add: nlog2.simps [of n]) linarith
  qed
qed

lemma nlog2_floor:
  assumes "1 \<le> x"
  shows "pow2 (int (nlog2 (nat \<lfloor>x\<rfloor>))) \<le> x" "x < pow2 (int (nlog2 (nat \<lfloor>x\<rfloor>)) + 1)"
proof -
  let ?n = "nat \<lfloor>x\<rfloor>"
  have n: "0 < ?n" using assms by simp
  have fl: "of_nat ?n \<le> x" "x < of_nat ?n + 1" using assms by (simp_all add: floor_le_iff, linarith)
  have "of_nat (2 ^ nlog2 ?n) \<le> (of_nat ?n :: rat)" using nlog2_spec [OF n] by (simp only: of_nat_le_iff)
  then have "of_nat (2 ^ nlog2 ?n) \<le> x" using fl(1) by (rule order_trans)
  then show "pow2 (int (nlog2 ?n)) \<le> x" by (simp add: pow2_nat)
  have "?n + 1 \<le> 2 ^ Suc (nlog2 ?n)" using nlog2_spec [OF n] by simp
  then have "of_nat (?n + 1) \<le> (of_nat (2 ^ Suc (nlog2 ?n)) :: rat)" by (simp only: of_nat_le_iff)
  with fl show "x < pow2 (int (nlog2 ?n) + 1)" by (simp add: pow2_Suc pow2_nat)
qed

lemma ilog2_spec:
  assumes "0 < x"
  shows "pow2 (ilog2 x) \<le> x" "x < pow2 (ilog2 x + 1)"
proof -
  let ?e = "int (nlog2 (nat \<lfloor>1 / x\<rfloor>))"
  consider "1 \<le> x" | "x < 1" by linarith
  then have "pow2 (ilog2 x) \<le> x \<and> x < pow2 (ilog2 x + 1)"
  proof cases
    case 1
    then show ?thesis using nlog2_floor [of x] by (simp add: ilog2_def)
  next
    case 2
    have "1 \<le> 1 / x" using assms 2 by simp
    from nlog2_floor [OF this] have b: "pow2 ?e \<le> 1 / x" "1 / x < 2 * pow2 ?e"
      by (simp_all add: pow2_Suc)
    have up: "x \<le> pow2 (- ?e)" using b(1) assms by (simp add: pow2_minus field_simps)
    have lo: "pow2 (- ?e - 1) < x"
      using b(2) assms by (simp add: pow2_diff pow2_minus field_simps) (simp add: pow2_def)
    have two: "pow2 (- ?e + 1) = 2 * pow2 (- ?e)" by (rule pow2_Suc)
    show ?thesis
    proof (cases "x = pow2 (- ?e)")
      case True
      then have "ilog2 x = - ?e" using 2 by (simp add: ilog2_def Let_def)
      then show ?thesis using True two pow2_pos [of "- ?e"] by simp
    next
      case False
      then have "ilog2 x = - ?e - 1" using 2 by (simp add: ilog2_def Let_def)
      then show ?thesis using False lo up by simp
    qed
  qed
  then show "pow2 (ilog2 x) \<le> x" "x < pow2 (ilog2 x + 1)" by auto
qed

lemma round_half_even_err: "\<bar>of_int (round_half_even x) - x\<bar> \<le> 1 / 2"
proof -
  have "of_int \<lfloor>x\<rfloor> \<le> x" "x < of_int \<lfloor>x\<rfloor> + 1" by linarith+
  then show ?thesis by (auto simp: round_half_even_def Let_def abs_le_iff)
qed

lemma round_half_even_upper: "x \<le> of_int k \<Longrightarrow> round_half_even x \<le> k"
  using round_half_even_err [of x]
  by (auto simp: round_half_even_def Let_def floor_le_iff le_less)
    (linarith+)

lemma round_half_even_lower: "of_int k \<le> x \<Longrightarrow> k \<le> round_half_even x"
proof -
  assume "of_int k \<le> x"
  then have "k \<le> \<lfloor>x\<rfloor>" by (simp add: le_floor_iff)
  then show ?thesis by (auto simp: round_half_even_def Let_def)
qed

lemma rnd_rat_err:
  "x \<noteq> 0 \<Longrightarrow> \<bar>rnd_rat p umin x - x\<bar> \<le> pow2 (ulp_exp p umin x) / 2"
proof -
  assume x: "x \<noteq> 0"
  let ?u = "pow2 (ulp_exp p umin x)"
  have "\<bar>of_int (round_half_even (x / ?u)) - x / ?u\<bar> * ?u \<le> 1 / 2 * ?u"
    by (rule mult_right_mono [OF round_half_even_err]) (simp add: less_imp_le)
  moreover have "\<bar>of_int (round_half_even (x / ?u)) - x / ?u\<bar> * ?u
      = \<bar>(of_int (round_half_even (x / ?u)) - x / ?u) * ?u\<bar>"
    by (simp add: abs_mult less_imp_le)
  moreover have "(of_int (round_half_even (x / ?u)) - x / ?u) * ?u
      = of_int (round_half_even (x / ?u)) * ?u - x"
    using pow2_pos [of "ulp_exp p umin x"] by (simp add: left_diff_distrib less_imp_neq [THEN not_sym])
  ultimately show ?thesis using x by (simp add: rnd_rat_def Let_def)
qed

lemma rnd_rat_upper_int:
  assumes "0 \<le> x" "x \<le> of_int k" "ulp_exp p umin x \<le> 0 \<or> x = 0"
  shows "rnd_rat p umin x \<le> of_int k"
proof (cases "x = 0")
  case True
  with assms show ?thesis by (simp add: rnd_rat_def)
next
  case False
  let ?u = "ulp_exp p umin x"
  obtain m :: int where m: "of_int k / pow2 ?u = (of_int m :: rat)"
    using assms False pow2_nonpos_int by blast
  have "x / pow2 ?u \<le> of_int m"
    using assms(2) by (simp add: m [symmetric] divide_right_mono less_imp_le)
  then have "round_half_even (x / pow2 ?u) \<le> m" by (rule round_half_even_upper)
  then have "of_int (round_half_even (x / pow2 ?u)) * pow2 ?u \<le> of_int m * pow2 ?u"
    by (simp add: mult_right_mono less_imp_le)
  also have "of_int m * pow2 ?u = of_int k"
    using pow2_pos [of ?u] by (simp add: m [symmetric] less_imp_neq [THEN not_sym])
  finally show ?thesis using False by (simp add: rnd_rat_def Let_def)
qed

lemma rnd_rat_nonneg: "0 \<le> x \<Longrightarrow> 0 \<le> rnd_rat p umin x"
  using round_half_even_lower [of 0 "x / pow2 (ulp_exp p umin x)"]
  by (simp add: rnd_rat_def Let_def less_imp_le)

lemma ilog2_le:
  assumes "0 < x" "x < pow2 n"
  shows "ilog2 x \<le> n - 1"
proof (rule ccontr)
  assume "\<not> ilog2 x \<le> n - 1"
  then have "pow2 n \<le> pow2 (ilog2 x)" by (intro pow2_mono) simp
  with ilog2_spec(1) [OF assms(1)] assms(2) show False by simp
qed

text \<open>Rounding does not cross an integer that fits the precision.\<close>

lemma rnd_range:
  assumes "0 \<le> x" "x \<le> of_int k" "of_int k < pow2 p" "umin \<le> 0" "0 \<le> p" "p \<le> emax"
  shows "\<exists>r. rnd p umin emax x = Fin r \<and> r = rnd_rat p umin x \<and> 0 \<le> r \<and> r \<le> of_int k"
proof -
  have "ulp_exp p umin x \<le> 0 \<or> x = 0"
    using assms ilog2_le [of x p] by (auto simp: ulp_exp_def)
  then have up: "rnd_rat p umin x \<le> of_int k" using assms(1,2) by (intro rnd_rat_upper_int)
  have lo: "0 \<le> rnd_rat p umin x" using assms(1) by (rule rnd_rat_nonneg)
  have "pow2 p = of_int (2 ^ nat p)" using assms(5) by (simp add: pow2_def)
  with assms(3) have "k < 2 ^ nat p" by (simp only: of_int_less_iff)
  then have "of_int k \<le> (of_int (2 ^ nat p - 1) :: rat)" by (simp only: of_int_le_iff)
  then have k: "of_int k \<le> pow2 p - 1" using assms(5) by (simp add: pow2_def)
  moreover have "(pow2 p - 1) * 1 \<le> (pow2 p - 1) * pow2 (emax - p + 1)"
    using pow2_mono [of 0 p] pow2_mono [of 0 "emax - p + 1"] assms(5,6)
    by (intro mult_left_mono) (simp_all add: pow2_def)
  ultimately have "of_int k \<le> max_fin p emax" using k by (simp add: max_fin_def)
  moreover have "0 \<le> (of_int k :: rat)" using assms(1,2) by linarith
  ultimately have "rnd p umin emax x = Fin (rnd_rat p umin x)"
    using up lo by (simp add: rnd_def Let_def)
  with up lo show ?thesis by simp
qed

lemmas rnd32_range = rnd_range [where p = 24 and umin = "- 149" and emax = 127, folded rnd32_def]
lemmas rnd64_range = rnd_range [where p = 53 and umin = "- 1074" and emax = 1023, folded rnd64_def]

text \<open>The absolute error of a rounding below a power of two.\<close>

lemma rnd_rat_err_below:
  assumes "0 \<le> x" "x < pow2 n" "umin \<le> n - p"
  shows "rnd_rat p umin x \<le> x + pow2 (n - p) / 2"
proof (cases "x = 0")
  case True
  then show ?thesis by (simp add: rnd_rat_def less_imp_le)
next
  case False
  then have "ulp_exp p umin x \<le> n - p" using assms ilog2_le [of x n] by (simp add: ulp_exp_def)
  then have "pow2 (ulp_exp p umin x) \<le> pow2 (n - p)" by (rule pow2_mono)
  with rnd_rat_err [OF False, of p umin] show ?thesis by linarith
qed

lemma unsigned_rat_nonneg [simp]: "0 \<le> (unsigned (v :: 'a::len word) :: rat)"
  by (metis of_nat_0_le_iff of_nat_unat)

lemma f64_as_u32_Fin:
  "0 \<le> a \<Longrightarrow> a < 2 ^ 32 \<Longrightarrow> unat (f64_as_u32 (Fin a)) = nat \<lfloor>a\<rfloor>"
proof -
  assume a: "0 \<le> a" "a < 2 ^ 32"
  then have "\<lfloor>a\<rfloor> < 2 ^ 32" by (simp add: floor_less_iff)
  then have "nat \<lfloor>a\<rfloor> < 2 ^ 32" using a(1) by (simp add: nat_less_iff)
  then have "unat (word_of_nat (nat \<lfloor>a\<rfloor>) :: u32) = nat \<lfloor>a\<rfloor>" by (simp add: unsigned_of_nat take_bit_nat_eq_self del: of_nat_nat)
  moreover have "f64_as_u32 (Fin a) = word_of_nat (nat \<lfloor>a\<rfloor>)"
    using a by (cases "a = 0") (simp_all add: f64_as_u32_def del: of_nat_nat)
  ultimately show ?thesis by (simp only:)
qed

end
