(* ===== verification/Core_Types.thy ===== *)
theory Core_Types
  imports Model Ordered_Map Rust_Float
begin

text \<open>
  The data model of \<open>llm386-core\<close>: blocks with their kind, provenance and cached token counts
  (\<open>block.rs\<close>), typed edges (\<open>edge.rs\<close>), page requests and plans (\<open>page.rs\<close>), packed prompts
  (\<open>packed.rs\<close>), and the traits as records of operations with their error types
  (\<open>store.rs\<close>, \<open>tokenizer.rs\<close>, \<open>retriever.rs\<close>, \<open>pager.rs\<close>, \<open>packer.rs\<close>). A trait method that
  only reads is a function to a result; the default bodies of the trait methods are
  definitions of their own.
\<close>

section \<open>Sections and kinds\<close>

datatype section_kind =
  Sec_System | Sec_Task | Sec_State | Sec_Plan | Sec_Retrieved | Sec_Tools | Sec_Recent
| Sec_Background | Sec_Slack

fun section_rank :: "section_kind \<Rightarrow> nat" where
  "section_rank Sec_System = 0"
| "section_rank Sec_Task = 1"
| "section_rank Sec_State = 2"
| "section_rank Sec_Plan = 3"
| "section_rank Sec_Retrieved = 4"
| "section_rank Sec_Tools = 5"
| "section_rank Sec_Recent = 6"
| "section_rank Sec_Background = 7"
| "section_rank Sec_Slack = 8"

lemma section_rank_inject: "section_rank a = section_rank b \<longleftrightarrow> a = b"
  by (cases a; cases b) simp_all

text \<open>The derived \<open>Ord\<close> of the enum: the order of its variants.\<close>

instantiation section_kind :: linorder
begin

definition less_eq_section_kind :: "section_kind \<Rightarrow> section_kind \<Rightarrow> bool" where
  "less_eq_section_kind a b \<longleftrightarrow> section_rank a \<le> section_rank b"

definition less_section_kind :: "section_kind \<Rightarrow> section_kind \<Rightarrow> bool" where
  "less_section_kind a b \<longleftrightarrow> section_rank a < section_rank b"

instance
  by intro_classes
    (auto simp: less_eq_section_kind_def less_section_kind_def section_rank_inject)

end

datatype block_kind =
  Kind_System | Kind_UserMessage | Kind_AssistantMessage | Kind_ToolResult | Kind_Summary
| Kind_Fact | Kind_DocumentChunk | Kind_Plan | Kind_State | Kind_Trace

fun default_section :: "block_kind \<Rightarrow> section_kind" where
  "default_section Kind_System = Sec_System"
| "default_section Kind_State = Sec_State"
| "default_section Kind_Plan = Sec_Plan"
| "default_section Kind_Summary = Sec_Retrieved"
| "default_section Kind_Fact = Sec_Retrieved"
| "default_section Kind_ToolResult = Sec_Tools"
| "default_section Kind_UserMessage = Sec_Recent"
| "default_section Kind_AssistantMessage = Sec_Recent"
| "default_section Kind_DocumentChunk = Sec_Background"
| "default_section Kind_Trace = Sec_Background"

lemma default_section_range [simp]:
  "default_section k \<noteq> Sec_Task" "default_section k \<noteq> Sec_Slack"
  by (cases k; simp)+

lemma default_section_System [simp]: "default_section k = Sec_System \<longleftrightarrow> k = Kind_System"
  by (cases k) simp_all

section \<open>Blocks\<close>

type_synonym token_counts = "(tokenizer_id, token_count) btree"

definition tc_new :: token_counts where
  "tc_new = []"

definition tc_insert :: "tokenizer_id \<Rightarrow> token_count \<Rightarrow> token_counts \<Rightarrow> token_counts" where
  "tc_insert t n tc = bt_insert t n tc"

definition tc_get :: "token_counts \<Rightarrow> tokenizer_id \<Rightarrow> token_count option" where
  "tc_get tc t = bt_get tc t"

definition tc_is_empty :: "token_counts \<Rightarrow> bool" where
  "tc_is_empty tc \<longleftrightarrow> tc = []"

definition tc_len :: "token_counts \<Rightarrow> nat" where
  "tc_len tc = length tc"

definition tc_iter :: "token_counts \<Rightarrow> (tokenizer_id \<times> token_count) list" where
  "tc_iter tc = tc"

record provenance =
  prov_source :: "bytes option"
  prov_parents :: "block_id list"
  prov_labels :: "bytes list"

definition provenance_default :: provenance where
  "provenance_default = \<lparr>prov_source = None, prov_parents = [], prov_labels = []\<rparr>"

record context_block =
  cb_id :: block_id
  cb_kind :: block_kind
  cb_bytes :: bytes
  cb_token_counts :: token_counts
  cb_priority :: f32
  cb_created_at :: timestamp
  cb_updated_at :: timestamp
  cb_provenance :: provenance
  cb_hash :: content_hash

section \<open>Edges\<close>

datatype edge_kind = Parent | DerivedFrom | Supports | Contradicts | ToolInvocation

record edge =
  edge_from :: block_id
  edge_to :: block_id
  edge_kind :: edge_kind

section \<open>Page requests and plans\<close>

record page_request =
  pr_session_id :: session_id
  pr_task :: bytes
  pr_model :: model_profile
  pr_required_blocks :: "block_id list"

datatype selection_reason =
  Pinned | HighRelevance | Recency | Dependency | GlobalFact | Reason_ToolResult

record selection =
  sel_block_id :: block_id
  sel_score :: f32
  sel_reason :: selection_reason
  sel_note :: "bytes option"

datatype omission_reason =
  Om_Budget | Om_Stale | Om_Redundant | Om_LowScore | Om_FilteredByKind
| Om_DependencyMissing | Om_Compressed | Om_Contradicted | Om_SupersededByDerived

record omitted_block =
  om_block_id :: block_id
  om_reason :: omission_reason
  om_score :: f32

record page_plan =
  pp_selected :: "block_id list"
  pp_selections :: "selection list"
  pp_omitted :: "omitted_block list"
  pp_estimated_tokens :: token_count

section \<open>Packed prompts\<close>

record packed_block =
  pb_block_id :: block_id
  pb_section :: section_kind
  pb_tokens :: token_count
  pb_score :: f32

record packed_prompt =
  pk_model :: bytes
  pk_input_tokens :: token_count
  pk_blocks :: "packed_block list"
  pk_rendered :: bytes

datatype chat_role = Role_System | Role_User | Role_Assistant | Role_Tool

record chat_message =
  cm_role :: chat_role
  cm_content :: bytes
  cm_section :: "section_kind option"

record chat_prompt =
  cp_model :: bytes
  cp_input_tokens :: token_count
  cp_messages :: "chat_message list"
  cp_cache_boundary :: "nat option"

section \<open>Errors\<close>

datatype store_error = NotFound block_id | Backend bytes
datatype tokenizer_error = EncodingFailed bytes
datatype retrieval_error = RetrievalFailed bytes
datatype summarizer_error = SummarizerFailed bytes

fun summarizer_error_display :: "summarizer_error \<Rightarrow> bytes" where
  "summarizer_error_display (SummarizerFailed s) = ''summarizer failed: '' @ s"
datatype embedder_error = EmbedderFailed bytes
datatype trace_error = TraceFailed bytes

datatype pager_error =
  RequiredBlockMissing block_id
| RequiredOverBudget
| TokenizerMismatch tokenizer_id tokenizer_id
| Pager_Tokenizer tokenizer_error
| Pager_Retrieval retrieval_error
| Pager_Storage store_error

datatype packer_error =
  BudgetExceeded u32 u32
| Packer_Storage store_error
| Packer_Tokenizer tokenizer_error

datatype llm_error =
  Llm_Store store_error | Llm_Tokenizer tokenizer_error | Llm_Retrieval retrieval_error
| Llm_Pager pager_error | Llm_Packer packer_error | Llm_Trace trace_error

fun store_error_display :: "store_error \<Rightarrow> bytes" where
  "store_error_display (NotFound b) = ''block not found: '' @ block_id_display b"
| "store_error_display (Backend s) = ''storage backend error: '' @ s"

fun tokenizer_error_display :: "tokenizer_error \<Rightarrow> bytes" where
  "tokenizer_error_display (EncodingFailed s) = ''tokenizer encoding failed: '' @ s"

fun retrieval_error_display :: "retrieval_error \<Rightarrow> bytes" where
  "retrieval_error_display (RetrievalFailed s) = ''retrieval failed: '' @ s"

fun trace_error_display :: "trace_error \<Rightarrow> bytes" where
  "trace_error_display (TraceFailed s) = ''trace sink failed: '' @ s"

fun pager_error_display :: "pager_error \<Rightarrow> bytes" where
  "pager_error_display (RequiredBlockMissing b) = ''required block not found: '' @ block_id_display b"
| "pager_error_display RequiredOverBudget = ''required blocks would exceed input budget''"
| "pager_error_display (TokenizerMismatch p m) =
     ''pager tokenizer '' @ p @ '' does not match model tokenizer '' @ m"
| "pager_error_display (Pager_Tokenizer e) = tokenizer_error_display e"
| "pager_error_display (Pager_Retrieval e) = retrieval_error_display e"
| "pager_error_display (Pager_Storage e) = store_error_display e"

fun packer_error_display :: "packer_error \<Rightarrow> bytes" where
  "packer_error_display (BudgetExceeded t b) =
     ''packed prompt would exceed input budget ('' @ dec (unat t) @ '' > '' @ dec (unat b) @ '')''"
| "packer_error_display (Packer_Storage e) = store_error_display e"
| "packer_error_display (Packer_Tokenizer e) = tokenizer_error_display e"

fun llm_error_display :: "llm_error \<Rightarrow> bytes" where
  "llm_error_display (Llm_Store e) = store_error_display e"
| "llm_error_display (Llm_Tokenizer e) = tokenizer_error_display e"
| "llm_error_display (Llm_Retrieval e) = retrieval_error_display e"
| "llm_error_display (Llm_Pager e) = pager_error_display e"
| "llm_error_display (Llm_Packer e) = packer_error_display e"
| "llm_error_display (Llm_Trace e) = trace_error_display e"

section \<open>Traits\<close>

record tokenizer =
  tok_id :: tokenizer_id
  tok_count :: "bytes \<Rightarrow> tokenizer_error + token_count"

record retrieval_candidate =
  rc_block_id :: block_id
  rc_score :: f32
  rc_source :: bytes

record retriever =
  ret_name :: bytes
  ret_retrieve :: "session_id \<Rightarrow> bytes \<Rightarrow> nat \<Rightarrow> retrieval_error + retrieval_candidate list"

text \<open>The reading half of a \<open>BlockStore\<close>, as the pager, the packer and the retrievers use it.\<close>

record store_view =
  sv_get :: "block_id \<Rightarrow> store_error + context_block option"
  sv_list_session :: "session_id \<Rightarrow> store_error + block_id list"
  sv_edges_from :: "block_id \<Rightarrow> store_error + edge list"
  sv_edges_to :: "block_id \<Rightarrow> store_error + edge list"

text \<open>The default bodies of \<open>BlockStore\<close>.\<close>

definition default_list_sessions :: "store_error + session_id list" where
  "default_list_sessions = Inr []"

definition default_delete :: "block_id \<Rightarrow> store_error + bool" where
  "default_delete i = Inl (Backend ''delete not implemented for this BlockStore'')"

definition default_purge_session :: "session_id \<Rightarrow> store_error + nat" where
  "default_purge_session s = Inl (Backend ''purge_session not implemented for this BlockStore'')"

definition default_put_edge :: "edge \<Rightarrow> store_error + unit" where
  "default_put_edge e = Inl (Backend ''put_edge not implemented for this BlockStore'')"

definition default_edges_from :: "block_id \<Rightarrow> store_error + edge list" where
  "default_edges_from b = Inr []"

definition default_edges_to :: "block_id \<Rightarrow> store_error + edge list" where
  "default_edges_to b = Inr []"

text \<open>The default body of \<open>Embedder::embed_batch\<close>.\<close>

definition default_embed_batch ::
    "(bytes \<Rightarrow> embedder_error + f32 list) \<Rightarrow> bytes list \<Rightarrow> embedder_error + f32 list list" where
  "default_embed_batch emb texts = map_res emb texts"

end
