(* ===== verification/Store_Spec.thy ===== *)
theory Store_Spec
  imports Core_Types
begin

text \<open>
  What a block store promises (\<open>BlockStore\<close> in \<open>llm386-core/src/store.rs\<close>), independent of the
  backend: blocks by id, one id per content hash, the sessions a block belongs to, and typed
  edges. Both backends are proved against it.
\<close>

record store_spec =
  st_blocks :: "block_id \<rightharpoonup> context_block"
  st_hash :: "content_hash \<rightharpoonup> block_id"
  st_members :: "(session_id \<times> block_id) set"
  st_edges :: "edge set"

definition spec_empty :: store_spec where
  "spec_empty = \<lparr>st_blocks = Map.empty, st_hash = Map.empty, st_members = {}, st_edges = {}\<rparr>"

definition spec_put :: "session_id \<Rightarrow> context_block \<Rightarrow> store_spec \<Rightarrow> block_id \<times> store_spec" where
  "spec_put s b a =
     (case st_hash a (cb_hash b) of
        Some i \<Rightarrow> (i, a\<lparr>st_members := insert (s, i) (st_members a)\<rparr>)
      | None \<Rightarrow> (cb_id b, a\<lparr>st_blocks := (st_blocks a)(cb_id b \<mapsto> b),
                  st_hash := (st_hash a)(cb_hash b \<mapsto> cb_id b),
                  st_members := insert (s, cb_id b) (st_members a)\<rparr>))"

definition spec_session :: "session_id \<Rightarrow> store_spec \<Rightarrow> block_id set" where
  "spec_session s a = {i. (s, i) \<in> st_members a}"

text \<open>Blocks taken out of the store, with their hash entries, memberships and edges.\<close>

definition spec_remove :: "block_id set \<Rightarrow> store_spec \<Rightarrow> store_spec" where
  "spec_remove I a = a\<lparr>st_blocks := st_blocks a |` (- I),
     st_hash := (\<lambda>h. case st_hash a h of Some i \<Rightarrow> if i \<in> I then None else Some i | None \<Rightarrow> None),
     st_members := {(s, i) \<in> st_members a. i \<notin> I},
     st_edges := {e \<in> st_edges a. edge_from e \<notin> I \<and> edge_to e \<notin> I}\<rparr>"

definition spec_has :: "block_id \<Rightarrow> store_spec \<Rightarrow> bool" where
  "spec_has i a \<longleftrightarrow> st_blocks a i \<noteq> None \<or> (\<exists>s. (s, i) \<in> st_members a)"

definition spec_delete :: "block_id \<Rightarrow> store_spec \<Rightarrow> bool \<times> store_spec" where
  "spec_delete i a = (if spec_has i a then (True, spec_remove {i} a) else (False, a))"

definition spec_leave :: "session_id \<Rightarrow> store_spec \<Rightarrow> store_spec" where
  "spec_leave s a = a\<lparr>st_members := {(t, i) \<in> st_members a. t \<noteq> s}\<rparr>"

definition spec_orphans :: "store_spec \<Rightarrow> block_id set \<Rightarrow> block_id set" where
  "spec_orphans a I = {i \<in> I. st_blocks a i \<noteq> None \<and> (\<forall>s. (s, i) \<notin> st_members a)}"

definition spec_purge :: "session_id \<Rightarrow> store_spec \<Rightarrow> nat \<times> store_spec" where
  "spec_purge s a =
     (card (spec_session s a),
      spec_remove (spec_orphans (spec_leave s a) (spec_session s a)) (spec_leave s a))"

definition spec_put_edge :: "edge \<Rightarrow> store_spec \<Rightarrow> store_spec" where
  "spec_put_edge e a = a\<lparr>st_edges := insert e (st_edges a)\<rparr>"

section \<open>The invariant\<close>

definition spec_wf :: "store_spec \<Rightarrow> bool" where
  "spec_wf a \<longleftrightarrow>
     (\<forall>i b. st_blocks a i = Some b \<longrightarrow> cb_id b = i) \<and>
     (\<forall>h i. st_hash a h = Some i \<longleftrightarrow> (\<exists>b. st_blocks a i = Some b \<and> cb_hash b = h)) \<and>
     (\<forall>s i. (s, i) \<in> st_members a \<longrightarrow> st_blocks a i \<noteq> None) \<and>
     (\<forall>i. st_blocks a i \<noteq> None \<longrightarrow> (\<exists>s. (s, i) \<in> st_members a))"

lemma spec_wfD:
  assumes "spec_wf a"
  shows "st_blocks a i = Some b \<Longrightarrow> cb_id b = i"
    and "st_hash a h = Some i \<longleftrightarrow> (\<exists>b. st_blocks a i = Some b \<and> cb_hash b = h)"
    and "(s, i) \<in> st_members a \<Longrightarrow> \<exists>b. st_blocks a i = Some b"
    and "st_blocks a i = Some b \<Longrightarrow> \<exists>s. (s, i) \<in> st_members a"
  using assms by (auto simp: spec_wf_def)

text \<open>One hash, one block.\<close>

lemma spec_wf_hash_inj:
  "spec_wf a \<Longrightarrow> st_blocks a i = Some b \<Longrightarrow> st_blocks a j = Some c \<Longrightarrow> cb_hash b = cb_hash c \<Longrightarrow> i = j"
  by (metis option.inject spec_wfD(2))

lemma spec_wf_empty: "spec_wf spec_empty"
  by (simp add: spec_wf_def spec_empty_def)

text \<open>A block id is not used again for other content.\<close>

definition fresh_for :: "context_block \<Rightarrow> store_spec \<Rightarrow> bool" where
  "fresh_for b a \<longleftrightarrow> st_hash a (cb_hash b) = None \<longrightarrow> st_blocks a (cb_id b) = None"

lemma spec_wfI:
  assumes "\<And>i b. st_blocks a i = Some b \<Longrightarrow> cb_id b = i"
    and "\<And>h i. st_hash a h = Some i \<longleftrightarrow> (\<exists>b. st_blocks a i = Some b \<and> cb_hash b = h)"
    and "\<And>s i. (s, i) \<in> st_members a \<Longrightarrow> \<exists>b. st_blocks a i = Some b"
    and "\<And>i b. st_blocks a i = Some b \<Longrightarrow> \<exists>s. (s, i) \<in> st_members a"
  shows "spec_wf a"
  using assms unfolding spec_wf_def by (simp add: option.distinct) blast

lemma spec_wf_put: "spec_wf a \<Longrightarrow> fresh_for b a \<Longrightarrow> spec_wf (snd (spec_put s b a))"
proof (cases "st_hash a (cb_hash b)")
  case None
  assume wf: "spec_wf a" and "fresh_for b a"
  then have fresh: "st_blocks a (cb_id b) = None" using None by (simp add: fresh_for_def)
  have other: "cb_hash c \<noteq> cb_hash b" if "st_blocks a i = Some c" for i c
    using that None spec_wfD(2) [OF wf, of "cb_hash b" i] by auto
  have res: "snd (spec_put s b a) = a\<lparr>st_blocks := (st_blocks a)(cb_id b \<mapsto> b),
       st_hash := (st_hash a)(cb_hash b \<mapsto> cb_id b), st_members := insert (s, cb_id b) (st_members a)\<rparr>"
    using None by (simp add: spec_put_def)
  show ?thesis
    unfolding res
  proof (rule spec_wfI)
    fix h i
    show "st_hash (a\<lparr>st_blocks := (st_blocks a)(cb_id b \<mapsto> b), st_hash := (st_hash a)(cb_hash b \<mapsto> cb_id b),
        st_members := insert (s, cb_id b) (st_members a)\<rparr>) h = Some i \<longleftrightarrow>
      (\<exists>c. st_blocks (a\<lparr>st_blocks := (st_blocks a)(cb_id b \<mapsto> b), st_hash := (st_hash a)(cb_hash b \<mapsto> cb_id b),
        st_members := insert (s, cb_id b) (st_members a)\<rparr>) i = Some c \<and> cb_hash c = h)"
      using spec_wfD(2) [OF wf, of h i] other [of i] fresh by auto
  qed (use wf in \<open>auto dest: spec_wfD(1,3,4) split: if_splits\<close>)
next
  case (Some i)
  assume wf: "spec_wf a" and "fresh_for b a"
  have res: "snd (spec_put s b a) = a\<lparr>st_members := insert (s, i) (st_members a)\<rparr>"
    using Some by (simp add: spec_put_def)
  have "\<exists>c. st_blocks a i = Some c" using Some spec_wfD(2) [OF wf] by auto
  then show ?thesis
    unfolding res by (intro spec_wfI) (use wf in \<open>auto simp: spec_wfD(2) dest: spec_wfD(1,3,4)\<close>)
qed

lemma spec_remove_iff [simp]:
  "st_blocks (spec_remove I a) i = Some b \<longleftrightarrow> st_blocks a i = Some b \<and> i \<notin> I"
  "st_hash (spec_remove I a) h = Some i \<longleftrightarrow> st_hash a h = Some i \<and> i \<notin> I"
  "(s, i) \<in> st_members (spec_remove I a) \<longleftrightarrow> (s, i) \<in> st_members a \<and> i \<notin> I"
  by (auto simp: spec_remove_def restrict_map_def split: option.splits if_splits)

lemma spec_leave_iff [simp]:
  "st_blocks (spec_leave s a) = st_blocks a" "st_hash (spec_leave s a) = st_hash a"
  "st_edges (spec_leave s a) = st_edges a"
  "(t, i) \<in> st_members (spec_leave s a) \<longleftrightarrow> (t, i) \<in> st_members a \<and> t \<noteq> s"
  by (auto simp: spec_leave_def)

lemma spec_wf_remove: "spec_wf a \<Longrightarrow> spec_wf (spec_remove I a)"
  by (rule spec_wfI) (auto simp: spec_wfD(2) dest: spec_wfD)

lemma spec_wf_delete: "spec_wf a \<Longrightarrow> spec_wf (snd (spec_delete i a))"
  by (simp add: spec_delete_def spec_wf_remove)

lemma spec_wf_purge:
  assumes "spec_wf a"
  shows "spec_wf (snd (spec_purge s a))"
proof -
  have "\<exists>t. (t, i) \<in> st_members (spec_leave s a)"
    if "st_blocks a i = Some b" "i \<notin> spec_orphans (spec_leave s a) (spec_session s a)" for i b
    using that spec_wfD(4) [OF assms that(1)] by (auto simp: spec_orphans_def spec_session_def)
  with assms show ?thesis
    unfolding spec_purge_def snd_conv
    by (intro spec_wfI) (auto simp: spec_wfD(2) dest: spec_wfD(1,3))
qed

lemma spec_wf_put_edge: "spec_wf a \<Longrightarrow> spec_wf (spec_put_edge e a)"
  by (simp add: spec_wf_def spec_put_edge_def)

end
