(* ===== verification/Reduce.thy ===== *)
theory Reduce
  imports Store_Spec
begin

unbundle bit_operations_syntax

text \<open>
  Reducers: \<open>llm386-core/src/reducer.rs\<close> and the three of \<open>llm386-reduce\<close>, which turn model
  output into blocks. The content hash (blake3) and the JSON parser (serde) are parameters.
\<close>

record reduction =
  rd_next_state :: "context_block option"
  rd_new_blocks :: "context_block list"
  rd_new_edges :: "edge list"

definition reduction_empty :: reduction where
  "reduction_empty = \<lparr>rd_next_state = None, rd_new_blocks = [], rd_new_edges = []\<rparr>"

definition reduction_is_empty :: "reduction \<Rightarrow> bool" where
  "reduction_is_empty r \<longleftrightarrow> rd_next_state r = None \<and> rd_new_blocks r = [] \<and> rd_new_edges r = []"

datatype reducer_error = Reducer_Failed bytes bytes | InvalidOutput bytes bytes

fun reducer_error_display :: "reducer_error \<Rightarrow> bytes" where
  "reducer_error_display (Reducer_Failed n s) = ''reducer `'' @ n @ ''` failed: '' @ s"
| "reducer_error_display (InvalidOutput n s) = ''reducer `'' @ n @ ''` rejected output: '' @ s"

record reducer =
  red_name :: bytes
  red_reduce :: "context_block option \<Rightarrow> bytes \<Rightarrow> reducer_error + reduction"

definition identity_reducer :: reducer where
  "identity_reducer = \<lparr>red_name = ''identity'', red_reduce = (\<lambda>_ _. Inr reduction_empty)\<rparr>"

section \<open>Appending the output\<close>

record append_output =
  ao_now_ms :: u64
  ao_link_to_state :: bool

definition append_output_new :: "u64 \<Rightarrow> append_output" where
  "append_output_new t = \<lparr>ao_now_ms = t, ao_link_to_state = True\<rparr>"

text \<open>The first eight bytes of a hash, read big-endian.\<close>

definition hash_prefix :: "content_hash \<Rightarrow> u64" where
  "hash_prefix h = ucast (drop_bit 192 h)"

definition block_id_from :: "u64 \<Rightarrow> content_hash \<Rightarrow> block_id" where
  "block_id_from t h = from_parts t (ucast (hash_prefix h))"

definition model_output :: "block_id list \<Rightarrow> provenance" where
  "model_output parents = \<lparr>prov_source = Some ''model-output'', prov_parents = parents, prov_labels = []\<rparr>"

definition append_reduce :: "(bytes \<Rightarrow> content_hash) \<Rightarrow> append_output \<Rightarrow> context_block option \<Rightarrow> bytes \<Rightarrow> reducer_error + reduction" where
  "append_reduce hsh ao state output =
     (if output = [] then Inr reduction_empty
      else
        let h = hsh output;
            i = block_id_from (ao_now_ms ao) h;
            linked = (case state of Some s \<Rightarrow> if ao_link_to_state ao then [cb_id s] else [] | None \<Rightarrow> [])
        in Inr \<lparr>rd_next_state = None,
             rd_new_blocks = [\<lparr>cb_id = i, cb_kind = Kind_AssistantMessage, cb_bytes = output, cb_token_counts = tc_new,
               cb_priority = f32_0, cb_created_at = ao_now_ms ao, cb_updated_at = ao_now_ms ao,
               cb_provenance = model_output linked, cb_hash = h\<rparr>],
             rd_new_edges = map (\<lambda>p. \<lparr>edge_from = i, edge_to = p, edge_kind = Parent\<rparr>) linked\<rparr>)"

definition append_reducer :: "(bytes \<Rightarrow> content_hash) \<Rightarrow> append_output \<Rightarrow> reducer" where
  "append_reducer hsh ao = \<lparr>red_name = ''append-output'', red_reduce = append_reduce hsh ao\<rparr>"

section \<open>JSON events\<close>

datatype event_kind = Ev_Fact | Ev_Plan | Ev_Summary | Ev_DocumentChunk

record event =
  ev_kind :: event_kind
  ev_body :: bytes

record json_envelope =
  je_state :: "bytes option"
  je_events :: "event list"

fun block_kind_of :: "event_kind \<Rightarrow> block_kind" where
  "block_kind_of Ev_Fact = Kind_Fact"
| "block_kind_of Ev_Plan = Kind_Plan"
| "block_kind_of Ev_Summary = Kind_Summary"
| "block_kind_of Ev_DocumentChunk = Kind_DocumentChunk"

fun kind_mask :: "block_kind \<Rightarrow> u64" where
  "kind_mask Kind_State = 0xFE"
| "kind_mask Kind_Fact = 0x01"
| "kind_mask Kind_Plan = 0x02"
| "kind_mask Kind_Summary = 0x03"
| "kind_mask Kind_DocumentChunk = 0x04"
| "kind_mask k = 0x00"

text \<open>The mask is mixed into the first, most significant, byte.\<close>

definition make_block :: "(bytes \<Rightarrow> content_hash) \<Rightarrow> block_kind \<Rightarrow> bytes \<Rightarrow> block_id list \<Rightarrow> u64 \<Rightarrow> context_block" where
  "make_block hsh kind body parents now =
     (let h = hsh body; low = hash_prefix h XOR push_bit 56 (kind_mask kind)
      in \<lparr>cb_id = from_parts now (ucast low), cb_kind = kind, cb_bytes = body, cb_token_counts = tc_new,
          cb_priority = f32_0, cb_created_at = now, cb_updated_at = now,
          cb_provenance = model_output parents, cb_hash = h\<rparr>)"

definition json_reduce ::
    "(bytes \<Rightarrow> content_hash) \<Rightarrow> (bytes \<Rightarrow> bytes + json_envelope) \<Rightarrow> u64 \<Rightarrow> context_block option \<Rightarrow> bytes \<Rightarrow>
       reducer_error + reduction" where
  "json_reduce hsh from_str now state output =
     rbind (map_err (\<lambda>e. InvalidOutput ''json-events'' (''parse: '' @ e)) (from_str (trim output))) (\<lambda>envelope.
       let parents = (case state of Some s \<Rightarrow> [cb_id s] | None \<Rightarrow> [])
       in Inr \<lparr>rd_next_state =
                 (case je_state envelope of
                    Some body \<Rightarrow> if body = [] then None else Some (make_block hsh Kind_State body parents now)
                  | None \<Rightarrow> None),
               rd_new_blocks =
                 fold (\<lambda>ev acc. if ev_body ev = [] then acc
                       else acc @ [make_block hsh (block_kind_of (ev_kind ev)) (ev_body ev) parents now])
                   (je_events envelope) [],
               rd_new_edges = []\<rparr>)"

definition json_reducer :: "(bytes \<Rightarrow> content_hash) \<Rightarrow> (bytes \<Rightarrow> bytes + json_envelope) \<Rightarrow> u64 \<Rightarrow> reducer" where
  "json_reducer hsh from_str now = \<lparr>red_name = ''json-events'', red_reduce = json_reduce hsh from_str now\<rparr>"

section \<open>What the reducers produce\<close>

text \<open>A block of model output: honest hash, output provenance, the time in the id and in both stamps.\<close>

definition output_block :: "(bytes \<Rightarrow> content_hash) \<Rightarrow> u64 \<Rightarrow> context_block option \<Rightarrow> context_block \<Rightarrow> bool" where
  "output_block hsh now state b \<longleftrightarrow>
     cb_hash b = hsh (cb_bytes b) \<and> cb_bytes b \<noteq> [] \<and>
     prov_source (cb_provenance b) = Some ''model-output'' \<and>
     prov_parents (cb_provenance b) = (case state of Some s \<Rightarrow> [cb_id s] | None \<Rightarrow> []) \<and>
     cb_created_at b = now \<and> cb_updated_at b = now \<and> unat (ts_of (cb_id b)) = unat now mod 2 ^ 48"

lemma ts_of_from_parts: "unat (ts_of (from_parts t r)) = unat t mod 2 ^ 48"
  by (simp add: unat_ts_of unat_from_parts)

lemma ts_of_make_block [simp]: "unat (ts_of (cb_id (make_block hsh k body ps now))) = unat now mod 2 ^ 48"
  by (simp only: make_block_def Let_def context_block.simps ts_of_from_parts)

lemma make_block_simps [simp]:
  "cb_kind (make_block hsh k body ps now) = k" "cb_bytes (make_block hsh k body ps now) = body"
  "cb_hash (make_block hsh k body ps now) = hsh body"
  "cb_provenance (make_block hsh k body ps now) = model_output ps"
  "cb_created_at (make_block hsh k body ps now) = now" "cb_updated_at (make_block hsh k body ps now) = now"
  by (simp_all add: make_block_def Let_def)



text \<open>Blocks of one body and different kinds have different ids.\<close>

lemma from_parts_inject:
  "from_parts t (ucast (x :: u64)) = from_parts t (ucast (y :: u64)) \<longleftrightarrow> x = y"
proof
  assume "from_parts t (ucast x) = from_parts t (ucast y)"
  then have eq: "unat (ucast x :: u128) mod 2 ^ 80 = unat (ucast y :: u128) mod 2 ^ 80"
    using unat_from_parts [of t "ucast x"] unat_from_parts [of t "ucast y"] by simp
  have low: "unat (ucast z :: u128) mod 2 ^ 80 = unat z" for z :: u64
  proof -
    have z: "unat z < 2 ^ 64" using unat_lt_max [of z] by simp
    have "unat z < 2 ^ 128" by (rule less_le_trans [OF z]) (rule power_increasing; simp)
    then have "unat (ucast z :: u128) = unat z"
      by (simp add: unsigned_ucast_eq take_bit_nat_eq_self)
    moreover have "unat z < 2 ^ 80" by (rule less_le_trans [OF z]) (rule power_increasing; simp)
    ultimately show ?thesis by (simp only: mod_less)
  qed
  from eq have "unat x = unat y" by (simp only: low)
  then show "x = y" by (rule unsigned_word_eqI)
qed simp

lemma xor_cancel: "(a :: u64) XOR b = a XOR c \<longleftrightarrow> b = c"
proof
  assume "a XOR b = a XOR c"
  then have "a XOR (a XOR b) = a XOR (a XOR c)" by (rule arg_cong)
  then show "b = c" by (simp flip: xor.assoc)
qed simp

lemma make_block_id_kind:
  assumes "k \<in> {Kind_State, Kind_Fact, Kind_Plan, Kind_Summary, Kind_DocumentChunk}"
    and "l \<in> {Kind_State, Kind_Fact, Kind_Plan, Kind_Summary, Kind_DocumentChunk}"
  shows "cb_id (make_block hsh k body ps now) = cb_id (make_block hsh l body qs now) \<longleftrightarrow> k = l"
proof -
  have "cb_id (make_block hsh k body ps now) = cb_id (make_block hsh l body qs now) \<longleftrightarrow>
      (push_bit 56 (kind_mask k) :: u64) = push_bit 56 (kind_mask l)"
    by (simp add: make_block_def Let_def from_parts_inject xor_cancel)
  also have "\<dots> \<longleftrightarrow> k = l"
    using assms by auto
  finally show ?thesis .
qed

text \<open>
  Two events with the same body and different kinds are two blocks with two ids, but a store
  that receives both keeps only the first: the second put finds the content hash and returns
  the id of the first block, whose kind it keeps.
\<close>

lemma json_events_same_body_collapse:
  assumes "b = make_block hsh (block_kind_of k) body ps now"
    and "c = make_block hsh (block_kind_of l) body ps now" and "k \<noteq> l"
    and "st_hash a (hsh body) = None"
  shows "cb_id b \<noteq> cb_id c \<and>
    fst (spec_put s c (snd (spec_put s b a))) = cb_id b \<and>
    st_blocks (snd (spec_put s c (snd (spec_put s b a)))) (cb_id b) = Some b \<and>
    (st_blocks a (cb_id c) = None \<longrightarrow> st_blocks (snd (spec_put s c (snd (spec_put s b a)))) (cb_id c) = None)"
proof -
  have "cb_id b \<noteq> cb_id c"
    unfolding assms(1,2) using assms(3) by (subst make_block_id_kind) (cases k; cases l; simp)+
  moreover have "cb_hash b = hsh body" "cb_hash c = hsh body" by (simp_all add: assms(1,2))
  ultimately show ?thesis using assms(4) by (simp add: spec_put_def)
qed

text \<open>
  Appending output makes at most one block, an assistant message with the output as its
  bytes, and links it to the state it has as its parent, if any.
\<close>

lemma append_reduce_spec:
  assumes "output \<noteq> []"
  shows "\<exists>b. append_reduce hsh ao state output =
      Inr \<lparr>rd_next_state = None, rd_new_blocks = [b],
        rd_new_edges = map (\<lambda>p. \<lparr>edge_from = cb_id b, edge_to = p, edge_kind = Parent\<rparr>)
          (prov_parents (cb_provenance b))\<rparr> \<and>
    cb_kind b = Kind_AssistantMessage \<and> cb_bytes b = output \<and>
    output_block hsh (ao_now_ms ao) (if ao_link_to_state ao then state else None) b"
  using assms
  by (auto simp: append_reduce_def Let_def output_block_def model_output_def block_id_from_def
      ts_of_from_parts split: option.splits)



lemma json_events_same_body_collapse_witness:
  "fst (spec_put 1 (make_block (\<lambda>_. 7) Kind_Plan ''x'' [] 5)
     (snd (spec_put 1 (make_block (\<lambda>_. 7) Kind_Fact ''x'' [] 5) spec_empty))) =
   cb_id (make_block (\<lambda>_. 7) Kind_Fact ''x'' [] 5)"
  using json_events_same_body_collapse [OF refl refl, where k = Ev_Fact and l = Ev_Plan and a = spec_empty
      and hsh = "\<lambda>_. 7" and body = "''x''" and ps = "[]" and now = 5 and s = 1]
  by (simp add: spec_empty_def)

lemma append_reduce_spec_witness:
  "\<exists>r. append_reduce (\<lambda>_. 7) (append_output_new 5) None ''x'' = Inr r \<and> length (rd_new_blocks r) = 1"
  using append_reduce_spec [of "''x''" "\<lambda>_. 7" "append_output_new 5" None] by auto

end
