(* ===== verification/Diff.thy ===== *)
theory Diff
  imports Core_Types
begin

text \<open>
  \<open>llm386-diff/src/lib.rs\<close>: what changed between two plans. A \<open>HashMap\<close> is the sorted list of
  its entries; the order in which it is walked is a parameter, and the results do not depend on it.
\<close>

record diff_entry =
  de_block_id :: block_id
  de_reason_prev :: "selection_reason option"
  de_reason_next :: "selection_reason option"

record prompt_diff =
  pd_added :: "diff_entry list"
  pd_removed :: "diff_entry list"
  pd_kept :: "diff_entry list"
  pd_token_delta :: int

definition reason_changed :: "diff_entry \<Rightarrow> bool" where
  "reason_changed e \<longleftrightarrow> de_reason_prev e \<noteq> de_reason_next e"

definition is_noop :: "prompt_diff \<Rightarrow> bool" where
  "is_noop d \<longleftrightarrow> pd_added d = [] \<and> pd_removed d = [] \<and> (\<forall>e \<in> set (pd_kept d). \<not> reason_changed e)"

definition dec_plus :: "int \<Rightarrow> bytes" where
  "dec_plus n = (if n < 0 then dec_signed n else ''+'' @ dec (nat n))"

definition diff_summary :: "prompt_diff \<Rightarrow> bytes" where
  "diff_summary d =
     ''+'' @ dec (length (pd_added d)) @ '' -'' @ dec (length (pd_removed d)) @ '' ~'' @
     dec (length (filter reason_changed (pd_kept d))) @ '' ('' @ dec_plus (pd_token_delta d) @ '' tokens)''"

type_synonym reasons = "(block_id, selection_reason) btree"

definition reasons_by_id :: "page_plan \<Rightarrow> reasons" where
  "reasons_by_id plan =
     (if pp_selections plan = []
      then fold (\<lambda>i. bt_insert i HighRelevance) (pp_selected plan) []
      else
        let m = fold (\<lambda>s. bt_insert (sel_block_id s) (sel_reason s)) (pp_selections plan) []
        in fold (\<lambda>i m. case bt_get m i of None \<Rightarrow> bt_insert i HighRelevance m | Some _ \<Rightarrow> m)
             (pp_selected plan) m)"

definition token_delta :: "token_count \<Rightarrow> token_count \<Rightarrow> int" where
  "token_delta prev next' = uint next' - uint prev"

definition diff_next :: "reasons \<Rightarrow> block_id \<times> selection_reason \<Rightarrow> diff_entry list \<times> diff_entry list \<Rightarrow>
    diff_entry list \<times> diff_entry list" where
  "diff_next prev_reasons e acc =
     (case bt_get prev_reasons (fst e) of
        Some r \<Rightarrow> (fst acc @ [\<lparr>de_block_id = fst e, de_reason_prev = Some r, de_reason_next = Some (snd e)\<rparr>], snd acc)
      | None \<Rightarrow> (fst acc, snd acc @ [\<lparr>de_block_id = fst e, de_reason_prev = None, de_reason_next = Some (snd e)\<rparr>]))"

definition diff_prev :: "reasons \<Rightarrow> block_id \<times> selection_reason \<Rightarrow> diff_entry list \<Rightarrow> diff_entry list" where
  "diff_prev next_reasons e removed =
     (if bt_get next_reasons (fst e) = None
      then removed @ [\<lparr>de_block_id = fst e, de_reason_prev = Some (snd e), de_reason_next = None\<rparr>]
      else removed)"

definition diff_plans :: "(reasons \<Rightarrow> reasons) \<Rightarrow> page_plan \<Rightarrow> page_plan \<Rightarrow> prompt_diff" where
  "diff_plans ord prev next' =
     (let prev_reasons = reasons_by_id prev; next_reasons = reasons_by_id next';
          (kept, added) = fold (diff_next prev_reasons) (ord next_reasons) ([], []);
          removed = fold (diff_prev next_reasons) (ord prev_reasons) []
      in \<lparr>pd_added = sort_by_key de_block_id added, pd_removed = sort_by_key de_block_id removed,
          pd_kept = sort_by_key de_block_id kept,
          pd_token_delta = token_delta (pp_estimated_tokens prev) (pp_estimated_tokens next')\<rparr>)"

section \<open>What a diff holds\<close>

definition reason_of :: "page_plan \<Rightarrow> block_id \<rightharpoonup> selection_reason" where
  "reason_of plan = bt_get (reasons_by_id plan)"

lemma bt_sorted_fold: "(\<And>x m. bt_sorted m \<Longrightarrow> bt_sorted (f x m)) \<Longrightarrow> bt_sorted m \<Longrightarrow> bt_sorted (fold f xs m)"
  by (induction xs arbitrary: m) auto

lemma reasons_sorted: "bt_sorted (reasons_by_id plan)"
  unfolding reasons_by_id_def Let_def
  by (auto intro!: bt_sorted_fold bt_sorted_insert split: option.splits)

lemma keys_fold:
  assumes "\<And>x m. fst ` set (f x m) = insert (g x) (fst ` set m)"
  shows "fst ` set (fold f xs m) = fst ` set m \<union> g ` set xs"
  by (induction xs arbitrary: m) (auto simp: assms)

lemma bt_get_keys: "bt_get m i = None \<longleftrightarrow> i \<notin> fst ` set m"
  by (simp add: bt_get_def map_of_eq_None_iff)

text \<open>The reasons cover the selected ids and the ids of the selections.\<close>

lemma dom_reason_of:
  "dom (reason_of plan) = set (pp_selected plan) \<union> sel_block_id ` set (pp_selections plan)"
proof -
  have "fst ` set (reasons_by_id plan) = set (pp_selected plan) \<union> sel_block_id ` set (pp_selections plan)"
  proof (cases "pp_selections plan = []")
    case True
    then show ?thesis
      using keys_fold [of "\<lambda>i. bt_insert i HighRelevance" "\<lambda>i. i" "pp_selected plan" "[]"]
      by (simp add: reasons_by_id_def set_keys_bt_insert)
  next
    case False
    let ?m = "fold (\<lambda>s. bt_insert (sel_block_id s) (sel_reason s)) (pp_selections plan) []"
    let ?f = "\<lambda>i m. case bt_get m i of None \<Rightarrow> bt_insert i HighRelevance m | Some _ \<Rightarrow> m"
    have "fst ` set (?f i m) = insert i (fst ` set m)" for i m
      using bt_get_keys [of m i] by (auto simp: set_keys_bt_insert split: option.splits)
    from keys_fold [of ?f "\<lambda>i. i", OF this]
    have "fst ` set (fold ?f (pp_selected plan) ?m) = fst ` set ?m \<union> set (pp_selected plan)" by simp
    moreover have "fst ` set ?m = sel_block_id ` set (pp_selections plan)"
      using keys_fold [of "\<lambda>s. bt_insert (sel_block_id s) (sel_reason s)" sel_block_id "pp_selections plan" "[]"]
      by (simp add: set_keys_bt_insert)
    ultimately show ?thesis using False by (auto simp: reasons_by_id_def)
  qed
  then show ?thesis
    unfolding reason_of_def dom_def by (auto simp: bt_get_keys)
qed

definition entry_of :: "page_plan \<Rightarrow> page_plan \<Rightarrow> block_id \<Rightarrow> diff_entry" where
  "entry_of prev next' i = \<lparr>de_block_id = i, de_reason_prev = reason_of prev i, de_reason_next = reason_of next' i\<rparr>"

lemma de_block_id_entry_of [simp]: "de_block_id (entry_of p n i) = i"
  by (simp add: entry_of_def)

lemma fold_diff_next:
  assumes "\<And>e. e \<in> set es \<Longrightarrow> reason_of n (fst e) = Some (snd e)"
  shows "fold (diff_next (reasons_by_id p)) es (k, a) =
    (k @ map (entry_of p n) (filter (\<lambda>i. reason_of p i \<noteq> None) (map fst es)),
     a @ map (entry_of p n) (filter (\<lambda>i. reason_of p i = None) (map fst es)))"
  using assms
proof (induction es arbitrary: k a)
  case (Cons e es)
  then show ?case
    by (cases "reason_of p (fst e)") (simp_all add: diff_next_def entry_of_def flip: reason_of_def)
qed simp

lemma fold_diff_prev:
  assumes "\<And>e. e \<in> set es \<Longrightarrow> reason_of p (fst e) = Some (snd e)"
  shows "fold (diff_prev (reasons_by_id n)) es r =
    r @ map (entry_of p n) (filter (\<lambda>i. reason_of n i = None) (map fst es))"
  using assms
  by (induction es arbitrary: r) (simp_all add: diff_prev_def entry_of_def flip: reason_of_def)

text \<open>Sorting entries of distinct ids by id gives the sorted list of the ids.\<close>

lemma sort_entries:
  assumes "set is' = I" "distinct is'"
  shows "sort_by_key de_block_id (map (entry_of p n) is') = map (entry_of p n) (sorted_list_of_set I)"
proof -
  have I: "finite I" using assms(1) by auto
  have "mset (map (entry_of p n) is') = mset (map (entry_of p n) (sorted_list_of_set I))"
    using assms I by (metis mset_map set_eq_iff_mset_eq_distinct distinct_sorted_list_of_set set_sorted_list_of_set)
  moreover have "inj_on de_block_id (set (map (entry_of p n) is'))"
    by (auto intro: inj_onI)
  ultimately have "sort_by_key de_block_id (map (entry_of p n) is') =
      sort_by_key de_block_id (map (entry_of p n) (sorted_list_of_set I))"
    by (rule sort_by_key_perm)
  also have "\<dots> = map (entry_of p n) (sorted_list_of_set I)"
  proof (rule sorted_wrt_unique [where R = "\<lambda>a b. de_block_id a \<le> de_block_id b"])
    show "sorted_wrt (\<lambda>a b. de_block_id a \<le> de_block_id b) (sort_by_key de_block_id (map (entry_of p n) (sorted_list_of_set I)))"
      using sorted_sort_by_key [of de_block_id] by (simp only: sorted_map)
    show "sorted_wrt (\<lambda>a b. de_block_id a \<le> de_block_id b) (map (entry_of p n) (sorted_list_of_set I))"
      by (simp add: sorted_wrt_map)
  qed auto
  finally show ?thesis .
qed

text \<open>
  C30: the diff of two plans, whatever the order of hash maps: added, removed and kept are the
  blocks only in the next plan, only in the previous one and in both, each in ascending order
  of ids with the reason it has in each plan, and the token delta is the exact difference.
\<close>

theorem diff_plans_spec:
  assumes "\<And>m. mset (ord m) = mset m"
  shows "diff_plans ord p n =
    \<lparr>pd_added = map (entry_of p n) (sorted_list_of_set (dom (reason_of n) - dom (reason_of p))),
     pd_removed = map (entry_of p n) (sorted_list_of_set (dom (reason_of p) - dom (reason_of n))),
     pd_kept = map (entry_of p n) (sorted_list_of_set (dom (reason_of p) \<inter> dom (reason_of n))),
     pd_token_delta = int (unat (pp_estimated_tokens n)) - int (unat (pp_estimated_tokens p))\<rparr>"
proof -
  have ents: "reason_of q (fst e) = Some (snd e)" if "e \<in> set (ord (reasons_by_id q))" for e q
  proof -
    have "set (ord (reasons_by_id q)) = set (reasons_by_id q)" using assms by (metis set_mset_mset)
    with that show ?thesis
      using bt.mem_entries [OF reasons_sorted, of "fst e" "snd e" q] by (simp add: reason_of_def)
  qed
  have ids: "set (map fst (ord (reasons_by_id q))) = dom (reason_of q) \<and> distinct (map fst (ord (reasons_by_id q)))" for q
  proof -
    have "mset (map fst (ord (reasons_by_id q))) = mset (map fst (reasons_by_id q))"
      by (simp add: assms)
    then have "set (map fst (ord (reasons_by_id q))) = fst ` set (reasons_by_id q)"
      "distinct (map fst (ord (reasons_by_id q))) = distinct (map fst (reasons_by_id q))"
      by (metis set_map set_mset_mset) (metis \<open>mset (map fst (ord (reasons_by_id q))) = mset (map fst (reasons_by_id q))\<close> mset_eq_imp_distinct_iff)
    then show ?thesis
      using bt_sorted_distinct [OF reasons_sorted [of q]] by (auto simp: reason_of_def dom_def bt_get_keys)
  qed
  let ?ni = "map fst (ord (reasons_by_id n))" and ?pi = "map fst (ord (reasons_by_id p))"
  have "sort_by_key de_block_id (map (entry_of p n) (filter (\<lambda>i. reason_of p i = None) ?ni)) =
      map (entry_of p n) (sorted_list_of_set (dom (reason_of n) - dom (reason_of p)))"
    "sort_by_key de_block_id (map (entry_of p n) (filter (\<lambda>i. reason_of p i \<noteq> None) ?ni)) =
      map (entry_of p n) (sorted_list_of_set (dom (reason_of p) \<inter> dom (reason_of n)))"
    "sort_by_key de_block_id (map (entry_of p n) (filter (\<lambda>i. reason_of n i = None) ?pi)) =
      map (entry_of p n) (sorted_list_of_set (dom (reason_of p) - dom (reason_of n)))"
    using ids [of n] ids [of p] by (intro sort_entries; auto)+
  then show ?thesis
    by (simp add: diff_plans_def Let_def fold_diff_next [OF ents] fold_diff_prev [OF ents] token_delta_def)
qed

text \<open>
  A diff is a no-op exactly when both plans give the same blocks the same reasons; the order
  of the plans' lists does not matter.
\<close>

lemma diff_noop_iff:
  assumes "\<And>m. mset (ord m) = mset m"
  shows "is_noop (diff_plans ord p n) \<longleftrightarrow> reason_of p = reason_of n"
proof -
  have fin: "finite (dom (reason_of q))" for q by (simp add: dom_reason_of)
  have "is_noop (diff_plans ord p n) \<longleftrightarrow>
      dom (reason_of n) - dom (reason_of p) = {} \<and> dom (reason_of p) - dom (reason_of n) = {} \<and>
      (\<forall>i \<in> dom (reason_of p) \<inter> dom (reason_of n). reason_of p i = reason_of n i)"
    using fin [of p] fin [of n]
    by (simp add: diff_plans_spec [OF assms] is_noop_def reason_changed_def entry_of_def)
  also have "\<dots> \<longleftrightarrow> reason_of p = reason_of n"
  proof
    assume h: "dom (reason_of n) - dom (reason_of p) = {} \<and> dom (reason_of p) - dom (reason_of n) = {} \<and>
      (\<forall>i \<in> dom (reason_of p) \<inter> dom (reason_of n). reason_of p i = reason_of n i)"
    show "reason_of p = reason_of n"
    proof
      fix i
      show "reason_of p i = reason_of n i"
      proof (cases "i \<in> dom (reason_of p)")
        case True
        with h show ?thesis by blast
      next
        case False
        with h have "i \<notin> dom (reason_of n)" by blast
        with False show ?thesis by (simp add: domIff)
      qed
    qed
  qed simp
  finally show ?thesis .
qed

section \<open>Two plans\<close>

definition demo_selection :: "block_id \<Rightarrow> selection_reason \<Rightarrow> selection" where
  "demo_selection i r = \<lparr>sel_block_id = i, sel_score = f32_0, sel_reason = r, sel_note = None\<rparr>"

definition demo_prev :: page_plan where
  "demo_prev = \<lparr>pp_selected = [1, 2], pp_selections = [demo_selection 1 Pinned, demo_selection 2 Recency],
     pp_omitted = [], pp_estimated_tokens = 18\<rparr>"

definition demo_next :: page_plan where
  "demo_next = \<lparr>pp_selected = [3, 1], pp_selections = [demo_selection 3 Recency, demo_selection 1 HighRelevance],
     pp_omitted = [], pp_estimated_tokens = 11\<rparr>"

lemmas demo_diff = demo_prev_def demo_next_def demo_selection_def reasons_by_id_def reason_of_def bt_get_def

theorem diff_plans_spec_witness:
  "diff_plans rev demo_prev demo_next =
    \<lparr>pd_added = [\<lparr>de_block_id = 3, de_reason_prev = None, de_reason_next = Some Recency\<rparr>],
     pd_removed = [\<lparr>de_block_id = 2, de_reason_prev = Some Recency, de_reason_next = None\<rparr>],
     pd_kept = [\<lparr>de_block_id = 1, de_reason_prev = Some Pinned, de_reason_next = Some HighRelevance\<rparr>],
     pd_token_delta = -7\<rparr>"
proof -
  have d: "dom (reason_of demo_prev) = {1, 2}" "dom (reason_of demo_next) = {1, 3}"
    by (auto simp: dom_reason_of demo_prev_def demo_next_def demo_selection_def)
  have s: "sorted_list_of_set ({1, 3} - {1, 2 :: block_id}) = [3]" "sorted_list_of_set ({1, 2} - {1, 3 :: block_id}) = [2]"
    "sorted_list_of_set ({1, 2} \<inter> {1, 3 :: block_id}) = [1]"
    by (simp_all add: insert_Diff_if Int_insert_left)
  show ?thesis
    unfolding diff_plans_spec [of rev demo_prev demo_next, OF mset_rev] d s
    by (simp add: entry_of_def demo_diff)
qed

lemma diff_noop_iff_witness:
  "\<not> is_noop (diff_plans rev demo_prev demo_next) \<and> is_noop (diff_plans rev demo_next demo_next)"
proof -
  have "reason_of demo_prev 2 \<noteq> reason_of demo_next 2" by (simp add: demo_diff)
  then have "reason_of demo_prev \<noteq> reason_of demo_next" by metis
  then show ?thesis by (simp add: diff_noop_iff)
qed

end
