(* ===== verification/Iso8601.thy ===== *)
theory Iso8601
  imports Rust_Num
begin

text \<open>
  \<open>format_iso8601_utc\<close> of \<open>llm386-packer/src/simple.rs\<close>: the civil date of a day count by
  Hinnant's algorithm, over the integers (every value lies between 0 and the 64-bit input).
  The specification counts days by leap years and month lengths.
\<close>

record civil =
  cv_year :: int
  cv_month :: int
  cv_day :: int

definition civil_of_days :: "int \<Rightarrow> civil" where
  "civil_of_days days =
     (let z = days + 719468;
          era = z div 146097;
          doe = z - era * 146097;
          yoe = (doe - doe div 1460 + doe div 36524 - doe div 146096) div 365;
          y = yoe + era * 400;
          doy = doe - (365 * yoe + yoe div 4 - yoe div 100);
          mp = (5 * doy + 2) div 153;
          day = doy - (153 * mp + 2) div 5 + 1
      in if mp < 10 then \<lparr>cv_year = y, cv_month = mp + 3, cv_day = day\<rparr>
         else \<lparr>cv_year = y + 1, cv_month = mp - 9, cv_day = day\<rparr>)"

definition format_iso8601_utc :: "u64 \<Rightarrow> bytes" where
  "format_iso8601_utc ms =
     (let secs = uint ms div 1000;
          days = secs div 86400;
          s_of_day = secs mod 86400;
          hour = s_of_day div 3600;
          minute = (s_of_day div 60) mod 60;
          second = s_of_day mod 60;
          c = civil_of_days days;
          pad = (\<lambda>n x. dec_pad n (nat x))
      in pad 4 (cv_year c) @ ''-'' @ pad 2 (cv_month c) @ ''-'' @ pad 2 (cv_day c) @ ''T'' @
         pad 2 hour @ '':'' @ pad 2 minute @ '':'' @ pad 2 second @ ''Z'')"

section \<open>The calendar\<close>

definition leap :: "int \<Rightarrow> bool" where
  "leap y \<longleftrightarrow> y mod 4 = 0 \<and> (y mod 100 \<noteq> 0 \<or> y mod 400 = 0)"
fun days_before_year :: "nat \<Rightarrow> int" where
  "days_before_year 0 = 0"
| "days_before_year (Suc y) = days_before_year y + (if leap (int y) then 366 else 365)"

definition days_in_month :: "int \<Rightarrow> int \<Rightarrow> int" where
  "days_in_month y m =
     (if m = 2 then (if leap y then 29 else 28) else if m \<in> {4, 6, 9, 11} then 30 else 31)"

definition days_before_month :: "int \<Rightarrow> int \<Rightarrow> int" where
  "days_before_month y m = sum_list (map (days_in_month y) [1..m - 1])"

definition valid_date :: "civil \<Rightarrow> bool" where
  "valid_date c \<longleftrightarrow>
     0 \<le> cv_year c \<and> 1 \<le> cv_month c \<and> cv_month c \<le> 12 \<and>
     1 \<le> cv_day c \<and> cv_day c \<le> days_in_month (cv_year c) (cv_month c)"

text \<open>The number of days from 1 January of year 0; the epoch is day 719528.\<close>

definition day_number :: "civil \<Rightarrow> int" where
  "day_number c =
     days_before_year (nat (cv_year c)) + days_before_month (cv_year c) (cv_month c) + (cv_day c - 1)"

section \<open>Counting leap years\<close>

lemma div_step:
  fixes k y :: int
  assumes k: "0 < k"
  shows "(y + 1) div k = y div k + (if (y + 1) mod k = 0 then 1 else 0)"
proof -
  have eq: "y + 1 = k * (y div k) + (y mod k + 1)" by simp
  have r: "0 \<le> y mod k" "y mod k < k" using k by simp_all
  show ?thesis
  proof (cases "y mod k + 1 = k")
    case True
    have e: "y + 1 = k * (y div k + 1) + 0"
      using eq unfolding True by (simp only: distrib_left mult_1_right add_0_right)
    have "(y + 1) div k = y div k + 1" by (rule int_div_pos_eq [OF e]) (use k in simp_all)
    moreover have "(y + 1) mod k = 0" by (rule int_mod_pos_eq [OF e]) (use k in simp_all)
    ultimately show ?thesis by simp
  next
    case False
    have "(y + 1) div k = y div k" by (rule int_div_pos_eq [OF eq]) (use r False in simp_all)
    moreover have "(y + 1) mod k = y mod k + 1" by (rule int_mod_pos_eq [OF eq]) (use r False in simp_all)
    ultimately show ?thesis using r by simp
  qed
qed

lemma leap_count:
  fixes a b c a' b' c' :: int
  assumes "a' = a + (if p then 1 else 0)" "b' = b + (if q then 1 else 0)" "c' = c + (if r then 1 else 0)"
    and "q \<Longrightarrow> p" "r \<Longrightarrow> q"
  shows "a' - b' + c' = a - b + c + (if p \<and> (\<not> q \<or> r) then 1 else 0)"
  using assms by (cases p; cases q; cases r) simp_all

lemma leap_step:
  "(y + 1) div 4 - (y + 1) div 100 + (y + 1) div 400 =
     y div 4 - y div 100 + y div 400 + (if leap (y + 1) then 1 else 0)"
  unfolding leap_def
proof (rule leap_count)
  show "(y + 1) mod 100 = 0 \<Longrightarrow> (y + 1) mod 4 = 0"
    using mod_mod_cancel [of 4 100 "y + 1"] by simp
  show "(y + 1) mod 400 = 0 \<Longrightarrow> (y + 1) mod 100 = 0"
    using mod_mod_cancel [of 100 400 "y + 1"] by simp
qed (rule div_step; simp)+

lemma days_before_year_leap:
  "days_before_year n + (if leap (int n) then 1 else 0) =
     365 * int n + (int n div 4 - int n div 100 + int n div 400) + 1"
proof (induction n)
  case 0
  then show ?case by (simp add: leap_def)
next
  case (Suc n)
  define k where "k = int n div 4 - int n div 100 + int n div 400"
  have n1: "int (Suc n) = int n + 1" by simp
  show ?case
    using Suc unfolding days_before_year.simps n1 leap_step k_def [symmetric]
    by (simp split: if_splits)
qed

definition year_start :: "int \<Rightarrow> int" where
  "year_start y = 365 * y + y div 4 - y div 100"

definition yoe_num :: "int \<Rightarrow> int" where
  "yoe_num doe = doe - doe div 1460 + doe div 36524 - doe div 146096"

text \<open>
  A day of an era as century, four-year cycle, year of the cycle and day of the year: only
  the last year of a cycle has a day 365, and the last century of an era has a last such day.
\<close>

lemma yoe_value:
  fixes c q s d :: int
  assumes "0 \<le> c" "c \<le> 3" "0 \<le> q" "q \<le> 24" "0 \<le> s" "s \<le> 3" "0 \<le> d"
    and "d \<le> 364 \<or> s = 3 \<and> d = 365" "q = 24 \<and> s = 3 \<and> d = 365 \<longrightarrow> c = 3"
  shows "yoe_num (36524 * c + 1461 * q + 365 * s + d) div 365 = 100 * c + 4 * q + s"
proof -
  let ?doe = "36524 * c + 1461 * q + 365 * s + d"
  let ?k = "if 1460 \<le> 24 * c + q + 365 * s + d then 1 else (0 :: int)"
  let ?l = "if q = 24 \<and> s = 3 \<and> d = 365 then 1 else (0 :: int)"
  have "?doe div 1460 = 25 * c + q + ?k"
    by (rule int_div_pos_eq [where r = "24 * c + q + 365 * s + d - 1460 * ?k"]) (use assms in auto)
  moreover have "?doe div 36524 = c + ?l"
    by (rule int_div_pos_eq [where r = "1461 * q + 365 * s + d - 36524 * ?l"]) (use assms in auto)
  moreover have "?doe div 146096 = ?l"
    by (rule int_div_pos_eq [where r = "?doe - 146096 * ?l"]) (use assms in auto)
  ultimately have num: "yoe_num ?doe = 365 * (100 * c + 4 * q + s) + (d - ?k)"
    by (simp add: yoe_num_def)
  show ?thesis
    by (rule int_div_pos_eq [OF num]) (use assms in auto)
qed

lemma era_day:
  assumes "0 \<le> doe" "doe < 146097"
  obtains c q s d :: int where "doe = 36524 * c + 1461 * q + 365 * s + d"
    "0 \<le> c" "c \<le> 3" "0 \<le> q" "q \<le> 24" "0 \<le> s" "s \<le> 3" "0 \<le> d"
    "d \<le> 364 \<or> s = 3 \<and> d = 365" "q = 24 \<and> s = 3 \<and> d = 365 \<longrightarrow> c = 3"
proof -
  define c where "c = min 3 (doe div 36524)"
  define e where "e = doe - 36524 * c"
  define q where "q = e div 1461"
  define f where "f = e - 1461 * q"
  define s where "s = min 3 (f div 365)"
  define d where "d = f - 365 * s"
  have dm: "doe = 36524 * (doe div 36524) + doe mod 36524" "0 \<le> doe mod 36524" "doe mod 36524 < 36524"
    by simp_all
  have c: "0 \<le> c" "c \<le> 3" "0 \<le> e" "e \<le> 36524" "e = 36524 \<Longrightarrow> c = 3"
    using dm assms by (auto simp: c_def e_def min_def pos_imp_zdiv_nonneg_iff split: if_splits)
  have em: "e = 1461 * q + e mod 1461" "0 \<le> e mod 1461" "e mod 1461 < 1461" by (simp_all add: q_def)
  have q: "0 \<le> q" "q \<le> 24" "0 \<le> f" "f \<le> 1460" using em c by (simp_all add: f_def)
  have fm: "f = 365 * (f div 365) + f mod 365" "0 \<le> f mod 365" "f mod 365 < 365" by simp_all
  have s: "0 \<le> s" "s \<le> 3" "0 \<le> d" "d \<le> 364 \<or> s = 3 \<and> d = 365"
    using fm q by (auto simp: s_def d_def min_def split: if_splits)
  have "doe = 36524 * c + 1461 * q + 365 * s + d" by (simp add: d_def f_def e_def)
  moreover have "q = 24 \<and> s = 3 \<and> d = 365 \<longrightarrow> c = 3"
    using c(5) by (auto simp: d_def f_def)
  ultimately show thesis using that c(1,2) q(1,2) s by blast
qed

lemma year_of_era:
  assumes "0 \<le> doe" "doe < 146097"
  obtains y where "yoe_num doe div 365 = y" "0 \<le> y" "y \<le> 399" "year_start y \<le> doe"
    "doe - year_start y \<le> 364 \<or> doe - year_start y = 365 \<and> leap (y + 1)"
proof -
  obtain c q s d where d: "doe = 36524 * c + 1461 * q + 365 * s + d"
    "0 \<le> c" "c \<le> 3" "0 \<le> q" "q \<le> 24" "0 \<le> s" "s \<le> 3" "0 \<le> d"
    "d \<le> 364 \<or> s = 3 \<and> d = 365" "q = 24 \<and> s = 3 \<and> d = 365 \<longrightarrow> c = 3"
    by (rule era_day [OF assms])
  let ?y = "100 * c + 4 * q + s"
  have d4: "?y div 4 = 25 * c + q" by (rule int_div_pos_eq [where r = s]) (use d in simp_all)
  have "?y div 100 = c" by (rule int_div_pos_eq [where r = "4 * q + s"]) (use d in simp_all)
  with d4 have ys: "year_start ?y = doe - d" by (simp add: year_start_def d(1))
  have "leap (?y + 1)" if "s = 3" "d = 365"
  proof (cases "q = 24")
    case True
    with that d(10) show ?thesis by (simp add: leap_def)
  next
    case False
    have "(?y + 1) mod 4 = 0" using that by simp
    moreover have "(?y + 1) mod 100 = 4 * q + 4"
      by (rule int_mod_pos_eq [where q = c]) (use that d False in simp_all)
    ultimately show ?thesis using d(4) by (simp add: leap_def)
  qed
  with d(9) ys show thesis
    using yoe_value [OF d(2-10)] d by (intro that [of ?y]) auto
qed

text \<open>The month and day of each day of a year that begins in March.\<close>

definition month_off :: "int \<Rightarrow> int" where
  "month_off mp = (153 * mp + 2) div 5"

definition month_len :: "int \<Rightarrow> int" where
  "month_len mp = (if mp \<in> {1, 3, 6, 8} then 30 else if mp = 11 then 28 else 31)"

lemma month_cases:
  fixes mp :: int
  assumes "0 \<le> mp" "mp \<le> 11"
  shows "mp = 0 \<or> mp = 1 \<or> mp = 2 \<or> mp = 3 \<or> mp = 4 \<or> mp = 5 \<or> mp = 6 \<or> mp = 7 \<or> mp = 8 \<or> mp = 9 \<or> mp = 10 \<or> mp = 11"
  using assms by presburger

lemma month_of_day:
  assumes "0 \<le> doy" "doy \<le> 365" "mp = (5 * doy + 2) div 153"
  shows "0 \<le> mp \<and> mp \<le> 11 \<and> month_off mp \<le> doy \<and>
    doy - month_off mp < month_len mp + (if doy = 365 then 1 else 0)"
proof -
  have m: "5 * doy + 2 = 153 * mp + (5 * doy + 2) mod 153" "0 \<le> (5 * doy + 2) mod 153" "(5 * doy + 2) mod 153 < 153"
    by (simp_all add: assms(3))
  then have b: "153 * mp \<le> 5 * doy + 2" "5 * doy + 2 < 153 * mp + 153" by linarith+
  then have r: "0 \<le> mp" "mp \<le> 11" using assms(1,2) by linarith+
  from month_cases [OF r] b assms(2) r show ?thesis
    by (elim disjE) (simp_all add: month_off_def month_len_def)
qed

text \<open>The first of March, by which the algorithm counts.\<close>

lemma days_before_march:
  assumes "0 \<le> y" "y \<le> 399" "0 \<le> era"
  shows "days_before_year (nat (y + 400 * era)) + (if leap (y + 400 * era) then 1 else 0) =
      146097 * era + year_start y + 1"
    and "days_before_year (nat (y + 400 * era + 1)) = 146097 * era + year_start y + 366"
proof -
  let ?Y = "y + 400 * era"
  have n: "int (nat ?Y) = ?Y" using assms by simp
  have d: "?Y div 4 = y div 4 + 100 * era" "?Y div 100 = y div 100 + 4 * era" "?Y div 400 = era"
    using assms by (simp_all add: algebra_simps)
  have one: "days_before_year (nat ?Y) + (if leap ?Y then 1 else 0) = 146097 * era + year_start y + 1"
    using days_before_year_leap [of "nat ?Y"] unfolding n d year_start_def by simp
  then show "days_before_year (nat ?Y) + (if leap ?Y then 1 else 0) = 146097 * era + year_start y + 1" .
  have "nat (?Y + 1) = Suc (nat ?Y)" using assms by simp
  then have "days_before_year (nat (?Y + 1)) = days_before_year (nat ?Y) + (if leap ?Y then 366 else 365)"
    by (simp only: days_before_year.simps n)
  with one show "days_before_year (nat (?Y + 1)) = 146097 * era + year_start y + 366"
    by (simp split: if_splits)
qed

lemma leap_period: "leap (y + 400 * k) = leap y"
proof -
  have "(y + 400 * k) mod 4 = y mod 4" "(y + 400 * k) mod 100 = y mod 100"
    using mod_mult_self2 [of y 4 "100 * k"] mod_mult_self2 [of y 100 "4 * k"] by simp_all
  then show ?thesis by (simp add: leap_def)
qed

lemma upto_month:
  "days_before_month y m = (if leap y then 1 else 0) +
     (if m = 3 then 59 else if m = 4 then 90 else if m = 5 then 120 else if m = 6 then 151
      else if m = 7 then 181 else if m = 8 then 212 else if m = 9 then 243 else if m = 10 then 273
      else if m = 11 then 304 else 334)"
  if "m \<in> {3, 4, 5, 6, 7, 8, 9, 10, 11, 12}"
  using that by (elim insertE emptyE) (simp_all add: days_before_month_def days_in_month_def upto_rec_numeral upto.simps)

lemma march_month:
  assumes "0 \<le> mp" "mp \<le> 9"
  shows "days_before_month y (mp + 3) = (if leap y then 1 else 0) + 59 + month_off mp"
    and "days_in_month y (mp + 3) = month_len mp"
proof -
  have "mp = 0 \<or> mp = 1 \<or> mp = 2 \<or> mp = 3 \<or> mp = 4 \<or> mp = 5 \<or> mp = 6 \<or> mp = 7 \<or> mp = 8 \<or> mp = 9"
    using assms by presburger
  then show "days_before_month y (mp + 3) = (if leap y then 1 else 0) + 59 + month_off mp"
    "days_in_month y (mp + 3) = month_len mp"
    by (elim disjE; simp add: upto_month month_off_def days_in_month_def month_len_def)+
qed

lemma winter_month:
  "days_before_month y 1 = 0" "days_before_month y 2 = 31" "days_in_month y 1 = 31"
  "month_off 10 = 306" "month_off 11 = 337"
  by (simp_all add: days_before_month_def days_in_month_def month_off_def)

lemma civil_of_days_correct:
  assumes "0 \<le> days"
  shows "valid_date (civil_of_days days) \<and> day_number (civil_of_days days) = days + 719528"
proof -
  define z where "z = days + 719468"
  define era where "era = z div 146097"
  define doe where "doe = z - era * 146097"
  have z: "z = 146097 * era + z mod 146097" by (simp add: era_def)
  have era: "0 \<le> era" using assms by (simp add: era_def z_def pos_imp_zdiv_nonneg_iff)
  have doe: "0 \<le> doe" "doe < 146097" using z by (simp_all add: doe_def)
  obtain y where y: "yoe_num doe div 365 = y" "0 \<le> y" "y \<le> 399" "year_start y \<le> doe"
    "doe - year_start y \<le> 364 \<or> doe - year_start y = 365 \<and> leap (y + 1)"
    by (rule year_of_era [OF doe])
  define doy where "doy = doe - year_start y"
  define mp where "mp = (5 * doy + 2) div 153"
  let ?Y = "y + 400 * era"
  have doy: "0 \<le> doy" "doy \<le> 365" "doy = 365 \<longrightarrow> leap (?Y + 1)"
    using y leap_period [of "y + 1" era] by (auto simp: doy_def algebra_simps)
  have m: "0 \<le> mp" "mp \<le> 11" "month_off mp \<le> doy" "doy - month_off mp < month_len mp + (if doy = 365 then 1 else 0)"
    using month_of_day [OF doy(1,2) mp_def] by auto
  have zd: "days + 719528 = 146097 * era + year_start y + doy + 60"
    by (simp add: doy_def doe_def z_def)
  have c: "civil_of_days days =
      (if mp < 10 then \<lparr>cv_year = ?Y, cv_month = mp + 3, cv_day = doy - month_off mp + 1\<rparr>
       else \<lparr>cv_year = ?Y + 1, cv_month = mp - 9, cv_day = doy - month_off mp + 1\<rparr>)"
  proof -
    have s1: "(doe - doe div 1460 + doe div 36524 - doe div 146096) div 365 = y"
      using y(1) by (simp only: yoe_num_def)
    have s2: "doe - (365 * y + y div 4 - y div 100) = doy"
      by (simp only: doy_def year_start_def)
    show ?thesis
      unfolding civil_of_days_def Let_def z_def [symmetric] era_def [symmetric] doe_def [symmetric]
        s1 s2 mp_def [symmetric] month_off_def mult.commute [of era 400] by (rule refl)
  qed
  note march = days_before_march [OF y(2,3) era]
  show ?thesis
  proof (cases "mp < 10")
    case True
    then have mp9: "mp \<le> 9" by simp
    note mm = march_month [OF m(1) mp9, of ?Y]
    have "doy \<noteq> 365" using True m(3,4) by (auto simp: mp_def)
    with True m mm march(1) y era zd show ?thesis
      by (simp add: c valid_date_def day_number_def)
  next
    case False
    then consider "mp = 10" | "mp = 11" using m(2) by linarith
    then show ?thesis
    proof cases
      case 1
      with m march(2) y era zd show ?thesis
        by (simp add: c valid_date_def day_number_def winter_month month_len_def split: if_splits)
    next
      case 2
      with m march(2) y era zd doy(3) show ?thesis
        by (simp add: c valid_date_def day_number_def winter_month month_len_def days_in_month_def split: if_splits)
    qed
  qed
qed

section \<open>The formatted time\<close>

text \<open>
  C40: the printed time is the right one. The fields are a valid date of the Gregorian
  calendar and a time of day, and the seconds they stand for since the epoch are those of the
  time stamp.
\<close>

theorem format_iso8601_correct:
  "\<exists>c h mi s. format_iso8601_utc ms =
       dec_pad 4 (nat (cv_year c)) @ ''-'' @ dec_pad 2 (nat (cv_month c)) @ ''-'' @
       dec_pad 2 (nat (cv_day c)) @ ''T'' @ dec_pad 2 (nat h) @ '':'' @ dec_pad 2 (nat mi) @ '':'' @
       dec_pad 2 (nat s) @ ''Z'' \<and>
     valid_date c \<and> 0 \<le> h \<and> h < 24 \<and> 0 \<le> mi \<and> mi < 60 \<and> 0 \<le> s \<and> s < 60 \<and>
     uint ms div 1000 = ((day_number c - 719528) * 24 + h) * 3600 + mi * 60 + s"
proof -
  define secs where "secs = uint ms div 1000"
  define d where "d = secs mod 86400"
  have secs: "0 \<le> secs div 86400" by (simp add: secs_def pos_imp_zdiv_nonneg_iff)
  have d: "0 \<le> d" "d < 86400" by (simp_all add: d_def)
  have hm: "d = d div 3600 * 3600 + d div 60 mod 60 * 60 + d mod 60"
  proof -
    have "d div 3600 = d div 60 div 60" using zdiv_zmult2_eq [of 60 d 60] by simp
    then show ?thesis using div_mult_mod_eq [of d 60] div_mult_mod_eq [of "d div 60" 60] by linarith
  qed
  have "secs = secs div 86400 * 86400 + d" by (simp add: d_def)
  then have sum: "secs = (secs div 86400 * 24 + d div 3600) * 3600 + d div 60 mod 60 * 60 + d mod 60"
  proof -
    have alg: "q * 86400 + (h * 3600 + m * 60 + s) = (q * 24 + h) * 3600 + m * 60 + s" for q h m s :: int
      by simp
    have "secs = secs div 86400 * 86400 + (d div 3600 * 3600 + d div 60 mod 60 * 60 + d mod 60)"
      using \<open>secs = secs div 86400 * 86400 + d\<close> hm by simp
    then show ?thesis unfolding alg .
  qed
  have h: "0 \<le> d div 3600" "d div 3600 < 24"
    using d by (simp_all add: pos_imp_zdiv_nonneg_iff)
  have mi: "0 \<le> d div 60 mod 60" "d div 60 mod 60 < 60" "0 \<le> d mod 60" "d mod 60 < 60"
    by (simp_all only: pos_mod_sign pos_mod_bound zero_less_numeral)
  let ?c = "civil_of_days (secs div 86400)"
  have num: "day_number ?c - 719528 = secs div 86400"
    using civil_of_days_correct [OF secs] by (simp only: add_diff_cancel_right')
  have str: "format_iso8601_utc ms = dec_pad 4 (nat (cv_year ?c)) @ ''-'' @ dec_pad 2 (nat (cv_month ?c)) @ ''-'' @
       dec_pad 2 (nat (cv_day ?c)) @ ''T'' @ dec_pad 2 (nat (d div 3600)) @ '':'' @
       dec_pad 2 (nat (d div 60 mod 60)) @ '':'' @ dec_pad 2 (nat (d mod 60)) @ ''Z''"
    unfolding format_iso8601_utc_def Let_def secs_def d_def ..
  show ?thesis
  proof (rule exI [of _ ?c], rule exI [of _ "d div 3600"], rule exI [of _ "d div 60 mod 60"],
      rule exI [of _ "d mod 60"], intro conjI)
    show "valid_date ?c" using civil_of_days_correct [OF secs] by (rule conjunct1)
    show "uint ms div 1000 = ((day_number ?c - 719528) * 24 + d div 3600) * 3600 + d div 60 mod 60 * 60 + d mod 60"
      unfolding num secs_def [symmetric] by (rule sum)
  qed (rule str h mi)+
qed

end
