(* ===== verification/Kv.thy ===== *)
theory Kv
  imports Core_Types
begin

text \<open>
  What the LMDB store relies on. LMDB (through the crate heed), the postcard encoding and blake3
  are not part of the repository: their operations are the fields of a record, and the locale
  \<open>lmdb\<close> states what the store uses of their documented behaviour. A table is an ordered map
  from byte strings to byte strings; every operation may fail with a text, and a failed
  transaction leaves no trace. The interpretation takes sorted lists as tables. The keys of the
  store (\<open>session_block_key\<close>, \<open>edge_key\<close> and the big-endian ids) come with the facts that
  they are injective and ordered as the ids are.
\<close>

type_synonym raw = "u8 list"

section \<open>Keys\<close>

definition id_key :: "u128 \<Rightarrow> raw" where
  "id_key i = be_bytes 16 (unat i)"

definition hash_key :: "content_hash \<Rightarrow> raw" where
  "hash_key h = be_bytes 32 (unat h)"

definition id_of_key :: "raw \<Rightarrow> u128" where
  "id_of_key bs = word_of_nat (from_be bs)"

definition session_block_key :: "session_id \<Rightarrow> block_id \<Rightarrow> raw" where
  "session_block_key s b = id_key s @ id_key b"

definition edge_key :: "block_id \<Rightarrow> u8 \<Rightarrow> block_id \<Rightarrow> raw" where
  "edge_key p k x = id_key p @ k # id_key x"

lemma length_keys [simp]:
  "length (id_key i) = 16" "length (hash_key h) = 32" "length (session_block_key s b) = 32"
  "length (edge_key p k x) = 33"
  by (simp_all add: id_key_def hash_key_def session_block_key_def edge_key_def)

lemma unat_u128_less: "unat (i :: u128) < 256 ^ 16"
  using unat_lt_max [of i] by simp

lemma unat_hash_less: "unat (h :: content_hash) < 256 ^ 32"
  using unat_lt_max [of h] by simp

lemma id_of_key_id_key [simp]: "id_of_key (id_key i) = i"
proof -
  have "from_be (id_key i) = unat i"
    using unat_u128_less [of i] by (simp only: id_key_def from_be_be_bytes mod_less)
  then show ?thesis by (simp add: id_of_key_def)
qed

lemma id_key_inject [simp]: "id_key i = id_key j \<longleftrightarrow> i = j"
  by (metis id_of_key_id_key)

lemma id_key_id_of_key: "length bs = 16 \<Longrightarrow> id_key (id_of_key bs) = bs"
proof -
  assume l: "length bs = 16"
  have "from_be bs < 2 ^ 128" using from_be_less [of bs] l by simp
  then have "unat (word_of_nat (from_be bs) :: u128) = from_be bs"
    by (simp add: unat_of_nat)
  then show ?thesis
    by (simp only: id_key_def id_of_key_def be_bytes_from_be [OF l])
qed

lemma hash_key_inject [simp]: "hash_key h = hash_key g \<longleftrightarrow> h = g"
  using be_bytes_inject [OF unat_hash_less unat_hash_less] unfolding hash_key_def by (metis unsigned_word_eqI)

lemma session_block_key_inject [simp]:
  "session_block_key s b = session_block_key t c \<longleftrightarrow> s = t \<and> b = c"
  by (simp add: session_block_key_def)

lemma edge_key_inject [simp]:
  "edge_key p k x = edge_key q l y \<longleftrightarrow> p = q \<and> k = l \<and> x = y"
  by (simp add: edge_key_def)

lemma key_parts [simp]:
  "take 16 (session_block_key s b) = id_key s" "drop 16 (session_block_key s b) = id_key b"
  "edge_key p k x ! 16 = k" "drop 17 (edge_key p k x) = id_key x"
  by (simp_all add: session_block_key_def edge_key_def nth_append)

lemma prefix_id_key [simp]:
  "prefix (id_key i) (session_block_key s b) \<longleftrightarrow> s = i"
  "prefix (id_key i) (edge_key p k x) \<longleftrightarrow> p = i"
  by (auto simp: session_block_key_def edge_key_def prefix_def append_eq_append_conv)

lemma append_less:
  fixes a b c d :: "'a::linorder list"
  shows "length a = length c \<Longrightarrow> a @ b < c @ d \<longleftrightarrow> a < c \<or> a = c \<and> b < d"
  by (induction a c rule: list_induct2) auto

lemma digits_less:
  "p < 256 \<Longrightarrow> q < 256 \<Longrightarrow> a < b \<or> a = b \<and> p < q \<longleftrightarrow> a * 256 + p < b * 256 + (q :: nat)"
  by (cases a b rule: linorder_cases) auto

lemma be_bytes_less:
  "m < 256 ^ k \<Longrightarrow> n < 256 ^ k \<Longrightarrow> be_bytes k m < be_bytes k n \<longleftrightarrow> m < n"
proof (induction k arbitrary: m n)
  case (Suc k)
  have d: "m div 256 < 256 ^ k" "n div 256 < 256 ^ k"
    using Suc.prems by (simp_all add: less_mult_imp_div_less mult.commute)
  have b: "(word_of_nat (m mod 256) :: u8) < word_of_nat (n mod 256) \<longleftrightarrow> m mod 256 < n mod 256"
    by (simp only: word_less_nat_alt unat_byte_mod)
  have "be_bytes (Suc k) m < be_bytes (Suc k) n \<longleftrightarrow>
      be_bytes k (m div 256) < be_bytes k (n div 256) \<or>
      be_bytes k (m div 256) = be_bytes k (n div 256) \<and> m mod 256 < n mod 256"
    by (simp add: append_less b)
  also have "\<dots> \<longleftrightarrow> m div 256 < n div 256 \<or> m div 256 = n div 256 \<and> m mod 256 < n mod 256"
    by (simp only: Suc.IH [OF d] be_bytes_inject [OF d])
  also have "\<dots> \<longleftrightarrow> m div 256 * 256 + m mod 256 < n div 256 * 256 + n mod 256"
    by (rule digits_less) simp_all
  also have "\<dots> \<longleftrightarrow> m < n"
    by (simp only: div_mult_mod_eq)
  finally show ?case .
qed simp

lemma id_key_less: "id_key i < id_key j \<longleftrightarrow> i < j"
  by (simp only: id_key_def be_bytes_less [OF unat_u128_less unat_u128_less] word_less_nat_alt)

lemma session_block_key_less [simp]:
  "session_block_key s b < session_block_key t c \<longleftrightarrow> s < t \<or> s = t \<and> b < c"
  by (simp add: session_block_key_def append_less id_key_less)

lemma edge_key_less [simp]:
  "edge_key p k x < edge_key q l y \<longleftrightarrow> p < q \<or> p = q \<and> (k < l \<or> k = l \<and> x < y)"
  by (simp add: edge_key_def append_less id_key_less)

section \<open>The library\<close>

type_synonym heed_error = bytes

record 't lmdb_lib =
  lib_get :: "'t \<Rightarrow> raw \<Rightarrow> heed_error + raw option"
  lib_put :: "'t \<Rightarrow> raw \<Rightarrow> raw \<Rightarrow> heed_error + 't"
  lib_delete :: "'t \<Rightarrow> raw \<Rightarrow> heed_error + 't"
  lib_clear :: "'t \<Rightarrow> heed_error + 't"
  lib_iter :: "'t \<Rightarrow> heed_error + (heed_error + raw \<times> raw) list"
  lib_prefix_iter :: "'t \<Rightarrow> raw \<Rightarrow> heed_error + (heed_error + raw \<times> raw) list"
  lib_read_txn :: "heed_error + unit"
  lib_write_txn :: "heed_error + unit"
  lib_commit :: "heed_error + unit"
  lib_encode :: "context_block \<Rightarrow> bytes + raw"
  lib_decode :: "raw \<Rightarrow> bytes + context_block"
  lib_hash :: "bytes \<Rightarrow> content_hash"

text \<open>What a walk over a table sees: the entries in key order, each unless reading it failed.\<close>

definition walk_ok :: "(raw \<rightharpoonup> raw) \<Rightarrow> (raw \<Rightarrow> bool) \<Rightarrow> (heed_error + raw \<times> raw) list \<Rightarrow> (raw \<times> raw) list \<Rightarrow> bool" where
  "walk_ok m sel es kvs \<longleftrightarrow>
     sorted_wrt (<) (map fst kvs) \<and> set kvs = {(k, v). m k = Some v \<and> sel k} \<and>
     list_all2 (\<lambda>e kv. \<forall>x. e = Inr x \<longrightarrow> x = kv) es kvs"

locale lmdb =
  fixes lib :: "'t lmdb_lib" and tab :: "'t \<Rightarrow> raw \<rightharpoonup> raw"
  assumes get_ok: "lib_get lib t k = Inr r \<Longrightarrow> r = tab t k"
    and put_ok: "lib_put lib t k v = Inr t' \<Longrightarrow> tab t' = (tab t)(k \<mapsto> v)"
    and delete_ok: "lib_delete lib t k = Inr t' \<Longrightarrow> tab t' = (tab t)(k := None)"
    and clear_ok: "lib_clear lib t = Inr t' \<Longrightarrow> tab t' = Map.empty"
    and iter_ok: "lib_iter lib t = Inr es \<Longrightarrow> \<exists>kvs. walk_ok (tab t) (\<lambda>_. True) es kvs"
    and prefix_iter_ok: "lib_prefix_iter lib t p = Inr es \<Longrightarrow> \<exists>kvs. walk_ok (tab t) (prefix p) es kvs"
    and decode_encode: "lib_encode lib b = Inr v \<Longrightarrow> lib_decode lib v = Inr b"

text \<open>A library in which nothing fails.\<close>

definition lmdb_reliable :: "'t lmdb_lib \<Rightarrow> bool" where
  "lmdb_reliable lib \<longleftrightarrow>
     (\<forall>t k. \<exists>v. lib_get lib t k = Inr v) \<and> (\<forall>t k v. \<exists>t'. lib_put lib t k v = Inr t') \<and>
     (\<forall>t k. \<exists>t'. lib_delete lib t k = Inr t') \<and> (\<forall>t. \<exists>t'. lib_clear lib t = Inr t') \<and>
     (\<forall>t. \<exists>kvs. lib_iter lib t = Inr (map Inr kvs)) \<and>
     (\<forall>t p. \<exists>kvs. lib_prefix_iter lib t p = Inr (map Inr kvs)) \<and>
     lib_read_txn lib = Inr () \<and> lib_write_txn lib = Inr () \<and> lib_commit lib = Inr ()"

section \<open>Tables as sorted lists\<close>

typedef table = "{m :: (raw \<times> raw) list. bt_sorted m}"
  by (rule exI [of _ "[]"]) simp

definition table_entries :: "table \<Rightarrow> (raw \<times> raw) list" where
  "table_entries t = Rep_table t"

definition table_empty :: table where
  "table_empty = Abs_table []"

definition table_insert :: "raw \<Rightarrow> raw \<Rightarrow> table \<Rightarrow> table" where
  "table_insert k v t = Abs_table (bt_insert k v (table_entries t))"

definition table_remove :: "raw \<Rightarrow> table \<Rightarrow> table" where
  "table_remove k t = Abs_table (bt_remove k (table_entries t))"

definition table_get :: "table \<Rightarrow> raw \<rightharpoonup> raw" where
  "table_get t k = bt_get (table_entries t) k"

lemma table_entries_sorted: "bt_sorted (table_entries t)"
  using Rep_table [of t] by (simp add: table_entries_def)

lemma table_entries_simps [simp]:
  "table_entries table_empty = []"
  "table_entries (table_insert k v t) = bt_insert k v (table_entries t)"
  "table_entries (table_remove k t) = bt_remove k (table_entries t)"
proof -
  have 1: "table_entries (Abs_table m) = m" if "bt_sorted m" for m
    using that by (simp add: Abs_table_inverse table_entries_def)
  show "table_entries table_empty = []"
    unfolding table_empty_def by (rule 1) simp
  show "table_entries (table_insert k v t) = bt_insert k v (table_entries t)"
    unfolding table_insert_def
    by (rule 1) (rule bt_sorted_insert [OF table_entries_sorted])
  show "table_entries (table_remove k t) = bt_remove k (table_entries t)"
    unfolding table_remove_def
    by (rule 1) (rule bt_sorted_remove [OF table_entries_sorted])
qed

text \<open>Blocks are encoded as their position in a given list; the blocks of no other can be stored.\<close>

fun position :: "'a \<Rightarrow> 'a list \<Rightarrow> nat option" where
  "position x [] = None"
| "position x (y # ys) = (if x = y then Some 0 else map_option Suc (position x ys))"

definition list_encode :: "context_block list \<Rightarrow> context_block \<Rightarrow> bytes + raw" where
  "list_encode bs b = ok_or ''unknown block'' (map_option (be_bytes 8) (position b bs))"

definition list_decode :: "context_block list \<Rightarrow> raw \<Rightarrow> bytes + context_block" where
  "list_decode bs r =
     (if from_be r < length bs then Inr (bs ! from_be r) else Inl ''unexpected end'')"

definition list_lib :: "context_block list \<Rightarrow> (bytes \<Rightarrow> content_hash) \<Rightarrow> table lmdb_lib" where
  "list_lib bs hsh =
     \<lparr>lib_get = (\<lambda>t k. Inr (table_get t k)), lib_put = (\<lambda>t k v. Inr (table_insert k v t)),
      lib_delete = (\<lambda>t k. Inr (table_remove k t)), lib_clear = (\<lambda>_. Inr table_empty),
      lib_iter = (\<lambda>t. Inr (map Inr (table_entries t))),
      lib_prefix_iter = (\<lambda>t p. Inr (map Inr (filter (\<lambda>e. prefix p (fst e)) (table_entries t)))),
      lib_read_txn = Inr (), lib_write_txn = Inr (), lib_commit = Inr (),
      lib_encode = (if length bs < 2 ^ 64 then list_encode bs else (\<lambda>_. Inl ''too many blocks'')),
      lib_decode = list_decode bs, lib_hash = hsh\<rparr>"

lemma table_get_simps [simp]:
  "table_get table_empty = Map.empty"
  "table_get (table_insert k v t) = (table_get t)(k \<mapsto> v)"
  "table_get (table_remove k t) = (table_get t)(k := None)"
  by (simp_all add: table_get_def [abs_def] bt_get_def map_of_bt_insert map_of_bt_remove)

lemma table_entries_mem: "(k, v) \<in> set (table_entries t) \<longleftrightarrow> table_get t k = Some v"
  by (simp add: bt.mem_entries [OF table_entries_sorted] table_get_def)

lemma walk_ok_list:
  "walk_ok (table_get t) P (map Inr (filter (\<lambda>e. P (fst e)) (table_entries t))) (filter (\<lambda>e. P (fst e)) (table_entries t))"
proof -
  have "sorted_wrt (<) (map fst (filter (\<lambda>e. P (fst e)) (table_entries t)))"
    using table_entries_sorted [of t] by (simp only: sorted_wrt_map sorted_wrt_filter)
  moreover have "set (filter (\<lambda>e. P (fst e)) (table_entries t)) = {(k, v). table_get t k = Some v \<and> P k}"
    by (auto simp: table_entries_mem)
  ultimately show ?thesis
    by (simp add: walk_ok_def list_all2_map1 list_all2_same)
qed

lemma position_Some: "position x xs = Some n \<Longrightarrow> n < length xs \<and> xs ! n = x"
  by (induction xs arbitrary: n) (auto split: if_splits)

lemma list_decode_encode:
  "length bs < 2 ^ 64 \<Longrightarrow> list_encode bs b = Inr v \<Longrightarrow> list_decode bs v = Inr b"
  by (auto simp: list_encode_def list_decode_def from_be_be_bytes dest!: position_Some)

interpretation mem: lmdb "list_lib bs hsh" table_get for bs hsh
  using walk_ok_list [of _ "\<lambda>_. True"] walk_ok_list [of _ "prefix p" for p]
  by unfold_locales (auto simp: list_lib_def list_decode_encode split: if_splits)

lemma list_lib_reliable: "lmdb_reliable (list_lib bs hsh)"
  by (auto simp: lmdb_reliable_def list_lib_def)

end
