(* ===== verification/Retrievers.thy ===== *)
theory Retrievers
  imports Core_Types
begin

text \<open>
  \<open>llm386-pager/src/retrievers.rs\<close>: the built-in retrievers over a store. Parameters stand
  for what the standard library computes: the \<open>f32\<close> functions \<open>exp2\<close> and \<open>ln\<close>, the Unicode
  tests and case mapping of text, and the order in which a \<open>HashMap\<close> is iterated.
\<close>

record text_ops =
  tx_is_alphanumeric :: "bytes \<Rightarrow> bool"
  tx_to_lowercase :: "bytes \<Rightarrow> bytes"

definition store_err :: "store_error \<Rightarrow> retrieval_error" where
  "store_err e = RetrievalFailed (''store: '' @ store_error_display e)"

definition candidate :: "block_id \<Rightarrow> f32 \<Rightarrow> bytes \<Rightarrow> retrieval_candidate" where
  "candidate i s src = \<lparr>rc_block_id = i, rc_score = s, rc_source = src\<rparr>"

definition by_score_desc :: "retrieval_candidate \<Rightarrow> retrieval_candidate \<Rightarrow> ordering" where
  "by_score_desc a b = unwrap_equal (partial_cmp (rc_score b) (rc_score a))"

section \<open>SessionRetriever\<close>

definition session_default_score :: f32 where
  "session_default_score = rnd32 (5 / 10)"

definition session_with_score :: "f32 \<Rightarrow> f32" where
  "session_with_score s = fclamp s f32_0 f32_1"

definition session_retrieve ::
    "store_view \<Rightarrow> f32 \<Rightarrow> session_id \<Rightarrow> bytes \<Rightarrow> nat \<Rightarrow> retrieval_error + retrieval_candidate list" where
  "session_retrieve st score session task limit =
     rbind (map_err store_err (sv_list_session st session)) (\<lambda>ids.
       Inr (map (\<lambda>i. candidate i score ''session'') (take limit ids)))"

definition session_retriever :: "store_view \<Rightarrow> f32 \<Rightarrow> retriever" where
  "session_retriever st score = \<lparr>ret_name = ''session'', ret_retrieve = session_retrieve st score\<rparr>"

section \<open>RecencyRetriever\<close>

definition with_half_life :: "f32 \<Rightarrow> f32 option" where
  "with_half_life h = Some (fmax h f32_0)"

definition min_ts :: "block_id list \<Rightarrow> u64" where
  "min_ts ids = fold (\<lambda>i m. min m (ts_of i)) ids (- 1)"

definition max_ts :: "block_id list \<Rightarrow> u64" where
  "max_ts ids = fold (\<lambda>i m. max m (ts_of i)) ids 0"

definition recency_score :: "(f32 \<Rightarrow> f32) \<Rightarrow> f32 option \<Rightarrow> u64 \<Rightarrow> u64 \<Rightarrow> u64 \<Rightarrow> f32" where
  "recency_score exp2 half_life lo hi ts =
     (case half_life of
        Some h_secs \<Rightarrow>
          let age_ms = nat_as_f32 (unat (sat_sub hi ts));
              half_life_ms = fmax (fmul rnd32 h_secs (Fin 1000)) f32_1
          in exp2 (fneg (fdiv rnd32 age_ms half_life_ms))
      | None \<Rightarrow>
          let span = nat_as_f32 (unat (max (sat_sub hi lo) 1))
          in fdiv rnd32 (nat_as_f32 (unat (sat_sub ts lo))) span)"

definition recency_retrieve ::
    "(f32 \<Rightarrow> f32) \<Rightarrow> store_view \<Rightarrow> f32 option \<Rightarrow> session_id \<Rightarrow> bytes \<Rightarrow> nat \<Rightarrow>
       retrieval_error + retrieval_candidate list" where
  "recency_retrieve exp2 st half_life session task limit =
     rbind (map_err store_err (sv_list_session st session)) (\<lambda>ids.
       if ids = [] then Inr []
       else
         let lo = min_ts ids; hi = max_ts ids;
             cands = map (\<lambda>i. candidate i
                       (fclamp (recency_score exp2 half_life lo hi (ts_of i)) f32_0 f32_1) ''recency'') ids
         in Inr (take limit (sort_by by_score_desc cands)))"

definition recency_retriever :: "(f32 \<Rightarrow> f32) \<Rightarrow> store_view \<Rightarrow> f32 option \<Rightarrow> retriever" where
  "recency_retriever exp2 st half_life =
     \<lparr>ret_name = ''recency'', ret_retrieve = recency_retrieve exp2 st half_life\<rparr>"

section \<open>LexicalRetriever\<close>

fun split_chars :: "(bytes \<Rightarrow> bool) \<Rightarrow> bytes list \<Rightarrow> bytes list \<Rightarrow> bytes list" where
  "split_chars sep [] acc = [concat (rev acc)]"
| "split_chars sep (c # cs) acc =
     (if sep c then concat (rev acc) # split_chars sep cs [] else split_chars sep cs (c # acc))"

definition words_of :: "text_ops \<Rightarrow> nat \<Rightarrow> bytes \<Rightarrow> bytes list" where
  "words_of tx min_word_len s =
     map (tx_to_lowercase tx)
       (filter (\<lambda>w. min_word_len \<le> length w)
         (split_chars (\<lambda>c. \<not> tx_is_alphanumeric tx c) (chars_of s) []))"

text \<open>A \<open>HashSet\<close> of words as a list without duplicates.\<close>

definition lexical_tokenize :: "text_ops \<Rightarrow> nat \<Rightarrow> bytes \<Rightarrow> bytes list" where
  "lexical_tokenize tx n s = remdups (words_of tx n s)"

definition lexical_step ::
    "text_ops \<Rightarrow> store_view \<Rightarrow> nat \<Rightarrow> bytes list \<Rightarrow> block_id \<Rightarrow> retrieval_candidate list \<Rightarrow>
       retrieval_error + retrieval_candidate list" where
  "lexical_step tx st n task_tokens i cands =
     rbind (map_err store_err (sv_get st i)) (\<lambda>ob.
       case ob of
         None \<Rightarrow> Inr cands
       | Some block \<Rightarrow>
           (case from_utf8 (cb_bytes block) of
              None \<Rightarrow> Inr cands
            | Some text \<Rightarrow>
                let block_tokens = lexical_tokenize tx n text;
                    overlap = length (filter (\<lambda>w. w \<in> set block_tokens) task_tokens)
                in if block_tokens = [] \<or> overlap = 0 then Inr cands
                   else Inr (cands @ [candidate i
                          (fclamp (fdiv rnd32 (nat_as_f32 overlap) (nat_as_f32 (length block_tokens)))
                             f32_0 f32_1) ''lexical''])))"

definition lexical_retrieve ::
    "text_ops \<Rightarrow> store_view \<Rightarrow> nat \<Rightarrow> session_id \<Rightarrow> bytes \<Rightarrow> nat \<Rightarrow>
       retrieval_error + retrieval_candidate list" where
  "lexical_retrieve tx st n session task limit =
     (let task_tokens = lexical_tokenize tx n task in
      if task_tokens = [] then Inr []
      else rbind (map_err store_err (sv_list_session st session)) (\<lambda>ids.
             rbind (for_each (lexical_step tx st n task_tokens) ids []) (\<lambda>cands.
               Inr (take limit (sort_by by_score_desc cands)))))"

definition lexical_retriever :: "text_ops \<Rightarrow> store_view \<Rightarrow> nat \<Rightarrow> retriever" where
  "lexical_retriever tx st n = \<lparr>ret_name = ''lexical'', ret_retrieve = lexical_retrieve tx st n\<rparr>"

section \<open>Bm25Retriever\<close>

record bm25_doc =
  doc_id :: block_id
  doc_tf :: "(bytes \<times> u32) list"
  doc_len :: u32

record bm25_params =
  bm_k1 :: f32
  bm_b :: f32
  bm_min_word_len :: nat

definition bm25_default :: bm25_params where
  "bm25_default = \<lparr>bm_k1 = rnd32 (12 / 10), bm_b = rnd32 (75 / 100), bm_min_word_len = 2\<rparr>"

text \<open>\<open>*map.entry(t).or_insert(0) += 1\<close>.\<close>

fun count_up :: "bytes \<Rightarrow> (bytes \<times> u32) list \<Rightarrow> (bytes \<times> u32) list" where
  "count_up t [] = [(t, 1)]"
| "count_up t ((u, n) # m) = (if u = t then (u, n + 1) # m else (u, n) # count_up t m)"

definition bm25_load ::
    "text_ops \<Rightarrow> store_view \<Rightarrow> bm25_params \<Rightarrow> bytes list \<Rightarrow> block_id \<Rightarrow> bm25_doc list \<Rightarrow>
       retrieval_error + bm25_doc list" where
  "bm25_load tx st p query i docs =
     rbind (map_err store_err (sv_get st i)) (\<lambda>ob.
       case ob of
         None \<Rightarrow> Inr docs
       | Some block \<Rightarrow>
           (case from_utf8 (cb_bytes block) of
              None \<Rightarrow> Inr docs
            | Some text \<Rightarrow>
                let toks = words_of tx (bm_min_word_len p) text in
                if toks = [] then Inr docs
                else Inr (docs @ [\<lparr>doc_id = i,
                       doc_tf = fold count_up (filter (\<lambda>t. t \<in> set query) toks) [],
                       doc_len = (if length toks < 2 ^ 32 then word_of_nat (length toks) else - 1)\<rparr>])))"

text \<open>The length enters the average through \<open>u16\<close>, saturating.\<close>

definition len_u16 :: "u32 \<Rightarrow> f32" where
  "len_u16 l = Fin (of_nat (min (unat l) 65535))"

definition avg_len :: "bm25_doc list \<Rightarrow> f32" where
  "avg_len docs =
     fdiv rnd32 (foldl (fadd rnd32) f32_0 (map (len_u16 \<circ> doc_len) docs)) (nat_as_f32 (length docs))"

definition doc_freq :: "bm25_doc list \<Rightarrow> bytes \<Rightarrow> nat" where
  "doc_freq docs t = length (filter (\<lambda>d. t \<in> fst ` set (doc_tf d)) docs)"

definition bm25_term :: "(f32 \<Rightarrow> f32) \<Rightarrow> bm25_params \<Rightarrow> f32 \<Rightarrow> f32 \<Rightarrow> f32 \<Rightarrow> f32 \<Rightarrow> f32 \<Rightarrow> f32" where
  "bm25_term lnf p n avgdl df f dl =
     (let half = Fin (1 / 2);
          idf = lnf (fadd rnd32 (fdiv rnd32 (fadd rnd32 (fsub rnd32 n df) half) (fadd rnd32 df half)) f32_1);
          nrm = fadd rnd32 (fsub rnd32 f32_1 (bm_b p)) (fdiv rnd32 (fmul rnd32 (bm_b p) dl) avgdl);
          denom = fadd rnd32 f (fmul rnd32 (bm_k1 p) nrm)
      in fdiv rnd32 (fmul rnd32 idf (fmul rnd32 f (fadd rnd32 (bm_k1 p) f32_1))) (fmax denom f32_epsilon))"

definition bm25_score ::
    "(f32 \<Rightarrow> f32) \<Rightarrow> (block_id \<Rightarrow> (bytes \<times> u32) list \<Rightarrow> (bytes \<times> u32) list) \<Rightarrow> bm25_params \<Rightarrow>
       bm25_doc list \<Rightarrow> bm25_doc \<Rightarrow> f32" where
  "bm25_score lnf term_order p docs d =
     foldl (\<lambda>score (t, freq).
         fadd rnd32 score
           (bm25_term lnf p (nat_as_f32 (length docs)) (avg_len docs) (nat_as_f32 (doc_freq docs t))
              (nat_as_f32 (unat freq)) (nat_as_f32 (unat (doc_len d)))))
       f32_0 (term_order (doc_id d) (doc_tf d))"

definition bm25_retrieve ::
    "text_ops \<Rightarrow> (f32 \<Rightarrow> f32) \<Rightarrow> (block_id \<Rightarrow> (bytes \<times> u32) list \<Rightarrow> (bytes \<times> u32) list) \<Rightarrow>
       store_view \<Rightarrow> bm25_params \<Rightarrow> session_id \<Rightarrow> bytes \<Rightarrow> nat \<Rightarrow>
       retrieval_error + retrieval_candidate list" where
  "bm25_retrieve tx lnf term_order st p session task limit =
     (let query = remdups (words_of tx (bm_min_word_len p) task) in
      if query = [] then Inr []
      else rbind (map_err store_err (sv_list_session st session)) (\<lambda>ids.
             rbind (for_each (bm25_load tx st p query) ids []) (\<lambda>docs.
               if docs = [] then Inr []
               else
                 let all_scored = map (\<lambda>d. (doc_id d, bm25_score lnf term_order p docs d)) docs;
                     max_raw = fold (\<lambda>(_, s) m. if flt m s then s else m) all_scored f32_0;
                     scored = filter (\<lambda>(_, s). flt f32_0 s) all_scored;
                     cands = (if flt f32_0 max_raw
                              then map (\<lambda>(i, raw). candidate i (fclamp (fdiv rnd32 raw max_raw) f32_0 f32_1) ''bm25'') scored
                              else [])
                 in Inr (take limit (sort_by by_score_desc cands)))))"

definition bm25_retriever ::
    "text_ops \<Rightarrow> (f32 \<Rightarrow> f32) \<Rightarrow> (block_id \<Rightarrow> (bytes \<times> u32) list \<Rightarrow> (bytes \<times> u32) list) \<Rightarrow>
       store_view \<Rightarrow> bm25_params \<Rightarrow> retriever" where
  "bm25_retriever tx lnf term_order st p =
     \<lparr>ret_name = ''bm25'', ret_retrieve = bm25_retrieve tx lnf term_order st p\<rparr>"

section \<open>PinnedRetriever\<close>

definition pinned_retrieve ::
    "block_id list \<Rightarrow> session_id \<Rightarrow> bytes \<Rightarrow> nat \<Rightarrow> retrieval_error + retrieval_candidate list" where
  "pinned_retrieve pinned session task limit =
     Inr (map (\<lambda>i. candidate i f32_1 ''pinned'') (take limit pinned))"

definition pinned_retriever :: "block_id list \<Rightarrow> retriever" where
  "pinned_retriever pinned = \<lparr>ret_name = ''pinned'', ret_retrieve = pinned_retrieve pinned\<rparr>"

section \<open>The contract of a retriever\<close>

text \<open>
  What the built-in retrievers promise: no more candidates than asked for, every score in
  the unit interval (so no NaN reaches the pager), and only blocks from a source set.
\<close>

definition unit_score :: "f32 \<Rightarrow> bool" where
  "unit_score f \<longleftrightarrow> (\<exists>q. f = Fin q \<and> 0 \<le> q \<and> q \<le> 1)"

definition candidates_ok :: "nat \<Rightarrow> block_id set \<Rightarrow> retrieval_candidate list \<Rightarrow> bool" where
  "candidates_ok limit A cs \<longleftrightarrow>
     length cs \<le> limit \<and> (\<forall>c\<in>set cs. unit_score (rc_score c) \<and> rc_block_id c \<in> A)"

lemma candidate_sel [simp]:
  "rc_block_id (candidate i s src) = i" "rc_score (candidate i s src) = s"
  "rc_source (candidate i s src) = src"
  by (simp_all add: candidate_def)

lemma unit_score_fclamp: "x \<noteq> NaN \<Longrightarrow> unit_score (fclamp x f32_0 f32_1)"
  using fclamp_range [of x 0 1] by (simp add: unit_score_def)

lemma unit_score_not_NaN: "unit_score x \<Longrightarrow> x \<noteq> NaN"
  by (auto simp: unit_score_def)

lemma candidates_ok_take_sort:
  assumes "\<And>c. c \<in> set cs \<Longrightarrow> unit_score (rc_score c) \<and> rc_block_id c \<in> A"
  shows "candidates_ok limit A (take limit (sort_by by_score_desc cs))"
  using assms by (auto simp: candidates_ok_def dest: in_set_takeD)

lemma nat_as_f32_u64:
  fixes w :: u64
  shows "\<exists>r. nat_as_f32 (unat w) = Fin r \<and> 0 \<le> r \<and> (0 < unat w \<longrightarrow> 0 < r)"
proof -
  let ?x = "of_nat (unat w) :: rat"
  have "unat w < 2 ^ 64" using unat_lt_max [of w] by simp
  then have "?x < of_nat (2 ^ 64)" by (simp only: of_nat_less_iff)
  then have x: "?x < pow2 64" by (simp add: pow2_def)
  have up: "rnd_rat 24 (- 149) ?x \<le> ?x + pow2 (64 - 24) / 2"
    using x by (intro rnd_rat_err_below) simp_all
  have lo: "0 \<le> rnd_rat 24 (- 149) ?x" by (rule rnd_rat_nonneg) simp
  have "pow2 64 + pow2 (64 - 24) / 2 < max_fin 24 127" by (simp add: max_fin_def pow2_def)
  then have fin: "nat_as_f32 (unat w) = Fin (rnd_rat 24 (- 149) ?x)"
    using up lo x by (simp add: nat_as_f32_def rnd32_def rnd_def Let_def)
  moreover have "0 < rnd_rat 24 (- 149) ?x" if "0 < unat w"
  proof -
    have x1: "1 \<le> ?x" using that by (metis of_nat_1 of_nat_le_iff Suc_leI One_nat_def)
    then have il: "0 \<le> ilog2 ?x" by (simp add: ilog2_def)
    then have u: "ulp_exp 24 (- 149) ?x = ilog2 ?x - 23" using x1 by (simp add: ulp_exp_def)
    have "pow2 (ilog2 ?x - 23) \<le> pow2 (ilog2 ?x)" by (rule pow2_mono) simp
    also have "\<dots> \<le> ?x" using x1 by (intro ilog2_spec) simp
    finally have "pow2 (ulp_exp 24 (- 149) ?x) / 2 \<le> ?x / 2" using u by simp
    moreover have "\<bar>rnd_rat 24 (- 149) ?x - ?x\<bar> \<le> pow2 (ulp_exp 24 (- 149) ?x) / 2"
      using x1 by (intro rnd_rat_err) simp
    ultimately show ?thesis using x1 by linarith
  qed
  ultimately show ?thesis using lo by auto
qed

section \<open>Recency\<close>

lemma fold_min_le: "fold (\<lambda>i m. min m (f i)) xs a \<le> (a :: 'a::linorder)"
proof (induction xs arbitrary: a)
  case (Cons x xs)
  have "fold (\<lambda>i m. min m (f i)) xs (min a (f x)) \<le> min a (f x)" by (rule Cons.IH)
  then show ?case by simp
qed simp

lemma fold_max_ge: "(a :: 'a::linorder) \<le> fold (\<lambda>i m. max m (f i)) xs a"
proof (induction xs arbitrary: a)
  case (Cons x xs)
  have "max a (f x) \<le> fold (\<lambda>i m. max m (f i)) xs (max a (f x))" by (rule Cons.IH)
  then show ?case by simp
qed simp

lemma fold_min_lower: "i \<in> set xs \<Longrightarrow> fold (\<lambda>i m. min m (f i)) xs a \<le> (f i :: 'a::linorder)"
proof (induction xs arbitrary: a)
  case (Cons x xs)
  then show ?case using fold_min_le [of f xs "min a (f x)"] by auto
qed simp

lemma fold_max_upper: "i \<in> set xs \<Longrightarrow> (f i :: 'a::linorder) \<le> fold (\<lambda>i m. max m (f i)) xs a"
proof (induction xs arbitrary: a)
  case (Cons x xs)
  then show ?case using fold_max_ge [of "max a (f x)" f xs] by auto
qed simp

lemma min_ts_le: "i \<in> set ids \<Longrightarrow> min_ts ids \<le> ts_of i"
  unfolding min_ts_def by (rule fold_min_lower)

lemma max_ts_ge: "i \<in> set ids \<Longrightarrow> ts_of i \<le> max_ts ids"
  unfolding max_ts_def by (rule fold_max_upper)

lemma unat_max_word_1: "unat (max w 1) = max (unat w) 1" for w :: u64
  by (simp add: max_def word_le_nat_alt)

lemma linear_score:
  assumes "lo \<le> ts" "ts \<le> hi"
  shows "unit_score (fclamp (recency_score exp2 None lo hi ts) f32_0 f32_1)"
    and "lo < hi \<Longrightarrow> recency_score exp2 None lo hi hi = f32_1"
    and "recency_score exp2 None lo hi lo = f32_0"
proof -
  have pos: "0 < unat (max (sat_sub hi lo) 1)" by (simp add: unat_max_word_1)
  obtain d where d: "nat_as_f32 (unat (max (sat_sub hi lo) 1)) = Fin d" "0 < d"
    using nat_as_f32_u64 [of "max (sat_sub hi lo) 1"] pos by blast
  obtain a where a: "nat_as_f32 (unat (sat_sub ts lo)) = Fin a"
    using nat_as_f32_u64 [of "sat_sub ts lo"] by blast
  have "rnd32 x \<noteq> NaN" for x by (simp add: rnd32_def rnd_def Let_def)
  then show "unit_score (fclamp (recency_score exp2 None lo hi ts) f32_0 f32_1)"
    using a d by (intro unit_score_fclamp) (simp add: recency_score_def)
  have one: "rnd32 1 = f32_1" and zero: "rnd32 0 = f32_0" by (simp_all add: rnd_eval)
  show "recency_score exp2 None lo hi hi = f32_1" if "lo < hi"
  proof -
    have "1 \<le> sat_sub hi lo"
      using that by (simp add: word_le_nat_alt word_less_nat_alt unat_simps)
    then have "max (sat_sub hi lo) 1 = sat_sub hi lo" by (simp add: max_def)
    with d one show ?thesis by (simp add: recency_score_def)
  qed
  have "sat_sub lo lo = 0" by (simp add: sat_sub_def)
  with d zero show "recency_score exp2 None lo hi lo = f32_0"
    by (simp add: recency_score_def nat_as_f32_def)
qed

lemma total_preorder_by_score:
  "\<forall>c\<in>A. rc_score c \<noteq> NaN \<Longrightarrow> total_preorder_on A by_score_desc"
  unfolding total_preorder_on_def by_score_desc_def
  by (auto dest: flt_asym not_flt_trans)

text \<open>
  The linear recency retriever returns at most the requested number of blocks of the
  session, best first, with scores in the unit interval; the oldest block scores 0, and the
  newest scores 1 when the session spans at least a millisecond. Otherwise every block,
  newest and only ones included, scores 0.
\<close>

lemma recency_linear:
  assumes "sv_list_session st session = Inr ids"
    and "recency_retrieve exp2 st None session task limit = Inr cs"
  shows "candidates_ok limit (set ids) cs \<and>
     sorted_wrt (\<lambda>a b. fle (rc_score b) (rc_score a)) cs \<and>
     (\<forall>c\<in>set cs.
        (ts_of (rc_block_id c) = min_ts ids \<longrightarrow> rc_score c = f32_0) \<and>
        (min_ts ids < max_ts ids \<and> ts_of (rc_block_id c) = max_ts ids \<longrightarrow> rc_score c = f32_1))"
proof (cases "ids = []")
  case True
  with assms show ?thesis by (simp add: recency_retrieve_def candidates_ok_def)
next
  case False
  let ?sc = "\<lambda>i. fclamp (recency_score exp2 None (min_ts ids) (max_ts ids) (ts_of i)) f32_0 f32_1"
  let ?cs = "map (\<lambda>i. candidate i (?sc i) ''recency'') ids"
  have cs: "cs = take limit (sort_by by_score_desc ?cs)"
    using assms False by (simp add: recency_retrieve_def Let_def)
  have u: "unit_score (?sc i)" if "i \<in> set ids" for i
    using min_ts_le [OF that] max_ts_ge [OF that] by (rule linear_score(1))
  have ok: "candidates_ok limit (set ids) cs"
    unfolding cs using u by (intro candidates_ok_take_sort) auto
  have nn: "\<forall>c\<in>set ?cs. rc_score c \<noteq> NaN"
    using u unit_score_not_NaN by auto
  have "sorted_wrt (\<lambda>a b. by_score_desc a b \<noteq> Greater) (sort_by by_score_desc ?cs)"
    using total_preorder_by_score [OF nn] by (rule sorted_wrt_sort_by)
  then have "sorted_wrt (\<lambda>a b. \<not> flt (rc_score a) (rc_score b)) (sort_by by_score_desc ?cs)"
    by (simp add: by_score_desc_def)
  then have "sorted_wrt (\<lambda>a b. fle (rc_score b) (rc_score a)) (sort_by by_score_desc ?cs)"
  proof (rule sorted_wrt_mono_rel [rotated])
    fix a b assume "a \<in> set (sort_by by_score_desc ?cs)" "b \<in> set (sort_by by_score_desc ?cs)"
      and nf: "\<not> flt (rc_score a) (rc_score b)"
    then have "rc_score a \<noteq> NaN" "rc_score b \<noteq> NaN" using nn unfolding set_sort_by by blast+
    with nf flt_total show "fle (rc_score b) (rc_score a)" by (auto simp: fle_def feq_def)
  qed
  then have srt: "sorted_wrt (\<lambda>a b. fle (rc_score b) (rc_score a)) cs"
    unfolding cs by (rule sorted_wrt_take)
  have "(ts_of (rc_block_id c) = min_ts ids \<longrightarrow> rc_score c = f32_0) \<and>
        (min_ts ids < max_ts ids \<and> ts_of (rc_block_id c) = max_ts ids \<longrightarrow> rc_score c = f32_1)"
    if "c \<in> set cs" for c
  proof -
    from that have "c \<in> set (sort_by by_score_desc ?cs)"
      unfolding cs by (rule in_set_takeD)
    then obtain i where i: "i \<in> set ids" "c = candidate i (?sc i) ''recency''"
      by auto
    from linear_score [OF min_ts_le [OF i(1)] max_ts_ge [OF i(1)]] i(2) show ?thesis
      by (auto simp: fclamp_def)
  qed
  with ok srt show ?thesis by blast
qed

text \<open>
  With a half-life, the newest block scores 1 whatever the half-life, because \<open>exp2\<close> of
  zero is one.
\<close>

lemma recency_half_life_newest:
  assumes "exp2 f32_0 = f32_1"
    and "sv_list_session st session = Inr ids" "i \<in> set ids" "ts_of i = max_ts ids"
  shows "fclamp (recency_score exp2 (with_half_life h) (min_ts ids) (max_ts ids) (ts_of i)) f32_0 f32_1 = f32_1"
proof -
  have zero: "rnd32 0 = f32_0" by (simp add: rnd_eval)
  have half: "\<exists>x. fmax y f32_1 = x \<and> (x = PInf \<or> (\<exists>q. x = Fin q \<and> 0 < q))" for y
    by (cases y) (auto simp: fmax_def)
  have "fdiv rnd32 f32_0 (fmax y f32_1) = f32_0" for y
    using half [of y] zero by auto
  moreover have "nat_as_f32 (unat (sat_sub (max_ts ids) (max_ts ids))) = f32_0"
    by (simp add: sat_sub_def nat_as_f32_def zero)
  ultimately show ?thesis
    using assms by (simp add: recency_score_def with_half_life_def fclamp_def)
qed

definition demo_view :: "context_block list \<Rightarrow> store_view" where
  "demo_view bs =
     \<lparr>sv_get = (\<lambda>i. Inr (find (\<lambda>b. cb_id b = i) bs)),
      sv_list_session = (\<lambda>_. Inr (map cb_id bs)),
      sv_edges_from = (\<lambda>_. Inr []), sv_edges_to = (\<lambda>_. Inr [])\<rparr>"

definition demo_block :: "block_id \<Rightarrow> block_kind \<Rightarrow> bytes \<Rightarrow> context_block" where
  "demo_block i k bs =
     \<lparr>cb_id = i, cb_kind = k, cb_bytes = bs, cb_token_counts = [(''cl100k_base'', word_of_nat (length bs))],
      cb_priority = f32_0, cb_created_at = 0, cb_updated_at = 0, cb_provenance = provenance_default,
      cb_hash = 0\<rparr>"

lemma recency_linear_witness:
  "recency_retrieve (\<lambda>x. x) (demo_view [demo_block 0 Kind_Fact ''a'']) None 7 ''t'' 5
     = Inr [candidate 0 f32_0 ''recency'']"
proof -
  have "min_ts [0] = 0" "max_ts [0] = 0" by (simp_all add: min_ts_def max_ts_def ts_of_def)
  then have ev: "recency_retrieve (\<lambda>x. x) (demo_view [demo_block 0 Kind_Fact ''a'']) None 7 ''t'' 5
     = Inr [candidate 0 (fclamp (recency_score (\<lambda>x. x) None 0 0 0) f32_0 f32_1) ''recency'']"
    by (simp add: recency_retrieve_def demo_view_def demo_block_def ts_of_def)
  show ?thesis
    using recency_linear [OF _ ev, of "[0]"] \<open>min_ts [0] = 0\<close> ev
    by (simp add: demo_view_def demo_block_def ts_of_def)
qed

lemma recency_half_life_newest_witness:
  "fclamp (recency_score (\<lambda>x. f32_1) (with_half_life (Fin 60)) (min_ts [0]) (max_ts [0]) (ts_of 0)) f32_0 f32_1 = f32_1"
  using recency_half_life_newest
    [of "\<lambda>x. f32_1" "demo_view [demo_block 0 Kind_Fact ''a'']" 7 "[0]" 0 "Fin 60"]
  by (simp add: demo_view_def demo_block_def max_ts_def ts_of_def)

end
