(* ===== verification/Float_Bits.thy ===== *)
theory Float_Bits
  imports Rust_Float
begin

text \<open>
  The square root and the bit patterns of \<open>f32\<close>. The root is the value with 24 significant bits
  nearest to the exact one, computed by an integer root; a bit pattern is a sign, eight bits of
  exponent and 23 of mantissa. As values do not keep the sign of zero or the payload of a NaN,
  \<open>to_bits\<close> gives the pattern of positive zero and one quiet NaN.
\<close>

lemma pow2_nonzero [simp]: "pow2 e \<noteq> 0"
  by (rule less_imp_neq [OF pow2_pos, symmetric])

section \<open>Square roots\<close>

fun isqrt :: "nat \<Rightarrow> nat" where
  "isqrt n =
     (if n = 0 then 0
      else let r = 2 * isqrt (n div 4) in if (r + 1) * (r + 1) \<le> n then r + 1 else r)"

declare isqrt.simps [simp del]

lemma isqrt_numeral [simp]:
  "isqrt 0 = 0" "isqrt (Suc 0) = 1"
  "isqrt (numeral k) =
     (let r = 2 * isqrt (numeral k div 4) in if (r + 1) * (r + 1) \<le> numeral k then r + 1 else r)"
  by (simp_all add: isqrt.simps [of 0] isqrt.simps [of "Suc 0"] isqrt.simps [of "numeral k"])

lemma isqrt_spec: "isqrt n * isqrt n \<le> n" "n < (isqrt n + 1) * (isqrt n + 1)"
proof -
  have "isqrt n * isqrt n \<le> n \<and> n < (isqrt n + 1) * (isqrt n + 1)"
  proof (induction n rule: isqrt.induct)
    case (1 n)
    show ?case
    proof (cases "n = 0")
      case False
      define s where "s = isqrt (n div 4)"
      from 1 [OF False] have s: "s * s \<le> n div 4" "n div 4 < (s + 1) * (s + 1)"
        by (simp_all add: s_def)
      have n: "4 * (n div 4) \<le> n" "n < 4 * (n div 4) + 4" by presburger+
      have lo: "(2 * s) * (2 * s) \<le> n" using s(1) n(1) by simp
      have "n < 4 * ((s + 1) * (s + 1))" using s(2) n(2) by linarith
      then have hi: "n < (2 * s + 1 + 1) * (2 * s + 1 + 1)" by (simp add: algebra_simps)
      have "isqrt n = (if (2 * s + 1) * (2 * s + 1) \<le> n then 2 * s + 1 else 2 * s)"
        using False by (subst isqrt.simps) (simp add: s_def Let_def)
      then show ?thesis using lo hi by auto
    qed simp
  qed
  then show "isqrt n * isqrt n \<le> n" "n < (isqrt n + 1) * (isqrt n + 1)" by blast+
qed

definition fsqrt :: "f32 \<Rightarrow> f32" where
  "fsqrt v =
     (case v of
        Fin x \<Rightarrow>
          if x < 0 then NaN
          else if x = 0 then Fin 0
          else
            let u = ilog2 x div 2 - 23; q = x / pow2 (2 * u); k = isqrt (nat \<lfloor>q\<rfloor>)
            in Fin (of_nat (if q \<le> (of_nat k + 1 / 2) * (of_nat k + 1 / 2) then k else k + 1) * pow2 u)
      | PInf \<Rightarrow> PInf
      | _ \<Rightarrow> NaN)"

text \<open>The root is within half a unit of its last place.\<close>

lemma fsqrt_nearest:
  assumes "0 < x"
  shows "\<exists>r. fsqrt (Fin x) = Fin r \<and> 0 < r \<and>
    (let h = pow2 (ilog2 x div 2 - 23) / 2 in (r - h) * (r - h) \<le> x \<and> x \<le> (r + h) * (r + h))"
proof -
  define u where "u = ilog2 x div 2 - 23"
  define q where "q = x / pow2 (2 * u)"
  define k where "k = isqrt (nat \<lfloor>q\<rfloor>)"
  define m where "m = (if q \<le> (of_nat k + 1 / 2) * (of_nat k + 1 / 2) then k else k + 1)"
  have pu: "pow2 (2 * u) = pow2 u * pow2 u" using pow2_add [of u u] by simp
  have "2 * u \<le> ilog2 x" by (simp add: u_def)
  then have "pow2 (2 * u) \<le> x" using pow2_mono ilog2_spec(1) [OF assms] order_trans by blast
  then have q1: "1 \<le> q" by (simp add: q_def)
  have x: "x = q * (pow2 u * pow2 u)" by (simp add: q_def pu [symmetric])
  have fl: "of_nat (nat \<lfloor>q\<rfloor>) \<le> q" "q < of_nat (nat \<lfloor>q\<rfloor>) + 1"
    using q1 floor_correct [of q] by (simp_all add: of_nat_nat)
  have "of_nat (k * k) \<le> (of_nat (nat \<lfloor>q\<rfloor>) :: rat)"
    using isqrt_spec(1) [of "nat \<lfloor>q\<rfloor>"] unfolding k_def by (simp only: of_nat_le_iff)
  moreover have "nat \<lfloor>q\<rfloor> + 1 \<le> (k + 1) * (k + 1)"
    using isqrt_spec(2) [of "nat \<lfloor>q\<rfloor>"] unfolding k_def by simp
  then have "(of_nat (nat \<lfloor>q\<rfloor> + 1) :: rat) \<le> of_nat ((k + 1) * (k + 1))"
    by (simp only: of_nat_le_iff)
  ultimately have k: "of_nat k * of_nat k \<le> q" "q < (of_nat k + 1) * (of_nat k + 1)"
    using fl unfolding of_nat_mult of_nat_add of_nat_1 by linarith+
  have k1: "1 \<le> k"
  proof (rule ccontr)
    assume "\<not> 1 \<le> k"
    then have "k = 0" by simp
    then show False using k(2) q1 by simp
  qed
  have m: "(of_nat m - 1 / 2) * (of_nat m - 1 / 2) \<le> q" "q \<le> (of_nat m + 1 / 2) * (of_nat m + 1 / 2)"
    using k k1 unfolding m_def by (auto simp: algebra_simps split: if_splits)
  have "fsqrt (Fin x) = Fin (of_nat m * pow2 u)"
    using assms by (simp add: fsqrt_def Let_def u_def q_def k_def m_def)
  moreover have "0 < (of_nat m :: rat)" using k1 by (simp add: m_def)
  moreover have scale: "(of_nat m * pow2 u + c * pow2 u / 2) * (of_nat m * pow2 u + c * pow2 u / 2) =
      (of_nat m + c / 2) * (of_nat m + c / 2) * (pow2 u * pow2 u)" for c
    by (simp add: algebra_simps)
  have "0 \<le> pow2 u * pow2 u" by (simp add: less_imp_le)
  note low = mult_right_mono [OF m(1) this] and upp = mult_right_mono [OF m(2) this]
  have "(of_nat m * pow2 u - pow2 u / 2) * (of_nat m * pow2 u - pow2 u / 2) \<le> x"
    using low scale [of "- 1"] by (simp add: x)
  moreover have "x \<le> (of_nat m * pow2 u + pow2 u / 2) * (of_nat m * pow2 u + pow2 u / 2)"
    using upp scale [of 1] by (simp add: x)
  ultimately show ?thesis
    by (intro exI [of _ "of_nat m * pow2 u"]) (simp add: u_def Let_def)
qed

section \<open>Bit patterns\<close>

definition f32_magnitude :: "rat \<Rightarrow> nat" where
  "f32_magnitude y =
     (let e = max (ilog2 y) (- 126) in nat (e + 126) * 2 ^ 23 + nat \<lfloor>y / pow2 (e - 23)\<rfloor>)"

definition f32_to_bits :: "f32 \<Rightarrow> u32" where
  "f32_to_bits v =
     (case v of
        NaN \<Rightarrow> 0x7FC00000
      | PInf \<Rightarrow> 0x7F800000
      | NInf \<Rightarrow> 0xFF800000
      | Fin x \<Rightarrow>
          if x = 0 then 0
          else word_of_nat ((if x < 0 then 2 ^ 31 else 0) + f32_magnitude \<bar>x\<bar>))"

definition f32_parts :: "nat \<Rightarrow> nat \<Rightarrow> rat" where
  "f32_parts e m = (if e = 0 then of_nat m * pow2 (- 149) else of_nat (2 ^ 23 + m) * pow2 (int e - 150))"

definition f32_from_bits :: "u32 \<Rightarrow> f32" where
  "f32_from_bits w =
     (let n = unat w; negative = 2 ^ 31 \<le> n; e = n div 2 ^ 23 mod 256; m = n mod 2 ^ 23 in
      if e = 255 then (if m \<noteq> 0 then NaN else if negative then NInf else PInf)
      else Fin ((if negative then - 1 else 1) * f32_parts e m))"

lemma ilog2_unique: "pow2 e \<le> y \<Longrightarrow> y < pow2 (e + 1) \<Longrightarrow> ilog2 y = e"
proof -
  assume a: "pow2 e \<le> y" "y < pow2 (e + 1)"
  then have y: "0 < y" using pow2_pos [of e] by linarith
  from ilog2_le [OF y a(2)] have "ilog2 y \<le> e" by simp
  moreover have "\<not> ilog2 y + 1 \<le> e"
    using pow2_mono [of "ilog2 y + 1" e] ilog2_spec(2) [OF y] a(1) by linarith
  ultimately show ?thesis by linarith
qed

lemma magnitude_parts:
  assumes "m < 2 ^ 23" "0 < e \<or> 0 < m"
  shows "f32_magnitude (f32_parts e m) = e * 2 ^ 23 + m" and "0 < f32_parts e m"
proof -
  have "f32_magnitude (f32_parts e m) = e * 2 ^ 23 + m \<and> 0 < f32_parts e m"
  proof (cases "e = 0")
    case True
    have y: "f32_parts e m = of_nat m * pow2 (- 149)" using True by (simp add: f32_parts_def)
    have pos: "0 < f32_parts e m" using assms True unfolding y by simp
    have "(of_nat m :: rat) < of_nat (2 ^ 23)" using assms(1) by (simp only: of_nat_less_iff)
    then have "(of_nat m :: rat) < 2 ^ 23" by (simp only: of_nat_power of_nat_numeral)
    then have "of_nat m * pow2 (- 149) < 2 ^ 23 * pow2 (- 149)" by simp
    also have "2 ^ 23 * pow2 (- 149) = pow2 (- 126)"
      using pow2_add [of 23 "- 149"] by (simp add: pow2_def)
    finally have "ilog2 (f32_parts e m) \<le> - 127" using ilog2_le [OF pos, of "- 126"] y by simp
    then have mx: "max (ilog2 (f32_parts e m)) (- 126) = - 126" by simp
    have "f32_parts e m / pow2 (- 126 - 23) = of_nat m"
      using pow2_pos [of "- 149"] unfolding y by simp
    then show ?thesis using True pos mx by (simp add: f32_magnitude_def)
  next
    case False
    let ?k = "int e - 127"
    have y: "f32_parts e m = of_nat (2 ^ 23 + m) * pow2 (?k - 23)" using False by (simp add: f32_parts_def)
    have two: "2 ^ 23 * pow2 (?k - 23) = pow2 ?k" "2 ^ 24 * pow2 (?k - 23) = pow2 (?k + 1)"
      using pow2_add [of 23 "?k - 23"] pow2_add [of 24 "?k - 23"] by (simp_all add: pow2_def [of 23] pow2_def [of 24])
    have m: "(of_nat m :: rat) < 2 ^ 23"
      using assms(1) of_nat_less_iff [of m "2 ^ 23", where ?'a = rat] by (simp only: of_nat_power of_nat_numeral)
    have n: "(2 :: rat) ^ 23 \<le> of_nat (2 ^ 23 + m)" "(of_nat (2 ^ 23 + m) :: rat) < 2 ^ 24"
      using m by (simp_all only: of_nat_add of_nat_power of_nat_numeral le_add_same_cancel1 of_nat_0_le_iff) simp
    have lo: "pow2 ?k \<le> f32_parts e m"
      using mult_right_mono [OF n(1), of "pow2 (?k - 23)"] unfolding y two(1) [symmetric] by (simp add: less_imp_le)
    have up: "f32_parts e m < pow2 (?k + 1)"
      using mult_strict_right_mono [OF n(2) pow2_pos, of "?k - 23"] unfolding y two(2) [symmetric] .
    have il: "ilog2 (f32_parts e m) = ?k" by (rule ilog2_unique [OF lo up])
    then have mx: "max (ilog2 (f32_parts e m)) (- 126) = ?k" using False by simp
    have "f32_parts e m / pow2 (?k - 23) = of_nat (2 ^ 23 + m)"
      unfolding y by (simp only: nonzero_mult_div_cancel_right [OF pow2_nonzero])
    then have "\<lfloor>f32_parts e m / pow2 (?k - 23)\<rfloor> = int (2 ^ 23 + m)" by (simp only: floor_of_nat)
    then have "f32_magnitude (f32_parts e m) = nat (?k + 126) * 2 ^ 23 + (2 ^ 23 + m)"
      unfolding f32_magnitude_def Let_def mx by (simp only: nat_int)
    moreover have "nat (?k + 126) = e - 1" using False by simp
    moreover have "(e - 1) * 2 ^ 23 + (2 ^ 23 + m) = e * 2 ^ 23 + m" using False by (cases e) simp_all
    ultimately have "f32_magnitude (f32_parts e m) = e * 2 ^ 23 + m" by (simp only:)
    then show ?thesis using less_le_trans [OF pow2_pos lo] by (simp only: simp_thms)
  qed
  then show "f32_magnitude (f32_parts e m) = e * 2 ^ 23 + m" and "0 < f32_parts e m" by blast+
qed

text \<open>Reading the pattern of a value gives the value back.\<close>

lemma from_bits_of_parts:
  assumes "e < 255" "m < 2 ^ 23"
  shows "f32_from_bits (word_of_nat ((if neg then 2 ^ 31 else 0) + (e * 2 ^ 23 + m))) =
    Fin ((if neg then - 1 else 1) * f32_parts e m)"
proof -
  define n where "n = (if neg then 2 ^ 31 else 0) + (e * 2 ^ 23 + m :: nat)"
  have b: "e * 2 ^ 23 + m < 2 ^ 31" using assms by simp
  then have "n < 2 ^ 32" by (simp add: n_def)
  then have u: "unat (word_of_nat n :: u32) = n" by (simp add: unat_of_nat)
  have s: "2 ^ 31 \<le> n \<longleftrightarrow> neg" using b by (simp add: n_def)
  have split: "(q * 2 ^ 23 + m) div 2 ^ 23 = q" "(q * 2 ^ 23 + m) mod 2 ^ 23 = m" for q
    using assms(2) by simp_all
  have "n = ((if neg then 256 else 0) + e) * 2 ^ 23 + m" by (simp add: n_def)
  then have "n div 2 ^ 23 = (if neg then 256 else 0) + e" "n mod 2 ^ 23 = m"
    by (simp_all only: split)
  then have "n div 2 ^ 23 mod 256 = e" using assms(1) by simp
  then show ?thesis
    using u s \<open>n mod 2 ^ 23 = m\<close> assms(1) unfolding f32_from_bits_def Let_def n_def [symmetric]
    by (simp only: if_False) simp
qed

lemma f32_bits_roundtrip: "f32_from_bits (f32_to_bits (f32_from_bits w)) = f32_from_bits w"
proof -
  define n where "n = unat w"
  define e where "e = n div 2 ^ 23 mod 256"
  define m where "m = n mod 2 ^ 23"
  define neg where "neg \<longleftrightarrow> 2 ^ 31 \<le> n"
  have m: "m < 2 ^ 23" by (simp add: m_def)
  have v: "f32_from_bits w = (if e = 255 then (if m \<noteq> 0 then NaN else if neg then NInf else PInf)
      else Fin ((if neg then - 1 else 1) * f32_parts e m))"
    by (simp add: f32_from_bits_def Let_def n_def e_def m_def neg_def)
  have special: "f32_from_bits 0x7FC00000 = NaN" "f32_from_bits 0x7F800000 = PInf"
    "f32_from_bits 0xFF800000 = NInf" "f32_from_bits 0 = Fin 0"
    by (simp_all add: f32_from_bits_def f32_parts_def)
  show ?thesis
  proof (cases "e = 255")
    case True
    then show ?thesis using v special by (simp add: f32_to_bits_def)
  next
    case False
    have e: "e < 255" using False by (simp add: e_def)
    show ?thesis
    proof (cases "e = 0 \<and> m = 0")
      case True
      then show ?thesis using v special by (simp add: f32_to_bits_def f32_parts_def)
    next
      case nz: False
      then have "0 < e \<or> 0 < m" by simp
      note p = magnitude_parts [OF m this]
      have "f32_to_bits (f32_from_bits w) = word_of_nat ((if neg then 2 ^ 31 else 0) + (e * 2 ^ 23 + m))"
        using p False by (simp only: v f32_to_bits_def) (auto simp: abs_of_pos)
      then show ?thesis using from_bits_of_parts [OF e m, of neg] v False by (simp only: if_False)
    qed
  qed
qed

text \<open>The values that have a bit pattern, and their four bytes.\<close>

definition f32_value :: "f32 \<Rightarrow> bool" where
  "f32_value v \<longleftrightarrow> f32_from_bits (f32_to_bits v) = v"

lemma f32_value_from_bits [simp]: "f32_value (f32_from_bits w)"
  by (simp add: f32_value_def f32_bits_roundtrip)

definition f32_to_le_bytes :: "f32 \<Rightarrow> u8 list" where
  "f32_to_le_bytes v = le_bytes 4 (unat (f32_to_bits v))"

definition f32_from_le_bytes :: "u8 list \<Rightarrow> f32" where
  "f32_from_le_bytes bs = f32_from_bits (word_of_nat (from_le bs))"

lemma length_f32_bytes [simp]: "length (f32_to_le_bytes v) = 4"
  by (simp add: f32_to_le_bytes_def)

lemma f32_le_bytes_roundtrip: "f32_value v \<Longrightarrow> f32_from_le_bytes (f32_to_le_bytes v) = v"
proof -
  assume v: "f32_value v"
  have "unat (f32_to_bits v) < 256 ^ 4" using unat_lt_max [of "f32_to_bits v"] by simp
  then have "from_le (le_bytes 4 (unat (f32_to_bits v))) = unat (f32_to_bits v)"
    by (simp only: from_le_le_bytes mod_less)
  then show ?thesis using v by (simp add: f32_from_le_bytes_def f32_to_le_bytes_def f32_value_def)
qed

end
