(* ===== verification/Ann.thy ===== *)
theory Ann
  imports Kv Retrievers Float_Bits
begin

text \<open>
  \<open>llm386-retrieve-ann\<close>: the persistent cache of embeddings over an LMDB table, the brute-force
  and the HNSW retriever, and the OpenAI embedder. An embedder is a record of the trait's methods;
  the HNSW index of the crate instant-distance and the HTTP client are parameters. A retriever
  returns its result and its state, because what it has cached before an error stays cached.
\<close>

record embedder =
  em_name :: bytes
  em_dimensions :: nat
  em_embed :: "bytes \<Rightarrow> embedder_error + f32 list"
  em_embed_batch :: "bytes list \<Rightarrow> embedder_error + f32 list list"

fun embedder_error_display :: "embedder_error \<Rightarrow> bytes" where
  "embedder_error_display (EmbedderFailed s) = ''embedder failed: '' @ s"

section \<open>The cache of embeddings\<close>

datatype cache_error = Cache_Io bytes | Cache_Lmdb heed_error | Cache_Decode bytes

fun cache_error_display :: "cache_error \<Rightarrow> bytes" where
  "cache_error_display (Cache_Io e) = ''io error: '' @ e"
| "cache_error_display (Cache_Lmdb e) = ''LMDB error: '' @ e"
| "cache_error_display (Cache_Decode s) = ''malformed cached vector: '' @ s"

definition byte_of :: "char \<Rightarrow> u8" where
  "byte_of c = word_of_nat (byte_val c)"

definition make_key :: "bytes \<Rightarrow> content_hash \<Rightarrow> raw" where
  "make_key name h =
     (let n = (if length name \<le> 255 then word_of_nat (length name) else - 1)
      in n # map byte_of name @ hash_key h)"

definition encode_vec :: "f32 list \<Rightarrow> raw" where
  "encode_vec v =
     (let dim = (if length v < 2 ^ 32 then length v else 2 ^ 32 - 1)
      in le_bytes 4 dim @ concat (map f32_to_le_bytes v))"

fun chunks4 :: "'a list \<Rightarrow> 'a list list" where
  "chunks4 (a # b # c # d # xs) = [a, b, c, d] # chunks4 xs"
| "chunks4 _ = []"

definition decode_vec :: "raw \<Rightarrow> cache_error + f32 list" where
  "decode_vec bs =
     (if length bs < 4 then Inl (Cache_Decode ''header < 4 bytes'')
      else
        let dim = from_le (take 4 bs); expected = 4 + dim * 4 in
        if length bs \<noteq> expected
        then Inl (Cache_Decode (''payload '' @ dec (length bs) @ '' bytes, expected '' @ dec expected))
        else Inr (map f32_from_le_bytes (chunks4 (drop 4 bs))))"

definition cache_get :: "'t lmdb_lib \<Rightarrow> 't \<Rightarrow> bytes \<Rightarrow> content_hash \<Rightarrow> cache_error + f32 list option" where
  "cache_get lib t name h =
     rbind (map_err Cache_Lmdb (lib_read_txn lib)) (\<lambda>_.
     rbind (map_err Cache_Lmdb (lib_get lib t (make_key name h))) (\<lambda>raw.
     case raw of
       None \<Rightarrow> Inr None
     | Some r \<Rightarrow> rbind (decode_vec r) (\<lambda>v. Inr (Some v))))"

definition cache_put :: "'t lmdb_lib \<Rightarrow> 't \<Rightarrow> bytes \<Rightarrow> content_hash \<Rightarrow> f32 list \<Rightarrow> cache_error + 't" where
  "cache_put lib t name h v =
     rbind (map_err Cache_Lmdb (lib_write_txn lib)) (\<lambda>_.
     rbind (map_err Cache_Lmdb (lib_put lib t (make_key name h) (encode_vec v))) (\<lambda>t'.
     rbind (map_err Cache_Lmdb (lib_commit lib)) (\<lambda>_. Inr t')))"

section \<open>What the two retrievers share\<close>

text \<open>The persistent cache is optional.\<close>

definition l2_get :: "'t lmdb_lib \<Rightarrow> bytes \<Rightarrow> 't option \<Rightarrow> content_hash \<Rightarrow> retrieval_error + f32 list option" where
  "l2_get lib name persistent h =
     (case persistent of
        None \<Rightarrow> Inr None
      | Some t \<Rightarrow> map_err (\<lambda>e. RetrievalFailed (''cache get: '' @ cache_error_display e)) (cache_get lib t name h))"

definition l2_put :: "'t lmdb_lib \<Rightarrow> bytes \<Rightarrow> 't option \<Rightarrow> content_hash \<Rightarrow> f32 list \<Rightarrow> retrieval_error + 't option" where
  "l2_put lib name persistent h v =
     (case persistent of
        None \<Rightarrow> Inr None
      | Some t \<Rightarrow> map_err (\<lambda>e. RetrievalFailed (''cache put: '' @ cache_error_display e))
          (rbind (cache_put lib t name h v) (\<lambda>t'. Inr (Some t'))))"

definition embed_task :: "embedder \<Rightarrow> bytes \<Rightarrow> retrieval_error + f32 list" where
  "embed_task em task = map_err (\<lambda>e. RetrievalFailed (''embed task: '' @ embedder_error_display e)) (em_embed em task)"

definition embed_batch :: "embedder \<Rightarrow> bytes list \<Rightarrow> retrieval_error + f32 list list" where
  "embed_batch em texts =
     map_err (\<lambda>e. RetrievalFailed (''embed batch: '' @ embedder_error_display e)) (em_embed_batch em texts)"

text \<open>A block that is still to be embedded: its id, its hash and its text.\<close>

type_synonym pending = "block_id \<times> content_hash \<times> bytes"

section \<open>The brute-force retriever\<close>

record 't linear_state =
  ln_cache :: "block_id \<rightharpoonup> f32 list"
  ln_persistent :: "'t option"

definition linear_new :: "'t linear_state" where
  "linear_new = \<lparr>ln_cache = Map.empty, ln_persistent = None\<rparr>"

definition linear_with_persistent :: "'t linear_state \<Rightarrow> 't \<Rightarrow> 't linear_state" where
  "linear_with_persistent s t = s\<lparr>ln_persistent := Some t\<rparr>"

definition linear_clear :: "'t linear_state \<Rightarrow> 't linear_state" where
  "linear_clear s = s\<lparr>ln_cache := Map.empty\<rparr>"

definition linear_cached_len :: "'t linear_state \<Rightarrow> nat" where
  "linear_cached_len s = card (dom (ln_cache s))"

definition cosine :: "f32 list \<Rightarrow> f32 list \<Rightarrow> f32" where
  "cosine a b =
     (if length a \<noteq> length b \<or> a = [] then f32_0
      else
        let (dot, na, nb) =
              fold (\<lambda>(x, y) (dot, na, nb).
                (fadd rnd32 dot (fmul rnd32 x y), fadd rnd32 na (fmul rnd32 x x), fadd rnd32 nb (fmul rnd32 y y)))
              (zip a b) (f32_0, f32_0, f32_0);
            denom = fmul rnd32 (fsqrt na) (fsqrt nb)
        in if flt denom f32_epsilon then f32_0 else fclamp (fdiv rnd32 dot denom) f32_0 f32_1)"

text \<open>The load loop: hits of the persistent cache go into the memory cache at once.\<close>

fun load_missing ::
    "'t lmdb_lib \<Rightarrow> store_view \<Rightarrow> bytes \<Rightarrow> 't option \<Rightarrow> block_id list \<Rightarrow> (block_id \<rightharpoonup> f32 list) \<Rightarrow>
       (retrieval_error + pending list) \<times> (block_id \<rightharpoonup> f32 list)" where
  "load_missing lib st name persistent [] mem = (Inr [], mem)"
| "load_missing lib st name persistent (i # is') mem =
     (case sv_get st i of
        Inl e \<Rightarrow> (Inl (store_err e), mem)
      | Inr None \<Rightarrow> load_missing lib st name persistent is' mem
      | Inr (Some block) \<Rightarrow>
          (case l2_get lib name persistent (cb_hash block) of
             Inl e \<Rightarrow> (Inl e, mem)
           | Inr (Some v) \<Rightarrow> load_missing lib st name persistent is' (mem(i \<mapsto> v))
           | Inr None \<Rightarrow>
               (case from_utf8 (cb_bytes block) of
                  None \<Rightarrow> load_missing lib st name persistent is' mem
                | Some txt' \<Rightarrow>
                    (case load_missing lib st name persistent is' mem of
                       (Inl e, mem') \<Rightarrow> (Inl e, mem')
                     | (Inr rest, mem') \<Rightarrow> (Inr ((i, cb_hash block, txt') # rest), mem')))))"

text \<open>The vectors of a batch go into both caches, as far as there are any.\<close>

fun store_embedded ::
    "'t lmdb_lib \<Rightarrow> bytes \<Rightarrow> (pending \<times> f32 list) list \<Rightarrow> 't linear_state \<Rightarrow> (retrieval_error + unit) \<times> 't linear_state" where
  "store_embedded lib name [] s = (Inr (), s)"
| "store_embedded lib name (((i, h, txt'), v) # rest) s =
     (case l2_put lib name (ln_persistent s) h v of
        Inl e \<Rightarrow> (Inl e, s)
      | Inr p \<Rightarrow> store_embedded lib name rest (s\<lparr>ln_persistent := p, ln_cache := (ln_cache s)(i \<mapsto> v)\<rparr>))"

definition fill_cache ::
    "'t lmdb_lib \<Rightarrow> store_view \<Rightarrow> embedder \<Rightarrow> block_id list \<Rightarrow> 't linear_state \<Rightarrow> (retrieval_error + unit) \<times> 't linear_state" where
  "fill_cache lib st em needs_embed s =
     (case load_missing lib st (em_name em) (ln_persistent s) needs_embed (ln_cache s) of
        (Inl e, mem) \<Rightarrow> (Inl e, s\<lparr>ln_cache := mem\<rparr>)
      | (Inr missing, mem) \<Rightarrow>
          if missing = [] then (Inr (), s\<lparr>ln_cache := mem\<rparr>)
          else
            (case embed_batch em (map (\<lambda>(i, h, txt'). txt') missing) of
               Inl e \<Rightarrow> (Inl e, s\<lparr>ln_cache := mem\<rparr>)
             | Inr vecs \<Rightarrow> store_embedded lib (em_name em) (zip missing vecs) (s\<lparr>ln_cache := mem\<rparr>)))"

text \<open>The ranking of the blocks that have an embedding.\<close>

definition linear_rank :: "f32 list \<Rightarrow> (block_id \<rightharpoonup> f32 list) \<Rightarrow> block_id list \<Rightarrow> nat \<Rightarrow> retrieval_candidate list" where
  "linear_rank task_vec cache ids limit =
     (let scored = fold (\<lambda>i acc.
            case cache i of
              None \<Rightarrow> acc
            | Some v \<Rightarrow> let sim = cosine task_vec v in if flt f32_0 sim then acc @ [(i, sim)] else acc) ids [];
          sorted' = sort_by (\<lambda>a b. unwrap_equal (partial_cmp (snd b) (snd a))) scored
      in map (\<lambda>(i, score). candidate i (fclamp score f32_0 f32_1) ''ann-linear'') (take limit sorted'))"

definition linear_retrieve ::
    "'t lmdb_lib \<Rightarrow> store_view \<Rightarrow> embedder \<Rightarrow> session_id \<Rightarrow> bytes \<Rightarrow> nat \<Rightarrow> 't linear_state \<Rightarrow>
       (retrieval_error + retrieval_candidate list) \<times> 't linear_state" where
  "linear_retrieve lib st em session task limit s =
     (if task = [] then (Inr [], s)
      else
        case rbind (embed_task em task) (\<lambda>task_vec.
               rbind (map_err store_err (sv_list_session st session)) (\<lambda>ids. Inr (task_vec, ids))) of
          Inl e \<Rightarrow> (Inl e, s)
        | Inr (task_vec, ids) \<Rightarrow>
            if ids = [] then (Inr [], s)
            else
              (case fill_cache lib st em (filter (\<lambda>i. ln_cache s i = None) ids) s of
                 (Inl e, s') \<Rightarrow> (Inl e, s')
               | (Inr _, s') \<Rightarrow> (Inr (linear_rank task_vec (ln_cache s') ids limit), s')))"

section \<open>The HNSW retriever\<close>

definition unit_normalize :: "f32 list \<Rightarrow> f32 list" where
  "unit_normalize v =
     (let len = fsqrt (fold (\<lambda>x acc. fadd rnd32 acc (fmul rnd32 x x)) v f32_0)
      in if flt f32_epsilon len then map (\<lambda>x. fdiv rnd32 x len) v else v)"

definition f32_max :: f32 where
  "f32_max = Fin (max_fin 24 127)"

definition point_distance :: "f32 list \<Rightarrow> f32 list \<Rightarrow> f32" where
  "point_distance a b =
     (if length a \<noteq> length b then f32_max
      else fsqrt (fold (\<lambda>(x, y) acc. let d = fsub rnd32 x y in fadd rnd32 acc (fmul rnd32 d d)) (zip a b) f32_0))"

text \<open>An index of the crate: it is built from points and values, and a search gives distances and values.\<close>

record 'h hnsw_lib =
  hn_build :: "nat \<Rightarrow> f32 list list \<Rightarrow> nat list \<Rightarrow> 'h"
  hn_search :: "'h \<Rightarrow> f32 list \<Rightarrow> (f32 \<times> nat) list"

record 'h indexed_session =
  is_session :: session_id
  is_index :: 'h
  is_block_ids :: "block_id list"

record ('t, 'h) hnsw_state =
  hw_persistent :: "'t option"
  hw_ef_construction :: nat
  hw_ef_search :: nat
  hw_state :: "'h indexed_session option"

definition hnsw_new :: "('t, 'h) hnsw_state" where
  "hnsw_new = \<lparr>hw_persistent = None, hw_ef_construction = 32, hw_ef_search = 16, hw_state = None\<rparr>"

definition hnsw_with_persistent :: "('t, 'h) hnsw_state \<Rightarrow> 't \<Rightarrow> ('t, 'h) hnsw_state" where
  "hnsw_with_persistent s t = s\<lparr>hw_persistent := Some t\<rparr>"

definition with_ef_construction :: "('t, 'h) hnsw_state \<Rightarrow> nat \<Rightarrow> ('t, 'h) hnsw_state" where
  "with_ef_construction s ef = s\<lparr>hw_ef_construction := max ef 1\<rparr>"

definition with_ef_search :: "('t, 'h) hnsw_state \<Rightarrow> nat \<Rightarrow> ('t, 'h) hnsw_state" where
  "with_ef_search s ef = s\<lparr>hw_ef_search := max ef 1\<rparr>"

definition invalidate_index :: "('t, 'h) hnsw_state \<Rightarrow> ('t, 'h) hnsw_state" where
  "invalidate_index s = s\<lparr>hw_state := None\<rparr>"

text \<open>The first loop: blocks with a cached vector become points, the others are to be embedded.\<close>

fun hnsw_load ::
    "'t lmdb_lib \<Rightarrow> store_view \<Rightarrow> bytes \<Rightarrow> 't option \<Rightarrow> block_id list \<Rightarrow>
       (block_id \<times> f32 list) list \<Rightarrow> pending list \<Rightarrow> retrieval_error + (block_id \<times> f32 list) list \<times> pending list" where
  "hnsw_load lib st name persistent [] points to_embed = Inr (points, to_embed)"
| "hnsw_load lib st name persistent (i # is') points to_embed =
     rbind (map_err store_err (sv_get st i)) (\<lambda>found.
     case found of
       None \<Rightarrow> hnsw_load lib st name persistent is' points to_embed
     | Some block \<Rightarrow>
         rbind (l2_get lib name persistent (cb_hash block)) (\<lambda>cached.
         case cached of
           Some v \<Rightarrow> hnsw_load lib st name persistent is' (points @ [(i, unit_normalize v)]) to_embed
         | None \<Rightarrow>
             (case from_utf8 (cb_bytes block) of
                None \<Rightarrow> hnsw_load lib st name persistent is' points to_embed
              | Some txt' \<Rightarrow> hnsw_load lib st name persistent is' points (to_embed @ [(i, cb_hash block, txt')]))))"

text \<open>The second loop; what it has put into the persistent cache stays there.\<close>

fun hnsw_store ::
    "'t lmdb_lib \<Rightarrow> bytes \<Rightarrow> (pending \<times> f32 list) list \<Rightarrow> (block_id \<times> f32 list) list \<Rightarrow> 't option \<Rightarrow>
       (retrieval_error + (block_id \<times> f32 list) list) \<times> 't option" where
  "hnsw_store lib name [] points p = (Inr points, p)"
| "hnsw_store lib name (((i, h, txt'), v) # rest) points p =
     (case l2_put lib name p h v of
        Inl e \<Rightarrow> (Inl e, p)
      | Inr p' \<Rightarrow> hnsw_store lib name rest (points @ [(i, unit_normalize v)]) p')"

definition build_index ::
    "'t lmdb_lib \<Rightarrow> 'h hnsw_lib \<Rightarrow> store_view \<Rightarrow> embedder \<Rightarrow> session_id \<Rightarrow> ('t, 'h) hnsw_state \<Rightarrow>
       (retrieval_error + 'h indexed_session option) \<times> ('t, 'h) hnsw_state" where
  "build_index lib hn st em session s =
     (case map_err store_err (sv_list_session st session) of
        Inl e \<Rightarrow> (Inl e, s)
      | Inr ids \<Rightarrow>
          if ids = [] then (Inr None, s)
          else
            (case hnsw_load lib st (em_name em) (hw_persistent s) ids [] [] of
               Inl e \<Rightarrow> (Inl e, s)
             | Inr (points, to_embed) \<Rightarrow>
                 (case (if to_embed = [] then (Inr points, hw_persistent s)
                        else
                          case embed_batch em (map (\<lambda>(i, h, txt'). txt') to_embed) of
                            Inl e \<Rightarrow> (Inl e, hw_persistent s)
                          | Inr vecs \<Rightarrow> hnsw_store lib (em_name em) (zip to_embed vecs) points (hw_persistent s)) of
                    (Inl e, p) \<Rightarrow> (Inl e, s\<lparr>hw_persistent := p\<rparr>)
                  | (Inr all_points, p) \<Rightarrow>
                      (Inr (if all_points = [] then None
                            else Some \<lparr>is_session = session,
                                   is_index = hn_build hn (hw_ef_construction s) (map snd all_points)
                                     [0..<min (length all_points) (2 ^ 32 - 1)],
                                   is_block_ids = map fst all_points\<rparr>),
                       s\<lparr>hw_persistent := p\<rparr>))))"

definition hnsw_score :: "f32 \<Rightarrow> f32" where
  "hnsw_score d = fclamp (fsub rnd32 f32_1 (fmul rnd32 (fmul rnd32 (Fin (1 / 2)) d) d)) f32_0 f32_1"

definition hnsw_query :: "'h hnsw_lib \<Rightarrow> 'h indexed_session \<Rightarrow> f32 list \<Rightarrow> nat \<Rightarrow> retrieval_candidate list" where
  "hnsw_query hn x task_vec limit =
     map (\<lambda>(i, score). candidate i score ''ann-hnsw'')
       (take limit (map (\<lambda>(d, k). (is_block_ids x ! k, hnsw_score d)) (hn_search hn (is_index x) task_vec)))"

definition hnsw_retrieve ::
    "'t lmdb_lib \<Rightarrow> 'h hnsw_lib \<Rightarrow> store_view \<Rightarrow> embedder \<Rightarrow> session_id \<Rightarrow> bytes \<Rightarrow> nat \<Rightarrow> ('t, 'h) hnsw_state \<Rightarrow>
       (retrieval_error + retrieval_candidate list) \<times> ('t, 'h) hnsw_state" where
  "hnsw_retrieve lib hn st em session task limit s =
     (if task = [] then (Inr [], s)
      else
        case embed_task em task of
          Inl e \<Rightarrow> (Inl e, s)
        | Inr task_vec \<Rightarrow>
            (case (case hw_state s of
                     Some x \<Rightarrow> if is_session x \<noteq> session then build_index lib hn st em session s else (Inr (Some x), s)
                   | None \<Rightarrow> build_index lib hn st em session s) of
               (Inl e, s') \<Rightarrow> (Inl e, s')
             | (Inr built, s') \<Rightarrow>
                 (Inr (case built of None \<Rightarrow> [] | Some x \<Rightarrow> hnsw_query hn x task_vec limit), s'\<lparr>hw_state := built\<rparr>)))"

section \<open>The OpenAI embedder\<close>

record openai_embedder =
  oa_api_key :: bytes
  oa_model :: bytes
  oa_api_base :: bytes
  oa_dimensions :: nat

definition openai_new :: "bytes \<Rightarrow> openai_embedder" where
  "openai_new api_key =
     \<lparr>oa_api_key = api_key, oa_model = ''text-embedding-3-small'', oa_api_base = ''https://api.openai.com/v1'',
      oa_dimensions = 1536\<rparr>"

text \<open>The argument is the environment variable \<open>OPENAI_API_KEY\<close>, when it is set.\<close>

definition openai_from_env :: "bytes option \<Rightarrow> embedder_error + openai_embedder" where
  "openai_from_env var =
     rbind (ok_or (EmbedderFailed ''OPENAI_API_KEY env var not set'') var) (\<lambda>key.
     if key = [] then Inl (EmbedderFailed ''OPENAI_API_KEY env var is empty'') else Inr (openai_new key))"

definition openai_with_model :: "openai_embedder \<Rightarrow> bytes \<Rightarrow> openai_embedder" where
  "openai_with_model e model = e\<lparr>oa_model := model\<rparr>"

definition openai_with_dimensions :: "openai_embedder \<Rightarrow> nat \<Rightarrow> openai_embedder" where
  "openai_with_dimensions e dims = e\<lparr>oa_dimensions := dims\<rparr>"

definition openai_with_api_base :: "openai_embedder \<Rightarrow> bytes \<Rightarrow> openai_embedder" where
  "openai_with_api_base e base = e\<lparr>oa_api_base := base\<rparr>"

record embedding_datum =
  ed_index :: u32
  ed_embedding :: "f32 list"

datatype embeddings_result =
  Embed_Send_Failed bytes | Embed_Status_Failed bytes | Embed_Json_Failed bytes | Embeddings "embedding_datum list"

text \<open>The client is given the URL, the bearer token, the model and the inputs.\<close>

type_synonym embeddings_client = "bytes \<Rightarrow> bytes \<Rightarrow> bytes \<Rightarrow> bytes list \<Rightarrow> embeddings_result"

definition post_embeddings :: "embeddings_client \<Rightarrow> openai_embedder \<Rightarrow> bytes list \<Rightarrow> embedder_error + f32 list list" where
  "post_embeddings client e inputs =
     (case client (oa_api_base e @ ''/embeddings'') (oa_api_key e) (oa_model e) inputs of
        Embed_Send_Failed m \<Rightarrow> Inl (EmbedderFailed (''request: '' @ m))
      | Embed_Status_Failed m \<Rightarrow> Inl (EmbedderFailed (''status: '' @ m))
      | Embed_Json_Failed m \<Rightarrow> Inl (EmbedderFailed (''parse: '' @ m))
      | Embeddings data' \<Rightarrow> Inr (map ed_embedding (sort_by_key ed_index data')))"

definition openai_embed :: "embeddings_client \<Rightarrow> openai_embedder \<Rightarrow> bytes \<Rightarrow> embedder_error + f32 list" where
  "openai_embed client e txt' =
     rbind (post_embeddings client e [txt']) (\<lambda>vecs.
     if vecs = [] then Inl (EmbedderFailed ''empty response'') else Inr (last vecs))"

definition openai_embed_batch :: "embeddings_client \<Rightarrow> openai_embedder \<Rightarrow> bytes list \<Rightarrow> embedder_error + f32 list list" where
  "openai_embed_batch client e texts = (if texts = [] then Inr [] else post_embeddings client e texts)"

definition openai_embedder_of :: "embeddings_client \<Rightarrow> openai_embedder \<Rightarrow> embedder" where
  "openai_embedder_of client e =
     \<lparr>em_name = ''openai-embeddings'', em_dimensions = oa_dimensions e,
      em_embed = openai_embed client e, em_embed_batch = openai_embed_batch client e\<rparr>"

end
