(* ===== verification/Ann_Correct.thy ===== *)
theory Ann_Correct
  imports Ann
begin

text \<open>
  What the cache of embeddings and the retrievers over it promise. The locale \<open>vector_cache\<close> is
  the contract of the cache, a map from an embedder's name and a content hash to a vector; the
  LMDB cache satisfies it on any table. The memory of the brute-force retriever and its
  persistent cache hold only what the embedder gives for the text of a block, so every answer
  is the one that an empty cache gives.
\<close>

section \<open>Keys and values of the cache\<close>

lemma byte_of_inject [simp]: "byte_of c = byte_of d \<longleftrightarrow> c = d"
proof
  assume "byte_of c = byte_of d"
  then have "byte_val c mod 256 = byte_val d mod 256"
    by (simp add: byte_of_def word_of_nat_eq_iff take_bit_eq_mod)
  then show "c = d" by simp
qed simp

lemma make_key_inject [simp]: "make_key n h = make_key m g \<longleftrightarrow> n = m \<and> h = g"
proof
  assume a: "make_key n h = make_key m g"
  then have "map byte_of n @ hash_key h = map byte_of m @ hash_key g" by (simp add: make_key_def Let_def)
  then have "map byte_of n = map byte_of m" "hash_key h = hash_key g" by (simp_all add: append_eq_append_conv)
  then show "n = m \<and> h = g" by (simp add: inj_map_eq_map inj_def)
qed simp

lemma chunks4_concat: "\<forall>xs \<in> set xss. length xs = 4 \<Longrightarrow> chunks4 (concat xss) = xss"
proof (induction xss)
  case (Cons xs xss)
  then obtain a b c d where "xs = [a, b, c, d]" by (auto simp: length_Suc_conv numeral_eq_Suc)
  with Cons show ?case by simp
qed simp

lemma decode_encode_vec:
  assumes "length v < 2 ^ 32" "\<forall>x \<in> set v. f32_value x"
  shows "decode_vec (encode_vec v) = Inr v"
proof -
  have l: "length (concat (map f32_to_le_bytes v)) = 4 * length v"
    by (induction v) simp_all
  have "length v < 256 ^ 4" using assms(1) by simp
  then have d: "from_le (le_bytes 4 (length v)) = length v" by (simp only: from_le_le_bytes mod_less)
  have c: "chunks4 (concat (map f32_to_le_bytes v)) = map f32_to_le_bytes v"
    by (rule chunks4_concat) simp
  have "map f32_from_le_bytes (map f32_to_le_bytes v) = v"
    using assms(2) by (simp add: map_idI f32_le_bytes_roundtrip)
  then show ?thesis
    using assms(1) l d c by (simp add: decode_vec_def encode_vec_def Let_def)
qed

section \<open>The contract of the cache\<close>

type_synonym vectors = "bytes \<times> content_hash \<rightharpoonup> f32 list"

text \<open>Vectors that the cache can hold.\<close>

definition storable :: "f32 list \<Rightarrow> bool" where
  "storable v \<longleftrightarrow> length v < 2 ^ 32 \<and> (\<forall>x \<in> set v. f32_value x)"

locale vector_cache =
  fixes get :: "'p \<Rightarrow> bytes \<Rightarrow> content_hash \<Rightarrow> cache_error + f32 list option"
    and put :: "'p \<Rightarrow> bytes \<Rightarrow> content_hash \<Rightarrow> f32 list \<Rightarrow> cache_error + 'p"
    and view :: "'p \<Rightarrow> vectors"
  assumes get_ok: "get p n h = Inr r \<Longrightarrow> r = view p (n, h)"
    and put_ok: "put p n h v = Inr p' \<Longrightarrow> storable v \<Longrightarrow> view p' = (view p)((n, h) \<mapsto> v)"
begin

lemma put_get:
  assumes "put p n h v = Inr p'" "storable v" "get p' m g = Inr r"
  shows "if (m, g) = (n, h) then r = Some v else \<forall>r'. get p m g = Inr r' \<longrightarrow> r = r'"
  using get_ok [OF assms(3)] put_ok [OF assms(1,2)] by (auto dest: get_ok)

end

definition cache_view :: "('t \<Rightarrow> raw \<rightharpoonup> raw) \<Rightarrow> 't \<Rightarrow> vectors" where
  "cache_view tab t =
     (\<lambda>(n, h). case tab t (make_key n h) of
        None \<Rightarrow> None
      | Some r \<Rightarrow> (case decode_vec r of Inr v \<Rightarrow> Some v | Inl _ \<Rightarrow> None))"

context lmdb
begin

lemma cache_get_ok: "cache_get lib t n h = Inr r \<Longrightarrow> r = cache_view tab t (n, h)"
  by (auto simp: cache_get_def cache_view_def rbind_Inr_iff dest!: get_ok split: option.splits)

lemma cache_put_ok: "cache_put lib t n h v = Inr t' \<Longrightarrow> storable v \<Longrightarrow> cache_view tab t' = (cache_view tab t)((n, h) \<mapsto> v)"
  by (auto simp: cache_put_def cache_view_def rbind_Inr_iff storable_def decode_encode_vec fun_eq_iff dest!: put_ok)

sublocale vectors: vector_cache "cache_get lib" "cache_put lib" "cache_view tab"
  by unfold_locales (simp_all add: cache_get_ok cache_put_ok)

lemmas vectors_put_get = vectors.put_get

end

text \<open>
  What is put into the persistent cache is read back under the same embedder and content
  hash, whatever the embedder's name, and leaves every other entry alone. The vector may hold
  any values of \<open>f32\<close>, infinities and NaN included.
\<close>

lemma cache_put_get:
  assumes "lmdb lib tab" and "cache_put lib t n h v = Inr t'" and "storable v" and "cache_get lib t' m g = Inr r"
  shows "if (m, g) = (n, h) then r = Some v else \<forall>r'. cache_get lib t m g = Inr r' \<longrightarrow> r = r'"
  by (rule lmdb.vectors_put_get [OF assms])

lemma cache_get_after:
  "lmdb lib tab \<Longrightarrow> cache_put lib t n h v = Inr t' \<Longrightarrow> storable v \<Longrightarrow> cache_get lib t' n h = Inr r \<Longrightarrow> r = Some v"
  using lmdb.vectors_put_get [of lib tab t n h v t' n h r] by simp

section \<open>The ranking\<close>

lemma linear_scored:
  "fold (\<lambda>i acc. case cache i of None \<Rightarrow> acc
     | Some v \<Rightarrow> let sim = cosine q v in if flt f32_0 sim then acc @ [(i, sim)] else acc) ids acc =
   acc @ map (\<lambda>i. (i, cosine q (the (cache i)))) (filter (\<lambda>i. \<exists>v. cache i = Some v \<and> flt f32_0 (cosine q v)) ids)"
  by (induction ids arbitrary: acc) (auto simp: Let_def split: option.splits)

lemma linear_rank_cong: "(\<And>i. i \<in> set ids \<Longrightarrow> c i = d i) \<Longrightarrow> linear_rank q c ids limit = linear_rank q d ids limit"
  unfolding linear_rank_def by (simp cong: fold_cong)

text \<open>Comparing scores that are numbers is a total preorder.\<close>

lemma total_preorder_snd:
  "\<forall>p \<in> A. snd p \<noteq> NaN \<Longrightarrow> total_preorder_on A (\<lambda>a b. unwrap_equal (partial_cmp (snd b) (snd a)))"
  unfolding total_preorder_on_def by (auto dest: flt_asym not_flt_trans)

lemma cosine_range: "flt f32_0 (cosine q v) \<Longrightarrow> \<exists>x. cosine q v = Fin x \<and> 0 < x \<and> x \<le> 1"
proof -
  assume pos: "flt f32_0 (cosine q v)"
  have "cosine q v = f32_0 \<or> (\<exists>y. cosine q v = fclamp y f32_0 f32_1)"
    by (auto simp: cosine_def Let_def split: if_splits prod.splits)
  with pos obtain y where y: "cosine q v = fclamp y f32_0 f32_1" by auto
  with pos have "y \<noteq> NaN" by auto
  then have "unit_score (cosine q v)" unfolding y by (rule unit_score_fclamp)
  with pos show ?thesis by (auto simp: unit_score_def)
qed

definition best_first :: "retrieval_candidate list \<Rightarrow> bool" where
  "best_first cs \<longleftrightarrow> sorted_wrt (\<lambda>a b. \<not> flt (rc_score a) (rc_score b)) cs"

lemma linear_rank_ok:
  "candidates_ok limit (set ids) (linear_rank q cache ids limit) \<and> best_first (linear_rank q cache ids limit) \<and>
   (\<forall>c \<in> set (linear_rank q cache ids limit). flt f32_0 (rc_score c))"
proof -
  let ?hits = "map (\<lambda>i. (i, cosine q (the (cache i)))) (filter (\<lambda>i. \<exists>v. cache i = Some v \<and> flt f32_0 (cosine q v)) ids)"
  let ?c = "\<lambda>a b. unwrap_equal (partial_cmp (snd b) (snd a)) :: ordering"
  have hit: "\<exists>x. snd p = Fin x \<and> 0 < x \<and> x \<le> 1" "fst p \<in> set ids" if "p \<in> set ?hits" for p
    using that by (auto dest: cosine_range)
  have same: "fclamp (snd p) f32_0 f32_1 = snd p" if "p \<in> set ?hits" for p
    using hit(1) [OF that] by (auto simp: fclamp_Fin_id)
  have "total_preorder_on (set ?hits) ?c"
    by (rule total_preorder_snd) (use hit(1) in force)
  then have srt: "sorted_wrt (\<lambda>a b. ?c a b \<noteq> Greater) (take limit (sort_by ?c ?hits))"
    by (intro sorted_wrt_take sorted_wrt_sort_by)
  have sub: "set (take limit (sort_by ?c ?hits)) \<subseteq> set ?hits" using set_take_subset [of limit "sort_by ?c ?hits"] by simp
  have r: "linear_rank q cache ids limit =
      map (\<lambda>p. candidate (fst p) (snd p) ''ann-linear'') (take limit (sort_by ?c ?hits))"
    unfolding linear_rank_def Let_def linear_scored [unfolded Let_def] append_Nil
    by (rule map_cong [OF refl]) (simp add: case_prod_beta same [OF subsetD [OF sub]])
  have "sorted_wrt (\<lambda>a b. \<not> flt (snd a) (snd b)) (take limit (sort_by ?c ?hits))"
    by (rule sorted_wrt_mono_rel [OF _ srt]) (use sub hit(1) in auto)
  then have "best_first (linear_rank q cache ids limit)" unfolding r best_first_def by (simp add: sorted_wrt_map)
  moreover have all: "(\<exists>x. snd p = Fin x \<and> 0 < x \<and> x \<le> 1) \<and> fst p \<in> set ids"
    if "p \<in> set (take limit (sort_by ?c ?hits))" for p
    using hit [OF subsetD [OF sub that]] by blast
  have "unit_score (snd p) \<and> flt f32_0 (snd p) \<and> fst p \<in> set ids"
    if "p \<in> set (take limit (sort_by ?c ?hits))" for p
    using all [OF that] by (auto simp: unit_score_def)
  then have "candidates_ok limit (set ids) (linear_rank q cache ids limit)"
    "\<forall>c \<in> set (linear_rank q cache ids limit). flt f32_0 (rc_score c)"
    unfolding r candidates_ok_def by (simp_all only: set_map ball_simps candidate_sel length_map length_take) simp_all
  ultimately show ?thesis by blast
qed

section \<open>The caches hold what the embedder gives\<close>

text \<open>
  \<open>content\<close> is what every id stands for: a store serves it when what it gives for an id has these
  bytes and this hash and it lists no id that it cannot give. Blocks with the same hash have the
  same bytes, and the embedder is a function of the text: a batch gives what its texts give
  alone, and its vectors can be stored.
\<close>

definition serves :: "(block_id \<Rightarrow> context_block) \<Rightarrow> store_view \<Rightarrow> bool" where
  "serves content st \<longleftrightarrow>
     (\<forall>i b. sv_get st i = Inr (Some b) \<longrightarrow> cb_bytes b = cb_bytes (content i) \<and> cb_hash b = cb_hash (content i)) \<and>
     (\<forall>s ids. sv_list_session st s = Inr ids \<longrightarrow> (\<forall>i \<in> set ids. sv_get st i \<noteq> Inr None))"

definition same_hash_same_bytes :: "(block_id \<Rightarrow> context_block) \<Rightarrow> bool" where
  "same_hash_same_bytes content \<longleftrightarrow>
     (\<forall>i j. cb_hash (content i) = cb_hash (content j) \<longrightarrow> cb_bytes (content i) = cb_bytes (content j))"

definition pure_embedder :: "embedder \<Rightarrow> bool" where
  "pure_embedder em \<longleftrightarrow>
     (\<forall>ts vs. em_embed_batch em ts = Inr vs \<longrightarrow> list_all2 (\<lambda>t v. em_embed em t = Inr v) ts vs) \<and>
     (\<forall>t v. em_embed em t = Inr v \<longrightarrow> storable v)"

definition embedding_of :: "embedder \<Rightarrow> (block_id \<Rightarrow> context_block) \<Rightarrow> block_id \<rightharpoonup> f32 list" where
  "embedding_of em content i =
     (case from_utf8 (cb_bytes (content i)) of
        None \<Rightarrow> None
      | Some t \<Rightarrow> (case em_embed em t of Inr v \<Rightarrow> Some v | Inl _ \<Rightarrow> None))"

definition memory_valid :: "embedder \<Rightarrow> (block_id \<Rightarrow> context_block) \<Rightarrow> (block_id \<rightharpoonup> f32 list) \<Rightarrow> bool" where
  "memory_valid em content mem \<longleftrightarrow> mem \<subseteq>\<^sub>m embedding_of em content"

definition vectors_valid :: "embedder \<Rightarrow> (block_id \<Rightarrow> context_block) \<Rightarrow> vectors \<Rightarrow> bool" where
  "vectors_valid em content view \<longleftrightarrow>
     (\<forall>i v. view (em_name em, cb_hash (content i)) = Some v \<longrightarrow> embedding_of em content i = Some v)"

definition persistent_valid ::
    "('t \<Rightarrow> raw \<rightharpoonup> raw) \<Rightarrow> embedder \<Rightarrow> (block_id \<Rightarrow> context_block) \<Rightarrow> 't option \<Rightarrow> bool" where
  "persistent_valid tab em content p \<longleftrightarrow> (\<forall>t. p = Some t \<longrightarrow> vectors_valid em content (cache_view tab t))"

lemma memory_valid_upd:
  "memory_valid em content mem \<Longrightarrow> embedding_of em content i = Some v \<Longrightarrow> memory_valid em content (mem(i \<mapsto> v))"
  by (auto simp: memory_valid_def map_le_def)

lemma embedding_same_hash:
  "same_hash_same_bytes content \<Longrightarrow> cb_hash (content i) = cb_hash (content j) \<Longrightarrow>
    embedding_of em content i = embedding_of em content j"
  unfolding embedding_of_def same_hash_same_bytes_def by metis

text \<open>What is still to be embedded for an id, and what the loop has loaded for it.\<close>

definition pending_for :: "(block_id \<Rightarrow> context_block) \<Rightarrow> pending \<Rightarrow> bool" where
  "pending_for content p = (case p of (i, h, t) \<Rightarrow> h = cb_hash (content i) \<and> from_utf8 (cb_bytes (content i)) = Some t)"

definition settled :: "embedder \<Rightarrow> (block_id \<Rightarrow> context_block) \<Rightarrow> (block_id \<rightharpoonup> f32 list) \<Rightarrow> block_id \<Rightarrow> bool" where
  "settled em content mem i \<longleftrightarrow> mem i = embedding_of em content i"

lemma valid_settled:
  "memory_valid em content mem \<Longrightarrow> i \<in> dom mem \<or> embedding_of em content i = None \<Longrightarrow> settled em content mem i"
  unfolding memory_valid_def map_le_def settled_def by (metis domIff)

context lmdb
begin

lemma l2_get_valid:
  "persistent_valid tab em content p \<Longrightarrow> l2_get lib (em_name em) p (cb_hash (content i)) = Inr (Some v) \<Longrightarrow>
    embedding_of em content i = Some v"
  unfolding l2_get_def persistent_valid_def vectors_valid_def
  by (auto split: option.splits dest!: cache_get_ok [THEN sym])

lemma l2_put_valid:
  assumes "persistent_valid tab em content p" "same_hash_same_bytes content" "storable v"
    and "embedding_of em content i = Some v" and "l2_put lib (em_name em) p (cb_hash (content i)) v = Inr p'"
  shows "persistent_valid tab em content p'"
proof (cases p)
  case None
  with assms(5) show ?thesis by (simp add: l2_put_def persistent_valid_def)
next
  case (Some t)
  with assms(5) obtain t' where t': "cache_put lib t (em_name em) (cb_hash (content i)) v = Inr t'" "p' = Some t'"
    by (auto simp: l2_put_def rbind_Inr_iff)
  note view = cache_put_ok [OF t'(1) assms(3)]
  have "embedding_of em content j = Some w" if "cache_view tab t' (em_name em, cb_hash (content j)) = Some w" for j w
  proof (cases "cb_hash (content j) = cb_hash (content i)")
    case True
    then have "w = v" using that view by simp
    with True assms(4) show ?thesis using embedding_same_hash [OF assms(2) True] by simp
  next
    case False
    with that view have "cache_view tab t (em_name em, cb_hash (content j)) = Some w" by simp
    with assms(1) Some show ?thesis by (simp add: persistent_valid_def vectors_valid_def)
  qed
  with t'(2) show ?thesis by (simp add: persistent_valid_def vectors_valid_def)
qed

lemma load_missing_valid:
  assumes "serves content st" "persistent_valid tab em content p"
    and "load_missing lib st (em_name em) p is' mem = (r, mem')" and "memory_valid em content mem"
  shows "memory_valid em content mem' \<and> dom mem \<subseteq> dom mem' \<and>
    (\<forall>missing. r = Inr missing \<longrightarrow> (\<forall>i \<in> set is'. sv_get st i \<noteq> Inr None) \<longrightarrow>
       (\<forall>q \<in> set missing. pending_for content q) \<and>
       (\<forall>i \<in> set is'. settled em content mem' i \<or> i \<in> fst ` set missing))"
  using assms(3,4)
proof (induction is' arbitrary: mem r mem')
  case Nil
  then show ?case by auto
next
  case (Cons i is')
  note load = Cons.prems(1) [unfolded load_missing.simps]
  show ?case
  proof (cases "sv_get st i")
    case (Inl e)
    with load Cons.prems(2) show ?thesis by auto
  next
    case (Inr found)
    show ?thesis
    proof (cases found)
      case None
      with load Inr have "load_missing lib st (em_name em) p is' mem = (r, mem')" by simp
      from Cons.IH [OF this Cons.prems(2)] Inr None show ?thesis by auto
    next
      case (Some b)
      with assms(1) Inr have b: "cb_bytes b = cb_bytes (content i)" "cb_hash b = cb_hash (content i)"
        by (simp_all add: serves_def)
      show ?thesis
      proof (cases "l2_get lib (em_name em) p (cb_hash (content i))")
        case (Inl e)
        with load Inr Some b Cons.prems(2) show ?thesis by auto
      next
        case l2: (Inr cached)
        show ?thesis
        proof (cases cached)
          case v: (Some v)
          then have e: "embedding_of em content i = Some v" using l2 l2_get_valid [OF assms(2)] by blast
          from load Inr Some b l2 v have "load_missing lib st (em_name em) p is' (mem(i \<mapsto> v)) = (r, mem')" by simp
          note ih = Cons.IH [OF this memory_valid_upd [OF Cons.prems(2) e]]
          have d: "insert i (dom mem) \<subseteq> dom mem'" using ih by (simp only: dom_fun_upd option.distinct if_False)
          then have "settled em content mem' i" using ih by (intro valid_settled) blast+
          with ih d show ?thesis by simp
        next
          case none: None
          show ?thesis
          proof (cases "from_utf8 (cb_bytes (content i))")
            case None
            from load Inr Some b l2 none None have "load_missing lib st (em_name em) p is' mem = (r, mem')" by simp
            note ih = Cons.IH [OF this Cons.prems(2)]
            have "embedding_of em content i = None" using None by (simp only: embedding_of_def option.case)
            with ih have "settled em content mem' i" by (intro valid_settled) auto
            with ih show ?thesis by auto
          next
            case t: (Some t)
            obtain r1 m1 where rec: "load_missing lib st (em_name em) p is' mem = (r1, m1)" by (cases "load_missing lib st (em_name em) p is' mem")
            note ih = Cons.IH [OF rec Cons.prems(2)]
            from load Inr Some b l2 none t rec
            have out: "mem' = m1" "r = (case r1 of Inl e \<Rightarrow> Inl e | Inr rest \<Rightarrow> Inr ((i, cb_hash (content i), t) # rest))"
              by (auto split: sum.splits)
            have "pending_for content (i, cb_hash (content i), t)" using t by (simp only: pending_for_def prod.case simp_thms)
            show ?thesis
            proof (cases r1)
              case (Inl e)
              then have "r = Inl e" using out(2) by simp
              with ih out(1) show ?thesis by simp
            next
              case rest: (Inr rest)
              then have "r = Inr ((i, cb_hash (content i), t) # rest)" using out(2) by simp
              with ih out(1) rest \<open>pending_for content (i, cb_hash (content i), t)\<close> show ?thesis by auto
            qed
          qed
        qed
      qed
    qed
  qed
qed

lemma store_embedded_valid:
  assumes "same_hash_same_bytes content" "pure_embedder em"
    and "store_embedded lib (em_name em) pvs s = (r, s')"
    and "\<forall>(q, v) \<in> set pvs. pending_for content q \<and> em_embed em (snd (snd q)) = Inr v"
    and "memory_valid em content (ln_cache s)" "persistent_valid tab em content (ln_persistent s)"
  shows "memory_valid em content (ln_cache s') \<and> persistent_valid tab em content (ln_persistent s') \<and>
    dom (ln_cache s) \<subseteq> dom (ln_cache s') \<and> (r = Inr () \<longrightarrow> fst ` fst ` set pvs \<subseteq> dom (ln_cache s'))"
  using assms(3-6)
proof (induction pvs arbitrary: s)
  case (Cons pv pvs)
  obtain i h t v where pv: "pv = ((i, h, t), v)" by (metis surj_pair)
  have "pending_for content (i, h, t)" "em_embed em t = Inr v" using Cons.prems(2) pv by simp_all
  then have p: "h = cb_hash (content i)" "embedding_of em content i = Some v"
    by (simp_all add: pending_for_def embedding_of_def from_utf8_def)
  have st: "storable v" using assms(2) \<open>em_embed em t = Inr v\<close> unfolding pure_embedder_def by blast
  show ?case
  proof (cases "l2_put lib (em_name em) (ln_persistent s) h v")
    case (Inl e)
    then have "s' = s" "r = Inl e" using Cons.prems(1) pv by simp_all
    then show ?thesis using Cons.prems(3,4) by auto
  next
    case (Inr q)
    let ?s = "s\<lparr>ln_persistent := q, ln_cache := (ln_cache s)(i \<mapsto> v)\<rparr>"
    have run: "store_embedded lib (em_name em) pvs ?s = (r, s')" using Cons.prems(1) pv Inr by simp
    have "persistent_valid tab em content q"
      by (rule l2_put_valid [OF Cons.prems(4) assms(1) st p(2)]) (use Inr p(1) in simp)
    moreover have "memory_valid em content ((ln_cache s)(i \<mapsto> v))" by (rule memory_valid_upd [OF Cons.prems(3) p(2)])
    ultimately have ih: "memory_valid em content (ln_cache s') \<and> persistent_valid tab em content (ln_persistent s') \<and>
        dom (ln_cache ?s) \<subseteq> dom (ln_cache s') \<and> (r = Inr () \<longrightarrow> fst ` fst ` set pvs \<subseteq> dom (ln_cache s'))"
      using Cons.prems(2) by (intro Cons.IH [OF run]) (simp_all del: fun_upd_apply)
    have "insert i (dom (ln_cache s)) \<subseteq> dom (ln_cache s')" using ih by simp
    with ih pv show ?thesis by simp
  qed
qed auto

lemma fill_cache_valid:
  assumes "serves content st" "same_hash_same_bytes content" "pure_embedder em"
    and "fill_cache lib st em is' s = (r, s')" and "\<forall>i \<in> set is'. sv_get st i \<noteq> Inr None"
    and "memory_valid em content (ln_cache s)" "persistent_valid tab em content (ln_persistent s)"
  shows "memory_valid em content (ln_cache s') \<and> persistent_valid tab em content (ln_persistent s') \<and>
    dom (ln_cache s) \<subseteq> dom (ln_cache s') \<and> (r = Inr () \<longrightarrow> (\<forall>i \<in> set is'. settled em content (ln_cache s') i))"
proof -
  obtain r1 mem where load: "load_missing lib st (em_name em) (ln_persistent s) is' (ln_cache s) = (r1, mem)"
    by (cases "load_missing lib st (em_name em) (ln_persistent s) is' (ln_cache s)")
  note l = load_missing_valid [OF assms(1,7) load assms(6)]
  note run = assms(4) [unfolded fill_cache_def load prod.case]
  show ?thesis
  proof (cases r1)
    case (Inl e)
    with run have "s' = s\<lparr>ln_cache := mem\<rparr>" "r = Inl e" by simp_all
    with l assms(7) show ?thesis by simp
  next
    case (Inr missing)
    with l assms(5) have q: "\<forall>q \<in> set missing. pending_for content q"
      "\<forall>i \<in> set is'. settled em content mem i \<or> i \<in> fst ` set missing" by blast+
    show ?thesis
    proof (cases "missing = []")
      case True
      with run Inr have "s' = s\<lparr>ln_cache := mem\<rparr>" by simp
      with l q True assms(7) show ?thesis by simp
    next
      case False
      show ?thesis
      proof (cases "embed_batch em (map (\<lambda>(i, h, t). t) missing)")
        case (Inl e)
        with run Inr False have "s' = s\<lparr>ln_cache := mem\<rparr>" "r = Inl e" by simp_all
        with l assms(7) show ?thesis by simp
      next
        case vs: (Inr vecs)
        let ?s = "s\<lparr>ln_cache := mem\<rparr>"
        have st: "store_embedded lib (em_name em) (zip missing vecs) ?s = (r, s')" using run Inr False vs by simp
        have "em_embed_batch em (map (\<lambda>(i, h, t). t) missing) = Inr vecs" using vs by (simp add: embed_batch_def)
        then have "list_all2 (\<lambda>t v. em_embed em t = Inr v) (map (\<lambda>(i, h, t). t) missing) vecs"
          using assms(3) unfolding pure_embedder_def by blast
        then have a: "list_all2 (\<lambda>q v. em_embed em (snd (snd q)) = Inr v) missing vecs"
          by (simp add: list_all2_map1 case_prod_beta)
        have "\<forall>(q, v) \<in> set (zip missing vecs). pending_for content q \<and> em_embed em (snd (snd q)) = Inr v"
          using a q(1) by (auto simp: list_all2_iff dest: set_zip_leftD)
        then have out: "memory_valid em content (ln_cache s') \<and> persistent_valid tab em content (ln_persistent s') \<and>
            dom (ln_cache ?s) \<subseteq> dom (ln_cache s') \<and>
            (r = Inr () \<longrightarrow> fst ` fst ` set (zip missing vecs) \<subseteq> dom (ln_cache s'))"
          by (rule store_embedded_valid [OF assms(2,3) st]) (use l assms(7) in simp_all)
        have "map fst (zip missing vecs) = missing" using list_all2_lengthD [OF a] by simp
        then have ids: "fst ` set (zip missing vecs) = set missing" by (metis set_map)
        have all: "settled em content (ln_cache s') i" if "r = Inr ()" "i \<in> set is'" for i
        proof (cases "i \<in> fst ` set missing")
          case True
          with out that(1) ids show ?thesis by (intro valid_settled) auto
        next
          case False
          with q(2) that(2) have "mem i = embedding_of em content i" by (auto simp: settled_def)
          then have "i \<in> dom mem \<or> embedding_of em content i = None" by (auto simp: domIff)
          moreover have "dom mem \<subseteq> dom (ln_cache s')" using out by simp
          ultimately have "i \<in> dom (ln_cache s') \<or> embedding_of em content i = None"
            by (elim disjE) (drule (1) rev_subsetD, simp_all only: simp_thms)
          with out show ?thesis by (intro valid_settled) auto
        qed
        have grows: "dom (ln_cache s) \<subseteq> dom (ln_cache s')"
          by (rule subset_trans [of _ "dom mem"]) (use out l in simp_all)
        show ?thesis
          by (intro conjI impI ballI out [THEN conjunct1] out [THEN conjunct2, THEN conjunct1] grows all)
      qed
    qed
  qed
qed

lemma linear_retrieve_valid:
  assumes "serves content st" "same_hash_same_bytes content" "pure_embedder em"
    and "linear_retrieve lib st em session task limit s = (r, s')"
    and "memory_valid em content (ln_cache s)" "persistent_valid tab em content (ln_persistent s)"
  shows "memory_valid em content (ln_cache s') \<and> persistent_valid tab em content (ln_persistent s') \<and>
    (\<forall>cs q ids. task \<noteq> [] \<longrightarrow> em_embed em task = Inr q \<longrightarrow> sv_list_session st session = Inr ids \<longrightarrow> r = Inr cs \<longrightarrow>
       cs = linear_rank q (embedding_of em content) ids limit)"
proof (cases "task \<noteq> [] \<and> (\<exists>q ids. em_embed em task = Inr q \<and> sv_list_session st session = Inr ids)")
  case False
  then have "s' = s"
    using assms(4) by (auto simp: linear_retrieve_def embed_task_def rbind_Inr_iff split: if_splits sum.splits)
  then show ?thesis using False assms(5,6) by auto
next
  case True
  then obtain q ids where q: "task \<noteq> []" "em_embed em task = Inr q" "sv_list_session st session = Inr ids" by blast
  note run = assms(4) [unfolded linear_retrieve_def, simplified embed_task_def q map_err_simps rbind_simps sum.case prod.case if_False]
  show ?thesis
  proof (cases "ids = []")
    case True
    then have "s' = s" "r = Inr []" using run q(1) by simp_all
    moreover have "linear_rank q c [] limit = []" for c by (simp add: linear_rank_def)
    ultimately show ?thesis using True q assms(5,6) by simp
  next
    case False
    let ?needs = "filter (\<lambda>i. ln_cache s i = None) ids"
    obtain r1 s1 where fill: "fill_cache lib st em ?needs s = (r1, s1)" by (cases "fill_cache lib st em ?needs s")
    have "\<forall>i \<in> set ?needs. sv_get st i \<noteq> Inr None" using assms(1) q(3) by (auto simp: serves_def)
    note ok = fill_cache_valid [OF assms(1-3) fill this assms(5,6)]
    have out: "s' = s1" "r = (case r1 of Inl e \<Rightarrow> Inl e | Inr _ \<Rightarrow> Inr (linear_rank q (ln_cache s1) ids limit))"
      using run False fill q(1) by (auto split: sum.splits)
    have "linear_rank q (ln_cache s1) ids limit = linear_rank q (embedding_of em content) ids limit" if "r1 = Inr ()"
    proof (rule linear_rank_cong)
      fix i assume i: "i \<in> set ids"
      have "settled em content (ln_cache s1) i"
      proof (cases "ln_cache s i = None")
        case True
        with i ok that show ?thesis by simp
      next
        case False
        then have "i \<in> dom (ln_cache s1)" using ok by (metis domIff subsetD)
        then show ?thesis using ok by (metis valid_settled)
      qed
      then show "ln_cache s1 i = embedding_of em content i" by (simp add: settled_def)
    qed
    then show ?thesis using ok out q by (cases r1) auto
  qed
qed

end

section \<open>Every reached state\<close>

text \<open>
  The states of a brute-force retriever: new, with a persistent cache attached that is empty or
  that another such retriever has filled, cleared, or after any call over any store that serves
  the same content, failed calls included.
\<close>

inductive linear_reach ::
    "'t lmdb_lib \<Rightarrow> ('t \<Rightarrow> raw \<rightharpoonup> raw) \<Rightarrow> embedder \<Rightarrow> (block_id \<Rightarrow> context_block) \<Rightarrow> 't linear_state \<Rightarrow> bool"
  for lib tab em content where
    new: "linear_reach lib tab em content linear_new"
  | attach: "linear_reach lib tab em content s \<Longrightarrow>
      tab t = Map.empty \<or> (\<exists>s'. linear_reach lib tab em content s' \<and> ln_persistent s' = Some t) \<Longrightarrow>
      linear_reach lib tab em content (linear_with_persistent s t)"
  | clear: "linear_reach lib tab em content s \<Longrightarrow> linear_reach lib tab em content (linear_clear s)"
  | retrieve: "linear_reach lib tab em content s \<Longrightarrow> serves content st \<Longrightarrow>
      linear_retrieve lib st em session task limit s = (r, s') \<Longrightarrow> linear_reach lib tab em content s'"

lemma linear_reach_valid:
  assumes "linear_reach lib tab em content s" "lmdb lib tab" "same_hash_same_bytes content" "pure_embedder em"
  shows "memory_valid em content (ln_cache s) \<and> persistent_valid tab em content (ln_persistent s)"
  using assms(1)
proof induction
  case new
  then show ?case by (simp add: linear_new_def memory_valid_def persistent_valid_def)
next
  case (attach s t)
  have "persistent_valid tab em content (Some t)"
    using attach(3) by (auto simp: persistent_valid_def vectors_valid_def cache_view_def)
  with attach.IH show ?case by (simp add: linear_with_persistent_def)
next
  case (clear s)
  then show ?case by (simp add: linear_clear_def memory_valid_def)
next
  case (retrieve s st session task limit r s')
  then show ?case using lmdb.linear_retrieve_valid [OF assms(2) retrieve(2) assms(3,4) retrieve(3)] by blast
qed

text \<open>
  C18: caching never changes an answer. From every reached state a retrieval that succeeds gives
  what the ranking of the session's blocks by freshly computed embeddings gives; the candidates
  are blocks of the session, at most as many as asked for, best first, with positive scores in
  the unit interval.
\<close>

theorem linear_retrieve_transparent:
  assumes "lmdb lib tab" and "same_hash_same_bytes content" and "pure_embedder em"
    and "linear_reach lib tab em content s" and "serves content st"
    and "linear_retrieve lib st em session task limit s = (Inr cs, s')"
    and "task \<noteq> []" and "em_embed em task = Inr q" and "sv_list_session st session = Inr ids"
  shows "cs = linear_rank q (embedding_of em content) ids limit \<and>
    candidates_ok limit (set ids) cs \<and> best_first cs \<and> (\<forall>c \<in> set cs. flt f32_0 (rc_score c))"
proof -
  have "memory_valid em content (ln_cache s) \<and> persistent_valid tab em content (ln_persistent s)"
    by (rule linear_reach_valid [OF assms(4,1-3)])
  then have "cs = linear_rank q (embedding_of em content) ids limit"
    using lmdb.linear_retrieve_valid [OF assms(1,5,2,3,6)] assms(7-9) by blast
  then show ?thesis using linear_rank_ok by simp
qed

end
