(* ===== verification/Ann_Examples.thy ===== *)
theory Ann_Examples
  imports Ann_Correct
begin

text \<open>
  What the HNSW retriever returns, what the OpenAI embedder makes of a response, and concrete
  runs. The locale \<open>hnsw_index\<close> is what the retriever relies on of the crate's index: a search
  gives values that the index was built from, each with the distance of its point to the query.
  The interpretation is an index that scans all points.
\<close>

section \<open>The HNSW index\<close>

locale hnsw_index =
  fixes hn :: "'h hnsw_lib"
  assumes search_ok: "(d, v) \<in> set (hn_search hn (hn_build hn ef ps vs) q) \<Longrightarrow> length vs = length ps \<Longrightarrow>
    \<exists>j < length ps. v = vs ! j \<and> d = point_distance q (ps ! j)"
begin

lemma query_ok:
  assumes "length pts < 2 ^ 32"
    and "x = \<lparr>is_session = session, is_index = hn_build hn ef (map snd pts) [0..<min (length pts) (2 ^ 32 - 1)],
      is_block_ids = map fst pts\<rparr>"
    and "c \<in> set (hnsw_query hn x q limit)"
  shows "\<exists>(i, p) \<in> set pts. rc_block_id c = i \<and> rc_score c = hnsw_score (point_distance q p)"
proof -
  have "length [0..<min (length pts) (2 ^ 32 - 1)] = length (map snd pts)" using assms(1) by simp
  note found = search_ok [OF _ this]
  from assms(3) obtain d k where c: "(d, k) \<in> set (hn_search hn (is_index x) q)"
    "c = candidate (is_block_ids x ! k) (hnsw_score d) ''ann-hnsw''"
    by (auto simp: hnsw_query_def dest!: in_set_takeD)
  from found [of d k ef q] c(1) assms(1,2) obtain j where "j < length pts" "k = j" "d = point_distance q (snd (pts ! j))"
    by auto
  with c(2) assms(2) show ?thesis by (intro bexI [of _ "pts ! j"]) (auto simp: case_prod_beta)
qed

end

definition scan_lib :: "(f32 list \<times> nat) list hnsw_lib" where
  "scan_lib = \<lparr>hn_build = (\<lambda>_ ps vs. zip ps vs),
     hn_search = (\<lambda>h q. sort_by (\<lambda>a b. unwrap_equal (partial_cmp (fst a) (fst b))) (map (\<lambda>(p, v). (point_distance q p, v)) h))\<rparr>"

interpretation scan: hnsw_index scan_lib
  by unfold_locales (auto simp: scan_lib_def set_zip)

text \<open>The loops collect points of blocks of the session only.\<close>

lemma hnsw_load_subset:
  "hnsw_load lib st name p is' pts todo = Inr (pts', todo') \<Longrightarrow>
    fst ` set pts' \<subseteq> fst ` set pts \<union> set is' \<and> fst ` set todo' \<subseteq> fst ` set todo \<union> set is' \<and>
    length pts' + length todo' \<le> length pts + length todo + length is'"
proof (induction is' arbitrary: pts todo)
  case (Cons i is')
  from Cons.prems obtain found where f: "sv_get st i = Inr found" by (auto simp: rbind_Inr_iff)
  show ?case
  proof (cases found)
    case None
    with Cons.prems f have "hnsw_load lib st name p is' pts todo = Inr (pts', todo')" by simp
    from Cons.IH [OF this] show ?thesis by auto
  next
    case (Some b)
    with Cons.prems f obtain cached where c: "l2_get lib name p (cb_hash b) = Inr cached" by (auto simp: rbind_Inr_iff)
    show ?thesis
    proof (cases cached)
      case v: (Some v)
      with Cons.prems f Some c have "hnsw_load lib st name p is' (pts @ [(i, unit_normalize v)]) todo = Inr (pts', todo')" by simp
      from Cons.IH [OF this] show ?thesis by auto
    next
      case none: None
      show ?thesis
      proof (cases "from_utf8 (cb_bytes b)")
        case None
        with Cons.prems f Some c none have "hnsw_load lib st name p is' pts todo = Inr (pts', todo')" by simp
        from Cons.IH [OF this] show ?thesis by auto
      next
        case t: (Some t)
        with Cons.prems f Some c none have "hnsw_load lib st name p is' pts (todo @ [(i, cb_hash b, t)]) = Inr (pts', todo')" by simp
        from Cons.IH [OF this] show ?thesis by auto
      qed
    qed
  qed
qed simp

lemma hnsw_store_subset:
  "hnsw_store lib name pvs pts p = (Inr pts', p') \<Longrightarrow>
    fst ` set pts' \<subseteq> fst ` set pts \<union> fst ` fst ` set pvs \<and> length pts' \<le> length pts + length pvs"
proof (induction lib name pvs pts p rule: hnsw_store.induct)
  case (2 lib name i h t v rest pts p)
  then obtain q where q: "l2_put lib name p h v = Inr q" by (cases "l2_put lib name p h v") simp_all
  with 2(2) have "hnsw_store lib name rest (pts @ [(i, unit_normalize v)]) q = (Inr pts', p')" by simp
  from 2(1) [OF q this] show ?case by auto
qed simp

lemma build_index_ok:
  assumes "build_index lib hn st em session s = (Inr (Some x), s')" and "sv_list_session st session = Inr ids"
  shows "\<exists>pts. fst ` set pts \<subseteq> set ids \<and> length pts \<le> length ids \<and>
    x = \<lparr>is_session = session, is_index = hn_build hn (hw_ef_construction s) (map snd pts) [0..<min (length pts) (2 ^ 32 - 1)],
      is_block_ids = map fst pts\<rparr>"
proof -
  note run = assms(1) [unfolded build_index_def, simplified assms(2) map_err_simps sum.case]
  have "ids \<noteq> []" using run by auto
  then obtain pts todo where load: "hnsw_load lib st (em_name em) (hw_persistent s) ids [] [] = Inr (pts, todo)"
    using run by (cases "hnsw_load lib st (em_name em) (hw_persistent s) ids [] []") auto
  note l = hnsw_load_subset [OF load]
  show ?thesis
  proof (cases "todo = []")
    case True
    with run load \<open>ids \<noteq> []\<close> l show ?thesis by (intro exI [of _ pts]) (auto split: if_splits)
  next
    case False
    with run load \<open>ids \<noteq> []\<close> obtain vecs all p where
      st: "hnsw_store lib (em_name em) (zip todo vecs) pts (hw_persistent s) = (Inr all, p)"
      "x = \<lparr>is_session = session, is_index = hn_build hn (hw_ef_construction s) (map snd all) [0..<min (length all) (2 ^ 32 - 1)],
         is_block_ids = map fst all\<rparr>"
      by (auto split: sum.splits prod.splits if_splits)
    note t = hnsw_store_subset [OF st(1)]
    have z: "fst ` fst ` set (zip todo vecs) \<subseteq> fst ` set todo" by (force dest: set_zip_leftD)
    have i: "fst ` set pts \<subseteq> set ids" "fst ` set todo \<subseteq> set ids" using l by auto
    have "fst ` set pts \<union> fst ` fst ` set (zip todo vecs) \<subseteq> set ids"
      by (rule Un_least [OF i(1) subset_trans [OF z i(2)]])
    then have "fst ` set all \<subseteq> set ids" by (rule subset_trans [OF t [THEN conjunct1]])
    moreover have "length (zip todo vecs) \<le> length todo" by simp
    then have "length all \<le> length ids" using t [THEN conjunct2] l by (simp del: length_zip)
    ultimately show ?thesis using st(2) by blast
  qed
qed

text \<open>
  A retrieval that builds an index gives at most as many candidates as asked for, all of the
  session, each with the score of a distance.
\<close>

lemma hnsw_retrieve_ok:
  assumes "hnsw_index hn" and "hw_state s = None" and "hnsw_retrieve lib hn st em session task limit s = (Inr cs, s')"
    and "sv_list_session st session = Inr ids" and "length ids < 2 ^ 32"
  shows "length cs \<le> limit \<and> (\<forall>c \<in> set cs. rc_block_id c \<in> set ids \<and> (\<exists>d. rc_score c = hnsw_score d))"
proof (cases "cs = []")
  case False
  then obtain q where q: "embed_task em task = Inr q" "task \<noteq> []"
    using assms(3) by (cases "embed_task em task") (auto simp: hnsw_retrieve_def split: if_splits)
  obtain r s1 where b: "build_index lib hn st em session s = (r, s1)" by (cases "build_index lib hn st em session s")
  obtain x where x: "r = Inr (Some x)" "cs = hnsw_query hn x q limit"
    using assms(2,3) False q b by (auto simp: hnsw_retrieve_def split: sum.splits option.splits)
  obtain pts where p: "fst ` set pts \<subseteq> set ids" "length pts \<le> length ids"
    "x = \<lparr>is_session = session, is_index = hn_build hn (hw_ef_construction s) (map snd pts) [0..<min (length pts) (2 ^ 32 - 1)],
      is_block_ids = map fst pts\<rparr>"
    using build_index_ok [OF b [unfolded x(1)] assms(4)] by blast
  have "length cs \<le> limit" by (simp add: x(2) hnsw_query_def)
  moreover have "rc_block_id c \<in> set ids \<and> (\<exists>d. rc_score c = hnsw_score d)" if "c \<in> set cs" for c
    using hnsw_index.query_ok [OF assms(1) _ p(3) that [unfolded x(2)]] p(1,2) assms(5) by force
  ultimately show ?thesis by blast
qed simp

section \<open>The query is not normalized\<close>

definition constant_embedder :: "f32 list \<Rightarrow> embedder" where
  "constant_embedder v = \<lparr>em_name = ''constant'', em_dimensions = length v,
     em_embed = (\<lambda>_. Inr v), em_embed_batch = (\<lambda>ts. Inr (map (\<lambda>_. v) ts))\<rparr>"

text \<open>One block, and an embedder that gives every text the vector 3.\<close>

definition ann_block :: context_block where
  "ann_block = (demo_block 1 Kind_Fact ''a'')\<lparr>cb_hash := 5\<rparr>"

lemma cosine_three: "cosine [Fin 3] [Fin 3] = f32_1"
  by (simp add: cosine_def fsqrt_def f32_epsilon_def fclamp_def rnd_eval floor_rat_numeral)

lemma score_three: "unit_normalize [Fin 3] = [f32_1]" "point_distance [Fin 3] [f32_1] = Fin 2" "hnsw_score (Fin 2) = f32_0"
  by (simp_all add: unit_normalize_def point_distance_def hnsw_score_def fsub_def fsqrt_def f32_epsilon_def fclamp_def rnd_eval)

text \<open>
  The HNSW retriever compares normalized block vectors with the query as the embedder gives
  it, so the score is not the cosine unless the embedder's vectors have length 1: for the same
  store, task and embedder, the brute-force retriever gives a block that has the text of the
  task the score 1 and the HNSW retriever gives it 0.
\<close>

lemma hnsw_query_not_normalized:
  "fst (linear_retrieve (list_lib [] (\<lambda>_. 0)) (demo_view [ann_block]) (constant_embedder [Fin 3]) 7 ''a'' 5 linear_new)
     = Inr [candidate 1 f32_1 ''ann-linear''] \<and>
   fst (hnsw_retrieve (list_lib [] (\<lambda>_. 0)) scan_lib (demo_view [ann_block]) (constant_embedder [Fin 3]) 7 ''a'' 5 hnsw_new)
     = Inr [candidate 1 f32_0 ''ann-hnsw'']"
proof -
  have u: "from_utf8 ''a'' = Some ''a''" by code_simp
  have b: "cb_id ann_block = 1" "cb_bytes ann_block = ''a''" "cb_hash ann_block = 5"
    by (simp_all add: ann_block_def demo_block_def)
  have l: "fst (linear_retrieve (list_lib [] (\<lambda>_. 0)) (demo_view [ann_block]) (constant_embedder [Fin 3]) 7 ''a'' 5 linear_new) =
      Inr (linear_rank [Fin 3] [1 \<mapsto> [Fin 3]] [1] 5)"
    by (simp add: linear_retrieve_def embed_task_def embed_batch_def constant_embedder_def demo_view_def fill_cache_def
        linear_new_def l2_get_def l2_put_def b u)
  have "hnsw_query scan_lib \<lparr>is_session = 7, is_index = [([f32_1], 0)], is_block_ids = [1]\<rparr> [Fin 3] 5 =
      [candidate 1 f32_0 ''ann-hnsw'']"
    by (simp add: hnsw_query_def scan_lib_def score_three)
  then have "fst (hnsw_retrieve (list_lib [] (\<lambda>_. 0)) scan_lib (demo_view [ann_block]) (constant_embedder [Fin 3]) 7 ''a'' 5 hnsw_new) =
      Inr [candidate 1 f32_0 ''ann-hnsw'']"
    by (simp add: hnsw_retrieve_def build_index_def embed_task_def embed_batch_def constant_embedder_def demo_view_def
        hnsw_new_def l2_get_def l2_put_def b u score_three scan_lib_def)
  moreover have "linear_rank [Fin 3] [1 \<mapsto> [Fin 3]] [1] 5 = [candidate 1 f32_1 ''ann-linear'']"
    by (simp add: linear_rank_def cosine_three fclamp_def)
  ultimately show ?thesis by (simp only: l)
qed

section \<open>The OpenAI embedder\<close>

text \<open>The vectors come in the order of the inputs whatever the order of the response.\<close>

lemma post_embeddings_order:
  assumes "client (oa_api_base e @ ''/embeddings'') (oa_api_key e) (oa_model e) inputs = Embeddings data'"
    and "mset data' = mset (map (\<lambda>k. \<lparr>ed_index = word_of_nat k, ed_embedding = f k\<rparr>) [0..<n])" and "n \<le> 2 ^ 32"
  shows "post_embeddings client e inputs = Inr (map f [0..<n])"
proof -
  let ?d = "map (\<lambda>k. \<lparr>ed_index = word_of_nat k, ed_embedding = f k\<rparr>) [0..<n]"
  have idx: "unat (word_of_nat k :: u32) = k" if "k < n" for k
    using that assms(3) by (simp add: unat_of_nat)
  have "sorted_wrt (\<lambda>j k. (word_of_nat j :: u32) \<le> word_of_nat k) [0..<n]"
    by (rule sorted_wrt_mono_rel [OF _ sorted_wrt_upt]) (simp add: word_le_nat_alt idx)
  then have srt: "sorted_wrt (\<lambda>a b. ed_index a \<le> ed_index b) ?d" by (simp add: sorted_wrt_map)
  have inj: "inj_on ed_index (set ?d)"
    by (rule inj_onI) (use idx in \<open>auto dest!: arg_cong [where f = unat]\<close>)
  have "sort_by_key ed_index data' = sort_by_key ed_index ?d"
    by (rule sort_by_key_perm [OF assms(2)]) (use inj mset_eq_setD [OF assms(2)] in simp)
  also have "\<dots> = ?d"
  proof (rule sorted_wrt_unique [where R = "\<lambda>a b. ed_index a \<le> ed_index b"])
    show "sorted_wrt (\<lambda>a b. ed_index a \<le> ed_index b) (sort_by_key ed_index ?d)"
      using sorted_sort_by_key [of ed_index ?d] by (simp add: sorted_map)
    show "sorted_wrt (\<lambda>a b. ed_index a \<le> ed_index b) ?d" by (rule srt)
    show "a = b" if "a \<in> set (sort_by_key ed_index ?d)" "b \<in> set (sort_by_key ed_index ?d)" "ed_index a \<le> ed_index b"
      "ed_index b \<le> ed_index a" for a b
      using inj that(1,2) order_antisym [OF that(3,4)] by (simp only: set_sort_by_key) (erule (3) inj_onD [rotated 1])
  qed simp
  finally show ?thesis using assms(1) by (simp add: post_embeddings_def comp_def)
qed

text \<open>
  The name of an embedder does not depend on its model, so two models share the entries of a
  persistent cache: what one has put there is what the other gets.
\<close>

lemma openai_models_share_entries:
  assumes "lmdb lib tab" and "cache_put lib t (em_name (openai_embedder_of client (openai_with_model e m))) h v = Inr t'"
    and "storable v" and "cache_get lib t' (em_name (openai_embedder_of client e)) h = Inr r"
  shows "r = Some v"
  using cache_get_after [OF assms(1) assms(2,3)] assms(4) by (simp add: openai_embedder_of_def)

section \<open>Concrete runs\<close>

lemma f32_value_one: "f32_value (Fin 1)" and f32_value_three: "f32_value (Fin 3)"
proof -
  have "f32_from_bits 0x3F800000 = Fin 1" "f32_from_bits 0x40400000 = Fin 3"
    by (simp_all add: f32_from_bits_def f32_parts_def pow2_def)
  then show "f32_value (Fin 1)" "f32_value (Fin 3)" by (metis f32_value_from_bits)+
qed

lemma cache_put_get_witness:
  "\<exists>t'. cache_put (list_lib [] (\<lambda>_. 0)) table_empty ''e'' 5 [Fin 1] = Inr t' \<and>
     (\<forall>r. cache_get (list_lib [] (\<lambda>_. 0)) t' ''e'' 5 = Inr r \<longrightarrow> r = Some [Fin 1])"
proof -
  obtain t' where t': "cache_put (list_lib [] (\<lambda>_. 0)) table_empty ''e'' 5 [Fin 1] = Inr t'"
    by (simp add: cache_put_def list_lib_def)
  have "storable [Fin 1]" by (simp add: storable_def f32_value_one)
  then show ?thesis using cache_put_get [OF mem.lmdb_axioms t'] t' by fastforce
qed

theorem linear_retrieve_transparent_witness:
  "\<exists>s1 c1 c2 s2.
     linear_retrieve (list_lib [] (\<lambda>_. 0)) (demo_view [ann_block]) (constant_embedder [Fin 3]) 7 ''a'' 5 linear_new = (Inr c1, s1) \<and>
     linear_retrieve (list_lib [] (\<lambda>_. 0)) (demo_view [ann_block]) (constant_embedder [Fin 3]) 7 ''b'' 5 s1 = (Inr c2, s2) \<and>
     best_first c2 \<and> length c2 \<le> 5"
proof -
  let ?lib = "list_lib [] (\<lambda>_. 0)" and ?st = "demo_view [ann_block]" and ?em = "constant_embedder [Fin 3]"
    and ?content = "\<lambda>_ :: block_id. ann_block"
  have u: "from_utf8 ''a'' = Some ''a''" by code_simp
  have b: "cb_id ann_block = 1" "cb_bytes ann_block = ''a''" "cb_hash ann_block = 5"
    by (simp_all add: ann_block_def demo_block_def)
  have e: "pure_embedder ?em"
    by (auto simp: pure_embedder_def constant_embedder_def list_all2_conv_all_nth storable_def f32_value_three)
  have v: "serves ?content ?st" by (auto simp: serves_def demo_view_def split: if_splits)
  have h: "same_hash_same_bytes ?content" by (simp add: same_hash_same_bytes_def)
  obtain c1 s1 where 1: "linear_retrieve ?lib ?st ?em 7 ''a'' 5 linear_new = (Inr c1, s1)" "ln_cache s1 = [1 \<mapsto> [Fin 3]]"
    by (simp add: linear_retrieve_def embed_task_def embed_batch_def constant_embedder_def demo_view_def fill_cache_def
        linear_new_def l2_get_def l2_put_def b u)
  obtain c2 s2 where 2: "linear_retrieve ?lib ?st ?em 7 ''b'' 5 s1 = (Inr c2, s2)"
    by (simp add: linear_retrieve_def embed_task_def constant_embedder_def demo_view_def fill_cache_def b 1(2))
  have r: "linear_reach ?lib table_get ?em ?content s1"
    by (rule linear_reach.retrieve [OF linear_reach.new v 1(1)])
  have q: "em_embed ?em ''b'' = Inr [Fin 3]" "sv_list_session ?st 7 = Inr [1]"
    by (simp_all add: constant_embedder_def demo_view_def b)
  have "candidates_ok 5 (set [1]) c2 \<and> best_first c2"
    using linear_retrieve_transparent [OF mem.lmdb_axioms h e r v 2 _ q] by blast
  then show ?thesis using 1(1) 2 by (auto simp: candidates_ok_def)
qed

end
