(* ===== verification/Lmdb_Store.thy ===== *)
theory Lmdb_Store
  imports Kv Store_Spec
begin

text \<open>
  \<open>llm386-store-lmdb/src/store.rs\<close>: the five tables of the store and every operation on them.
  An operation returns its result with the new tables; when it fails nothing is committed, so
  the caller keeps the old ones. The order in which a hash set of ids is walked is a parameter.
\<close>

record 't lmdb_store =
  ls_by_id :: 't
  ls_by_hash :: 't
  ls_by_session :: 't
  ls_edges_from :: 't
  ls_edges_to :: 't
  ls_meta :: 't

definition heed_err :: "heed_error \<Rightarrow> store_error" where
  "heed_err e = Backend (''LMDB: '' @ e)"

abbreviation heed :: "heed_error + 'a \<Rightarrow> store_error + 'a" where
  "heed m \<equiv> map_err heed_err m"

definition decode_block_id :: "raw \<Rightarrow> store_error + block_id" where
  "decode_block_id bs =
     (if length bs = 16 then Inr (id_of_key bs) else Inl (Backend (''BlockId width '' @ dec (length bs))))"

definition decode_block :: "'t lmdb_lib \<Rightarrow> raw \<Rightarrow> store_error + context_block" where
  "decode_block lib bs = map_err (\<lambda>e. Backend (''postcard decode: '' @ e)) (lib_decode lib bs)"

text \<open>A walk over the entries of a table that stops at the first unreadable entry.\<close>

definition walk ::
    "heed_error + (heed_error + raw \<times> raw) list \<Rightarrow> (raw \<Rightarrow> raw \<Rightarrow> 's \<Rightarrow> store_error + 's) \<Rightarrow> 's \<Rightarrow> store_error + 's" where
  "walk it f st =
     rbind (heed it) (\<lambda>es. for_each (\<lambda>e st. rbind (heed e) (\<lambda>kv. f (fst kv) (snd kv) st)) es st)"

section \<open>Edge kinds as bytes\<close>

fun edge_kind_to_byte :: "edge_kind \<Rightarrow> u8" where
  "edge_kind_to_byte Parent = 1"
| "edge_kind_to_byte DerivedFrom = 2"
| "edge_kind_to_byte Supports = 3"
| "edge_kind_to_byte Contradicts = 4"
| "edge_kind_to_byte ToolInvocation = 5"

definition edge_kind_from_byte :: "u8 \<Rightarrow> store_error + edge_kind" where
  "edge_kind_from_byte b =
     (if b = 1 then Inr Parent else if b = 2 then Inr DerivedFrom else if b = 3 then Inr Supports
      else if b = 4 then Inr Contradicts else if b = 5 then Inr ToolInvocation
      else Inl (Backend (''unknown EdgeKind byte '' @ dec (unat b))))"

definition parse_edge_key_suffix :: "raw \<Rightarrow> store_error + (u8 \<times> block_id)" where
  "parse_edge_key_suffix key =
     (if length key \<noteq> 33 then Inl (Backend (''edge key width '' @ dec (length key)))
      else rbind (decode_block_id (drop 17 key)) (\<lambda>x. Inr (key ! 16, x)))"

section \<open>Opening\<close>

datatype open_error =
  Open_Io bytes | Open_Lmdb heed_error | SchemaMismatch u32 u32 | CorruptMeta bytes

definition current_schema :: u32 where
  "current_schema = 1"

fun open_error_display :: "open_error \<Rightarrow> bytes" where
  "open_error_display (Open_Io e) = ''io error: '' @ e"
| "open_error_display (Open_Lmdb e) = ''LMDB error: '' @ e"
| "open_error_display (SchemaMismatch expected found) =
     ''on-disk schema version '' @ dec (unat found) @ '' does not match expected '' @ dec (unat expected)"
| "open_error_display (CorruptMeta s) = ''meta table is corrupt: '' @ s"

text \<open>What opening an environment uses of the file system and of LMDB.\<close>

record ('e, 't) open_io =
  oi_create_dir :: "bytes \<Rightarrow> bytes + unit"
  oi_open_env :: "nat \<Rightarrow> u32 \<Rightarrow> bytes \<Rightarrow> heed_error + 'e"
  oi_create_database :: "'e \<Rightarrow> bytes \<Rightarrow> heed_error + 't"

record lmdb_config =
  lc_map_size :: nat
  lc_max_dbs :: u32

definition lmdb_config_default :: lmdb_config where
  "lmdb_config_default = \<lparr>lc_map_size = 64 * 1024 * 1024 * 1024, lc_max_dbs = 16\<rparr>"

text \<open>The check of the schema version in the \<open>meta\<close> table, whose keys are strings.\<close>

definition schema_key :: raw where
  "schema_key = map (\<lambda>c. word_of_nat (of_char c)) ''schema_version''"

definition open_schema :: "'t lmdb_lib \<Rightarrow> 't lmdb_store \<Rightarrow> open_error + 't lmdb_store" where
  "open_schema lib s =
     rbind (map_err Open_Lmdb (lib_get lib (ls_meta s) schema_key)) (\<lambda>ex.
     rbind (case ex of
         Some v \<Rightarrow>
           if length v \<noteq> 4 then Inl (CorruptMeta ''schema_version width'')
           else let found = word_of_nat (from_be v) in
             if found \<noteq> current_schema then Inl (SchemaMismatch current_schema found) else Inr s
       | None \<Rightarrow>
           rbind (map_err Open_Lmdb (lib_put lib (ls_meta s) schema_key (be_bytes 4 (unat current_schema))))
             (\<lambda>t. Inr (s\<lparr>ls_meta := t\<rparr>))) (\<lambda>s'.
     rbind (map_err Open_Lmdb (lib_commit lib)) (\<lambda>_. Inr s')))"

definition lmdb_open :: "('e, 't) open_io \<Rightarrow> 't lmdb_lib \<Rightarrow> bytes \<Rightarrow> lmdb_config \<Rightarrow> open_error + 't lmdb_store" where
  "lmdb_open io lib path config =
     rbind (map_err Open_Io (oi_create_dir io path)) (\<lambda>_.
     rbind (map_err Open_Lmdb (oi_open_env io (lc_map_size config) (lc_max_dbs config) path)) (\<lambda>env.
     rbind (map_err Open_Lmdb (lib_write_txn lib)) (\<lambda>_.
     let database = (\<lambda>n. map_err Open_Lmdb (oi_create_database io env n)) in
     rbind (database ''blocks_by_id'') (\<lambda>by_id.
     rbind (database ''blocks_by_hash'') (\<lambda>by_hash.
     rbind (database ''blocks_by_session'') (\<lambda>by_session.
     rbind (database ''edges_from'') (\<lambda>edges_from.
     rbind (database ''edges_to'') (\<lambda>edges_to.
     rbind (database ''meta'') (\<lambda>meta.
     open_schema lib \<lparr>ls_by_id = by_id, ls_by_hash = by_hash, ls_by_session = by_session,
       ls_edges_from = edges_from, ls_edges_to = edges_to, ls_meta = meta\<rparr>)))))))))"

section \<open>Blocks\<close>

definition lmdb_put :: "'t lmdb_lib \<Rightarrow> 't lmdb_store \<Rightarrow> session_id \<Rightarrow> context_block \<Rightarrow> store_error + block_id \<times> 't lmdb_store" where
  "lmdb_put lib s session block =
     rbind (heed (lib_write_txn lib)) (\<lambda>_.
     rbind (heed (lib_get lib (ls_by_hash s) (hash_key (cb_hash block)))) (\<lambda>existing.
     case existing of
       Some bs \<Rightarrow>
         rbind (decode_block_id bs) (\<lambda>existing_id.
         rbind (heed (lib_put lib (ls_by_session s) (session_block_key session existing_id) [])) (\<lambda>t.
         rbind (heed (lib_commit lib)) (\<lambda>_. Inr (existing_id, s\<lparr>ls_by_session := t\<rparr>))))
     | None \<Rightarrow>
         let i = cb_id block in
         rbind (map_err (\<lambda>e. Backend (''postcard encode: '' @ e)) (lib_encode lib block)) (\<lambda>v.
         rbind (heed (lib_put lib (ls_by_id s) (id_key i) v)) (\<lambda>t1.
         rbind (heed (lib_put lib (ls_by_hash s) (hash_key (cb_hash block)) (id_key i))) (\<lambda>t2.
         rbind (heed (lib_put lib (ls_by_session s) (session_block_key session i) [])) (\<lambda>t3.
         rbind (heed (lib_commit lib)) (\<lambda>_.
           Inr (i, s\<lparr>ls_by_id := t1, ls_by_hash := t2, ls_by_session := t3\<rparr>))))))))"

definition lmdb_get :: "'t lmdb_lib \<Rightarrow> 't lmdb_store \<Rightarrow> block_id \<Rightarrow> store_error + context_block option" where
  "lmdb_get lib s i =
     rbind (heed (lib_read_txn lib)) (\<lambda>_.
     rbind (heed (lib_get lib (ls_by_id s) (id_key i))) (\<lambda>ov. case ov of
         Some bs \<Rightarrow> rbind (decode_block lib bs) (\<lambda>b. Inr (Some b))
       | None \<Rightarrow> Inr None))"

definition lmdb_list_session :: "'t lmdb_lib \<Rightarrow> 't lmdb_store \<Rightarrow> session_id \<Rightarrow> store_error + block_id list" where
  "lmdb_list_session lib s session =
     rbind (heed (lib_read_txn lib)) (\<lambda>_.
     walk (lib_prefix_iter lib (ls_by_session s) (id_key session)) (\<lambda>key _ ids.
       if length key \<noteq> 32 then Inl (Backend (''session key width '' @ dec (length key)))
       else Inr (ids @ [id_of_key (drop 16 key)])) [])"

text \<open>The set of sessions seen, in ascending order.\<close>

definition lmdb_list_sessions :: "'t lmdb_lib \<Rightarrow> 't lmdb_store \<Rightarrow> store_error + session_id list" where
  "lmdb_list_sessions lib s =
     rbind (heed (lib_read_txn lib)) (\<lambda>_.
     rbind (walk (lib_iter lib (ls_by_session s)) (\<lambda>key _ seen.
       if length key < 16 then Inr seen
       else Inr (bt_insert (id_of_key (take 16 key)) () seen)) []) (\<lambda>seen.
     Inr (map fst seen)))"

definition lmdb_lookup_hash :: "'t lmdb_lib \<Rightarrow> 't lmdb_store \<Rightarrow> content_hash \<Rightarrow> store_error + block_id option" where
  "lmdb_lookup_hash lib s h =
     rbind (heed (lib_read_txn lib)) (\<lambda>_.
     rbind (heed (lib_get lib (ls_by_hash s) (hash_key h))) (\<lambda>ov. case ov of
         Some bs \<Rightarrow> rbind (decode_block_id bs) (\<lambda>i. Inr (Some i))
       | None \<Rightarrow> Inr None))"

section \<open>Edges\<close>

definition lmdb_put_edge :: "'t lmdb_lib \<Rightarrow> 't lmdb_store \<Rightarrow> edge \<Rightarrow> store_error + unit \<times> 't lmdb_store" where
  "lmdb_put_edge lib s e =
     (let k = edge_kind_to_byte (edge_kind e) in
      rbind (heed (lib_write_txn lib)) (\<lambda>_.
      rbind (heed (lib_put lib (ls_edges_from s) (edge_key (edge_from e) k (edge_to e)) [])) (\<lambda>t1.
      rbind (heed (lib_put lib (ls_edges_to s) (edge_key (edge_to e) k (edge_from e)) [])) (\<lambda>t2.
      rbind (heed (lib_commit lib)) (\<lambda>_.
        Inr ((), s\<lparr>ls_edges_from := t1, ls_edges_to := t2\<rparr>))))))"

definition lmdb_edges_from :: "'t lmdb_lib \<Rightarrow> 't lmdb_store \<Rightarrow> block_id \<Rightarrow> store_error + edge list" where
  "lmdb_edges_from lib s i =
     rbind (heed (lib_read_txn lib)) (\<lambda>_.
     walk (lib_prefix_iter lib (ls_edges_from s) (id_key i)) (\<lambda>key _ out.
       rbind (parse_edge_key_suffix key) (\<lambda>(k, x).
       rbind (edge_kind_from_byte k) (\<lambda>kind.
         Inr (out @ [\<lparr>edge_from = i, edge_to = x, edge_kind = kind\<rparr>])))) [])"

definition lmdb_edges_to :: "'t lmdb_lib \<Rightarrow> 't lmdb_store \<Rightarrow> block_id \<Rightarrow> store_error + edge list" where
  "lmdb_edges_to lib s i =
     rbind (heed (lib_read_txn lib)) (\<lambda>_.
     walk (lib_prefix_iter lib (ls_edges_to s) (id_key i)) (\<lambda>key _ out.
       rbind (parse_edge_key_suffix key) (\<lambda>(k, x).
       rbind (edge_kind_from_byte k) (\<lambda>kind.
         Inr (out @ [\<lparr>edge_from = x, edge_to = i, edge_kind = kind\<rparr>])))) [])"

text \<open>The suffixes of the keys under a prefix, then both entries of each edge deleted.\<close>

definition edge_suffixes :: "'t lmdb_lib \<Rightarrow> 't \<Rightarrow> block_id \<Rightarrow> store_error + (u8 \<times> block_id) list" where
  "edge_suffixes lib t i =
     walk (lib_prefix_iter lib t (id_key i)) (\<lambda>key _ acc.
       rbind (parse_edge_key_suffix key) (\<lambda>p. Inr (acc @ [p]))) []"

definition drop_pair :: "'t lmdb_lib \<Rightarrow> block_id \<Rightarrow> u8 \<times> block_id \<Rightarrow> 't \<times> 't \<Rightarrow> store_error + 't \<times> 't" where
  "drop_pair lib i p tt =
     rbind (heed (lib_delete lib (fst tt) (edge_key i (fst p) (snd p)))) (\<lambda>t1.
     rbind (heed (lib_delete lib (snd tt) (edge_key (snd p) (fst p) i))) (\<lambda>t2.
       Inr (t1, t2)))"

definition purge_edges_for_block :: "'t lmdb_lib \<Rightarrow> block_id \<Rightarrow> 't lmdb_store \<Rightarrow> store_error + 't lmdb_store" where
  "purge_edges_for_block lib i s =
     rbind (edge_suffixes lib (ls_edges_from s) i) (\<lambda>outgoing.
     rbind (for_each (drop_pair lib i) outgoing (ls_edges_from s, ls_edges_to s)) (\<lambda>(f, t).
     rbind (edge_suffixes lib t i) (\<lambda>incoming.
     rbind (for_each (drop_pair lib i) incoming (t, f)) (\<lambda>(t', f').
       Inr (s\<lparr>ls_edges_from := f', ls_edges_to := t'\<rparr>)))))"

section \<open>Deletion\<close>

definition delete_keys :: "'t lmdb_lib \<Rightarrow> raw list \<Rightarrow> 't \<Rightarrow> store_error + 't" where
  "delete_keys lib ks t = for_each (\<lambda>k t. heed (lib_delete lib t k)) ks t"

definition lmdb_delete :: "'t lmdb_lib \<Rightarrow> 't lmdb_store \<Rightarrow> block_id \<Rightarrow> store_error + bool \<times> 't lmdb_store" where
  "lmdb_delete lib s i =
     rbind (heed (lib_write_txn lib)) (\<lambda>_.
     rbind (heed (lib_get lib (ls_by_id s) (id_key i))) (\<lambda>ov.
     rbind (case ov of
         Some bs \<Rightarrow> rbind (decode_block lib bs) (\<lambda>b. Inr (Some (cb_hash b)))
       | None \<Rightarrow> Inr None) (\<lambda>hash.
     rbind (walk (lib_iter lib (ls_by_session s)) (\<lambda>key _ keys.
         Inr (if length key = 32 \<and> drop 16 key = id_key i then keys @ [key] else keys)) []) (\<lambda>session_keys.
     if hash = None \<and> session_keys = [] then Inr (False, s)
     else
       rbind (delete_keys lib session_keys (ls_by_session s)) (\<lambda>t.
       rbind (case hash of
           None \<Rightarrow> Inr (s\<lparr>ls_by_session := t\<rparr>)
         | Some h \<Rightarrow>
             rbind (heed (lib_delete lib (ls_by_id s) (id_key i))) (\<lambda>t1.
             rbind (heed (lib_delete lib (ls_by_hash s) (hash_key h))) (\<lambda>t2.
               Inr (s\<lparr>ls_by_session := t, ls_by_id := t1, ls_by_hash := t2\<rparr>)))) (\<lambda>s1.
       rbind (purge_edges_for_block lib i s1) (\<lambda>s2.
       rbind (heed (lib_commit lib)) (\<lambda>_. Inr (True, s2)))))))))"

text \<open>Whether a session entry mentions the block: the walk ends at the first that does.\<close>

fun find_reference :: "raw \<Rightarrow> (heed_error + raw \<times> raw) list \<Rightarrow> store_error + bool" where
  "find_reference ik [] = Inr False"
| "find_reference ik (e # es) =
     rbind (heed e) (\<lambda>kv. if length (fst kv) = 32 \<and> drop 16 (fst kv) = ik then Inr True
                           else find_reference ik es)"

definition purge_if_orphan :: "'t lmdb_lib \<Rightarrow> block_id \<Rightarrow> 't lmdb_store \<Rightarrow> store_error + 't lmdb_store" where
  "purge_if_orphan lib i s =
     rbind (heed (lib_iter lib (ls_by_session s))) (\<lambda>es.
     rbind (find_reference (id_key i) es) (\<lambda>still_referenced.
     if still_referenced then Inr s
     else rbind (heed (lib_get lib (ls_by_id s) (id_key i))) (\<lambda>ov. case ov of
         None \<Rightarrow> Inr s
       | Some bs \<Rightarrow>
           rbind (decode_block lib bs) (\<lambda>b.
           rbind (heed (lib_delete lib (ls_by_id s) (id_key i))) (\<lambda>t1.
           rbind (heed (lib_delete lib (ls_by_hash s) (hash_key (cb_hash b)))) (\<lambda>t2.
             purge_edges_for_block lib i (s\<lparr>ls_by_id := t1, ls_by_hash := t2\<rparr>)))))))"

definition lmdb_purge_session :: "'t lmdb_lib \<Rightarrow> 't lmdb_store \<Rightarrow> session_id \<Rightarrow> store_error + nat \<times> 't lmdb_store" where
  "lmdb_purge_session lib s session =
     rbind (heed (lib_write_txn lib)) (\<lambda>_.
     rbind (walk (lib_prefix_iter lib (ls_by_session s) (id_key session)) (\<lambda>key _ ids.
         Inr (if length key \<noteq> 32 then ids else ids @ [id_of_key (drop 16 key)])) []) (\<lambda>block_ids.
     if length block_ids = 0 then Inr (0, s)
     else
       rbind (delete_keys lib (map (session_block_key session) block_ids) (ls_by_session s)) (\<lambda>t.
       rbind (for_each (purge_if_orphan lib) block_ids (s\<lparr>ls_by_session := t\<rparr>)) (\<lambda>s'.
       rbind (heed (lib_commit lib)) (\<lambda>_. Inr (length block_ids, s'))))))"

section \<open>Verification and repair\<close>

record verify_report =
  vr_blocks_checked :: nat
  vr_hash_mismatches :: "block_id list"
  vr_missing_from_hash_index :: "block_id list"
  vr_hash_index_misroutes :: "block_id list"
  vr_orphan_session_entries :: nat
  vr_blocks_with_no_session :: "block_id list"

definition verify_default :: verify_report where
  "verify_default = \<lparr>vr_blocks_checked = 0, vr_hash_mismatches = [], vr_missing_from_hash_index = [],
     vr_hash_index_misroutes = [], vr_orphan_session_entries = 0, vr_blocks_with_no_session = []\<rparr>"

definition is_clean :: "verify_report \<Rightarrow> bool" where
  "is_clean r \<longleftrightarrow> vr_hash_mismatches r = [] \<and> vr_missing_from_hash_index r = [] \<and>
     vr_hash_index_misroutes r = [] \<and> vr_orphan_session_entries r = 0 \<and> vr_blocks_with_no_session r = []"

text \<open>The ids of a key of the primary table; the width is checked.\<close>

definition primary_id :: "raw \<Rightarrow> store_error + block_id" where
  "primary_id key =
     (if length key = 16 then Inr (id_of_key key) else Inl (Backend (''id width '' @ dec (length key))))"

definition verify_block ::
    "'t lmdb_lib \<Rightarrow> 't \<Rightarrow> raw \<Rightarrow> raw \<Rightarrow> verify_report \<times> block_id list \<Rightarrow> store_error + verify_report \<times> block_id list" where
  "verify_block lib by_hash key value acc =
     rbind (primary_id key) (\<lambda>i.
     rbind (decode_block lib value) (\<lambda>b.
     let r = (fst acc)\<lparr>vr_blocks_checked := vr_blocks_checked (fst acc) + 1\<rparr>;
         ids = i # snd acc;
         r = (if lib_hash lib (cb_bytes b) \<noteq> cb_hash b
              then r\<lparr>vr_hash_mismatches := vr_hash_mismatches r @ [i]\<rparr> else r) in
     rbind (heed (lib_get lib by_hash (hash_key (cb_hash b)))) (\<lambda>ov. case ov of
         None \<Rightarrow> Inr (r\<lparr>vr_missing_from_hash_index := vr_missing_from_hash_index r @ [i]\<rparr>, ids)
       | Some bs \<Rightarrow> rbind (decode_block_id bs) (\<lambda>pointed.
           Inr (if pointed \<noteq> i
                then r\<lparr>vr_hash_index_misroutes := vr_hash_index_misroutes r @ [i]\<rparr> else r, ids)))))"

definition verify_session :: "block_id list \<Rightarrow> raw \<Rightarrow> raw \<Rightarrow> verify_report \<times> block_id list \<Rightarrow> store_error + verify_report \<times> block_id list" where
  "verify_session all_ids key value acc =
     (if length key \<noteq> 32 then Inr acc
      else let i = id_of_key (drop 16 key) in
        if i \<in> set all_ids then Inr (fst acc, i # snd acc)
        else Inr ((fst acc)\<lparr>vr_orphan_session_entries := vr_orphan_session_entries (fst acc) + 1\<rparr>, snd acc))"

definition lmdb_verify :: "'t lmdb_lib \<Rightarrow> (block_id list \<Rightarrow> block_id list) \<Rightarrow> 't lmdb_store \<Rightarrow> store_error + verify_report" where
  "lmdb_verify lib ord s =
     rbind (heed (lib_read_txn lib)) (\<lambda>_.
     rbind (walk (lib_iter lib (ls_by_id s)) (verify_block lib (ls_by_hash s)) (verify_default, [])) (\<lambda>(r, all_ids).
     rbind (walk (lib_iter lib (ls_by_session s)) (verify_session all_ids) (r, [])) (\<lambda>(r, with_session).
       Inr (r\<lparr>vr_blocks_with_no_session := vr_blocks_with_no_session r @
              filter (\<lambda>i. i \<notin> set with_session) (ord all_ids)\<rparr>))))"

record repair_report =
  rr_hash_index_rebuilt :: bool
  rr_hash_entries_written :: nat
  rr_orphan_session_entries_removed :: nat
  rr_hash_mismatches_quarantined :: "block_id list"
  rr_blocks_with_no_session :: "block_id list"

definition repair_block :: "'t lmdb_lib \<Rightarrow> raw \<Rightarrow> raw \<Rightarrow> block_id list \<times> (block_id \<times> content_hash) list \<Rightarrow>
    store_error + block_id list \<times> (block_id \<times> content_hash) list" where
  "repair_block lib key value acc =
     rbind (primary_id key) (\<lambda>i.
     rbind (decode_block lib value) (\<lambda>b.
       Inr (if lib_hash lib (cb_bytes b) \<noteq> cb_hash b then fst acc @ [i] else fst acc,
            snd acc @ [(i, cb_hash b)])))"

definition rebuild_hashes :: "'t lmdb_lib \<Rightarrow> (block_id \<times> content_hash) list \<Rightarrow> 't \<Rightarrow> store_error + 't" where
  "rebuild_hashes lib blocks t =
     rbind (heed (lib_clear lib t)) (\<lambda>t0.
     for_each (\<lambda>(i, h) t. heed (lib_put lib t (hash_key h) (id_key i))) blocks t0)"

definition lmdb_repair :: "'t lmdb_lib \<Rightarrow> (block_id list \<Rightarrow> block_id list) \<Rightarrow> 't lmdb_store \<Rightarrow>
    store_error + repair_report \<times> 't lmdb_store" where
  "lmdb_repair lib ord s =
     rbind (heed (lib_write_txn lib)) (\<lambda>_.
     rbind (walk (lib_iter lib (ls_by_id s)) (repair_block lib) ([], [])) (\<lambda>(quarantined, blocks).
     rbind (rebuild_hashes lib blocks (ls_by_hash s)) (\<lambda>th.
     let real_ids = map fst blocks in
     rbind (walk (lib_iter lib (ls_by_session s)) (\<lambda>key _ v.
         Inr (if length key = 32 \<and> id_of_key (drop 16 key) \<notin> set real_ids then v @ [key] else v)) []) (\<lambda>to_remove.
     rbind (delete_keys lib to_remove (ls_by_session s)) (\<lambda>ts.
     rbind (walk (lib_iter lib ts) (\<lambda>key _ w.
         Inr (if length key \<noteq> 32 then w else id_of_key (drop 16 key) # w)) []) (\<lambda>with_session.
     rbind (heed (lib_commit lib)) (\<lambda>_.
       Inr (\<lparr>rr_hash_index_rebuilt = True, rr_hash_entries_written = length blocks,
             rr_orphan_session_entries_removed = length to_remove,
             rr_hash_mismatches_quarantined = quarantined,
             rr_blocks_with_no_session = filter (\<lambda>i. i \<notin> set with_session) (ord real_ids)\<rparr>,
            s\<lparr>ls_by_hash := th, ls_by_session := ts\<rparr>))))))))"

end
