(* ===== verification/Lmdb_Correct.thy ===== *)
theory Lmdb_Correct
  imports Lmdb_Store
begin

text \<open>
  The LMDB store implements the store specification: \<open>lmdb_rel\<close> says how the five tables stand
  for a store, and every operation keeps it and returns what the specification returns.
\<close>


section \<open>How the tables stand for a store\<close>

definition key_rel :: "(raw \<rightharpoonup> raw) \<Rightarrow> ('k \<Rightarrow> raw) \<Rightarrow> (raw \<Rightarrow> 'v \<Rightarrow> bool) \<Rightarrow> ('k \<rightharpoonup> 'v) \<Rightarrow> bool" where
  "key_rel m key V f \<longleftrightarrow> (\<forall>x. rel_option V (m (key x)) (f x)) \<and> (\<forall>k. m k \<noteq> None \<longrightarrow> (\<exists>x. k = key x))"

definition from_key :: "edge \<Rightarrow> raw" where
  "from_key e = edge_key (edge_from e) (edge_kind_to_byte (edge_kind e)) (edge_to e)"

definition to_key :: "edge \<Rightarrow> raw" where
  "to_key e = edge_key (edge_to e) (edge_kind_to_byte (edge_kind e)) (edge_from e)"

definition lmdb_rel :: "'t lmdb_lib \<Rightarrow> ('t \<Rightarrow> raw \<rightharpoonup> raw) \<Rightarrow> 't lmdb_store \<Rightarrow> store_spec \<Rightarrow> bool" where
  "lmdb_rel lib tab s a \<longleftrightarrow>
     key_rel (tab (ls_by_id s)) id_key (\<lambda>v b. lib_decode lib v = Inr b) (st_blocks a) \<and>
     key_rel (tab (ls_by_hash s)) hash_key (\<lambda>v i. v = id_key i) (st_hash a) \<and>
     dom (tab (ls_by_session s)) = case_prod session_block_key ` st_members a \<and>
     dom (tab (ls_edges_from s)) = from_key ` st_edges a \<and>
     dom (tab (ls_edges_to s)) = to_key ` st_edges a"

lemma key_rel_get: "key_rel m key V f \<Longrightarrow> rel_option V (m (key x)) (f x)"
  by (simp add: key_rel_def)

lemma key_rel_put: "inj key \<Longrightarrow> key_rel m key V f \<Longrightarrow> V v y \<Longrightarrow> key_rel (m(key x \<mapsto> v)) key V (f(x \<mapsto> y))"
  by (auto simp: key_rel_def inj_eq)

lemma key_rel_delete: "inj key \<Longrightarrow> key_rel m key V f \<Longrightarrow> key_rel (m(key x := None)) key V (f(x := None))"
  by (auto simp: key_rel_def inj_eq)

lemma inj_id_key: "inj id_key" and inj_hash_key: "inj hash_key"
  and inj_session_key: "inj (case_prod session_block_key)"
  by (auto intro!: injI)

lemma edge_kind_to_byte_inject [simp]: "edge_kind_to_byte k = edge_kind_to_byte l \<longleftrightarrow> k = l"
  by (cases k; cases l) simp_all

lemma edge_kind_byte_roundtrip [simp]: "edge_kind_from_byte (edge_kind_to_byte k) = Inr k"
  by (cases k) (simp_all add: edge_kind_from_byte_def)

lemma inj_from_key: "inj from_key" and inj_to_key: "inj to_key"
  by (auto intro!: injI edge.equality simp: from_key_def to_key_def)

lemma decode_block_id_id_key [simp]: "decode_block_id (id_key i) = Inr i"
  by (simp add: decode_block_id_def)

lemma parse_edge_key [simp]: "parse_edge_key_suffix (edge_key p k x) = Inr (k, x)"
  by (simp add: parse_edge_key_suffix_def)

lemma dom_delete: "inj key \<Longrightarrow> dom m = key ` S \<Longrightarrow> dom (m(key x := None)) = key ` (S - {x})"
  by (auto simp: inj_image_mem_iff image_set_diff)

section \<open>Walks\<close>

lemma for_each_map: "for_each f (map g xs) s = for_each (\<lambda>x. f (g x)) xs s"
  by (induction xs arbitrary: s) (simp_all cong: rbind_cong)

lemma for_each_cong [fundef_cong]:
  "xs = ys \<Longrightarrow> s = t \<Longrightarrow> (\<And>x s. x \<in> set ys \<Longrightarrow> f x s = g x s) \<Longrightarrow> for_each f xs s = for_each g ys t"
  by (induction ys arbitrary: xs s t) (auto intro: rbind_cong)

lemma for_each_walk:
  assumes "list_all2 (\<lambda>e kv. \<forall>x. e = Inr x \<longrightarrow> x = kv) es kvs"
    and "for_each (\<lambda>e st. rbind (heed e) (\<lambda>kv. f kv st)) es st = Inr r"
  shows "for_each f kvs st = Inr r"
  using assms by (induction arbitrary: st rule: list_all2_induct) (auto simp: rbind_Inr_iff)

lemma walk_ok_keys:
  assumes "walk_ok m sel es kvs" "dom m = key ` S"
  obtains xs where "map fst kvs = map key xs" "set xs = {x \<in> S. sel (key x)}" "sorted_wrt (\<lambda>x y. key x < key y) xs"
    | "\<not> inj key"
proof (cases "inj key")
  case True
  let ?xs = "map (inv key \<circ> fst) kvs"
  have mem: "k \<in> key ` S \<and> sel k" if "(k, v) \<in> set kvs" for k v
    using that assms by (auto simp: walk_ok_def)
  have 1: "map fst kvs = map key ?xs"
  proof (rule nth_equalityI; simp)
    fix i assume "i < length kvs"
    then have "(fst (kvs ! i), snd (kvs ! i)) \<in> set kvs" by simp
    from mem [OF this] show "fst (kvs ! i) = key (inv key (fst (kvs ! i)))"
      by (auto simp: inv_f_f [OF True])
  qed
  have "key ` set ?xs = fst ` set kvs" using arg_cong [OF 1, of set] by (simp add: image_image)
  also have "\<dots> = key ` {x \<in> S. sel (key x)}"
  proof -
    have "fst ` set kvs = {k \<in> dom m. sel k}"
      using assms(1) by (force simp: walk_ok_def dom_def image_iff)
    also have "\<dots> = key ` {x \<in> S. sel (key x)}" using assms(2) by auto
    finally show ?thesis .
  qed
  finally have 2: "set ?xs = {x \<in> S. sel (key x)}" by (simp only: inj_image_eq_iff [OF True])
  have "sorted_wrt (\<lambda>x y. key x < key y) ?xs"
    using assms(1) 1 by (simp add: walk_ok_def flip: sorted_wrt_map)
  with 1 2 show ?thesis by (intro that(1))
qed (rule that(2))

context lmdb
begin

lemma walk_iter:
  assumes "walk (lib_iter lib t) f st = Inr r"
  obtains es kvs where "walk_ok (tab t) (\<lambda>_. True) es kvs" "for_each (\<lambda>kv. f (fst kv) (snd kv)) kvs st = Inr r"
proof -
  from assms obtain es where es: "lib_iter lib t = Inr es"
    "for_each (\<lambda>e st. rbind (heed e) (\<lambda>kv. f (fst kv) (snd kv) st)) es st = Inr r"
    by (auto simp: walk_def rbind_Inr_iff)
  from iter_ok [OF es(1)] obtain kvs where kvs: "walk_ok (tab t) (\<lambda>_. True) es kvs" by blast
  then have "list_all2 (\<lambda>e kv. \<forall>x. e = Inr x \<longrightarrow> x = kv) es kvs" by (simp add: walk_ok_def)
  from kvs for_each_walk [OF this es(2)] show ?thesis by (rule that)
qed

lemma walk_prefix:
  assumes "walk (lib_prefix_iter lib t p) f st = Inr r"
  obtains es kvs where "walk_ok (tab t) (prefix p) es kvs" "for_each (\<lambda>kv. f (fst kv) (snd kv)) kvs st = Inr r"
proof -
  from assms obtain es where es: "lib_prefix_iter lib t p = Inr es"
    "for_each (\<lambda>e st. rbind (heed e) (\<lambda>kv. f (fst kv) (snd kv) st)) es st = Inr r"
    by (auto simp: walk_def rbind_Inr_iff)
  from prefix_iter_ok [OF es(1)] obtain kvs where kvs: "walk_ok (tab t) (prefix p) es kvs" by blast
  then have "list_all2 (\<lambda>e kv. \<forall>x. e = Inr x \<longrightarrow> x = kv) es kvs" by (simp add: walk_ok_def)
  from kvs for_each_walk [OF this es(2)] show ?thesis by (rule that)
qed

text \<open>A walk that only looks at the keys of a table that stands for a set.\<close>

lemma walk_iter_keys:
  assumes "walk (lib_iter lib t) (\<lambda>k _. f k) st = Inr r" "dom (tab t) = key ` S" "inj key"
  obtains xs where "set xs = S" "sorted_wrt (\<lambda>x y. key x < key y) xs" "for_each (\<lambda>x. f (key x)) xs st = Inr r"
proof -
  from assms(1) obtain es kvs where 1: "walk_ok (tab t) (\<lambda>_. True) es kvs" "for_each (\<lambda>kv. f (fst kv)) kvs st = Inr r"
    by (rule walk_iter)
  from 1(1) assms(2) show ?thesis
  proof (rule walk_ok_keys)
    fix xs assume xs: "map fst kvs = map key xs" "set xs = {x \<in> S. True}" "sorted_wrt (\<lambda>x y. key x < key y) xs"
    from 1(2) have "for_each f (map fst kvs) st = Inr r" by (simp only: for_each_map)
    with xs show ?thesis by (intro that [of xs]) (simp_all add: for_each_map)
  qed (use assms(3) in blast)
qed

lemma walk_prefix_keys:
  assumes "walk (lib_prefix_iter lib t p) (\<lambda>k _. f k) st = Inr r" "dom (tab t) = key ` S" "inj key"
  obtains xs where "set xs = {x \<in> S. prefix p (key x)}" "sorted_wrt (\<lambda>x y. key x < key y) xs"
    "for_each (\<lambda>x. f (key x)) xs st = Inr r"
proof -
  from assms(1) obtain es kvs where 1: "walk_ok (tab t) (prefix p) es kvs" "for_each (\<lambda>kv. f (fst kv)) kvs st = Inr r"
    by (rule walk_prefix)
  from 1(1) assms(2) show ?thesis
  proof (rule walk_ok_keys)
    fix xs assume xs: "map fst kvs = map key xs" "set xs = {x \<in> S. prefix p (key x)}" "sorted_wrt (\<lambda>x y. key x < key y) xs"
    from 1(2) have "for_each f (map fst kvs) st = Inr r" by (simp only: for_each_map)
    with xs show ?thesis by (intro that [of xs]) (simp_all add: for_each_map)
  qed (use assms(3) in blast)
qed

end

lemma for_each_collect: "for_each (\<lambda>x acc. Inr (acc @ g x)) xs acc = Inr (acc @ concat (map g xs))"
  by (induction xs arbitrary: acc) simp_all

lemma for_each_snoc: "for_each (\<lambda>x acc. Inr (acc @ [g x])) xs acc = Inr (acc @ map g xs)"
  by (induction xs arbitrary: acc) simp_all

lemma from_key_simps [simp]:
  "parse_edge_key_suffix (from_key e) = Inr (edge_kind_to_byte (edge_kind e), edge_to e)"
  "parse_edge_key_suffix (to_key e) = Inr (edge_kind_to_byte (edge_kind e), edge_from e)"
  "prefix (id_key i) (from_key e) \<longleftrightarrow> edge_from e = i"
  "prefix (id_key i) (to_key e) \<longleftrightarrow> edge_to e = i"
  by (simp_all add: from_key_def to_key_def)

definition edge_out_less :: "edge \<Rightarrow> edge \<Rightarrow> bool" where
  "edge_out_less d e \<longleftrightarrow> edge_kind_to_byte (edge_kind d) < edge_kind_to_byte (edge_kind e) \<or>
     edge_kind d = edge_kind e \<and> edge_to d < edge_to e"

definition edge_in_less :: "edge \<Rightarrow> edge \<Rightarrow> bool" where
  "edge_in_less d e \<longleftrightarrow> edge_kind_to_byte (edge_kind d) < edge_kind_to_byte (edge_kind e) \<or>
     edge_kind d = edge_kind e \<and> edge_from d < edge_from e"

context lmdb
begin

lemma put_spec:
  assumes rel: "lmdb_rel lib tab s a" and run: "lmdb_put lib s session b = Inr (i, s')"
  shows "i = fst (spec_put session b a) \<and> lmdb_rel lib tab s' (snd (spec_put session b a))"
proof -
  have h: "rel_option (\<lambda>v i. v = id_key i) (tab (ls_by_hash s) (hash_key (cb_hash b))) (st_hash a (cb_hash b))"
    using rel by (simp add: lmdb_rel_def key_rel_get)
  from run obtain ex where ex: "lib_get lib (ls_by_hash s) (hash_key (cb_hash b)) = Inr ex"
    by (auto simp: lmdb_put_def rbind_Inr_iff)
  then have ex': "ex = tab (ls_by_hash s) (hash_key (cb_hash b))" by (rule get_ok)
  show ?thesis
  proof (cases "st_hash a (cb_hash b)")
    case (Some j)
    with h ex' have "ex = Some (id_key j)" by (auto elim: option.rel_cases)
    with run ex obtain t where t: "lib_put lib (ls_by_session s) (session_block_key session j) [] = Inr t"
      "i = j" "s' = s\<lparr>ls_by_session := t\<rparr>"
      by (auto simp: lmdb_put_def rbind_Inr_iff)
    with put_ok [OF t(1)] rel Some show ?thesis
      by (simp add: lmdb_rel_def spec_put_def)
  next
    case None
    with h ex' have "ex = None" by (auto elim: option.rel_cases)
    with run ex obtain v t1 t2 t3 where t: "lib_encode lib b = Inr v"
      "lib_put lib (ls_by_id s) (id_key (cb_id b)) v = Inr t1"
      "lib_put lib (ls_by_hash s) (hash_key (cb_hash b)) (id_key (cb_id b)) = Inr t2"
      "lib_put lib (ls_by_session s) (session_block_key session (cb_id b)) [] = Inr t3"
      "i = cb_id b" "s' = s\<lparr>ls_by_id := t1, ls_by_hash := t2, ls_by_session := t3\<rparr>"
      by (auto simp: lmdb_put_def rbind_Inr_iff Let_def)
    with put_ok [OF t(2)] put_ok [OF t(3)] put_ok [OF t(4)] rel None decode_encode [OF t(1)] show ?thesis
      by (auto simp: lmdb_rel_def spec_put_def intro: key_rel_put [OF inj_id_key] key_rel_put [OF inj_hash_key])
  qed
qed

lemma get_spec:
  assumes rel: "lmdb_rel lib tab s a" and run: "lmdb_get lib s i = Inr ob"
  shows "ob = st_blocks a i"
proof -
  have h: "rel_option (\<lambda>v b. lib_decode lib v = Inr b) (tab (ls_by_id s) (id_key i)) (st_blocks a i)"
    using rel by (simp add: lmdb_rel_def key_rel_get)
  from run obtain ov where "lib_get lib (ls_by_id s) (id_key i) = Inr ov"
    and ov: "(case ov of None \<Rightarrow> Inr None | Some bs \<Rightarrow> rbind (decode_block lib bs) (\<lambda>b. Inr (Some b))) = Inr ob"
    by (auto simp: lmdb_get_def rbind_Inr_iff)
  then have "ov = tab (ls_by_id s) (id_key i)" by (auto dest: get_ok)
  with h ov show ?thesis
    by (auto simp: decode_block_def rbind_Inr_iff elim!: option.rel_cases split: option.splits)
qed

lemma lookup_hash_spec:
  assumes rel: "lmdb_rel lib tab s a" and run: "lmdb_lookup_hash lib s h = Inr oi"
  shows "oi = st_hash a h"
proof -
  have h: "rel_option (\<lambda>v i. v = id_key i) (tab (ls_by_hash s) (hash_key h)) (st_hash a h)"
    using rel by (simp add: lmdb_rel_def key_rel_get)
  from run obtain ov where "lib_get lib (ls_by_hash s) (hash_key h) = Inr ov"
    and ov: "(case ov of None \<Rightarrow> Inr None | Some bs \<Rightarrow> rbind (decode_block_id bs) (\<lambda>i. Inr (Some i))) = Inr oi"
    by (auto simp: lmdb_lookup_hash_def rbind_Inr_iff)
  then have "ov = tab (ls_by_hash s) (hash_key h)" by (auto dest: get_ok)
  with h ov show ?thesis
    by (auto simp: rbind_Inr_iff elim!: option.rel_cases split: option.splits)
qed

lemma list_session_spec:
  assumes rel: "lmdb_rel lib tab s a" and run: "lmdb_list_session lib s session = Inr ids"
  shows "set ids = spec_session session a \<and> sorted_wrt (<) ids"
proof -
  let ?f = "\<lambda>key ids. if length key \<noteq> 32 then Inl (Backend (''session key width '' @ dec (length key)))
       else Inr (ids @ [id_of_key (drop 16 key)])"
  have "walk (lib_prefix_iter lib (ls_by_session s) (id_key session)) (\<lambda>key _. ?f key) [] = Inr ids"
    using run by (simp add: lmdb_list_session_def rbind_Inr_iff)
  moreover have "dom (tab (ls_by_session s)) = case_prod session_block_key ` st_members a"
    using rel by (simp add: lmdb_rel_def)
  ultimately obtain xs where xs:
    "set xs = {x \<in> st_members a. prefix (id_key session) (case_prod session_block_key x)}"
    "sorted_wrt (\<lambda>x y. case_prod session_block_key x < case_prod session_block_key y) xs"
    "for_each (\<lambda>x. ?f (case_prod session_block_key x)) xs [] = Inr ids"
    by (rule walk_prefix_keys [OF _ _ inj_session_key])
  have "for_each (\<lambda>x. ?f (case_prod session_block_key x)) xs [] = for_each (\<lambda>x ids. Inr (ids @ [snd x])) xs []"
    by (rule for_each_cong) (auto split: prod.splits)
  with xs(3) have ids: "ids = map snd xs" by (simp add: for_each_snoc)
  have fst: "fst x = session" if "x \<in> set xs" for x
    using that unfolding xs(1) by (auto split: prod.splits)
  have "sorted_wrt (\<lambda>x y. snd x < snd y) xs"
    by (rule sorted_wrt_mono_rel [OF _ xs(2)]) (auto dest!: fst)
  moreover have "set ids = spec_session session a"
    unfolding ids spec_session_def set_map xs(1) by force
  ultimately show ?thesis by (simp add: ids sorted_wrt_map)
qed

lemma put_edge_spec:
  assumes rel: "lmdb_rel lib tab s a" and run: "lmdb_put_edge lib s e = Inr (u, s')"
  shows "lmdb_rel lib tab s' (spec_put_edge e a)"
proof -
  from run obtain t1 t2 where t: "lib_put lib (ls_edges_from s) (from_key e) [] = Inr t1"
    "lib_put lib (ls_edges_to s) (to_key e) [] = Inr t2" "s' = s\<lparr>ls_edges_from := t1, ls_edges_to := t2\<rparr>"
    by (auto simp: lmdb_put_edge_def Let_def rbind_Inr_iff from_key_def to_key_def)
  show ?thesis
    using rel put_ok [OF t(1)] put_ok [OF t(2)] by (simp add: lmdb_rel_def spec_put_edge_def t(3))
qed

lemma edges_from_spec:
  assumes rel: "lmdb_rel lib tab s a" and run: "lmdb_edges_from lib s i = Inr es"
  shows "set es = {e \<in> st_edges a. edge_from e = i} \<and> sorted_wrt edge_out_less es"
proof -
  let ?f = "\<lambda>key out. rbind (parse_edge_key_suffix key) (\<lambda>(k, x). rbind (edge_kind_from_byte k)
     (\<lambda>kind. Inr (out @ [\<lparr>edge_from = i, edge_to = x, edge_kind = kind\<rparr>])))"
  have "walk (lib_prefix_iter lib (ls_edges_from s) (id_key i)) (\<lambda>key _. ?f key) [] = Inr es"
    using run by (simp add: lmdb_edges_from_def rbind_Inr_iff)
  moreover have "dom (tab (ls_edges_from s)) = from_key ` st_edges a"
    using rel by (simp add: lmdb_rel_def)
  ultimately obtain xs where xs: "set xs = {e \<in> st_edges a. prefix (id_key i) (from_key e)}"
    "sorted_wrt (\<lambda>x y. from_key x < from_key y) xs" "for_each (\<lambda>e. ?f (from_key e)) xs [] = Inr es"
    by (rule walk_prefix_keys [OF _ _ inj_from_key])
  have fst: "edge_from x = i" if "x \<in> set xs" for x using that xs(1) by auto
  have "for_each (\<lambda>e. ?f (from_key e)) xs [] = for_each (\<lambda>e out. Inr (out @ [e])) xs []"
    by (rule for_each_cong) (auto simp: fst [symmetric])
  with xs(3) have es: "es = xs" by (simp add: for_each_snoc [where g = "\<lambda>e. e"])
  have "sorted_wrt edge_out_less xs"
    by (rule sorted_wrt_mono_rel [OF _ xs(2)]) (auto simp: from_key_def edge_out_less_def dest!: fst)
  with xs(1) show ?thesis by (simp add: es)
qed

lemma edges_to_spec:
  assumes rel: "lmdb_rel lib tab s a" and run: "lmdb_edges_to lib s i = Inr es"
  shows "set es = {e \<in> st_edges a. edge_to e = i} \<and> sorted_wrt edge_in_less es"
proof -
  let ?f = "\<lambda>key out. rbind (parse_edge_key_suffix key) (\<lambda>(k, x). rbind (edge_kind_from_byte k)
     (\<lambda>kind. Inr (out @ [\<lparr>edge_from = x, edge_to = i, edge_kind = kind\<rparr>])))"
  have "walk (lib_prefix_iter lib (ls_edges_to s) (id_key i)) (\<lambda>key _. ?f key) [] = Inr es"
    using run by (simp add: lmdb_edges_to_def rbind_Inr_iff)
  moreover have "dom (tab (ls_edges_to s)) = to_key ` st_edges a"
    using rel by (simp add: lmdb_rel_def)
  ultimately obtain xs where xs: "set xs = {e \<in> st_edges a. prefix (id_key i) (to_key e)}"
    "sorted_wrt (\<lambda>x y. to_key x < to_key y) xs" "for_each (\<lambda>e. ?f (to_key e)) xs [] = Inr es"
    by (rule walk_prefix_keys [OF _ _ inj_to_key])
  have fst: "edge_to x = i" if "x \<in> set xs" for x using that xs(1) by auto
  have "for_each (\<lambda>e. ?f (to_key e)) xs [] = for_each (\<lambda>e out. Inr (out @ [e])) xs []"
    by (rule for_each_cong) (auto simp: fst [symmetric])
  with xs(3) have es: "es = xs" by (simp add: for_each_snoc [where g = "\<lambda>e. e"])
  have "sorted_wrt edge_in_less xs"
    by (rule sorted_wrt_mono_rel [OF _ xs(2)]) (auto simp: to_key_def edge_in_less_def dest!: fst)
  with xs(1) show ?thesis by (simp add: es)
qed

end

section \<open>Deletion\<close>

lemma spec_remove_simps:
  "st_blocks (spec_remove I a) = st_blocks a |` (- I)"
  "st_members (spec_remove I a) = {(s, i) \<in> st_members a. i \<notin> I}"
  "st_edges (spec_remove I a) = {e \<in> st_edges a. edge_from e \<notin> I \<and> edge_to e \<notin> I}"
  by (simp_all add: spec_remove_def)

lemma spec_remove_empty [simp]: "spec_remove {} a = a"
  by (auto simp: spec_remove_def fun_eq_iff restrict_map_def intro!: store_spec.equality split: option.splits)

lemma spec_remove_remove: "spec_remove I (spec_remove J a) = spec_remove (I \<union> J) a"
  by (auto simp: spec_remove_def fun_eq_iff restrict_map_def intro!: store_spec.equality split: option.splits)

text \<open>All of the invariant but that every block belongs to a session.\<close>

definition spec_core :: "store_spec \<Rightarrow> bool" where
  "spec_core a \<longleftrightarrow>
     (\<forall>h i. st_hash a h = Some i \<longleftrightarrow> (\<exists>b. st_blocks a i = Some b \<and> cb_hash b = h)) \<and>
     (\<forall>s i. (s, i) \<in> st_members a \<longrightarrow> st_blocks a i \<noteq> None)"

lemma spec_core_wf: "spec_wf a \<Longrightarrow> spec_core a"
  by (simp add: spec_wf_def spec_core_def)

lemma spec_core_leave: "spec_core a \<Longrightarrow> spec_core (spec_leave s a)"
  unfolding spec_core_def by simp blast

lemma spec_core_remove: "spec_core a \<Longrightarrow> spec_core (spec_remove I a)"
  unfolding spec_core_def by (auto simp: not_None_eq)

lemma spec_core_hash_remove:
  assumes "spec_core a" "st_blocks a i = Some b"
  shows "st_hash (spec_remove {i} a) = (st_hash a)(cb_hash b := None)"
proof
  fix h
  show "st_hash (spec_remove {i} a) h = ((st_hash a)(cb_hash b := None)) h"
  proof (cases "st_hash a h")
    case None
    then show ?thesis by (simp add: spec_remove_def)
  next
    case (Some j)
    have "st_hash a (cb_hash b) = Some i" using assms by (auto simp: spec_core_def)
    moreover have "\<exists>c. st_blocks a j = Some c \<and> cb_hash c = h" using Some assms(1) by (auto simp: spec_core_def)
    ultimately have "j = i \<longleftrightarrow> h = cb_hash b" using Some assms(2) by auto
    with Some show ?thesis by (auto simp: spec_remove_def)
  qed
qed

context lmdb
begin

lemma drop_pair_Inr:
  "drop_pair lib i p tt = Inr tt' \<longleftrightarrow>
     lib_delete lib (fst tt) (edge_key i (fst p) (snd p)) = Inr (fst tt') \<and>
     lib_delete lib (snd tt) (edge_key (snd p) (fst p) i) = Inr (snd tt')"
  by (cases tt') (auto simp: drop_pair_def rbind_Inr_iff)

lemma drop_pairs:
  assumes "for_each (drop_pair lib i) (map g es) tt = Inr tt'"
    and "\<And>e. e \<in> set es \<Longrightarrow> edge_key i (fst (g e)) (snd (g e)) = kA e \<and> edge_key (snd (g e)) (fst (g e)) i = kB e"
    and "inj kA" "inj kB" "dom (tab (fst tt)) = kA ` E" "dom (tab (snd tt)) = kB ` E"
  shows "dom (tab (fst tt')) = kA ` (E - set es) \<and> dom (tab (snd tt')) = kB ` (E - set es)"
  using assms(1,2,5,6)
proof (induction es arbitrary: tt E)
  case (Cons e es)
  from Cons.prems obtain t1 t2 where t: "lib_delete lib (fst tt) (kA e) = Inr t1"
    "lib_delete lib (snd tt) (kB e) = Inr t2" "for_each (drop_pair lib i) (map g es) (t1, t2) = Inr tt'"
    by (auto simp: drop_pair_Inr rbind_Inr_iff)
  have d: "dom (tab t1) = kA ` (E - {e})" "dom (tab t2) = kB ` (E - {e})"
    using delete_ok [OF t(1)] delete_ok [OF t(2)] Cons.prems(3,4)
    by (simp_all only: dom_delete [OF assms(3)] dom_delete [OF assms(4)])
  have "E - {e} - set es = E - set (e # es)" by auto
  with Cons.IH [OF t(3), of "E - {e}"] Cons.prems(2) d show ?case by simp
qed simp

lemma edge_suffixes_spec:
  assumes "edge_suffixes lib t i = Inr ps" "dom (tab t) = key ` E" "inj key"
    and "\<And>e. parse_edge_key_suffix (key e) = Inr (g e)"
  obtains xs where "set xs = {e \<in> E. prefix (id_key i) (key e)}" "ps = map g xs"
proof -
  from assms(1) have "walk (lib_prefix_iter lib t (id_key i))
      (\<lambda>key _. (\<lambda>key acc. rbind (parse_edge_key_suffix key) (\<lambda>p. Inr (acc @ [p]))) key) [] = Inr ps"
    by (simp add: edge_suffixes_def)
  then obtain xs where xs: "set xs = {e \<in> E. prefix (id_key i) (key e)}"
    "for_each (\<lambda>e acc. rbind (parse_edge_key_suffix (key e)) (\<lambda>p. Inr (acc @ [p]))) xs [] = Inr ps"
    by (rule walk_prefix_keys [OF _ assms(2,3)])
  then have "for_each (\<lambda>e acc. Inr (acc @ [g e]) :: store_error + (u8 \<times> block_id) list) xs [] = Inr ps"
    by (simp add: assms(4))
  then have "ps = map g xs" by (simp add: for_each_snoc)
  with xs(1) show ?thesis by (rule that)
qed

lemma purge_edges_spec:
  assumes run: "purge_edges_for_block lib i s = Inr s'"
    and dom: "dom (tab (ls_edges_from s)) = from_key ` E" "dom (tab (ls_edges_to s)) = to_key ` E"
  obtains f t where "s' = s\<lparr>ls_edges_from := f, ls_edges_to := t\<rparr>"
    "dom (tab f) = from_key ` {e \<in> E. edge_from e \<noteq> i \<and> edge_to e \<noteq> i}"
    "dom (tab t) = to_key ` {e \<in> E. edge_from e \<noteq> i \<and> edge_to e \<noteq> i}"
proof -
  let ?out = "\<lambda>e. (edge_kind_to_byte (edge_kind e), edge_to e)" and ?in = "\<lambda>e. (edge_kind_to_byte (edge_kind e), edge_from e)"
  from run obtain ps f t qs t' f' where 1: "edge_suffixes lib (ls_edges_from s) i = Inr ps"
    "for_each (drop_pair lib i) ps (ls_edges_from s, ls_edges_to s) = Inr (f, t)"
    "edge_suffixes lib t i = Inr qs" "for_each (drop_pair lib i) qs (t, f) = Inr (t', f')"
    "s' = s\<lparr>ls_edges_from := f', ls_edges_to := t'\<rparr>"
    by (auto simp: purge_edges_for_block_def rbind_Inr_iff split: prod.splits)
  from edge_suffixes_spec [OF 1(1) dom(1) inj_from_key from_key_simps(1)]
  obtain xs where xs: "set xs = {e \<in> E. edge_from e = i}" "ps = map ?out xs" by auto
  let ?E1 = "E - set xs"
  have "dom (tab (fst (f, t))) = from_key ` ?E1 \<and> dom (tab (snd (f, t))) = to_key ` ?E1"
    by (rule drop_pairs [OF 1(2) [unfolded xs(2)] _ inj_from_key inj_to_key])
       (use xs(1) dom in \<open>auto simp: from_key_def to_key_def\<close>)
  then have d1: "dom (tab f) = from_key ` ?E1" "dom (tab t) = to_key ` ?E1" by simp_all
  from edge_suffixes_spec [OF 1(3) d1(2) inj_to_key from_key_simps(2)]
  obtain ys where ys: "set ys = {e \<in> ?E1. edge_to e = i}" "qs = map ?in ys" by auto
  let ?E2 = "?E1 - set ys"
  have "dom (tab (fst (t', f'))) = to_key ` ?E2 \<and> dom (tab (snd (t', f'))) = from_key ` ?E2"
    by (rule drop_pairs [OF 1(4) [unfolded ys(2)] _ inj_to_key inj_from_key])
       (use ys(1) d1 in \<open>auto simp: from_key_def to_key_def\<close>)
  moreover have "?E2 = {e \<in> E. edge_from e \<noteq> i \<and> edge_to e \<noteq> i}" using xs(1) ys(1) by auto
  ultimately show ?thesis using 1(5) by (intro that [of t' f']) (simp_all only: fst_conv snd_conv)
qed

lemma delete_keys_spec:
  "delete_keys lib (map key xs) t = Inr t' \<Longrightarrow> inj key \<Longrightarrow> dom (tab t) = key ` S \<Longrightarrow>
   dom (tab t') = key ` (S - set xs)"
proof (induction xs arbitrary: t S)
  case Nil
  then show ?case by (simp add: delete_keys_def)
next
  case (Cons x xs)
  then obtain t1 where t1: "lib_delete lib t (key x) = Inr t1" "delete_keys lib (map key xs) t1 = Inr t'"
    by (auto simp: delete_keys_def rbind_Inr_iff)
  from delete_ok [OF t1(1)] Cons.prems have d: "dom (tab t1) = key ` (S - {x})"
    by (simp only: dom_delete [OF Cons.prems(2)])
  have "S - {x} - set xs = S - set (x # xs)" by auto
  with Cons.IH [OF t1(2) Cons.prems(2) d] show ?case by simp
qed

text \<open>Block, hash and edges deleted from the tables: the block removed from the store.\<close>

lemma drop_block_spec:
  assumes rel: "lmdb_rel lib tab s a" and core: "spec_core a" and b: "st_blocks a i = Some b"
    and t1: "lib_delete lib (ls_by_id s) (id_key i) = Inr t1"
    and t2: "lib_delete lib (ls_by_hash s) (hash_key (cb_hash b)) = Inr t2"
    and ts: "dom (tab ts) = case_prod session_block_key ` {(s, j) \<in> st_members a. j \<noteq> i}"
    and pe: "purge_edges_for_block lib i (s\<lparr>ls_by_session := ts, ls_by_id := t1, ls_by_hash := t2\<rparr>) = Inr s'"
  shows "lmdb_rel lib tab s' (spec_remove {i} a)"
proof -
  let ?s = "s\<lparr>ls_by_session := ts, ls_by_id := t1, ls_by_hash := t2\<rparr>"
  have d: "dom (tab (ls_edges_from ?s)) = from_key ` st_edges a" "dom (tab (ls_edges_to ?s)) = to_key ` st_edges a"
    using rel by (simp_all add: lmdb_rel_def)
  from purge_edges_spec [OF pe d] obtain f t where ft: "s' = ?s\<lparr>ls_edges_from := f, ls_edges_to := t\<rparr>"
    "dom (tab f) = from_key ` {e \<in> st_edges a. edge_from e \<noteq> i \<and> edge_to e \<noteq> i}"
    "dom (tab t) = to_key ` {e \<in> st_edges a. edge_from e \<noteq> i \<and> edge_to e \<noteq> i}"
    by blast
  have blocks: "st_blocks (spec_remove {i} a) = (st_blocks a)(i := None)"
    by (simp add: spec_remove_simps restrict_complement_singleton_eq)
  have "key_rel (tab t1) id_key (\<lambda>v b. lib_decode lib v = Inr b) (st_blocks (spec_remove {i} a))"
    using rel delete_ok [OF t1] unfolding blocks lmdb_rel_def by (simp add: key_rel_delete [OF inj_id_key])
  moreover have "key_rel (tab t2) hash_key (\<lambda>v i. v = id_key i) (st_hash (spec_remove {i} a))"
    using rel delete_ok [OF t2] unfolding spec_core_hash_remove [OF core b] lmdb_rel_def
    by (simp add: key_rel_delete [OF inj_hash_key])
  ultimately show ?thesis
    using ft ts unfolding lmdb_rel_def by (simp add: spec_remove_simps)
qed

lemma delete_spec:
  assumes rel: "lmdb_rel lib tab s a" and wf: "spec_wf a" and run: "lmdb_delete lib s i = Inr (r, s')"
  shows "r = fst (spec_delete i a) \<and> lmdb_rel lib tab s' (snd (spec_delete i a))"
proof -
  let ?f = "\<lambda>key keys. Inr (if length key = 32 \<and> drop 16 key = id_key i then keys @ [key] else keys) :: store_error + raw list"
  let ?k = "case_prod session_block_key"
  have h: "rel_option (\<lambda>v b. lib_decode lib v = Inr b) (tab (ls_by_id s) (id_key i)) (st_blocks a i)"
    using rel by (simp add: lmdb_rel_def key_rel_get)
  have ds: "dom (tab (ls_by_session s)) = ?k ` st_members a" using rel by (simp add: lmdb_rel_def)
  from run obtain ov hash keys where 1: "lib_get lib (ls_by_id s) (id_key i) = Inr ov"
    "(case ov of Some bs \<Rightarrow> rbind (decode_block lib bs) (\<lambda>b. Inr (Some (cb_hash b))) | None \<Rightarrow> Inr None) = Inr hash"
    "walk (lib_iter lib (ls_by_session s)) (\<lambda>key _. ?f key) [] = Inr keys"
    and 2: "(if hash = None \<and> keys = [] then Inr (False, s)
     else rbind (delete_keys lib keys (ls_by_session s)) (\<lambda>t.
       rbind (case hash of None \<Rightarrow> Inr (s\<lparr>ls_by_session := t\<rparr>)
         | Some h \<Rightarrow> rbind (heed (lib_delete lib (ls_by_id s) (id_key i))) (\<lambda>t1.
             rbind (heed (lib_delete lib (ls_by_hash s) (hash_key h))) (\<lambda>t2.
               Inr (s\<lparr>ls_by_session := t, ls_by_id := t1, ls_by_hash := t2\<rparr>)))) (\<lambda>s1.
       rbind (purge_edges_for_block lib i s1) (\<lambda>s2.
       rbind (heed (lib_commit lib)) (\<lambda>_. Inr (True, s2)))))) = Inr (r, s')"
    unfolding lmdb_delete_def by (elim rbind_InrE) (simp only: map_err_Inr_iff)
  have hash: "hash = map_option cb_hash (st_blocks a i)"
    using h 1(2) get_ok [OF 1(1)]
    by (auto simp: decode_block_def rbind_Inr_iff elim!: option.rel_cases split: option.splits)
  obtain xs where xs: "set xs = st_members a" "sorted_wrt (\<lambda>x y. ?k x < ?k y) xs"
      "for_each (\<lambda>x. ?f (?k x)) xs [] = Inr keys"
    using 1(3) ds inj_session_key by (rule walk_iter_keys)
  have "for_each (\<lambda>x. ?f (?k x)) xs [] = for_each (\<lambda>x acc. Inr (acc @ (if snd x = i then [?k x] else []))) xs []"
    by (rule for_each_cong) (auto split: prod.splits)
  with xs(3) have "keys = concat (map (\<lambda>x. if snd x = i then [?k x] else []) xs)" by (simp add: for_each_collect)
  also have "\<dots> = map ?k (filter (\<lambda>x. snd x = i) xs)" by (induction xs) auto
  finally have keys: "keys = map ?k (filter (\<lambda>x. snd x = i) xs)" .
  show ?thesis
  proof (cases "st_blocks a i")
    case None
    then have "\<nexists>s. (s, i) \<in> st_members a" using spec_wfD(3) [OF wf] by fastforce
    then have "filter (\<lambda>x. snd x = i) xs = []" "\<not> spec_has i a"
      using xs(1) None by (auto simp: filter_empty_conv spec_has_def)
    with 2 hash None keys rel show ?thesis by (simp add: spec_delete_def)
  next
    case (Some b)
    then have has: "spec_has i a" by (simp add: spec_has_def)
    from 2 hash Some obtain ts t1 t2 where t: "delete_keys lib keys (ls_by_session s) = Inr ts"
      "lib_delete lib (ls_by_id s) (id_key i) = Inr t1"
      "lib_delete lib (ls_by_hash s) (hash_key (cb_hash b)) = Inr t2"
      "purge_edges_for_block lib i (s\<lparr>ls_by_session := ts, ls_by_id := t1, ls_by_hash := t2\<rparr>) = Inr s'" "r = True"
      by (auto simp: rbind_Inr_iff)
    have "dom (tab ts) = ?k ` (st_members a - set (filter (\<lambda>x. snd x = i) xs))"
      by (rule delete_keys_spec [OF t(1) [unfolded keys] inj_session_key ds])
    also have "st_members a - set (filter (\<lambda>x. snd x = i) xs) = {(s, j) \<in> st_members a. j \<noteq> i}"
      using xs(1) by auto
    finally have "lmdb_rel lib tab s' (spec_remove {i} a)"
      by (rule drop_block_spec [OF rel spec_core_wf [OF wf] Some t(2,3) _ t(4)])
    with t(5) has show ?thesis by (simp add: spec_delete_def)
  qed
qed

end

section \<open>Purging a session\<close>

lemma find_reference_spec:
  assumes "list_all2 (\<lambda>e kv. \<forall>x. e = Inr x \<longrightarrow> x = kv) es kvs" "find_reference ik es = Inr r"
  shows "r \<longleftrightarrow> (\<exists>kv \<in> set kvs. length (fst kv) = 32 \<and> drop 16 (fst kv) = ik)"
  using assms
  by (induction arbitrary: r rule: list_all2_induct) (auto simp: rbind_Inr_iff split: if_splits)

lemma spec_core_leave_iff: "spec_core a \<Longrightarrow> i \<notin> spec_orphans a I \<Longrightarrow> i \<in> I \<Longrightarrow>
    st_blocks a i = None \<or> (\<exists>s. (s, i) \<in> st_members a)"
  by (auto simp: spec_orphans_def)

lemma orphans_members: "spec_orphans a I \<inter> snd ` st_members a = {}"
  by (auto simp: spec_orphans_def)

context lmdb
begin

lemma purge_if_orphan_spec:
  assumes rel: "lmdb_rel lib tab s a" and core: "spec_core a" and run: "purge_if_orphan lib i s = Inr s'"
  shows "lmdb_rel lib tab s' (spec_remove (spec_orphans a {i}) a)"
proof -
  let ?k = "case_prod session_block_key"
  have h: "rel_option (\<lambda>v b. lib_decode lib v = Inr b) (tab (ls_by_id s) (id_key i)) (st_blocks a i)"
    using rel by (simp add: lmdb_rel_def key_rel_get)
  have ds: "dom (tab (ls_by_session s)) = ?k ` st_members a" using rel by (simp add: lmdb_rel_def)
  from run obtain es r where es: "lib_iter lib (ls_by_session s) = Inr es" "find_reference (id_key i) es = Inr r"
    unfolding purge_if_orphan_def by (auto simp: rbind_Inr_iff split: if_splits)
  from iter_ok [OF es(1)] obtain kvs where kvs: "walk_ok (tab (ls_by_session s)) (\<lambda>_. True) es kvs" by blast
  then have "r \<longleftrightarrow> (\<exists>kv \<in> set kvs. length (fst kv) = 32 \<and> drop 16 (fst kv) = id_key i)"
    by (intro find_reference_spec [OF _ es(2)]) (simp add: walk_ok_def)
  also have "\<dots> \<longleftrightarrow> (\<exists>key \<in> dom (tab (ls_by_session s)). length key = 32 \<and> drop 16 key = id_key i)"
    using kvs by (force simp: walk_ok_def)
  also have "\<dots> \<longleftrightarrow> (\<exists>t. (t, i) \<in> st_members a)"
    unfolding ds by force
  finally have r: "r \<longleftrightarrow> (\<exists>t. (t, i) \<in> st_members a)" .
  show ?thesis
  proof (cases r)
    case True
    then have "spec_orphans a {i} = {}" using r by (auto simp: spec_orphans_def)
    with run es True rel show ?thesis by (simp add: purge_if_orphan_def)
  next
    case False
    note F = this
    show ?thesis
    proof (cases "st_blocks a i")
      case None
      then have "tab (ls_by_id s) (id_key i) = None" using h by (auto elim: option.rel_cases)
      then have "s' = s" using run es False
        by (auto simp: purge_if_orphan_def rbind_Inr_iff split: option.splits dest!: get_ok)
      moreover have "spec_orphans a {i} = {}" using None by (auto simp: spec_orphans_def)
      ultimately show ?thesis using rel by simp
    next
      case (Some b)
      then obtain v where v: "tab (ls_by_id s) (id_key i) = Some v" "lib_decode lib v = Inr b"
        using h by (auto elim: option.rel_cases)
      have "spec_orphans a {i} = {i}" using Some False r by (auto simp: spec_orphans_def)
      moreover from run es False v obtain t1 t2 where t:
        "lib_delete lib (ls_by_id s) (id_key i) = Inr t1"
        "lib_delete lib (ls_by_hash s) (hash_key (cb_hash b)) = Inr t2"
        "purge_edges_for_block lib i (s\<lparr>ls_by_id := t1, ls_by_hash := t2\<rparr>) = Inr s'"
        by (auto simp: purge_if_orphan_def rbind_Inr_iff decode_block_def dest!: get_ok)
      moreover have "dom (tab (ls_by_session s)) = ?k ` {(t, j) \<in> st_members a. j \<noteq> i}"
      proof -
        have "{(t, j) \<in> st_members a. j \<noteq> i} = st_members a" using False r by auto
        with ds show ?thesis by simp
      qed
      ultimately show ?thesis
        using drop_block_spec [OF rel core Some t(1,2), of "ls_by_session s" s'] by simp
    qed
  qed
qed

lemma purge_loop_spec:
  assumes "for_each (purge_if_orphan lib) ids s = Inr s'" "lmdb_rel lib tab s a" "spec_core a"
  shows "lmdb_rel lib tab s' (spec_remove (spec_orphans a (set ids)) a)"
  using assms
proof (induction ids arbitrary: s a)
  case Nil
  then show ?case by (simp add: spec_orphans_def)
next
  case (Cons i ids)
  from Cons.prems(1) obtain s1 where s1: "purge_if_orphan lib i s = Inr s1" "for_each (purge_if_orphan lib) ids s1 = Inr s'"
    by (auto simp: rbind_Inr_iff)
  let ?a1 = "spec_remove (spec_orphans a {i}) a"
  have "lmdb_rel lib tab s1 ?a1" by (rule purge_if_orphan_spec [OF Cons.prems(2,3) s1(1)])
  from Cons.IH [OF s1(2) this spec_core_remove [OF Cons.prems(3)]]
  have "lmdb_rel lib tab s' (spec_remove (spec_orphans ?a1 (set ids)) ?a1)" .
  moreover have "spec_orphans ?a1 (set ids) \<union> spec_orphans a {i} = spec_orphans a (set (i # ids))"
    by (auto simp: spec_orphans_def spec_remove_simps restrict_map_def)
  ultimately show ?case by (simp add: spec_remove_remove)
qed

lemma purge_session_spec:
  assumes rel: "lmdb_rel lib tab s a" and wf: "spec_wf a" and run: "lmdb_purge_session lib s session = Inr (n, s')"
  shows "n = fst (spec_purge session a) \<and> lmdb_rel lib tab s' (snd (spec_purge session a))"
proof -
  let ?f = "\<lambda>key ids. Inr (if length key \<noteq> 32 then ids else ids @ [id_of_key (drop 16 key)]) :: store_error + block_id list"
  let ?k = "case_prod session_block_key"
  have ds: "dom (tab (ls_by_session s)) = ?k ` st_members a" using rel by (simp add: lmdb_rel_def)
  from run obtain ids where 1: "walk (lib_prefix_iter lib (ls_by_session s) (id_key session)) (\<lambda>key _. ?f key) [] = Inr ids"
    and 2: "(if length ids = 0 then Inr (0, s)
     else rbind (delete_keys lib (map (session_block_key session) ids) (ls_by_session s)) (\<lambda>t.
       rbind (for_each (purge_if_orphan lib) ids (s\<lparr>ls_by_session := t\<rparr>)) (\<lambda>s'.
       rbind (heed (lib_commit lib)) (\<lambda>_. Inr (length ids, s'))))) = Inr (n, s')"
    unfolding lmdb_purge_session_def by (elim rbind_InrE) (simp only: map_err_Inr_iff)
  from 1 ds inj_session_key obtain xs where xs: "set xs = {x \<in> st_members a. prefix (id_key session) (?k x)}"
    "sorted_wrt (\<lambda>x y. ?k x < ?k y) xs" "for_each (\<lambda>x. ?f (?k x)) xs [] = Inr ids"
    by (rule walk_prefix_keys)
  have fst: "fst x = session" if "x \<in> set xs" for x
    using that unfolding xs(1) by (auto split: prod.splits)
  have "for_each (\<lambda>x. ?f (?k x)) xs [] = for_each (\<lambda>x ids. Inr (ids @ [snd x])) xs []"
    by (rule for_each_cong) (auto split: prod.splits)
  with xs(3) have ids: "ids = map snd xs" by (simp add: for_each_snoc)
  have set: "set ids = spec_session session a"
    unfolding ids spec_session_def set_map xs(1) by force
  have "sorted_wrt (\<lambda>x y. snd x < snd y) xs"
    by (rule sorted_wrt_mono_rel [OF _ xs(2)]) (auto dest!: fst)
  then have "distinct ids"
    unfolding ids by (metis strict_sorted_iff sorted_wrt_map)
  then have card: "length ids = card (spec_session session a)"
    by (metis distinct_card set)
  show ?thesis
  proof (cases "ids = []")
    case True
    then have none: "spec_session session a = {}" using set by simp
    then have "spec_leave session a = a"
      by (auto simp: spec_leave_def spec_session_def intro!: store_spec.equality)
    moreover have "spec_orphans a {} = {}" by (simp add: spec_orphans_def)
    ultimately show ?thesis using True 2 rel none by (auto simp: spec_purge_def)
  next
    case False
    with 2 obtain t where t: "delete_keys lib (map (session_block_key session) ids) (ls_by_session s) = Inr t"
      "for_each (purge_if_orphan lib) ids (s\<lparr>ls_by_session := t\<rparr>) = Inr s'" "n = length ids"
      by (auto simp: rbind_Inr_iff)
    have "map (session_block_key session) ids = map ?k xs"
      unfolding ids by (auto dest!: fst)
    with t(1) have "delete_keys lib (map ?k xs) (ls_by_session s) = Inr t" by simp
    from delete_keys_spec [OF this inj_session_key ds]
    have "dom (tab t) = ?k ` (st_members a - set xs)" .
    also have "st_members a - set xs = st_members (spec_leave session a)"
      unfolding xs(1) by (auto simp: spec_leave_def)
    finally have "lmdb_rel lib tab (s\<lparr>ls_by_session := t\<rparr>) (spec_leave session a)"
      using rel by (simp add: lmdb_rel_def)
    from purge_loop_spec [OF t(2) this spec_core_leave [OF spec_core_wf [OF wf]]]
    show ?thesis using t(3) card by (simp add: spec_purge_def set)
  qed
qed

end

section \<open>Sessions\<close>

lemma bt_insert_all:
  "for_each (\<lambda>x seen. Inr (bt_insert (g x) () seen)) xs m = Inr m' \<Longrightarrow> bt_sorted m \<Longrightarrow>
     bt_sorted m' \<and> fst ` set m' = fst ` set m \<union> g ` set xs"
  by (induction xs arbitrary: m) (auto simp: bt_sorted_insert set_keys_bt_insert)

context lmdb
begin

lemma list_sessions_spec:
  assumes rel: "lmdb_rel lib tab s a" and run: "lmdb_list_sessions lib s = Inr ss"
  shows "set ss = fst ` st_members a \<and> sorted_wrt (<) ss"
proof -
  let ?f = "\<lambda>key seen. (if length key < 16 then Inr seen
       else Inr (bt_insert (id_of_key (take 16 key)) () seen)) :: store_error + (session_id, unit) btree"
  let ?k = "case_prod session_block_key"
  from run obtain seen where 1: "walk (lib_iter lib (ls_by_session s)) (\<lambda>key _. ?f key) [] = Inr seen"
    "ss = map fst seen"
    by (auto simp: lmdb_list_sessions_def rbind_Inr_iff)
  have ds: "dom (tab (ls_by_session s)) = ?k ` st_members a" using rel by (simp add: lmdb_rel_def)
  from 1(1) ds inj_session_key obtain xs where xs: "set xs = st_members a" "sorted_wrt (\<lambda>x y. ?k x < ?k y) xs"
    "for_each (\<lambda>x. ?f (?k x)) xs [] = Inr seen"
    by (rule walk_iter_keys)
  have "for_each (\<lambda>x. ?f (?k x)) xs [] = for_each (\<lambda>x seen. Inr (bt_insert (fst x) () seen)) xs []"
    by (rule for_each_cong) (auto split: prod.splits)
  with xs(3) have "bt_sorted seen \<and> fst ` set seen = fst ` set xs"
    using bt_insert_all [of fst xs "[]" seen] by simp
  with xs(1) show ?thesis by (simp add: 1(2))
qed

section \<open>Verification\<close>

lemma verify_block_clean:
  assumes "verify_block lib th k v acc = Inr acc'" "k = id_key i" "lib_decode lib v = Inr b"
    "lib_hash lib (cb_bytes b) = cb_hash b" "tab th (hash_key (cb_hash b)) = Some (id_key i)"
  shows "acc' = ((fst acc)\<lparr>vr_blocks_checked := vr_blocks_checked (fst acc) + 1\<rparr>, i # snd acc)"
  using assms by (auto simp: rbind_Inr_iff verify_block_def primary_id_def decode_block_def Let_def dest!: get_ok)

lemma verify_blocks:
  assumes "for_each (\<lambda>kv. verify_block lib th (fst kv) (snd kv)) kvs (r, ids) = Inr (r', ids')"
    and "\<And>k v. (k, v) \<in> set kvs \<Longrightarrow> \<exists>i b. k = id_key i \<and> lib_decode lib v = Inr b \<and>
           lib_hash lib (cb_bytes b) = cb_hash b \<and> tab th (hash_key (cb_hash b)) = Some (id_key i)"
  shows "r' = r\<lparr>vr_blocks_checked := vr_blocks_checked r + length kvs\<rparr> \<and>
         set ids' = set ids \<union> (id_of_key \<circ> fst) ` set kvs"
  using assms
proof (induction kvs arbitrary: r ids)
  case (Cons kv kvs)
  obtain i b where b: "fst kv = id_key i" "lib_decode lib (snd kv) = Inr b"
    "lib_hash lib (cb_bytes b) = cb_hash b" "tab th (hash_key (cb_hash b)) = Some (id_key i)"
    using Cons.prems(2) [of "fst kv" "snd kv"] by auto
  from Cons.prems(1) obtain acc where acc: "verify_block lib th (fst kv) (snd kv) (r, ids) = Inr acc"
    "for_each (\<lambda>kv. verify_block lib th (fst kv) (snd kv)) kvs acc = Inr (r', ids')"
    by (auto simp only: for_each.simps rbind_Inr_iff)
  from acc(2) have "for_each (\<lambda>kv. verify_block lib th (fst kv) (snd kv)) kvs
      (r\<lparr>vr_blocks_checked := vr_blocks_checked r + 1\<rparr>, i # ids) = Inr (r', ids')"
    unfolding verify_block_clean [OF acc(1) b] by simp
  from Cons.IH [OF this] Cons.prems(2) b(1) show ?case by auto
qed simp

lemma verify_spec:
  assumes rel: "lmdb_rel lib tab s a" and wf: "spec_wf a"
    and honest: "\<And>i b. st_blocks a i = Some b \<Longrightarrow> lib_hash lib (cb_bytes b) = cb_hash b"
    and ord: "\<And>xs. set (ord xs) = set xs" and run: "lmdb_verify lib ord s = Inr r"
  shows "is_clean r \<and> vr_blocks_checked r = card (dom (st_blocks a))"
proof -
  let ?k = "case_prod session_block_key"
  from run obtain r1 all_ids r2 ws where 1:
    "walk (lib_iter lib (ls_by_id s)) (verify_block lib (ls_by_hash s)) (verify_default, []) = Inr (r1, all_ids)"
    and 2: "walk (lib_iter lib (ls_by_session s)) (verify_session all_ids) (r1, []) = Inr (r2, ws)"
    and 3: "r = r2\<lparr>vr_blocks_with_no_session := vr_blocks_with_no_session r2 @ filter (\<lambda>i. i \<notin> set ws) (ord all_ids)\<rparr>"
    by (auto simp: lmdb_verify_def rbind_Inr_iff)
  from 1 obtain es kvs where w: "walk_ok (tab (ls_by_id s)) (\<lambda>_. True) es kvs"
    and f: "for_each (\<lambda>kv. verify_block lib (ls_by_hash s) (fst kv) (snd kv)) kvs (verify_default, []) = Inr (r1, all_ids)"
    by (rule walk_iter)
  have kr: "key_rel (tab (ls_by_id s)) id_key (\<lambda>v b. lib_decode lib v = Inr b) (st_blocks a)"
    and hr: "key_rel (tab (ls_by_hash s)) hash_key (\<lambda>v i. v = id_key i) (st_hash a)"
    and ds: "dom (tab (ls_by_session s)) = ?k ` st_members a"
    using rel by (simp_all add: lmdb_rel_def)
  have blk: "\<exists>i b. k = id_key i \<and> lib_decode lib v = Inr b \<and> st_blocks a i = Some b"
    if "tab (ls_by_id s) k = Some v" for k v
  proof -
    from kr that obtain i where "k = id_key i" by (auto simp: key_rel_def)
    with key_rel_get [OF kr, of i] that show ?thesis by (auto elim: option.rel_cases)
  qed
  have hsh: "tab (ls_by_hash s) (hash_key (cb_hash b)) = Some (id_key i)" if "st_blocks a i = Some b" for i b
  proof -
    have "st_hash a (cb_hash b) = Some i" using that spec_wfD(2) [OF wf] by auto
    with key_rel_get [OF hr, of "cb_hash b"] show ?thesis by (auto elim: option.rel_cases)
  qed
  have kvs: "set kvs = {(k, v). tab (ls_by_id s) k = Some v}" "sorted_wrt (<) (map fst kvs)"
    using w by (simp_all add: walk_ok_def)
  have r1: "r1 = verify_default\<lparr>vr_blocks_checked := vr_blocks_checked verify_default + length kvs\<rparr> \<and>
     set all_ids = set [] \<union> (id_of_key \<circ> fst) ` set kvs"
  proof (rule verify_blocks [OF f])
    fix k v assume "(k, v) \<in> set kvs"
    then have "tab (ls_by_id s) k = Some v" using kvs(1) by auto
    from blk [OF this] hsh honest
    show "\<exists>i b. k = id_key i \<and> lib_decode lib v = Inr b \<and> lib_hash lib (cb_bytes b) = cb_hash b \<and>
        tab (ls_by_hash s) (hash_key (cb_hash b)) = Some (id_key i)"
      by blast
  qed
  have keys: "fst ` set kvs = id_key ` dom (st_blocks a)"
  proof -
    have "fst ` set kvs = dom (tab (ls_by_id s))" using kvs(1) by (force simp: dom_def image_iff)
    also have "\<dots> = id_key ` dom (st_blocks a)"
    proof
      show "dom (tab (ls_by_id s)) \<subseteq> id_key ` dom (st_blocks a)" using blk by fastforce
      show "id_key ` dom (st_blocks a) \<subseteq> dom (tab (ls_by_id s))"
      proof
        fix k assume "k \<in> id_key ` dom (st_blocks a)"
        then obtain i b where "k = id_key i" "st_blocks a i = Some b" by auto
        with key_rel_get [OF kr, of i] show "k \<in> dom (tab (ls_by_id s))" by (auto elim: option.rel_cases)
      qed
    qed
    finally show ?thesis .
  qed
  have ids: "set all_ids = dom (st_blocks a)"
  proof -
    have "set all_ids = id_of_key ` fst ` set kvs" using r1 by (simp add: image_image)
    then show ?thesis by (simp add: keys image_image)
  qed
  have "length kvs = card (fst ` set kvs)"
    using kvs(2) by (metis distinct_card length_map set_map strict_sorted_iff)
  also have "\<dots> = card (dom (st_blocks a))"
    unfolding keys by (rule card_image) (auto intro: inj_onI)
  finally have len: "length kvs = card (dom (st_blocks a))" .
  from 2 obtain es2 kvs2 where w2: "walk_ok (tab (ls_by_session s)) (\<lambda>_. True) es2 kvs2"
    and f2: "for_each (\<lambda>kv. verify_session all_ids (fst kv) (snd kv)) kvs2 (r1, []) = Inr (r2, ws)"
    by (rule walk_iter)
  have ks2: "fst ` set kvs2 = ?k ` st_members a"
  proof -
    have "set kvs2 = {(k, v). tab (ls_by_session s) k = Some v}" using w2 by (simp add: walk_ok_def)
    then have "fst ` set kvs2 = dom (tab (ls_by_session s))" by (force simp: dom_def image_iff)
    with ds show ?thesis by simp
  qed
  have sess: "for_each (\<lambda>kv. verify_session all_ids (fst kv) (snd kv)) xs (q, w) = Inr (q', w') \<Longrightarrow>
      fst ` set xs \<subseteq> ?k ` st_members a \<Longrightarrow> q' = q \<and> set w' = set w \<union> (id_of_key \<circ> drop 16 \<circ> fst) ` set xs" for xs q w q' w'
  proof (induction xs arbitrary: q w)
    case (Cons x xs)
    then obtain t i where ti: "fst x = session_block_key t i" "(t, i) \<in> st_members a" by auto
    then have "i \<in> set all_ids" using ids spec_wfD(3) [OF wf] by auto
    with Cons ti show ?case by (auto simp: verify_session_def)
  qed simp
  from sess [OF f2] ks2 have r2: "r2 = r1" "set ws = (id_of_key \<circ> drop 16 \<circ> fst) ` set kvs2" by auto
  have "set ws = (id_of_key \<circ> drop 16) ` fst ` set kvs2"
    using r2(2) by (simp add: image_image)
  also have "\<dots> = (id_of_key \<circ> drop 16) ` ?k ` st_members a" by (simp only: ks2)
  also have "\<dots> = snd ` st_members a" by force
  finally have ws: "set ws = snd ` st_members a" .
  have "filter (\<lambda>i. i \<notin> set ws) (ord all_ids) = []"
    using spec_wfD(4) [OF wf] by (auto simp: filter_empty_conv ord ids ws) force
  with 3 r2(1) r1 len show ?thesis
    by (simp add: is_clean_def verify_default_def)
qed

end

section \<open>Operations that return\<close>

text \<open>On the tables of a store, with a library that does not fail, every operation returns.\<close>

lemma reliableD:
  assumes "lmdb_reliable lib"
  shows "returns (lib_get lib t k)" "returns (lib_put lib t k v)" "returns (lib_delete lib t k)"
    "returns (lib_clear lib t)" "\<exists>kvs. lib_iter lib t = Inr (map Inr kvs)"
    "\<exists>kvs. lib_prefix_iter lib t p = Inr (map Inr kvs)"
    "lib_read_txn lib = Inr ()" "lib_write_txn lib = Inr ()" "lib_commit lib = Inr ()"
  using assms by (auto simp: lmdb_reliable_def returns_def)

lemma walked_eq:
  "list_all2 (\<lambda>e kv. \<forall>x. e = Inr x \<longrightarrow> x = kv) (map Inr kvs :: (heed_error + _) list) kvs' \<Longrightarrow> kvs' = kvs"
  by (induction kvs arbitrary: kvs') (auto simp: list_all2_Cons1)

context lmdb
begin

lemma walk_entries_total:
  assumes "lmdb_reliable lib" "\<And>k v st. tab t k = Some v \<Longrightarrow> returns (f k v st)"
  shows "returns (walk (lib_iter lib t) f st)"
proof -
  obtain kvs where kvs: "lib_iter lib t = Inr (map Inr kvs)" using reliableD(5) [OF assms(1)] by blast
  from iter_ok [OF kvs] obtain kvs' where w: "walk_ok (tab t) (\<lambda>_. True) (map Inr kvs) kvs'" by blast
  then have "kvs' = kvs" by (intro walked_eq) (simp add: walk_ok_def)
  with w have "\<And>kv. kv \<in> set kvs \<Longrightarrow> tab t (fst kv) = Some (snd kv)" by (auto simp: walk_ok_def)
  then have "returns (for_each (\<lambda>kv. f (fst kv) (snd kv)) kvs st)"
    using assms(2) by (intro returns_for_each) simp
  with kvs show ?thesis by (simp add: walk_def for_each_map)
qed

lemma walk_iter_total:
  assumes "lmdb_reliable lib" "dom (tab t) \<subseteq> K" "\<And>k v st. k \<in> K \<Longrightarrow> returns (f k v st)"
  shows "returns (walk (lib_iter lib t) f st)"
  using assms(1) by (rule walk_entries_total) (use assms(2,3) in blast)

lemma walk_prefix_total:
  assumes "lmdb_reliable lib" "dom (tab t) \<subseteq> K" "\<And>k v st. k \<in> K \<Longrightarrow> returns (f k v st)"
  shows "returns (walk (lib_prefix_iter lib t p) f st)"
proof -
  obtain kvs where kvs: "lib_prefix_iter lib t p = Inr (map Inr kvs)" using reliableD(6) [OF assms(1)] by blast
  from prefix_iter_ok [OF kvs] obtain kvs' where w: "walk_ok (tab t) (prefix p) (map Inr kvs) kvs'" by blast
  then have "kvs' = kvs" by (intro walked_eq) (simp add: walk_ok_def)
  with w have "\<And>kv. kv \<in> set kvs \<Longrightarrow> fst kv \<in> dom (tab t)" by (auto simp: walk_ok_def)
  then have "returns (for_each (\<lambda>kv. f (fst kv) (snd kv)) kvs st)"
    using assms(2,3) by (intro returns_for_each) (simp add: subset_iff)
  with kvs show ?thesis by (simp add: walk_def for_each_map)
qed

lemma put_total:
  assumes r: "lmdb_reliable lib" and rel: "lmdb_rel lib tab s a" and enc: "lib_encode lib b = Inr v"
  shows "returns (lmdb_put lib s session b)"
proof -
  have h: "rel_option (\<lambda>v i. v = id_key i) (tab (ls_by_hash s) (hash_key (cb_hash b))) (st_hash a (cb_hash b))"
    using rel by (simp add: lmdb_rel_def key_rel_get)
  obtain ex where ex: "lib_get lib (ls_by_hash s) (hash_key (cb_hash b)) = Inr ex" using reliableD(1) [OF r] unfolding returns_def by blast
  note D = reliableD(2) [OF r] reliableD(8,9) [OF r]
  show ?thesis
  proof (cases "st_hash a (cb_hash b)")
    case None
    with h ex have "ex = None" by (auto dest!: get_ok elim: option.rel_cases)
    then show ?thesis
      unfolding lmdb_put_def Let_def using ex enc D by (intro returns_rbind) (auto intro!: returns_rbind)
  next
    case (Some j)
    with h ex have "ex = Some (id_key j)" by (auto dest!: get_ok elim: option.rel_cases)
    then show ?thesis
      unfolding lmdb_put_def Let_def using ex D by (intro returns_rbind) (auto intro!: returns_rbind)
  qed
qed

lemma put_edge_total:
  assumes r: "lmdb_reliable lib"
  shows "returns (lmdb_put_edge lib s e)"
  unfolding lmdb_put_edge_def Let_def
  using reliableD(2) [OF r] reliableD(8,9) [OF r] by (auto intro!: returns_rbind)

lemma get_total:
  assumes r: "lmdb_reliable lib" and rel: "lmdb_rel lib tab s a"
  shows "returns (lmdb_get lib s i)"
proof -
  have h: "rel_option (\<lambda>v b. lib_decode lib v = Inr b) (tab (ls_by_id s) (id_key i)) (st_blocks a i)"
    using rel by (simp add: lmdb_rel_def key_rel_get)
  obtain ov where ov: "lib_get lib (ls_by_id s) (id_key i) = Inr ov" using reliableD(1) [OF r] unfolding returns_def by blast
  with h reliableD(7) [OF r] show ?thesis
    by (auto simp: lmdb_get_def decode_block_def dest!: get_ok elim!: option.rel_cases)
qed

lemma list_session_total:
  assumes r: "lmdb_reliable lib" and rel: "lmdb_rel lib tab s a"
  shows "returns (lmdb_list_session lib s session)"
proof -
  have "dom (tab (ls_by_session s)) = case_prod session_block_key ` st_members a" using rel by (simp add: lmdb_rel_def)
  then show ?thesis
    unfolding lmdb_list_session_def using reliableD(7) [OF r]
    by (auto intro!: returns_rbind walk_prefix_total [OF r, where K = "case_prod session_block_key ` st_members a"])
qed

lemma edges_from_total:
  assumes r: "lmdb_reliable lib" and rel: "lmdb_rel lib tab s a"
  shows "returns (lmdb_edges_from lib s i)" "returns (lmdb_edges_to lib s i)"
proof -
  have "dom (tab (ls_edges_from s)) = from_key ` st_edges a" "dom (tab (ls_edges_to s)) = to_key ` st_edges a"
    using rel by (simp_all add: lmdb_rel_def)
  note d = this
  show "returns (lmdb_edges_from lib s i)"
    unfolding lmdb_edges_from_def using reliableD(7) [OF r] d(1)
    by (auto intro!: returns_rbind walk_prefix_total [OF r, where K = "from_key ` st_edges a"])
  show "returns (lmdb_edges_to lib s i)"
    unfolding lmdb_edges_to_def using reliableD(7) [OF r] d(2)
    by (auto intro!: returns_rbind walk_prefix_total [OF r, where K = "to_key ` st_edges a"])
qed

lemma purge_edges_total:
  assumes r: "lmdb_reliable lib"
    and dom: "dom (tab (ls_edges_from s)) = from_key ` E" "dom (tab (ls_edges_to s)) = to_key ` E"
  shows "returns (purge_edges_for_block lib i s)"
proof -
  have dp: "returns (drop_pair lib i p tt)" for p tt
    unfolding drop_pair_def using reliableD(3) [OF r] by (auto intro!: returns_rbind)
  have dps: "returns (for_each (drop_pair lib i) ps tt)" for ps tt
    using dp by (intro returns_for_each) auto
  have suf: "returns (edge_suffixes lib t i)" if "dom (tab t) \<subseteq> range from_key \<or> dom (tab t) \<subseteq> range to_key" for t
    unfolding edge_suffixes_def using that by (intro walk_prefix_total [OF r, where K = "range from_key \<union> range to_key"]) (auto intro!: returns_rbind)
  obtain ps where ps: "edge_suffixes lib (ls_edges_from s) i = Inr ps" using suf [of "ls_edges_from s"] dom(1) unfolding returns_def by blast
  obtain f t where ft: "for_each (drop_pair lib i) ps (ls_edges_from s, ls_edges_to s) = Inr (f, t)"
    using dps [of ps "(ls_edges_from s, ls_edges_to s)"] unfolding returns_def by auto
  have "dom (tab t) \<subseteq> range to_key"
  proof -
    from edge_suffixes_spec [OF ps dom(1) inj_from_key from_key_simps(1)]
    obtain xs where xs: "ps = map (\<lambda>e. (edge_kind_to_byte (edge_kind e), edge_to e)) xs"
      "set xs = {e \<in> E. prefix (id_key i) (from_key e)}" by blast
    have "dom (tab (fst (f, t))) = from_key ` (E - set xs) \<and> dom (tab (snd (f, t))) = to_key ` (E - set xs)"
      by (rule drop_pairs [OF ft [unfolded xs(1)] _ inj_from_key inj_to_key])
         (use xs(2) dom in \<open>auto simp: from_key_def to_key_def\<close>)
    then show ?thesis by auto
  qed
  then obtain qs where qs: "edge_suffixes lib t i = Inr qs" using suf unfolding returns_def by blast
  obtain y where "for_each (drop_pair lib i) qs (t, f) = Inr y" using dps unfolding returns_def by blast
  with ps ft qs show ?thesis by (cases y) (simp add: purge_edges_for_block_def)
qed

lemma delete_keys_total: "lmdb_reliable lib \<Longrightarrow> returns (delete_keys lib ks t)"
  unfolding delete_keys_def by (auto intro!: returns_for_each reliableD(3))

lemma delete_total:
  assumes r: "lmdb_reliable lib" and rel: "lmdb_rel lib tab s a"
  shows "returns (lmdb_delete lib s i)"
proof -
  have h: "rel_option (\<lambda>v b. lib_decode lib v = Inr b) (tab (ls_by_id s) (id_key i)) (st_blocks a i)"
    using rel by (simp add: lmdb_rel_def key_rel_get)
  obtain ov where ov: "lib_get lib (ls_by_id s) (id_key i) = Inr ov" using reliableD(1) [OF r] unfolding returns_def by blast
  have d: "dom (tab (ls_edges_from s)) = from_key ` st_edges a" "dom (tab (ls_edges_to s)) = to_key ` st_edges a"
    using rel by (simp_all add: lmdb_rel_def)
  have pe: "returns (purge_edges_for_block lib i s')"
    if "ls_edges_from s' = ls_edges_from s" "ls_edges_to s' = ls_edges_to s" for s'
    by (rule purge_edges_total [OF r, where E = "st_edges a"]) (simp_all add: d that)
  have hash: "returns ((case ov of Some bs \<Rightarrow> rbind (decode_block lib bs) (\<lambda>b. Inr (Some (cb_hash b))) | None \<Rightarrow> Inr None))"
    using h ov by (auto simp: decode_block_def dest!: get_ok elim!: option.rel_cases)
  show ?thesis
    unfolding lmdb_delete_def using reliableD(3) [OF r] reliableD(8,9) [OF r] ov hash
    by (auto intro!: returns_rbind walk_iter_total [OF r, OF subset_UNIV] delete_keys_total [OF r] pe
        simp: rbind_Inr_iff split: option.split option.split_asm if_split)
qed

end

context lmdb
begin

lemma find_reference_total:
  "returns (find_reference ik (map Inr kvs))"
  by (induction kvs) auto

lemma purge_if_orphan_total:
  assumes r: "lmdb_reliable lib" and rel: "lmdb_rel lib tab s a"
  shows "returns (purge_if_orphan lib i s)"
proof -
  have h: "rel_option (\<lambda>v b. lib_decode lib v = Inr b) (tab (ls_by_id s) (id_key i)) (st_blocks a i)"
    using rel by (simp add: lmdb_rel_def key_rel_get)
  obtain kvs where kvs: "lib_iter lib (ls_by_session s) = Inr (map Inr kvs)" using reliableD(5) [OF r] by blast
  obtain ov where ov: "lib_get lib (ls_by_id s) (id_key i) = Inr ov" using reliableD(1) [OF r] unfolding returns_def by blast
  have d: "dom (tab (ls_edges_from s)) = from_key ` st_edges a" "dom (tab (ls_edges_to s)) = to_key ` st_edges a"
    using rel by (simp_all add: lmdb_rel_def)
  have pe: "returns (purge_edges_for_block lib i s')"
    if "ls_edges_from s' = ls_edges_from s" "ls_edges_to s' = ls_edges_to s" for s'
    by (rule purge_edges_total [OF r, where E = "st_edges a"]) (simp_all add: d that)
  have "returns (decode_block lib bs)" if "ov = Some bs" for bs
    using h get_ok [OF ov] that by (auto simp: decode_block_def elim: option.rel_cases)
  then show ?thesis
    unfolding purge_if_orphan_def using reliableD(3) [OF r] kvs ov
    by (auto intro!: returns_rbind find_reference_total pe split: option.split)
qed

lemma purge_loop_total:
  assumes r: "lmdb_reliable lib"
  shows "lmdb_rel lib tab s a \<Longrightarrow> spec_core a \<Longrightarrow> returns (for_each (purge_if_orphan lib) ids s)"
proof (induction ids arbitrary: s a)
  case (Cons i ids)
  show ?case
    unfolding for_each.simps
  proof (rule returns_rbind)
    show "returns (purge_if_orphan lib i s)" by (rule purge_if_orphan_total [OF r Cons.prems(1)])
    fix s1 assume s1: "purge_if_orphan lib i s = Inr s1"
    show "returns (for_each (purge_if_orphan lib) ids s1)"
      by (rule Cons.IH [OF purge_if_orphan_spec [OF Cons.prems s1] spec_core_remove [OF Cons.prems(2)]])
  qed
qed simp

lemma purge_session_total:
  assumes r: "lmdb_reliable lib" and rel: "lmdb_rel lib tab s a" and wf: "spec_wf a"
  shows "returns (lmdb_purge_session lib s session)"
proof -
  let ?f = "\<lambda>key ids. Inr (if length key \<noteq> 32 then ids else ids @ [id_of_key (drop 16 key)]) :: store_error + block_id list"
  let ?k = "case_prod session_block_key"
  have ds: "dom (tab (ls_by_session s)) = ?k ` st_members a" using rel by (simp add: lmdb_rel_def)
  have "returns (walk (lib_prefix_iter lib (ls_by_session s) (id_key session)) (\<lambda>key _. ?f key) [])"
    by (rule walk_prefix_total [OF r subset_UNIV]) simp
  then obtain ids where ids: "walk (lib_prefix_iter lib (ls_by_session s) (id_key session)) (\<lambda>key _. ?f key) [] = Inr ids"
    unfolding returns_def by blast
  from ids ds inj_session_key obtain xs where xs: "set xs = {x \<in> st_members a. prefix (id_key session) (?k x)}"
    "sorted_wrt (\<lambda>x y. ?k x < ?k y) xs" "for_each (\<lambda>x. ?f (?k x)) xs [] = Inr ids"
    by (rule walk_prefix_keys)
  have fst: "fst x = session" if "x \<in> set xs" for x
    using that unfolding xs(1) by (auto split: prod.splits)
  have "for_each (\<lambda>x. ?f (?k x)) xs [] = for_each (\<lambda>x ids. Inr (ids @ [snd x])) xs []"
    by (rule for_each_cong) (auto split: prod.splits)
  with xs(3) have ids_eq: "ids = map snd xs" by (simp add: for_each_snoc)
  obtain t where t: "delete_keys lib (map (session_block_key session) ids) (ls_by_session s) = Inr t"
    using delete_keys_total [OF r] unfolding returns_def by blast
  have "map (session_block_key session) ids = map ?k xs" unfolding ids_eq by (auto dest!: fst)
  with t have "delete_keys lib (map ?k xs) (ls_by_session s) = Inr t" by simp
  from delete_keys_spec [OF this inj_session_key ds]
  have "dom (tab t) = ?k ` (st_members a - set xs)" .
  also have "st_members a - set xs = st_members (spec_leave session a)"
    unfolding xs(1) by (auto simp: spec_leave_def)
  finally have "lmdb_rel lib tab (s\<lparr>ls_by_session := t\<rparr>) (spec_leave session a)"
    using rel by (simp add: lmdb_rel_def)
  from purge_loop_total [OF r this spec_core_leave [OF spec_core_wf [OF wf]]]
  show ?thesis
    unfolding lmdb_purge_session_def using reliableD(8,9) [OF r] ids t by (auto intro!: returns_rbind)
qed

end

context lmdb
begin

lemma lookup_hash_total:
  assumes r: "lmdb_reliable lib" and rel: "lmdb_rel lib tab s a"
  shows "returns (lmdb_lookup_hash lib s h)"
proof -
  have e: "rel_option (\<lambda>v i. v = id_key i) (tab (ls_by_hash s) (hash_key h)) (st_hash a h)"
    using rel by (simp add: lmdb_rel_def key_rel_get)
  obtain ov where "lib_get lib (ls_by_hash s) (hash_key h) = Inr ov" using reliableD(1) [OF r] unfolding returns_def by blast
  with e reliableD(7) [OF r] show ?thesis
    by (auto simp: lmdb_lookup_hash_def dest!: get_ok elim!: option.rel_cases)
qed

lemma list_sessions_total: "lmdb_reliable lib \<Longrightarrow> returns (lmdb_list_sessions lib s)"
  unfolding lmdb_list_sessions_def
  by (auto intro!: returns_rbind walk_iter_total [OF _ subset_UNIV] simp: reliableD(7))

text \<open>The entries of the primary table and of the hash index, as the related specification has them.\<close>

lemma rel_entry:
  assumes "lmdb_rel lib tab s a" "tab (ls_by_id s) k = Some v"
  shows "\<exists>i b. k = id_key i \<and> lib_decode lib v = Inr b \<and> st_blocks a i = Some b"
proof -
  have kr: "key_rel (tab (ls_by_id s)) id_key (\<lambda>v b. lib_decode lib v = Inr b) (st_blocks a)"
    using assms(1) by (simp add: lmdb_rel_def)
  with assms(2) obtain i where "k = id_key i" by (auto simp: key_rel_def)
  with key_rel_get [OF kr, of i] assms(2) show ?thesis by (auto elim: option.rel_cases)
qed

lemma rel_hash_entry:
  assumes "lmdb_rel lib tab s a"
  shows "tab (ls_by_hash s) (hash_key h) = map_option id_key (st_hash a h)"
proof -
  have "rel_option (\<lambda>v i. v = id_key i) (tab (ls_by_hash s) (hash_key h)) (st_hash a h)"
    using assms by (simp add: lmdb_rel_def key_rel_get)
  then show ?thesis by (auto elim: option.rel_cases)
qed

lemma verify_total:
  assumes r: "lmdb_reliable lib" and rel: "lmdb_rel lib tab s a"
  shows "returns (lmdb_verify lib ord s)"
proof -
  have blk: "returns (verify_block lib (ls_by_hash s) k v st)" if "tab (ls_by_id s) k = Some v" for k v st
  proof -
    from rel_entry [OF rel that] obtain i b where b: "k = id_key i" "lib_decode lib v = Inr b" by blast
    obtain ov where ov: "lib_get lib (ls_by_hash s) (hash_key (cb_hash b)) = Inr ov"
      using reliableD(1) [OF r] unfolding returns_def by blast
    then have "ov = map_option id_key (st_hash a (cb_hash b))" using rel_hash_entry [OF rel] get_ok by metis
    with b ov show ?thesis
      by (cases "st_hash a (cb_hash b)") (auto simp: verify_block_def primary_id_def decode_block_def Let_def)
  qed
  show ?thesis
    unfolding lmdb_verify_def using reliableD(7) [OF r]
    by (auto intro!: returns_rbind walk_entries_total [OF r] blk simp: verify_session_def Let_def split: prod.split)
qed

lemma repair_total:
  assumes r: "lmdb_reliable lib" and rel: "lmdb_rel lib tab s a"
  shows "returns (lmdb_repair lib ord s)"
proof -
  have blk: "returns (repair_block lib k v st)" if "tab (ls_by_id s) k = Some v" for k v st
    using rel_entry [OF rel that] by (auto simp: repair_block_def primary_id_def decode_block_def)
  have "returns (rebuild_hashes lib bs t)" for bs t
    unfolding rebuild_hashes_def using reliableD(2,4) [OF r] by (auto intro!: returns_rbind returns_for_each split: prod.split)
  then show ?thesis
    unfolding lmdb_repair_def Let_def using reliableD(8,9) [OF r]
    by (auto intro!: returns_rbind walk_entries_total [OF r] delete_keys_total [OF r] blk split: prod.split)
qed

lemma open_total:
  assumes r: "lmdb_reliable lib"
    and "oi_create_dir io path = Inr ()" "oi_open_env io (lc_map_size config) (lc_max_dbs config) path = Inr env"
    and db: "\<And>n. returns (oi_create_database io env n)"
    and meta: "\<And>t. oi_create_database io env ''meta'' = Inr t \<Longrightarrow> tab t schema_key \<in> {None, Some [0, 0, 0, 1]}"
  shows "returns (lmdb_open io lib path config)"
proof -
  have schema: "returns (open_schema lib s)" if m: "tab (ls_meta s) schema_key \<in> {None, Some [0, 0, 0, 1]}" for s
  proof -
    obtain ov where ov: "lib_get lib (ls_meta s) schema_key = Inr ov" using reliableD(1) [OF r] unfolding returns_def by blast
    with m have "ov \<in> {None, Some [0, 0, 0, 1]}" using get_ok by metis
    with ov show ?thesis
      unfolding open_schema_def using reliableD(2) [OF r] reliableD(9) [OF r]
      by (auto intro!: returns_rbind simp: current_schema_def from_be_def)
  qed
  show ?thesis
    unfolding lmdb_open_def Let_def using assms(2,3) db reliableD(8) [OF r]
    by (auto intro!: returns_rbind schema meta)
qed

end

section \<open>Repair\<close>

lemma for_each_put_hash:
  assumes "lmdb lib tab" "for_each (\<lambda>(i, h) t. heed (lib_put lib t (hash_key h) (id_key i))) bs t = Inr t'"
  shows "tab t' k = Some v \<Longrightarrow> tab t k = Some v \<or> (\<exists>(i, h) \<in> set bs. k = hash_key h \<and> v = id_key i)"
    and "tab t k \<noteq> None \<or> k \<in> (hash_key \<circ> snd) ` set bs \<Longrightarrow> tab t' k \<noteq> None"
  using assms(2)
proof (induction bs arbitrary: t)
  case (Cons b bs)
  case 1
  then obtain t1 where t1: "lib_put lib t (hash_key (snd b)) (id_key (fst b)) = Inr t1"
    "for_each (\<lambda>(i, h) t. heed (lib_put lib t (hash_key h) (id_key i))) bs t1 = Inr t'"
    by (auto simp: rbind_Inr_iff split: prod.splits)
  from Cons.IH(1) [OF 1(1) t1(2)] lmdb.put_ok [OF assms(1) t1(1)] show ?case
    by (cases b) (auto split: if_splits)
next
  case (Cons b bs)
  case 2
  then obtain t1 where t1: "lib_put lib t (hash_key (snd b)) (id_key (fst b)) = Inr t1"
    "for_each (\<lambda>(i, h) t. heed (lib_put lib t (hash_key h) (id_key i))) bs t1 = Inr t'"
    by (auto simp: rbind_Inr_iff split: prod.splits)
  have "tab t1 k \<noteq> None \<or> k \<in> (hash_key \<circ> snd) ` set bs"
    using 2(1) lmdb.put_ok [OF assms(1) t1(1)] by auto
  from Cons.IH(2) [OF this t1(2)] show ?case .
qed simp_all

context lmdb
begin

lemma repair_walk:
  assumes "for_each (\<lambda>kv. repair_block lib (fst kv) (snd kv)) kvs (q, bs) = Inr (q', bs')"
  shows "\<exists>cs. list_all2 (\<lambda>kv (i, b). fst kv = id_key i \<and> lib_decode lib (snd kv) = Inr b) kvs cs \<and>
    bs' = bs @ map (\<lambda>(i, b). (i, cb_hash b)) cs \<and>
    q' = q @ map fst (filter (\<lambda>(i, b). lib_hash lib (cb_bytes b) \<noteq> cb_hash b) cs)"
  using assms
proof (induction kvs arbitrary: q bs)
  case (Cons kv kvs)
  from Cons.prems obtain acc where acc: "repair_block lib (fst kv) (snd kv) (q, bs) = Inr acc"
    "for_each (\<lambda>kv. repair_block lib (fst kv) (snd kv)) kvs acc = Inr (q', bs')"
    by (auto simp only: for_each.simps rbind_Inr_iff)
  from acc(1) obtain b where b: "length (fst kv) = 16" "lib_decode lib (snd kv) = Inr b"
    "snd acc = bs @ [(id_of_key (fst kv), cb_hash b)]"
    "fst acc = (if lib_hash lib (cb_bytes b) \<noteq> cb_hash b then q @ [id_of_key (fst kv)] else q)"
    by (auto simp: repair_block_def rbind_Inr_iff primary_id_def decode_block_def split: if_splits)
  from Cons.IH [of "fst acc" "snd acc"] acc(2) obtain cs where cs:
    "list_all2 (\<lambda>kv (i, b). fst kv = id_key i \<and> lib_decode lib (snd kv) = Inr b) kvs cs"
    "bs' = snd acc @ map (\<lambda>(i, b). (i, cb_hash b)) cs"
    "q' = fst acc @ map fst (filter (\<lambda>(i, b). lib_hash lib (cb_bytes b) \<noteq> cb_hash b) cs)"
    by auto
  with b show ?case
    by (intro exI [of _ "(id_of_key (fst kv), b) # cs"]) (auto simp: id_key_id_of_key)
qed simp

text \<open>What the first walk of a repair collects: the blocks of the primary table, by ascending id.\<close>

lemma repair_scan:
  assumes "walk (lib_iter lib t) (repair_block lib) ([], []) = Inr (q, bs)"
  obtains cs where "set cs = {(i, b). \<exists>v. tab t (id_key i) = Some v \<and> lib_decode lib v = Inr b}"
    "dom (tab t) = id_key ` fst ` set cs" "sorted_wrt (<) (map fst cs)"
    "bs = map (\<lambda>(i, b). (i, cb_hash b)) cs"
    "q = map fst (filter (\<lambda>(i, b). lib_hash lib (cb_bytes b) \<noteq> cb_hash b) cs)"
proof -
  from assms obtain es kvs where w: "walk_ok (tab t) (\<lambda>_. True) es kvs"
    and f: "for_each (\<lambda>kv. repair_block lib (fst kv) (snd kv)) kvs ([], []) = Inr (q, bs)"
    by (rule walk_iter)
  have kvs: "set kvs = {(k, v). tab t k = Some v}" "sorted_wrt (<) (map fst kvs)" using w by (simp_all add: walk_ok_def)
  from repair_walk [OF f] obtain cs where
    cs: "list_all2 (\<lambda>kv (i, b). fst kv = id_key i \<and> lib_decode lib (snd kv) = Inr b) kvs cs"
    and rest: "bs = map (\<lambda>(i, b). (i, cb_hash b)) cs"
      "q = map fst (filter (\<lambda>(i, b). lib_hash lib (cb_bytes b) \<noteq> cb_hash b) cs)" by auto
  have keys: "map fst kvs = map (id_key \<circ> fst) cs"
    using cs by (induction rule: list_all2_induct) auto
  have "set cs = {(i, b). \<exists>v. (id_key i, v) \<in> set kvs \<and> lib_decode lib v = Inr b}"
    using cs kvs(2)
  proof (induction rule: list_all2_induct)
    case (Cons kv kvs c cs)
    have "(fst kv, v) \<notin> set kvs" for v using Cons.prems by force
    with Cons show ?case by (cases kv; cases c) auto
  qed simp
  moreover have "dom (tab t) = id_key ` fst ` set cs"
  proof -
    have "dom (tab t) = set (map fst kvs)" using kvs(1) by (force simp: dom_def image_iff)
    then show ?thesis unfolding keys by (simp add: image_image)
  qed
  moreover have "sorted_wrt (<) (map fst cs)"
    using kvs(2) unfolding keys by (simp add: sorted_wrt_map id_key_less)
  ultimately show ?thesis using rest kvs(1) by (intro that [of cs]) simp_all
qed

text \<open>The keys that a walk picks, the table without them, and the ids that its session entries name.\<close>

lemma pick_keys:
  assumes "walk (lib_iter lib t) (\<lambda>key _ v. Inr (if P key then v @ [key] else v)) [] = Inr ks"
  shows "set ks = {k \<in> dom (tab t). P k}" "distinct ks"
proof -
  from assms obtain es kvs where w: "walk_ok (tab t) (\<lambda>_. True) es kvs"
    and f: "for_each (\<lambda>kv v. Inr (if P (fst kv) then v @ [fst kv] else v)) kvs [] = (Inr ks :: store_error + raw list)"
    by (rule walk_iter)
  have "for_each (\<lambda>kv v. Inr (if P (fst kv) then v @ [fst kv] else v)) kvs v =
    (Inr (v @ filter P (map fst kvs)) :: store_error + raw list)" for v
    by (induction kvs arbitrary: v) auto
  with f have ks: "ks = filter P (map fst kvs)" by simp
  have "set (map fst kvs) = dom (tab t)" using w by (force simp: walk_ok_def dom_def image_iff)
  then show "set ks = {k \<in> dom (tab t). P k}" unfolding ks set_filter by blast
  show "distinct ks" using w unfolding ks walk_ok_def by (simp add: strict_sorted_iff)
qed

lemma delete_keys_tab: "delete_keys lib ks t = Inr t' \<Longrightarrow> tab t' = (tab t) |` (- set ks)"
  unfolding delete_keys_def
proof (induction ks arbitrary: t)
  case (Cons k ks)
  then obtain u where u: "lib_delete lib t k = Inr u" "for_each (\<lambda>k t. heed (lib_delete lib t k)) ks u = Inr t'"
    by (auto simp: rbind_Inr_iff)
  with Cons.IH [OF u(2)] show ?case by (auto simp: delete_ok restrict_map_def fun_eq_iff)
qed (simp add: restrict_map_def)

lemma named_ids:
  assumes "walk (lib_iter lib t) (\<lambda>key _ w. Inr (if length key \<noteq> 32 then w else id_of_key (drop 16 key) # w)) [] = Inr ws"
  shows "set ws = {i. \<exists>k \<in> dom (tab t). length k = 32 \<and> drop 16 k = id_key i}"
proof -
  from assms obtain es kvs where w: "walk_ok (tab t) (\<lambda>_. True) es kvs"
    and f: "for_each (\<lambda>kv w. Inr (if length (fst kv) \<noteq> 32 then w else id_of_key (drop 16 (fst kv)) # w)) kvs [] =
      (Inr ws :: store_error + block_id list)"
    by (rule walk_iter)
  have "for_each (\<lambda>kv w. Inr (if length (fst kv) \<noteq> 32 then w else id_of_key (drop 16 (fst kv)) # w)) kvs w =
    (Inr ws :: store_error + block_id list) \<Longrightarrow>
    set ws = set w \<union> (id_of_key \<circ> drop 16) ` {k \<in> fst ` set kvs. length k = 32}" for w
    by (induction kvs arbitrary: w) (auto split: if_splits)
  from this [OF f] have ws: "set ws = (id_of_key \<circ> drop 16) ` {k \<in> fst ` set kvs. length k = 32}" by simp
  have "fst ` set kvs = dom (tab t)" using w by (force simp: walk_ok_def dom_def image_iff)
  moreover have "drop 16 k = id_key i \<longleftrightarrow> i = id_of_key (drop 16 k)" if "length k = 32" for k i
    using id_key_id_of_key [of "drop 16 k"] that by auto
  ultimately show ?thesis unfolding ws by auto
qed

lemma repair_runs:
  assumes "lmdb_repair lib ord s = Inr (rep, s')"
  obtains q bs th dead ts ws where
    "walk (lib_iter lib (ls_by_id s)) (repair_block lib) ([], []) = Inr (q, bs)"
    "rebuild_hashes lib bs (ls_by_hash s) = Inr th"
    "walk (lib_iter lib (ls_by_session s)) (\<lambda>key _ v.
         Inr (if length key = 32 \<and> id_of_key (drop 16 key) \<notin> set (map fst bs) then v @ [key] else v)) [] = Inr dead"
    "delete_keys lib dead (ls_by_session s) = Inr ts"
    "walk (lib_iter lib ts) (\<lambda>key _ w. Inr (if length key \<noteq> 32 then w else id_of_key (drop 16 key) # w)) [] = Inr ws"
    "rep = \<lparr>rr_hash_index_rebuilt = True, rr_hash_entries_written = length bs,
       rr_orphan_session_entries_removed = length dead, rr_hash_mismatches_quarantined = q,
       rr_blocks_with_no_session = filter (\<lambda>i. i \<notin> set ws) (ord (map fst bs))\<rparr>"
    "s' = s\<lparr>ls_by_hash := th, ls_by_session := ts\<rparr>"
  using assms by (auto simp: lmdb_repair_def rbind_Inr_iff Let_def)

end

context lmdb
begin

lemma repair_hashes:
  assumes "rebuild_hashes lib bs t = Inr th"
  shows "(i, h) \<in> set bs \<Longrightarrow> tab th (hash_key h) \<noteq> None"
    and "tab th k = Some v \<Longrightarrow> \<exists>(i, h) \<in> set bs. k = hash_key h \<and> v = id_key i"
proof -
  from assms obtain t0 where t0: "lib_clear lib t = Inr t0"
    "for_each (\<lambda>(i, h) t. heed (lib_put lib t (hash_key h) (id_key i))) bs t0 = Inr th"
    by (auto simp: rebuild_hashes_def rbind_Inr_iff)
  note ph = for_each_put_hash [OF lmdb_axioms t0(2)]
  show "tab th (hash_key h) \<noteq> None" if "(i, h) \<in> set bs" using that by (intro ph(2)) force
  show "\<exists>(i, h) \<in> set bs. k = hash_key h \<and> v = id_key i" if "tab th k = Some v"
    using ph(1) [OF that] clear_ok [OF t0(1)] by simp
qed

text \<open>The tables after a repair.\<close>

lemma repair_spec:
  assumes run: "lmdb_repair lib ord s = Inr (rep, s')"
  shows "s' = s\<lparr>ls_by_hash := ls_by_hash s', ls_by_session := ls_by_session s'\<rparr>"
    and "tab (ls_by_id s) k = Some v \<Longrightarrow>
       \<exists>b. lib_decode lib v = Inr b \<and> tab (ls_by_hash s') (hash_key (cb_hash b)) \<noteq> None"
    and "tab (ls_by_hash s') h = Some v \<Longrightarrow>
       \<exists>w b. tab (ls_by_id s) v = Some w \<and> lib_decode lib w = Inr b \<and> h = hash_key (cb_hash b)"
    and "tab (ls_by_session s') = tab (ls_by_session s) |` {k. length k = 32 \<longrightarrow> drop 16 k \<in> dom (tab (ls_by_id s))}"
proof -
  obtain q bs th dead ts ws where
    1: "walk (lib_iter lib (ls_by_id s)) (repair_block lib) ([], []) = Inr (q, bs)"
    and 2: "rebuild_hashes lib bs (ls_by_hash s) = Inr th"
    and 3: "walk (lib_iter lib (ls_by_session s)) (\<lambda>key _ v.
         Inr (if length key = 32 \<and> id_of_key (drop 16 key) \<notin> set (map fst bs) then v @ [key] else v)) [] = Inr dead"
    and 4: "delete_keys lib dead (ls_by_session s) = Inr ts"
    and s': "s' = s\<lparr>ls_by_hash := th, ls_by_session := ts\<rparr>"
    by (rule repair_runs [OF run])
  from 1 obtain cs where cs: "set cs = {(i, b). \<exists>v. tab (ls_by_id s) (id_key i) = Some v \<and> lib_decode lib v = Inr b}"
    "dom (tab (ls_by_id s)) = id_key ` fst ` set cs" "bs = map (\<lambda>(i, b). (i, cb_hash b)) cs"
    by (rule repair_scan)
  note rh = repair_hashes [OF 2]
  show "s' = s\<lparr>ls_by_hash := ls_by_hash s', ls_by_session := ls_by_session s'\<rparr>" by (simp add: s')
  show "\<exists>b. lib_decode lib v = Inr b \<and> tab (ls_by_hash s') (hash_key (cb_hash b)) \<noteq> None"
    if "tab (ls_by_id s) k = Some v"
  proof -
    from that cs(2) obtain i b where "k = id_key i" "(i, b) \<in> set cs" by force
    with that cs(1,3) rh(1) [of i "cb_hash b"] show ?thesis by (force simp: s')
  qed
  show "\<exists>w b. tab (ls_by_id s) v = Some w \<and> lib_decode lib w = Inr b \<and> h = hash_key (cb_hash b)"
    if "tab (ls_by_hash s') h = Some v"
    using rh(2) [of h v] that cs(1,3) by (auto simp: s')
  have mem: "id_of_key (drop 16 k) \<in> set (map fst bs) \<longleftrightarrow> drop 16 k \<in> dom (tab (ls_by_id s))" if "length k = 32" for k
  proof -
    have "drop 16 k \<in> dom (tab (ls_by_id s)) \<longleftrightarrow> id_key (id_of_key (drop 16 k)) \<in> id_key ` fst ` set cs"
      using that by (simp only: cs(2) id_key_id_of_key length_drop)
    also have "\<dots> \<longleftrightarrow> id_of_key (drop 16 k) \<in> fst ` set cs" by (rule inj_image_mem_iff [OF inj_id_key])
    also have "fst ` set cs = set (map fst bs)" by (force simp: cs(3))
    finally show ?thesis by simp
  qed
  have dead: "set dead = {k \<in> dom (tab (ls_by_session s)). length k = 32 \<and> drop 16 k \<notin> dom (tab (ls_by_id s))}"
    unfolding pick_keys(1) [OF 3] by (rule Collect_cong) (use mem in blast)
  show "tab (ls_by_session s') = tab (ls_by_session s) |` {k. length k = 32 \<longrightarrow> drop 16 k \<in> dom (tab (ls_by_id s))}"
    by (rule ext) (auto simp: s' delete_keys_tab [OF 4] dead restrict_map_def domIff)
qed

text \<open>The report of a repair.\<close>

lemma repair_report:
  assumes run: "lmdb_repair lib ord s = Inr (rep, s')" and ord: "\<And>xs. set (ord xs) = set xs"
  shows "rr_hash_index_rebuilt rep" "rr_hash_entries_written rep = card (dom (tab (ls_by_id s)))"
    and "rr_orphan_session_entries_removed rep = card (dom (tab (ls_by_session s)) - dom (tab (ls_by_session s')))"
    and "sorted_wrt (<) (rr_hash_mismatches_quarantined rep)"
    and "set (rr_hash_mismatches_quarantined rep) =
      {i. \<exists>v b. tab (ls_by_id s) (id_key i) = Some v \<and> lib_decode lib v = Inr b \<and> lib_hash lib (cb_bytes b) \<noteq> cb_hash b}"
    and "set (rr_blocks_with_no_session rep) =
      {i. id_key i \<in> dom (tab (ls_by_id s)) \<and>
          \<not> (\<exists>k \<in> dom (tab (ls_by_session s')). length k = 32 \<and> drop 16 k = id_key i)}"
proof -
  obtain q bs th dead ts ws where
    1: "walk (lib_iter lib (ls_by_id s)) (repair_block lib) ([], []) = Inr (q, bs)"
    and 3: "walk (lib_iter lib (ls_by_session s)) (\<lambda>key _ v.
         Inr (if length key = 32 \<and> id_of_key (drop 16 key) \<notin> set (map fst bs) then v @ [key] else v)) [] = Inr dead"
    and 4: "delete_keys lib dead (ls_by_session s) = Inr ts"
    and 5: "walk (lib_iter lib ts) (\<lambda>key _ w. Inr (if length key \<noteq> 32 then w else id_of_key (drop 16 key) # w)) [] = Inr ws"
    and rep: "rep = \<lparr>rr_hash_index_rebuilt = True, rr_hash_entries_written = length bs,
       rr_orphan_session_entries_removed = length dead, rr_hash_mismatches_quarantined = q,
       rr_blocks_with_no_session = filter (\<lambda>i. i \<notin> set ws) (ord (map fst bs))\<rparr>"
    and s': "s' = s\<lparr>ls_by_hash := th, ls_by_session := ts\<rparr>"
    by (rule repair_runs [OF run])
  from 1 obtain cs where cs: "set cs = {(i, b). \<exists>v. tab (ls_by_id s) (id_key i) = Some v \<and> lib_decode lib v = Inr b}"
    "dom (tab (ls_by_id s)) = id_key ` fst ` set cs" "sorted_wrt (<) (map fst cs)" "bs = map (\<lambda>(i, b). (i, cb_hash b)) cs"
    "q = map fst (filter (\<lambda>(i, b). lib_hash lib (cb_bytes b) \<noteq> cb_hash b) cs)"
    by (rule repair_scan)
  have ids: "map fst bs = map fst cs" by (auto simp: cs(4))
  show "rr_hash_index_rebuilt rep" by (simp add: rep)
  have "card (dom (tab (ls_by_id s))) = card (set (map fst cs))"
    unfolding cs(2) by (simp add: card_image inj_on_def)
  also have "\<dots> = length (map fst cs)" using cs(3) by (intro distinct_card) (simp add: strict_sorted_iff)
  finally show "rr_hash_entries_written rep = card (dom (tab (ls_by_id s)))" by (simp add: rep cs(4))
  have "dom (tab (ls_by_session s)) - dom (tab ts) = set dead"
    unfolding delete_keys_tab [OF 4] using pick_keys(1) [OF 3] by auto
  then show "rr_orphan_session_entries_removed rep = card (dom (tab (ls_by_session s)) - dom (tab (ls_by_session s')))"
    using distinct_card [OF pick_keys(2) [OF 3]] by (simp add: rep s')
  show "sorted_wrt (<) (rr_hash_mismatches_quarantined rep)"
    using cs(3) by (simp add: rep cs(5) sorted_wrt_map sorted_wrt_filter)
  show "set (rr_hash_mismatches_quarantined rep) =
      {i. \<exists>v b. tab (ls_by_id s) (id_key i) = Some v \<and> lib_decode lib v = Inr b \<and> lib_hash lib (cb_bytes b) \<noteq> cb_hash b}"
    by (force simp: rep cs(5) cs(1))
  have "id_key i \<in> dom (tab (ls_by_id s)) \<longleftrightarrow> i \<in> set (map fst cs)" for i
    by (simp only: cs(2) inj_image_mem_iff [OF inj_id_key] set_map)
  then show "set (rr_blocks_with_no_session rep) =
      {i. id_key i \<in> dom (tab (ls_by_id s)) \<and>
          \<not> (\<exists>k \<in> dom (tab (ls_by_session s')). length k = 32 \<and> drop 16 k = id_key i)}"
    using named_ids [OF 5] by (auto simp: rep s' ids ord)
qed

end

end
