(* ===== verification/Lmdb_Runs.thy ===== *)
theory Lmdb_Runs
  imports Lmdb_Correct
begin

text \<open>
  The LMDB store as a whole: the refinement of the store specification, that operations return,
  and the runs of the store from empty tables with what \<open>verify\<close> and \<open>repair\<close> say of them.
\<close>

section \<open>The store as a whole\<close>

text \<open>
  C3: the LMDB store implements the store specification: on tables that stand for a store,
  every operation that succeeds returns what the specification returns and leaves tables that
  stand for the store the specification gives (deduplication on put, edges kept in both
  directions, a deleted block gone with its hash, memberships and edges, a purged session's
  orphans removed and shared blocks kept); a failed operation leaves the tables as they were.
\<close>

theorem lmdb_refines_spec:
  assumes "lmdb lib tab" and "lmdb_rel lib tab s a" and "spec_wf a"
  shows "(\<forall>session b i s'. lmdb_put lib s session b = Inr (i, s') \<longrightarrow>
            i = fst (spec_put session b a) \<and> lmdb_rel lib tab s' (snd (spec_put session b a))) \<and>
         (\<forall>i r s'. lmdb_delete lib s i = Inr (r, s') \<longrightarrow>
            r = fst (spec_delete i a) \<and> lmdb_rel lib tab s' (snd (spec_delete i a))) \<and>
         (\<forall>session n s'. lmdb_purge_session lib s session = Inr (n, s') \<longrightarrow>
            n = fst (spec_purge session a) \<and> lmdb_rel lib tab s' (snd (spec_purge session a))) \<and>
         (\<forall>e u s'. lmdb_put_edge lib s e = Inr (u, s') \<longrightarrow> lmdb_rel lib tab s' (spec_put_edge e a))"
proof (intro conjI allI impI)
  fix session b i s' assume "lmdb_put lib s session b = Inr (i, s')"
  from lmdb.put_spec [OF assms(1,2) this]
  show "i = fst (spec_put session b a)" "lmdb_rel lib tab s' (snd (spec_put session b a))" by simp_all
next
  fix i r s' assume "lmdb_delete lib s i = Inr (r, s')"
  from lmdb.delete_spec [OF assms this]
  show "r = fst (spec_delete i a)" "lmdb_rel lib tab s' (snd (spec_delete i a))" by simp_all
next
  fix session n s' assume "lmdb_purge_session lib s session = Inr (n, s')"
  from lmdb.purge_session_spec [OF assms this]
  show "n = fst (spec_purge session a)" "lmdb_rel lib tab s' (snd (spec_purge session a))" by simp_all
next
  fix e u s' assume "lmdb_put_edge lib s e = Inr (u, s')"
  from lmdb.put_edge_spec [OF assms(1,2) this] show "lmdb_rel lib tab s' (spec_put_edge e a)" .
qed

text \<open>
  C5: what the LMDB store reads is what the specification holds: a block by its id, an id by a
  content hash, the ids of a session in ascending (chronological) order, the sessions in
  ascending order, and the edges out of and into a block, by kind and then by the other end.
\<close>

theorem lmdb_reads_spec:
  assumes "lmdb lib tab" and "lmdb_rel lib tab s a"
  shows "(\<forall>i ob. lmdb_get lib s i = Inr ob \<longrightarrow> ob = st_blocks a i) \<and>
         (\<forall>h oi. lmdb_lookup_hash lib s h = Inr oi \<longrightarrow> oi = st_hash a h) \<and>
         (\<forall>session ids. lmdb_list_session lib s session = Inr ids \<longrightarrow>
            set ids = spec_session session a \<and> sorted_wrt (<) ids) \<and>
         (\<forall>ss. lmdb_list_sessions lib s = Inr ss \<longrightarrow> set ss = fst ` st_members a \<and> sorted_wrt (<) ss) \<and>
         (\<forall>i es. lmdb_edges_from lib s i = Inr es \<longrightarrow>
            set es = {e \<in> st_edges a. edge_from e = i} \<and> sorted_wrt edge_out_less es) \<and>
         (\<forall>i es. lmdb_edges_to lib s i = Inr es \<longrightarrow>
            set es = {e \<in> st_edges a. edge_to e = i} \<and> sorted_wrt edge_in_less es)"
  using lmdb.get_spec [OF assms] lmdb.lookup_hash_spec [OF assms] lmdb.list_session_spec [OF assms]
    lmdb.list_sessions_spec [OF assms] lmdb.edges_from_spec [OF assms] lmdb.edges_to_spec [OF assms]
  by blast

text \<open>
  C36: nothing but the library makes an operation fail: when LMDB does not fail, every operation
  on tables that stand for a store returns, the integrity check and the repair among them; a put
  does provided the block can be encoded, and opening provided the file system and LMDB do and
  the meta table has no schema version or the current one.
\<close>

theorem lmdb_returns:
  assumes "lmdb lib tab" and "lmdb_reliable lib" and "lmdb_rel lib tab s a" and "spec_wf a"
  shows "(\<forall>session b v. lib_encode lib b = Inr v \<longrightarrow> returns (lmdb_put lib s session b)) \<and>
         (\<forall>i. returns (lmdb_get lib s i)) \<and> (\<forall>h. returns (lmdb_lookup_hash lib s h)) \<and>
         (\<forall>session. returns (lmdb_list_session lib s session)) \<and> returns (lmdb_list_sessions lib s) \<and>
         (\<forall>e. returns (lmdb_put_edge lib s e)) \<and> (\<forall>i. returns (lmdb_edges_from lib s i)) \<and>
         (\<forall>i. returns (lmdb_edges_to lib s i)) \<and> (\<forall>i. returns (lmdb_delete lib s i)) \<and>
         (\<forall>session. returns (lmdb_purge_session lib s session)) \<and>
         (\<forall>ord. returns (lmdb_verify lib ord s)) \<and> (\<forall>ord. returns (lmdb_repair lib ord s)) \<and>
         (\<forall>io path config env. oi_create_dir io path = Inr () \<longrightarrow>
            oi_open_env io (lc_map_size config) (lc_max_dbs config) path = Inr env \<longrightarrow>
            (\<forall>n. returns (oi_create_database io (env :: 'e) n)) \<longrightarrow>
            (\<forall>t. oi_create_database io env ''meta'' = Inr t \<longrightarrow> tab t schema_key \<in> {None, Some [0, 0, 0, 1]}) \<longrightarrow>
            returns (lmdb_open io lib path config))"
proof -
  note rel = assms(1,2,3)
  have "returns (lmdb_open io lib path config)"
    if "oi_create_dir io path = Inr ()" "oi_open_env io (lc_map_size config) (lc_max_dbs config) path = Inr env"
      "\<forall>n. returns (oi_create_database io (env :: 'e) n)"
      "\<forall>t. oi_create_database io env ''meta'' = Inr t \<longrightarrow> tab t schema_key \<in> {None, Some [0, 0, 0, 1]}"
    for io path config env
    by (rule lmdb.open_total [OF assms(1,2) that(1,2)]) (use that(3,4) in blast)+
  then show ?thesis
    using lmdb.put_total [OF rel] lmdb.get_total [OF rel] lmdb.lookup_hash_total [OF rel]
      lmdb.list_session_total [OF rel] lmdb.list_sessions_total [OF assms(1,2)] lmdb.put_edge_total [OF assms(1,2)]
      lmdb.edges_from_total [OF rel] lmdb.delete_total [OF rel] lmdb.purge_session_total [OF assms]
      lmdb.verify_total [OF rel] lmdb.repair_total [OF rel]
    by (intro conjI allI impI)
qed

section \<open>Runs of the store\<close>

text \<open>The tables that operations reach from empty ones. A block put under a hash the store does not
  know has an id it does not know, and the hash of its bytes.\<close>

inductive lmdb_reachable :: "'t lmdb_lib \<Rightarrow> ('t \<Rightarrow> raw \<rightharpoonup> raw) \<Rightarrow> 't lmdb_store \<Rightarrow> bool" for lib tab where
  init: "tab (ls_by_id s) = Map.empty \<Longrightarrow> tab (ls_by_hash s) = Map.empty \<Longrightarrow> tab (ls_by_session s) = Map.empty \<Longrightarrow>
    tab (ls_edges_from s) = Map.empty \<Longrightarrow> tab (ls_edges_to s) = Map.empty \<Longrightarrow> lmdb_reachable lib tab s"
| put: "lmdb_reachable lib tab s \<Longrightarrow> lib_hash lib (cb_bytes b) = cb_hash b \<Longrightarrow>
    (tab (ls_by_hash s) (hash_key (cb_hash b)) = None \<longrightarrow> tab (ls_by_id s) (id_key (cb_id b)) = None) \<Longrightarrow>
    lmdb_put lib s session b = Inr (i, s') \<Longrightarrow> lmdb_reachable lib tab s'"
| put_edge: "lmdb_reachable lib tab s \<Longrightarrow> lmdb_put_edge lib s e = Inr (u, s') \<Longrightarrow> lmdb_reachable lib tab s'"
| delete: "lmdb_reachable lib tab s \<Longrightarrow> lmdb_delete lib s i = Inr (r, s') \<Longrightarrow> lmdb_reachable lib tab s'"
| purge: "lmdb_reachable lib tab s \<Longrightarrow> lmdb_purge_session lib s session = Inr (n, s') \<Longrightarrow> lmdb_reachable lib tab s'"

definition hashes_honest :: "(bytes \<Rightarrow> content_hash) \<Rightarrow> store_spec \<Rightarrow> bool" where
  "hashes_honest hsh a \<longleftrightarrow> (\<forall>i b. st_blocks a i = Some b \<longrightarrow> hsh (cb_bytes b) = cb_hash b)"

lemma hashes_honest_ops:
  "hashes_honest hsh a \<Longrightarrow> hsh (cb_bytes b) = cb_hash b \<Longrightarrow> hashes_honest hsh (snd (spec_put session b a))"
  "hashes_honest hsh a \<Longrightarrow> hashes_honest hsh (spec_remove I a)"
  "hashes_honest hsh a \<Longrightarrow> hashes_honest hsh (snd (spec_delete i a))"
  "hashes_honest hsh a \<Longrightarrow> hashes_honest hsh (snd (spec_purge session a))"
  "hashes_honest hsh a \<Longrightarrow> hashes_honest hsh (spec_put_edge e a)"
  by (auto simp: hashes_honest_def spec_put_def spec_delete_def spec_purge_def spec_put_edge_def
      split: option.splits if_splits)

lemma lmdb_reachable_rel:
  assumes "lmdb lib tab" "lmdb_reachable lib tab s"
  shows "\<exists>a. lmdb_rel lib tab s a \<and> spec_wf a \<and> hashes_honest (lib_hash lib) a"
  using assms(2)
proof induction
  case (init s)
  then have "lmdb_rel lib tab s spec_empty"
    by (auto simp: lmdb_rel_def key_rel_def spec_empty_def)
  moreover have "hashes_honest (lib_hash lib) spec_empty" by (simp add: hashes_honest_def spec_empty_def)
  ultimately show ?case using spec_wf_empty by blast
next
  case (put s b session i s')
  then obtain a where a: "lmdb_rel lib tab s a" "spec_wf a" "hashes_honest (lib_hash lib) a" by blast
  have kr: "rel_option (\<lambda>v b. lib_decode lib v = Inr b) (tab (ls_by_id s) (id_key (cb_id b))) (st_blocks a (cb_id b))"
    "rel_option (\<lambda>v i. v = id_key i) (tab (ls_by_hash s) (hash_key (cb_hash b))) (st_hash a (cb_hash b))"
    using a(1) by (simp_all add: lmdb_rel_def key_rel_get)
  then have "fresh_for b a" using put(3) by (auto simp: fresh_for_def elim: option.rel_cases)
  with a lmdb.put_spec [OF assms(1) a(1) put(4)] spec_wf_put hashes_honest_ops(1) [OF a(3) put(2)]
  show ?case by blast
next
  case (put_edge s e u s')
  then obtain a where a: "lmdb_rel lib tab s a" "spec_wf a" "hashes_honest (lib_hash lib) a" by blast
  with lmdb.put_edge_spec [OF assms(1) a(1) put_edge(2)] spec_wf_put_edge hashes_honest_ops(5)
  show ?case by blast
next
  case (delete s i r s')
  then obtain a where a: "lmdb_rel lib tab s a" "spec_wf a" "hashes_honest (lib_hash lib) a" by blast
  with lmdb.delete_spec [OF assms(1) a(1,2) delete(2)] spec_wf_delete hashes_honest_ops(3)
  show ?case by blast
next
  case (purge s session n s')
  then obtain a where a: "lmdb_rel lib tab s a" "spec_wf a" "hashes_honest (lib_hash lib) a" by blast
  with lmdb.purge_session_spec [OF assms(1) a(1,2) purge(2)] spec_wf_purge hashes_honest_ops(4)
  show ?case by blast
qed

text \<open>
  Whatever is put, linked, deleted and purged, \<open>verify\<close> finds nothing wrong: the tables
  reached from empty ones by operations that use fresh ids and true content hashes pass every
  check of the integrity report, in whatever order hash sets are walked.
\<close>

lemma lmdb_verify_clean:
  assumes "lmdb lib tab" and "lmdb_reachable lib tab s" and "\<And>xs. set (ord xs) = set xs"
    and "lmdb_verify lib ord s = Inr r"
  shows "is_clean r"
proof -
  from lmdb_reachable_rel [OF assms(1,2)] obtain a where
    a: "lmdb_rel lib tab s a" "spec_wf a" "hashes_honest (lib_hash lib) a" by blast
  then show ?thesis
    using lmdb.verify_spec [OF assms(1) a(1,2) _ assms(3,4)] by (simp add: hashes_honest_def)
qed

text \<open>
  A block put can be read back: the id that \<open>put\<close> returns gives a block with the content
  hash of the one put, the very block when the store did not know the content, and the id is
  listed in the session.
\<close>

lemma lmdb_put_get:
  assumes "lmdb lib tab" and "lmdb_reachable lib tab s"
    and "lib_hash lib (cb_bytes b) = cb_hash b"
    and "tab (ls_by_hash s) (hash_key (cb_hash b)) = None \<longrightarrow> tab (ls_by_id s) (id_key (cb_id b)) = None"
    and "lmdb_put lib s session b = Inr (i, s')" and "lmdb_get lib s' i = Inr ob"
    and "lmdb_list_session lib s' session = Inr ids"
  shows "\<exists>c. ob = Some c \<and> cb_id c = i \<and> cb_hash c = cb_hash b \<and>
           (tab (ls_by_hash s) (hash_key (cb_hash b)) = None \<longrightarrow> c = b) \<and> i \<in> set ids"
proof -
  from lmdb_reachable_rel [OF assms(1,2)] obtain a where a: "lmdb_rel lib tab s a" "spec_wf a" by blast
  have h: "rel_option (\<lambda>v i. v = id_key i) (tab (ls_by_hash s) (hash_key (cb_hash b))) (st_hash a (cb_hash b))"
    using a(1) by (simp add: lmdb_rel_def key_rel_get)
  note p = lmdb.put_spec [OF assms(1) a(1) assms(5)]
  have ob: "ob = st_blocks (snd (spec_put session b a)) i" using lmdb.get_spec [OF assms(1) _ assms(6)] p by blast
  have ids: "set ids = spec_session session (snd (spec_put session b a))"
    using lmdb.list_session_spec [OF assms(1) _ assms(7)] p by blast
  show ?thesis
  proof (cases "st_hash a (cb_hash b)")
    case None
    with ob ids p show ?thesis by (auto simp: spec_put_def spec_session_def)
  next
    case (Some j)
    moreover from this a(2) obtain c where "st_blocks a j = Some c" "cb_hash c = cb_hash b"
      by (auto simp: spec_wfD(2))
    ultimately show ?thesis
      using ob ids p h spec_wfD(1) [OF a(2)] by (auto simp: spec_put_def spec_session_def elim: option.rel_cases)
  qed
qed

text \<open>
  C28: what a repair does and what it reports. Only the hash index and the session entries
  change: the blocks, the edges in both directions and the meta table stay. The new hash index
  has an entry for the hash of every block and each entry leads to a block with that hash; the
  session entries that remain are those that do not name a missing block, with what they held.
  The report has the number of blocks, the number of session entries removed, the ids of the
  blocks whose bytes do not have the stored hash, in ascending order, and the ids of the blocks
  that no remaining session entry names.
\<close>

theorem lmdb_repair_effect:
  assumes "lmdb lib tab" and "lmdb_repair lib ord s = Inr (rep, s')" and "\<And>xs. set (ord xs) = set xs"
  shows "s' = s\<lparr>ls_by_hash := ls_by_hash s', ls_by_session := ls_by_session s'\<rparr> \<and>
    (\<forall>k v. tab (ls_by_id s) k = Some v \<longrightarrow>
       (\<exists>b. lib_decode lib v = Inr b \<and> tab (ls_by_hash s') (hash_key (cb_hash b)) \<noteq> None)) \<and>
    (\<forall>k v. tab (ls_by_hash s') k = Some v \<longrightarrow>
       (\<exists>w b. tab (ls_by_id s) v = Some w \<and> lib_decode lib w = Inr b \<and> k = hash_key (cb_hash b))) \<and>
    tab (ls_by_session s') = tab (ls_by_session s) |` {k. length k = 32 \<longrightarrow> drop 16 k \<in> dom (tab (ls_by_id s))} \<and>
    rr_hash_index_rebuilt rep \<and> rr_hash_entries_written rep = card (dom (tab (ls_by_id s))) \<and>
    rr_orphan_session_entries_removed rep = card (dom (tab (ls_by_session s)) - dom (tab (ls_by_session s'))) \<and>
    sorted_wrt (<) (rr_hash_mismatches_quarantined rep) \<and>
    set (rr_hash_mismatches_quarantined rep) =
      {i. \<exists>v b. tab (ls_by_id s) (id_key i) = Some v \<and> lib_decode lib v = Inr b \<and> lib_hash lib (cb_bytes b) \<noteq> cb_hash b} \<and>
    set (rr_blocks_with_no_session rep) =
      {i. id_key i \<in> dom (tab (ls_by_id s)) \<and>
          \<not> (\<exists>k \<in> dom (tab (ls_by_session s')). length k = 32 \<and> drop 16 k = id_key i)}"
  using lmdb.repair_spec [OF assms(1,2)] lmdb.repair_report [OF assms]
  by (intro conjI allI impI)

end
