(* ===== verification/Rust_Chars.thy ===== *)
theory Rust_Chars
  imports Rust_Text
begin

text \<open>
  Facts on the characters of a string that truncation and joining rest on: a list of characters
  is the characters of its concatenation, so any part of a valid string cut at character
  boundaries is valid; a byte below 128 is a character of its own; and what
  \<open>split_whitespace\<close> yields holds no white space.
\<close>

definition char_ok :: "bytes \<Rightarrow> bool" where
  "char_ok c \<longleftrightarrow> utf8_next c = Some (c, [])"

lemma utf8_next_append:
  assumes "utf8_next s = Some (c, r)"
  shows "utf8_next (c @ t) = Some (c, t)"
proof -
  from assms obtain a s' where s: "s = a # s'" by (cases s) (auto simp: utf8_next_def)
  show ?thesis
  proof (cases "utf8_width a")
    case 0
    with assms s show ?thesis by (simp add: utf8_next_def Let_def)
  next
    case (Suc n)
    show ?thesis
    proof (cases n)
      case 0
      with assms s Suc show ?thesis by (auto simp: utf8_next_def Let_def split: if_splits)
    next
      case (Suc m)
      with \<open>utf8_width a = Suc n\<close> assms s
      have c: "c = a # take n s'" "n \<le> length s'" "second_ok a (hd s')" "\<forall>d \<in> set (take n s'). is_cont d"
        by (auto simp: utf8_next_def Let_def not_less split: if_splits)
      moreover have "hd (take n s' @ t) = hd s'" using Suc c(2) by (cases s') auto
      ultimately show ?thesis using \<open>utf8_width a = Suc n\<close> Suc
        by (simp add: utf8_next_def Let_def)
    qed
  qed
qed

lemma char_okI: "utf8_next s = Some (c, r) \<Longrightarrow> char_ok c"
  using utf8_next_append [of s c r "[]"] by (simp add: char_ok_def)

lemma utf8_chars_ok: "utf8_chars s = Some cs \<Longrightarrow> list_all char_ok cs"
proof (induction s arbitrary: cs rule: utf8_chars.induct)
  case (1 s)
  show ?case
  proof (cases "s = []")
    case True
    with 1 show ?thesis by (simp add: utf8_chars.simps)
  next
    case False
    with 1(2) obtain c r ds where "utf8_next s = Some (c, r)" "utf8_chars r = Some ds" "cs = c # ds"
      by (subst (asm) utf8_chars.simps) (auto split: option.splits)
    with 1 False show ?thesis by (auto intro: char_okI)
  qed
qed

lemma utf8_chars_concat_ok: "list_all char_ok cs \<Longrightarrow> utf8_chars (concat cs) = Some cs"
proof (induction cs)
  case (Cons c cs)
  then have n: "utf8_next c = Some (c, [])" by (simp add: char_ok_def)
  have "c @ concat cs \<noteq> []" using utf8_next_split [OF n] by simp
  moreover have "utf8_next (c @ concat cs) = Some (c, concat cs)" by (rule utf8_next_append [OF n])
  ultimately show ?case using Cons by (subst utf8_chars.simps) simp
qed (simp add: utf8_chars.simps)

lemma chars_of_ok: "list_all char_ok (chars_of s)"
  by (auto simp: chars_of_def utf8_chars_ok split: option.splits)

lemma chars_of_concat_ok [simp]: "list_all char_ok cs \<Longrightarrow> chars_of (concat cs) = cs"
  by (simp add: chars_of_def utf8_chars_concat_ok)

lemma utf8_valid_concat [simp]: "list_all char_ok cs \<Longrightarrow> utf8_valid (concat cs)"
  by (simp add: utf8_valid_def utf8_chars_concat_ok)

lemma utf8_valid_chars: "utf8_valid s \<longleftrightarrow> (\<exists>cs. list_all char_ok cs \<and> s = concat cs)"
  using chars_of_concat [of s] chars_of_ok [of s] by auto

lemma utf8_valid_append: "utf8_valid s \<Longrightarrow> utf8_valid t \<Longrightarrow> utf8_valid (s @ t)"
  unfolding utf8_valid_chars by (metis concat_append list_all_append)

lemma chars_of_append: "utf8_valid s \<Longrightarrow> utf8_valid t \<Longrightarrow> chars_of (s @ t) = chars_of s @ chars_of t"
  unfolding utf8_valid_chars by (metis concat_append list_all_append chars_of_concat_ok)

lemma char_ok_ascii: "byte_val c \<le> 127 \<Longrightarrow> char_ok [c]"
  by (simp add: char_ok_def utf8_next_def utf8_width_ascii)

lemma utf8_valid_join: "\<forall>w \<in> set ws. utf8_valid w \<Longrightarrow> utf8_valid sep \<Longrightarrow> utf8_valid (join sep ws)"
  by (induction sep ws rule: join.induct)
    (simp_all add: utf8_valid_append utf8_valid_concat [of "[]", simplified])

text \<open>A byte below 128 in a character is all of it.\<close>

lemma char_ok_ascii_byte:
  assumes "char_ok c" and "x \<in> set c" and "byte_val x \<le> 127"
  shows "c = [x]"
proof -
  from assms(1) obtain a c' where c: "c = a # c'" by (cases c) (auto simp: char_ok_def utf8_next_def)
  show ?thesis
  proof (cases "utf8_width a = 1")
    case True
    with assms c show ?thesis by (auto simp: char_ok_def utf8_next_def Let_def)
  next
    case False
    with assms(1) c have w: "utf8_width a \<noteq> 0" "length c = utf8_width a" "\<forall>d \<in> set c'. is_cont d"
      by (auto simp: char_ok_def utf8_next_def Let_def split: if_splits)
    have "128 \<le> byte_val a" using False w(1) by (auto simp: utf8_width_def Let_def split: if_splits)
    with w(3) c assms(2,3) show ?thesis by (auto simp: is_cont_def)
  qed
qed

lemma split_ws_words:
  assumes "list_all char_ok cs" and "list_all char_ok acc" and "\<forall>c \<in> set acc. \<not> is_whitespace c"
  shows "\<forall>w \<in> set (split_ws cs acc). \<exists>ds. w = concat ds \<and> list_all char_ok ds \<and> (\<forall>c \<in> set ds. \<not> is_whitespace c)"
  using assms
proof (induction cs acc rule: split_ws.induct)
  case (1 acc)
  then show ?case by (auto simp: list_all_rev intro!: exI [of _ "rev acc"])
next
  case (2 c cs acc)
  show ?case
  proof (cases "is_whitespace c")
    case False
    with 2 show ?thesis by simp
  next
    case True
    have "\<exists>ds. concat (rev acc) = concat ds \<and> list_all char_ok ds \<and> (\<forall>c \<in> set ds. \<not> is_whitespace c)"
      using 2(5,6) by (auto simp: list_all_rev intro!: exI [of _ "rev acc"])
    with 2 True show ?thesis by auto
  qed
qed

lemma split_whitespace_words:
  "w \<in> set (split_whitespace s) \<Longrightarrow>
    \<exists>ds. w = concat ds \<and> list_all char_ok ds \<and> (\<forall>c \<in> set ds. \<not> is_whitespace c)"
  using split_ws_words [of "chars_of s" "[]"] chars_of_ok [of s] by (simp add: split_whitespace_def)

lemma split_whitespace_valid: "w \<in> set (split_whitespace s) \<Longrightarrow> utf8_valid w"
  using split_whitespace_words [of w s] by auto

text \<open>A word holds no ASCII white space; the other bytes of a character are never ASCII.\<close>

lemma split_whitespace_no_ascii_space:
  assumes "w \<in> set (split_whitespace s)" and "byte_val x \<le> 127" and "is_whitespace [x]"
  shows "x \<notin> set w"
proof
  assume x: "x \<in> set w"
  from split_whitespace_words [OF assms(1)] obtain ds where ds: "w = concat ds" "list_all char_ok ds"
    "\<forall>c \<in> set ds. \<not> is_whitespace c" by blast
  with x obtain c where "c \<in> set ds" "x \<in> set c" by auto
  with ds assms(2,3) show False by (metis char_ok_ascii_byte list_all_iff)
qed

lemma set_join: "set (join sep ws) \<subseteq> set sep \<union> \<Union> (set ` set ws)"
  by (induction sep ws rule: join.induct) auto

end
