(* ===== verification/Pg_Common.thy ===== *)
theory Pg_Common
  imports Kv Rust_Chars
begin

text \<open>
  \<open>llm386-store-pg/src/common.rs\<close> and \<open>tls.rs\<close>: what the blocking and the asynchronous Postgres
  stores share. A block is a row of nine columns; token counts and provenance are JSON. The
  lemmas show that a row gives back its block, that a schema name that is accepted cannot
  leave its quotes, and that a TLS mode is never served in plaintext.
\<close>

section \<open>JSON values\<close>

datatype json_number = PosInt u64 | NegInt int | Float f64

datatype json =
  J_Null | J_Bool bool | J_Number json_number | J_String bytes | J_Array "json list"
| J_Object "(bytes \<times> json) list"

text \<open>An object is the sorted list of its members.\<close>

definition json_object :: "(bytes \<times> json) list \<Rightarrow> json" where
  "json_object kvs = J_Object (bt_of_list kvs)"

definition json_get :: "json \<Rightarrow> bytes \<Rightarrow> json option" where
  "json_get v k = (case v of J_Object m \<Rightarrow> bt_get m k | _ \<Rightarrow> None)"

definition as_str :: "json \<Rightarrow> bytes option" where
  "as_str v = (case v of J_String s \<Rightarrow> Some s | _ \<Rightarrow> None)"

definition as_array :: "json \<Rightarrow> json list option" where
  "as_array v = (case v of J_Array vs \<Rightarrow> Some vs | _ \<Rightarrow> None)"

definition as_object :: "json \<Rightarrow> (bytes \<times> json) list option" where
  "as_object v = (case v of J_Object m \<Rightarrow> Some m | _ \<Rightarrow> None)"

definition as_u64 :: "json \<Rightarrow> u64 option" where
  "as_u64 v = (case v of J_Number (PosInt n) \<Rightarrow> Some n | _ \<Rightarrow> None)"

lemmas json_simps [simp] =
  json_get_def as_str_def as_array_def as_object_def as_u64_def

section \<open>Configuration and errors\<close>

datatype tls_mode = Tls_Disable | Tls_Require | Tls_RequireNoverify | Tls_RequireCustomCa bytes

definition tls_mode_default :: tls_mode where
  "tls_mode_default = Tls_Disable"

record pg_store_config =
  pc_max_pool_size :: u32
  pc_schema :: "bytes option"
  pc_tls :: tls_mode

definition default_pool_size :: u32 where
  "default_pool_size = 8"

definition pg_config_default :: pg_store_config where
  "pg_config_default = \<lparr>pc_max_pool_size = default_pool_size, pc_schema = None, pc_tls = tls_mode_default\<rparr>"

text \<open>An error of the driver: how it prints, and severity, SQLSTATE and message when the server sent it.\<close>

record pg_error =
  pe_text :: bytes
  pe_db :: "(bytes \<times> bytes \<times> bytes) option"

datatype pg_open_error =
  Connect bytes | Postgres pg_error | Pg_SchemaMismatch u32 u32 | Pg_CorruptMeta bytes
| InvalidSchemaName bytes | TlsUnsupported tls_mode | TlsConfig bytes

text \<open>How the errors of opening print. An \<open>i32\<close> prints signed; the debug text of a path is a parameter.\<close>

definition i32_display :: "u32 \<Rightarrow> bytes" where
  "i32_display w = (if sint w < 0 then ''-'' @ dec (nat (- sint w)) else dec (nat (sint w)))"

fun tls_mode_debug :: "(bytes \<Rightarrow> bytes) \<Rightarrow> tls_mode \<Rightarrow> bytes" where
  "tls_mode_debug path_debug Tls_Disable = ''Disable''"
| "tls_mode_debug path_debug Tls_Require = ''Require''"
| "tls_mode_debug path_debug Tls_RequireNoverify = ''RequireNoverify''"
| "tls_mode_debug path_debug (Tls_RequireCustomCa p) = ''RequireCustomCa { ca_path: '' @ path_debug p @ '' }''"

fun pg_open_error_display :: "(bytes \<Rightarrow> bytes) \<Rightarrow> pg_open_error \<Rightarrow> bytes" where
  "pg_open_error_display path_debug (Connect s) = ''could not connect: '' @ s"
| "pg_open_error_display path_debug (Postgres e) = ''Postgres error: '' @ pe_text e"
| "pg_open_error_display path_debug (Pg_SchemaMismatch expected found) =
     ''on-disk schema version '' @ i32_display found @ '' does not match expected '' @ i32_display expected"
| "pg_open_error_display path_debug (Pg_CorruptMeta s) = ''meta row is corrupt: '' @ s"
| "pg_open_error_display path_debug (InvalidSchemaName s) =
     ''invalid schema name `'' @ s @ ''`: must be ASCII [a-zA-Z_][a-zA-Z0-9_]*''"
| "pg_open_error_display path_debug (TlsUnsupported mode) =
     ''TLS mode '' @ tls_mode_debug path_debug mode @
     '' requires the `tls-native-tls` feature; rebuild llm386-store-pg (or the consuming crate) with --features tls-native-tls, or set TlsMode::Disable''"
| "pg_open_error_display path_debug (TlsConfig s) = ''TLS configuration error: '' @ s"

definition pg_current_schema :: u32 where
  "pg_current_schema = 1"

definition is_valid_ident :: "bytes \<Rightarrow> bool" where
  "is_valid_ident s =
     (case s of
        [] \<Rightarrow> False
      | c # cs \<Rightarrow>
          (is_ascii_alphabetic c \<or> c = CHR ''_'') \<and> (\<forall>d \<in> set cs. is_ascii_alphanumeric d \<or> d = CHR ''_''))"

section \<open>Columns\<close>

definition id_bytes :: "block_id \<Rightarrow> raw" where
  "id_bytes i = id_key i"

definition session_bytes :: "session_id \<Rightarrow> raw" where
  "session_bytes s = id_key s"

definition pg_decode_block_id :: "raw \<Rightarrow> store_error + block_id" where
  "pg_decode_block_id bs =
     (if length bs = 16 then Inr (id_of_key bs) else Inl (Backend (''BlockId width '' @ dec (length bs))))"

text \<open>A \<open>BIGINT\<close>, read as signed.\<close>

type_synonym i64 = "64 word"

definition ts_to_i64 :: "timestamp \<Rightarrow> i64" where
  "ts_to_i64 t = (if uint t < 2 ^ 63 then t else 2 ^ 63 - 1)"

definition ts_from_i64 :: "i64 \<Rightarrow> timestamp" where
  "ts_from_i64 v = (if 0 \<le> sint v then v else 0)"

fun block_kind_to_str :: "block_kind \<Rightarrow> bytes" where
  "block_kind_to_str Kind_System = ''System''"
| "block_kind_to_str Kind_UserMessage = ''UserMessage''"
| "block_kind_to_str Kind_AssistantMessage = ''AssistantMessage''"
| "block_kind_to_str Kind_ToolResult = ''ToolResult''"
| "block_kind_to_str Kind_Summary = ''Summary''"
| "block_kind_to_str Kind_Fact = ''Fact''"
| "block_kind_to_str Kind_DocumentChunk = ''DocumentChunk''"
| "block_kind_to_str Kind_Plan = ''Plan''"
| "block_kind_to_str Kind_State = ''State''"
| "block_kind_to_str Kind_Trace = ''Trace''"

definition block_kind_from_str :: "bytes \<Rightarrow> store_error + block_kind" where
  "block_kind_from_str s =
     (if s = ''System'' then Inr Kind_System
      else if s = ''UserMessage'' then Inr Kind_UserMessage
      else if s = ''AssistantMessage'' then Inr Kind_AssistantMessage
      else if s = ''ToolResult'' then Inr Kind_ToolResult
      else if s = ''Summary'' then Inr Kind_Summary
      else if s = ''Fact'' then Inr Kind_Fact
      else if s = ''DocumentChunk'' then Inr Kind_DocumentChunk
      else if s = ''Plan'' then Inr Kind_Plan
      else if s = ''State'' then Inr Kind_State
      else if s = ''Trace'' then Inr Kind_Trace
      else Inl (Backend (''unknown BlockKind `'' @ s @ ''`'')))"

fun edge_kind_to_str :: "edge_kind \<Rightarrow> bytes" where
  "edge_kind_to_str Parent = ''Parent''"
| "edge_kind_to_str DerivedFrom = ''DerivedFrom''"
| "edge_kind_to_str Supports = ''Supports''"
| "edge_kind_to_str Contradicts = ''Contradicts''"
| "edge_kind_to_str ToolInvocation = ''ToolInvocation''"

definition edge_kind_from_str :: "bytes \<Rightarrow> store_error + edge_kind" where
  "edge_kind_from_str s =
     (if s = ''Parent'' then Inr Parent
      else if s = ''DerivedFrom'' then Inr DerivedFrom
      else if s = ''Supports'' then Inr Supports
      else if s = ''Contradicts'' then Inr Contradicts
      else if s = ''ToolInvocation'' then Inr ToolInvocation
      else Inl (Backend (''unknown EdgeKind `'' @ s @ ''`'')))"

definition provenance_to_json :: "provenance \<Rightarrow> json" where
  "provenance_to_json p =
     (let parents = map block_id_display (prov_parents p)
      in json_object
           [(''source'', case prov_source p of Some s \<Rightarrow> J_String s | None \<Rightarrow> J_Null),
            (''parents'', J_Array (map J_String parents)),
            (''labels'', J_Array (map J_String (prov_labels p)))])"

definition parse_parent :: "json \<Rightarrow> store_error + block_id" where
  "parse_parent item =
     rbind (ok_or (Backend ''provenance.parents: non-string entry'') (as_str item)) (\<lambda>s.
     map_err (\<lambda>e. Backend (''provenance.parents: parse: '' @ parse_block_id_error_display e)) (block_id_from_str s))"

definition provenance_from_json :: "json \<Rightarrow> store_error + provenance" where
  "provenance_from_json v =
     (let source = Option.bind (json_get v ''source'') as_str in
      rbind (case Option.bind (json_get v ''parents'') as_array of
               None \<Rightarrow> Inr []
             | Some arr \<Rightarrow> map_res parse_parent arr) (\<lambda>parents.
      let labels = (case Option.bind (json_get v ''labels'') as_array of
             None \<Rightarrow> []
           | Some arr \<Rightarrow> List.map_filter as_str arr)
      in Inr \<lparr>prov_source = source, prov_parents = parents, prov_labels = labels\<rparr>))"

definition token_counts_to_json :: "token_counts \<Rightarrow> json" where
  "token_counts_to_json tc =
     json_object (map (\<lambda>(i, n). (i, J_Number (PosInt (ucast n)))) (tc_iter tc))"

definition token_counts_from_json :: "json \<Rightarrow> store_error + token_counts" where
  "token_counts_from_json v =
     (case as_object v of
        None \<Rightarrow> Inr tc_new
      | Some obj \<Rightarrow>
          for_each (\<lambda>(k, val) out.
            rbind (ok_or (Backend (''token_counts.'' @ k @ '': non-u64'')) (as_u64 val)) (\<lambda>n.
            if unat n < 2 ^ 32 then Inr (tc_insert k (ucast n) out)
            else Inl (Backend (''token_counts.'' @ k @ '': exceeds u32'')))) obj tc_new)"

record block_row =
  br_id :: raw
  br_kind :: bytes
  br_bytes :: bytes
  br_token_counts :: json
  br_priority :: f32
  br_created_at :: i64
  br_updated_at :: i64
  br_provenance :: json
  br_hash :: raw

text \<open>The parameters of the statement that inserts a block.\<close>

definition block_params :: "context_block \<Rightarrow> block_row" where
  "block_params b = \<lparr>br_id = id_bytes (cb_id b), br_kind = block_kind_to_str (cb_kind b), br_bytes = cb_bytes b,
     br_token_counts = token_counts_to_json (cb_token_counts b), br_priority = cb_priority b,
     br_created_at = ts_to_i64 (cb_created_at b), br_updated_at = ts_to_i64 (cb_updated_at b),
     br_provenance = provenance_to_json (cb_provenance b), br_hash = hash_key (cb_hash b)\<rparr>"

definition row_to_block :: "block_row \<Rightarrow> store_error + context_block" where
  "row_to_block r =
     rbind (pg_decode_block_id (br_id r)) (\<lambda>i.
     rbind (block_kind_from_str (br_kind r)) (\<lambda>kind.
     rbind (token_counts_from_json (br_token_counts r)) (\<lambda>token_counts.
     rbind (provenance_from_json (br_provenance r)) (\<lambda>provenance.
     if length (br_hash r) \<noteq> 32 then Inl (Backend (''hash width '' @ dec (length (br_hash r))))
     else Inr \<lparr>cb_id = i, cb_kind = kind, cb_bytes = br_bytes r, cb_token_counts = token_counts,
       cb_priority = br_priority r, cb_created_at = ts_from_i64 (br_created_at r),
       cb_updated_at = ts_from_i64 (br_updated_at r), cb_provenance = provenance,
       cb_hash = word_of_nat (from_be (br_hash r))\<rparr>))))"

section \<open>TLS\<close>

datatype 'k tls_backend = Plain | Native 'k

text \<open>
  The crate native-tls: a connector with the system roots, one that verifies nothing, and one
  with an additional root that is read from a file and parsed.
\<close>

record ('k, 'c) tls_lib =
  tl_new :: "bytes + 'k"
  tl_noverify :: "bytes + 'k"
  tl_read :: "bytes \<Rightarrow> bytes + bytes"
  tl_from_pem :: "bytes \<Rightarrow> bytes + 'c"
  tl_with_root :: "'c \<Rightarrow> bytes + 'k"

text \<open>The flag is the cargo feature \<open>tls-native-tls\<close>.\<close>

definition build_backend :: "bool \<Rightarrow> ('k, 'c) tls_lib \<Rightarrow> tls_mode \<Rightarrow> pg_open_error + 'k tls_backend" where
  "build_backend feature lib mode =
     (case mode of
        Tls_Disable \<Rightarrow> Inr Plain
      | other \<Rightarrow>
          if \<not> feature then Inl (TlsUnsupported other)
          else
            (case mode of
               Tls_Require \<Rightarrow>
                 rbind (map_err (\<lambda>e. TlsConfig (''native-tls init: '' @ e)) (tl_new lib)) (\<lambda>k. Inr (Native k))
             | Tls_RequireNoverify \<Rightarrow>
                 rbind (map_err (\<lambda>e. TlsConfig (''native-tls build: '' @ e)) (tl_noverify lib)) (\<lambda>k. Inr (Native k))
             | Tls_RequireCustomCa ca_path \<Rightarrow>
                 rbind (map_err (\<lambda>e. TlsConfig (''read CA bundle at '' @ ca_path @ '': '' @ e)) (tl_read lib ca_path)) (\<lambda>pem.
                 rbind (map_err (\<lambda>e. TlsConfig (''parse CA bundle: '' @ e)) (tl_from_pem lib pem)) (\<lambda>cert.
                 rbind (map_err (\<lambda>e. TlsConfig (''native-tls build: '' @ e)) (tl_with_root lib cert)) (\<lambda>k. Inr (Native k))))
             | Tls_Disable \<Rightarrow> Inr Plain))"

datatype ssl_mode = Ssl_Disable | Ssl_Require

definition ssl_mode_of :: "'k tls_backend \<Rightarrow> ssl_mode" where
  "ssl_mode_of tls = (case tls of Plain \<Rightarrow> Ssl_Disable | Native _ \<Rightarrow> Ssl_Require)"

section \<open>Rows give back their blocks\<close>

lemma block_kind_roundtrip [simp]: "block_kind_from_str (block_kind_to_str k) = Inr k"
  by (cases k) (simp_all add: block_kind_from_str_def)

lemma edge_kind_roundtrip [simp]: "edge_kind_from_str (edge_kind_to_str k) = Inr k"
  by (cases k) (simp_all add: edge_kind_from_str_def)

lemma edge_kind_to_str_inject [simp]: "edge_kind_to_str k = edge_kind_to_str l \<longleftrightarrow> k = l"
  by (metis edge_kind_roundtrip sum.inject(2))

lemma pg_decode_id_bytes [simp]: "pg_decode_block_id (id_bytes i) = Inr i"
  by (simp add: pg_decode_block_id_def id_bytes_def)

lemma id_bytes_inject [simp]: "id_bytes i = id_bytes j \<longleftrightarrow> i = j" "session_bytes s = session_bytes t \<longleftrightarrow> s = t"
  by (simp_all add: id_bytes_def session_bytes_def)

lemma map_res_map: "(\<And>x. f (g x) = Inr x) \<Longrightarrow> map_res f (map g xs) = Inr xs"
  by (induction xs) simp_all

lemma map_filter_all: "(\<And>x. f (g x) = Some x) \<Longrightarrow> List.map_filter f (map g xs) = xs"
  by (induction xs) (simp_all add: List.map_filter_simps)

lemma provenance_roundtrip: "provenance_from_json (provenance_to_json p) = Inr p"
proof -
  have "parse_parent (J_String (block_id_display i)) = Inr i" for i
    by (simp add: parse_parent_def block_id_roundtrip)
  then have "map_res parse_parent (map (J_String \<circ> block_id_display) (prov_parents p)) = Inr (prov_parents p)"
    by (intro map_res_map) simp
  moreover have "List.map_filter as_str (map J_String (prov_labels p)) = prov_labels p"
    by (rule map_filter_all) simp
  ultimately show ?thesis
    by (cases p; cases "prov_source p")
      (simp_all add: provenance_from_json_def provenance_to_json_def json_object_def bt_of_list_def bt_get_def Let_def)
qed

text \<open>Inserting the entries of a map in order gives the map back.\<close>

lemma bt_insert_last:
  "\<forall>a \<in> fst ` set m. a < k \<Longrightarrow> bt_insert k v m = m @ [(k, v)]"
  by (induction k v m rule: bt_insert.induct) auto

lemma fold_bt_insert_sorted:
  "bt_sorted (m @ kvs) \<Longrightarrow> fold (\<lambda>(k, v). bt_insert k v) kvs m = m @ kvs"
proof (induction kvs arbitrary: m)
  case (Cons kv kvs)
  then have "\<forall>a \<in> fst ` set m. a < fst kv" by (auto simp: sorted_wrt_append)
  then have "bt_insert (fst kv) (snd kv) m = m @ [kv]" by (simp add: bt_insert_last)
  then show ?case using Cons by (simp add: case_prod_beta)
qed simp

lemma bt_of_list_sorted: "bt_sorted kvs \<Longrightarrow> bt_of_list kvs = kvs"
  using fold_bt_insert_sorted [of "[]" kvs] by (simp add: bt_of_list_def)

lemma ucast_u32_u64: "(ucast (ucast (n :: u32) :: u64) :: u32) = n" "unat (ucast (n :: u32) :: u64) = unat n"
proof -
  have n: "unat n < 2 ^ 32" using unat_lt_max [of n] by simp
  then have "unat n < 2 ^ 64" by (rule less_le_trans) simp
  then show u: "unat (ucast n :: u64) = unat n"
    by (simp add: unsigned_ucast_eq unsigned_take_bit_eq take_bit_nat_eq_self)
  have "unat (ucast (ucast n :: u64) :: u32) = unat n"
    using n by (simp add: unsigned_ucast_eq unsigned_take_bit_eq u take_bit_nat_eq_self)
  then show "(ucast (ucast n :: u64) :: u32) = n" by (rule unsigned_word_eqI)
qed

lemma token_counts_roundtrip:
  assumes "bt_sorted tc"
  shows "token_counts_from_json (token_counts_to_json tc) = Inr tc"
proof -
  let ?m = "map (\<lambda>(i, n). (i, J_Number (PosInt (ucast n)))) tc"
  have s: "bt_sorted ?m" using assms by (simp add: comp_def case_prod_beta)
  let ?f = "\<lambda>(k, val) out.
      rbind (ok_or (Backend (''token_counts.'' @ k @ '': non-u64'')) (as_u64 val)) (\<lambda>n.
      if unat n < 2 ^ 32 then Inr (tc_insert k (ucast n) out)
      else Inl (Backend (''token_counts.'' @ k @ '': exceeds u32'')))"
  have "for_each ?f (map (\<lambda>(i, n). (i, J_Number (PosInt (ucast n)))) kvs) out =
      Inr (fold (\<lambda>(k, v). bt_insert k v) kvs out)" for kvs :: token_counts and out
  proof (induction kvs arbitrary: out)
    case (Cons kv kvs)
    have "unat (snd kv) < 4294967296" using unat_lt_max [of "snd kv"] by simp
    then show ?case using Cons by (simp add: case_prod_beta ucast_u32_u64 tc_insert_def)
  qed simp
  then show ?thesis
    using fold_bt_insert_sorted [of "[]" tc] assms
    by (simp add: token_counts_from_json_def token_counts_to_json_def json_object_def bt_of_list_sorted [OF s]
        tc_iter_def tc_new_def)
qed

text \<open>What a column keeps of a time stamp.\<close>

definition ts_clamp :: "timestamp \<Rightarrow> timestamp" where
  "ts_clamp t = (if uint t < 2 ^ 63 then t else 2 ^ 63 - 1)"

lemma sint_nonneg_small:
  assumes "uint (t :: u64) < 2 ^ 63"
  shows "0 \<le> sint t"
proof -
  have "sint t = signed_take_bit 63 (uint t)" by (simp add: sint_uint)
  also have "\<dots> = uint t" using assms by (intro signed_take_bit_int_eq_self) (simp_all add: order.trans [of _ 0])
  finally show ?thesis by simp
qed

lemma ts_roundtrip: "ts_from_i64 (ts_to_i64 t) = ts_clamp t"
proof (cases "uint t < 2 ^ 63")
  case True
  then show ?thesis using sint_nonneg_small [OF True] by (simp add: ts_from_i64_def ts_to_i64_def ts_clamp_def)
next
  case False
  have "0 \<le> sint (2 ^ 63 - 1 :: u64)" by (rule sint_nonneg_small) simp
  with False show ?thesis by (simp add: ts_from_i64_def ts_to_i64_def ts_clamp_def)
qed

lemma ts_to_i64_clamp [simp]: "ts_to_i64 (ts_clamp t) = ts_to_i64 t"
  by (simp add: ts_to_i64_def ts_clamp_def)

lemma ts_clamp_idem [simp]: "ts_clamp (ts_clamp t) = ts_clamp t"
  by (simp add: ts_clamp_def)

lemma ts_clamp_small: "uint t < 2 ^ 63 \<Longrightarrow> ts_clamp t = t"
  by (simp add: ts_clamp_def)

text \<open>The block that a store keeps of the one it is given.\<close>

definition pg_stored :: "context_block \<Rightarrow> context_block" where
  "pg_stored b = b\<lparr>cb_created_at := ts_clamp (cb_created_at b), cb_updated_at := ts_clamp (cb_updated_at b)\<rparr>"

lemma pg_stored_simps [simp]:
  "cb_id (pg_stored b) = cb_id b" "cb_hash (pg_stored b) = cb_hash b" "cb_bytes (pg_stored b) = cb_bytes b"
  "cb_token_counts (pg_stored b) = cb_token_counts b" "pg_stored (pg_stored b) = pg_stored b"
  "block_params (pg_stored b) = block_params b"
  by (simp_all add: pg_stored_def block_params_def)

lemma hash_of_key: "word_of_nat (from_be (hash_key h)) = h"
proof -
  have "from_be (hash_key h) = unat h"
    using unat_hash_less [of h] by (simp only: hash_key_def from_be_be_bytes mod_less)
  then show ?thesis by simp
qed

lemma row_block_params:
  assumes "bt_sorted (cb_token_counts b)"
  shows "row_to_block (block_params b) = Inr (pg_stored b)"
  using assms
  by (simp add: row_to_block_def block_params_def token_counts_roundtrip provenance_roundtrip ts_roundtrip
      hash_of_key pg_stored_def)

lemma block_params_keys [simp]: "br_id (block_params b) = id_bytes (cb_id b)" "br_hash (block_params b) = hash_key (cb_hash b)"
  by (simp_all add: block_params_def)

section \<open>Schema names and TLS\<close>

text \<open>An accepted name holds letters, digits and underscores only.\<close>

lemma valid_ident_chars:
  assumes "is_valid_ident s"
  shows "s \<noteq> [] \<and> (\<forall>c \<in> set s. is_ascii_alphanumeric c \<or> c = CHR ''_'')"
  using assms by (cases s) (auto simp: is_valid_ident_def is_ascii_alphanumeric_def)

lemma valid_ident_no_quote: "is_valid_ident s \<Longrightarrow> CHR 0x22 \<notin> set s"
  by (auto dest!: valid_ident_chars simp: is_ascii_alphanumeric_def is_ascii_alphabetic_def is_ascii_digit_def Let_def)

text \<open>
  C34: a store never falls back to plaintext: a backend is built without TLS exactly when the mode
  is to disable it, the connection requires TLS exactly when a backend with TLS was built, and
  without the cargo feature every other mode is refused.
\<close>

theorem tls_no_downgrade:
  "(build_backend feature lib mode = Inr Plain \<longleftrightarrow> mode = Tls_Disable) \<and>
   (\<forall>tls. build_backend feature lib mode = Inr tls \<longrightarrow> (ssl_mode_of tls = Ssl_Require \<longleftrightarrow> mode \<noteq> Tls_Disable)) \<and>
   (\<not> feature \<and> mode \<noteq> Tls_Disable \<longrightarrow> build_backend feature lib mode = Inl (TlsUnsupported mode))"
  by (cases mode) (auto simp: build_backend_def ssl_mode_of_def rbind_Inr_iff)

definition demo_tls :: "(unit, bytes) tls_lib" where
  "demo_tls = \<lparr>tl_new = Inr (), tl_noverify = Inr (), tl_read = Inr, tl_from_pem = Inr, tl_with_root = (\<lambda>_. Inr ())\<rparr>"

theorem tls_no_downgrade_witness:
  "build_backend False demo_tls Tls_Require = Inl (TlsUnsupported Tls_Require) \<and>
   build_backend True demo_tls (Tls_RequireCustomCa ''ca'') \<noteq> Inr Plain"
  using tls_no_downgrade [of False demo_tls Tls_Require] tls_no_downgrade [of True demo_tls "Tls_RequireCustomCa ''ca''"]
  by simp

end
