(* ===== verification/Pg_Sql.thy ===== *)
theory Pg_Sql
  imports Pg_Common "HOL-Library.Product_Lexorder"
begin

text \<open>
  The statements of the Postgres stores and what they mean. The tables of the schema
  (\<open>MIGRATION_SQL\<close>) are relations; each statement of \<open>store.rs\<close> is a constructor, and
  \<open>command_effect\<close>, \<open>upsert_effect\<close>, \<open>ids_answer\<close>, \<open>block_answer\<close> and \<open>edges_answer\<close> give its
  text a meaning over the relations. The driver and the server are a library that may fail at
  any statement; the locale \<open>postgres\<close> says that what succeeds means what it says and that the
  keys of the schema hold. The interpretation runs the statements on finite relations.
\<close>

section \<open>Tables\<close>

record pg_tables =
  pt_blocks :: "block_row set"
  pt_refs :: "(raw \<times> raw) set"
  pt_edges :: "(raw \<times> bytes \<times> raw) set"
  pt_meta :: "(bytes \<times> raw) set"

text \<open>Primary keys and the unique index on the hash.\<close>

definition keys_hold :: "pg_tables \<Rightarrow> bool" where
  "keys_hold T \<longleftrightarrow>
     finite (pt_blocks T) \<and> finite (pt_refs T) \<and> finite (pt_edges T) \<and> finite (pt_meta T) \<and>
     inj_on br_id (pt_blocks T) \<and> inj_on br_hash (pt_blocks T) \<and> inj_on fst (pt_meta T)"

section \<open>Statements\<close>

datatype command =
  Insert_Ref raw raw
| Delete_Block raw
| Delete_Block_Refs raw
| Delete_Block_Edges raw
| Lock_Blocks "raw list"
| Lock_Refs "raw list"
| Delete_Session_Refs raw
| Delete_Edges_Any "raw list"
| Delete_Blocks_Any "raw list"
| Insert_Edge raw bytes raw
| Insert_Meta bytes raw

text \<open>The rows a command affects and the tables after it.\<close>

fun command_effect :: "command \<Rightarrow> pg_tables \<Rightarrow> nat \<times> pg_tables" where
  "command_effect (Insert_Ref s b) T =
     (if (s, b) \<in> pt_refs T then 0 else 1, T\<lparr>pt_refs := insert (s, b) (pt_refs T)\<rparr>)"
| "command_effect (Delete_Block i) T =
     (card {r \<in> pt_blocks T. br_id r = i}, T\<lparr>pt_blocks := {r \<in> pt_blocks T. br_id r \<noteq> i}\<rparr>)"
| "command_effect (Delete_Block_Refs i) T =
     (card {p \<in> pt_refs T. snd p = i}, T\<lparr>pt_refs := {p \<in> pt_refs T. snd p \<noteq> i}\<rparr>)"
| "command_effect (Delete_Block_Edges i) T =
     (card {e \<in> pt_edges T. fst e = i \<or> snd (snd e) = i},
      T\<lparr>pt_edges := {e \<in> pt_edges T. fst e \<noteq> i \<and> snd (snd e) \<noteq> i}\<rparr>)"
| "command_effect (Lock_Blocks is') T = (card {r \<in> pt_blocks T. br_id r \<in> set is'}, T)"
| "command_effect (Lock_Refs is') T = (card {p \<in> pt_refs T. snd p \<in> set is'}, T)"
| "command_effect (Delete_Session_Refs s) T =
     (card {p \<in> pt_refs T. fst p = s}, T\<lparr>pt_refs := {p \<in> pt_refs T. fst p \<noteq> s}\<rparr>)"
| "command_effect (Delete_Edges_Any is') T =
     (card {e \<in> pt_edges T. fst e \<in> set is' \<or> snd (snd e) \<in> set is'},
      T\<lparr>pt_edges := {e \<in> pt_edges T. fst e \<notin> set is' \<and> snd (snd e) \<notin> set is'}\<rparr>)"
| "command_effect (Delete_Blocks_Any is') T =
     (card {r \<in> pt_blocks T. br_id r \<in> set is'}, T\<lparr>pt_blocks := {r \<in> pt_blocks T. br_id r \<notin> set is'}\<rparr>)"
| "command_effect (Insert_Edge f k t) T =
     (if (f, k, t) \<in> pt_edges T then 0 else 1, T\<lparr>pt_edges := insert (f, k, t) (pt_edges T)\<rparr>)"
| "command_effect (Insert_Meta k v) T =
     (if k \<in> fst ` pt_meta T then (0, T) else (1, T\<lparr>pt_meta := insert (k, v) (pt_meta T)\<rparr>))"

text \<open>
  The insertion of a block \<open>ON CONFLICT (hash)\<close>, which returns an id: the one of the row with the
  hash when there is one, and of the new row otherwise. A new row under an id that is taken
  violates the primary key, so the statement has no result.
\<close>

definition upsert_effect :: "block_row \<Rightarrow> pg_tables \<Rightarrow> raw list \<Rightarrow> pg_tables \<Rightarrow> bool" where
  "upsert_effect row T ids T' \<longleftrightarrow>
     (if br_hash row \<in> br_hash ` pt_blocks T
      then T' = T \<and> (\<exists>r \<in> pt_blocks T. br_hash r = br_hash row \<and> ids = [br_id r])
      else br_id row \<notin> br_id ` pt_blocks T \<and> ids = [br_id row] \<and> T' = T\<lparr>pt_blocks := insert row (pt_blocks T)\<rparr>)"

datatype id_query =
  Session_Blocks_Sorted raw
| Distinct_Sessions
| Id_By_Hash raw
| Session_Blocks raw
| Orphans "raw list"
| Meta_Value bytes

fun ids_set :: "id_query \<Rightarrow> pg_tables \<Rightarrow> raw set" where
  "ids_set (Session_Blocks_Sorted s) T = snd ` {p \<in> pt_refs T. fst p = s}"
| "ids_set Distinct_Sessions T = fst ` pt_refs T"
| "ids_set (Id_By_Hash h) T = br_id ` {r \<in> pt_blocks T. br_hash r = h}"
| "ids_set (Session_Blocks s) T = snd ` {p \<in> pt_refs T. fst p = s}"
| "ids_set (Orphans is') T = br_id ` {r \<in> pt_blocks T. br_id r \<in> set is' \<and> br_id r \<notin> snd ` pt_refs T}"
| "ids_set (Meta_Value k) T = snd ` {p \<in> pt_meta T. fst p = k}"

definition ordered :: "id_query \<Rightarrow> bool" where
  "ordered q = (case q of Session_Blocks_Sorted _ \<Rightarrow> True | Distinct_Sessions \<Rightarrow> True | _ \<Rightarrow> False)"

definition ids_answer :: "id_query \<Rightarrow> pg_tables \<Rightarrow> raw list \<Rightarrow> bool" where
  "ids_answer q T rows \<longleftrightarrow> distinct rows \<and> set rows = ids_set q T \<and> (ordered q \<longrightarrow> sorted rows)"

definition block_answer :: "raw \<Rightarrow> pg_tables \<Rightarrow> block_row list \<Rightarrow> bool" where
  "block_answer i T rows \<longleftrightarrow> distinct rows \<and> set rows = {r \<in> pt_blocks T. br_id r = i}"

datatype edge_query = Edges_From raw | Edges_To raw

text \<open>
  \<open>ORDER BY kind\<close> compares the texts in the collation of the database, which gives every text a
  sort key. A row is the other end and the kind.
\<close>

definition edge_row_le :: "(bytes \<Rightarrow> bytes) \<Rightarrow> raw \<times> bytes \<Rightarrow> raw \<times> bytes \<Rightarrow> bool" where
  "edge_row_le collate r q \<longleftrightarrow>
     collate (snd r) < collate (snd q) \<or> collate (snd r) = collate (snd q) \<and> fst r \<le> fst q"

fun edges_set :: "edge_query \<Rightarrow> pg_tables \<Rightarrow> (raw \<times> bytes) set" where
  "edges_set (Edges_From i) T = (\<lambda>(f, k, t). (t, k)) ` {e \<in> pt_edges T. fst e = i}"
| "edges_set (Edges_To i) T = (\<lambda>(f, k, t). (f, k)) ` {e \<in> pt_edges T. snd (snd e) = i}"

definition edges_answer :: "(bytes \<Rightarrow> bytes) \<Rightarrow> edge_query \<Rightarrow> pg_tables \<Rightarrow> (raw \<times> bytes) list \<Rightarrow> bool" where
  "edges_answer collate q T rows \<longleftrightarrow>
     distinct rows \<and> set rows = edges_set q T \<and> sorted_wrt (edge_row_le collate) rows"

section \<open>The driver and the server\<close>

text \<open>
  \<open>pl_checkout\<close> takes a connection from the pool, \<open>pl_search_path\<close> sets its schema, and
  \<open>pl_unexpected_rows\<close> is the error of \<open>query_one\<close> and \<open>query_opt\<close> for the wrong number of rows.
  The last six open a store: the URL, the first connection and the pool, the advisory lock, the
  statement text that creates and selects a schema, and the idempotent \<open>MIGRATION_SQL\<close>.
\<close>

record 'd pg_lib =
  pl_checkout :: "pg_error + unit"
  pl_search_path :: "bytes \<Rightarrow> pg_error + unit"
  pl_begin :: "pg_error + unit"
  pl_commit :: "pg_error + unit"
  pl_execute :: "'d \<Rightarrow> command \<Rightarrow> pg_error + nat \<times> 'd"
  pl_upsert :: "'d \<Rightarrow> block_row \<Rightarrow> pg_error + raw list \<times> 'd"
  pl_ids :: "'d \<Rightarrow> id_query \<Rightarrow> pg_error + raw list"
  pl_block :: "'d \<Rightarrow> raw \<Rightarrow> pg_error + block_row list"
  pl_edges :: "'d \<Rightarrow> edge_query \<Rightarrow> pg_error + (raw \<times> bytes) list"
  pl_unexpected_rows :: pg_error
  pl_parse_url :: "bytes \<Rightarrow> pg_error + unit"
  pl_connect :: "bytes \<Rightarrow> ssl_mode \<Rightarrow> pg_error + 'd"
  pl_build_pool :: "bytes \<Rightarrow> u32 \<Rightarrow> ssl_mode \<Rightarrow> bytes option \<Rightarrow> pg_error + unit"
  pl_advisory_lock :: "'d \<Rightarrow> pg_error + unit"
  pl_create_schema :: "'d \<Rightarrow> bytes \<Rightarrow> pg_error + 'd"
  pl_migrate :: "'d \<Rightarrow> pg_error + 'd"

locale postgres =
  fixes lib :: "'d pg_lib" and tables :: "'d \<Rightarrow> pg_tables" and collate :: "bytes \<Rightarrow> bytes"
  assumes keys_ok: "keys_hold (tables d)"
    and execute_ok: "pl_execute lib d c = Inr (n, d') \<Longrightarrow> (n, tables d') = command_effect c (tables d)"
    and upsert_ok: "pl_upsert lib d row = Inr (ids, d') \<Longrightarrow> upsert_effect row (tables d) ids (tables d')"
    and ids_ok: "pl_ids lib d q = Inr rows \<Longrightarrow> ids_answer q (tables d) rows"
    and block_ok: "pl_block lib d i = Inr brs \<Longrightarrow> block_answer i (tables d) brs"
    and edges_ok: "pl_edges lib d eq = Inr ers \<Longrightarrow> edges_answer collate eq (tables d) ers"

text \<open>A server that fails only when a new block takes the id of another.\<close>

definition pg_reliable :: "'d pg_lib \<Rightarrow> ('d \<Rightarrow> pg_tables) \<Rightarrow> bool" where
  "pg_reliable lib tables \<longleftrightarrow>
     returns (pl_checkout lib) \<and> returns (pl_begin lib) \<and> returns (pl_commit lib) \<and>
     (\<forall>d c. returns (pl_execute lib d c)) \<and> (\<forall>d q. returns (pl_ids lib d q)) \<and>
     (\<forall>d i. returns (pl_block lib d i)) \<and> (\<forall>d q. returns (pl_edges lib d q)) \<and>
     (\<forall>d row. br_hash row \<in> br_hash ` pt_blocks (tables d) \<or> br_id row \<notin> br_id ` pt_blocks (tables d) \<longrightarrow>
        returns (pl_upsert lib d row))"

section \<open>Statements on finite relations\<close>

lemma keys_hold_command: "keys_hold T \<Longrightarrow> keys_hold (snd (command_effect c T))"
  by (cases c) (auto simp: keys_hold_def intro: inj_on_subset)

lemma keys_hold_upsert: "keys_hold T \<Longrightarrow> upsert_effect row T ids T' \<Longrightarrow> keys_hold T'"
  by (auto simp: keys_hold_def upsert_effect_def split: if_splits)

definition no_rows :: pg_tables where
  "no_rows = \<lparr>pt_blocks = {}, pt_refs = {}, pt_edges = {}, pt_meta = {}\<rparr>"

lemma keys_hold_no_rows: "keys_hold no_rows"
  by (simp add: keys_hold_def no_rows_def)

typedef pg_db = "{T. keys_hold T}"
  using keys_hold_no_rows by blast

definition db_tables :: "pg_db \<Rightarrow> pg_tables" where
  "db_tables d = Rep_pg_db d"

definition db_of :: "pg_tables \<Rightarrow> pg_db" where
  "db_of T = Abs_pg_db T"

lemma db_keys: "keys_hold (db_tables d)"
  using Rep_pg_db [of d] by (simp add: db_tables_def)

lemma db_tables_of: "keys_hold T \<Longrightarrow> db_tables (db_of T) = T"
  by (simp add: db_tables_def db_of_def Abs_pg_db_inverse)

definition db_upsert :: "pg_db \<Rightarrow> block_row \<Rightarrow> pg_error + raw list \<times> pg_db" where
  "db_upsert d row =
     (let T = db_tables d; same = {r \<in> pt_blocks T. br_hash r = br_hash row} in
      if same \<noteq> {} then Inr ([br_id (the_elem same)], d)
      else if br_id row \<in> br_id ` pt_blocks T
      then Inl \<lparr>pe_text = ''db error'', pe_db = Some (''ERROR'', ''23505'', ''duplicate key value'')\<rparr>
      else Inr ([br_id row], db_of (T\<lparr>pt_blocks := insert row (pt_blocks T)\<rparr>)))"

definition db_block :: "pg_db \<Rightarrow> raw \<Rightarrow> block_row list" where
  "db_block d i =
     (let found = {r \<in> pt_blocks (db_tables d). br_id r = i} in if found = {} then [] else [the_elem found])"

definition db_edges :: "pg_db \<Rightarrow> edge_query \<Rightarrow> (raw \<times> bytes) list" where
  "db_edges d q = map prod.swap (sorted_list_of_set (prod.swap ` edges_set q (db_tables d)))"

definition db_lib :: "pg_db pg_lib" where
  "db_lib = \<lparr>pl_checkout = Inr (), pl_search_path = (\<lambda>_. Inr ()), pl_begin = Inr (), pl_commit = Inr (),
     pl_execute = (\<lambda>d c. Inr (fst (command_effect c (db_tables d)), db_of (snd (command_effect c (db_tables d))))),
     pl_upsert = db_upsert, pl_ids = (\<lambda>d q. Inr (sorted_list_of_set (ids_set q (db_tables d)))),
     pl_block = (\<lambda>d i. Inr (db_block d i)), pl_edges = (\<lambda>d q. Inr (db_edges d q)),
     pl_unexpected_rows = \<lparr>pe_text = ''query returned an unexpected number of rows'', pe_db = None\<rparr>,
     pl_parse_url = (\<lambda>_. Inr ()), pl_connect = (\<lambda>_ _. Inr (db_of no_rows)), pl_build_pool = (\<lambda>_ _ _ _. Inr ()),
     pl_advisory_lock = (\<lambda>_. Inr ()), pl_create_schema = (\<lambda>d _. Inr d), pl_migrate = Inr\<rparr>"

text \<open>A key picks at most one row.\<close>

lemma key_pick:
  assumes "inj_on key A" and "S = {r \<in> A. key r = k}" and "S \<noteq> {}"
  shows "S = {the_elem S}" and "the_elem S \<in> A" and "key (the_elem S) = k"
proof -
  from assms obtain r where "S = {r}" "r \<in> A" "key r = k" by (auto simp: inj_on_def)
  then show "S = {the_elem S}" "the_elem S \<in> A" "key (the_elem S) = k" by simp_all
qed

lemma finite_ids_set: "keys_hold T \<Longrightarrow> finite (ids_set q T)"
  by (cases q) (simp_all add: keys_hold_def)

lemma finite_edges_set: "keys_hold T \<Longrightarrow> finite (edges_set q T)"
  by (cases q) (simp_all add: keys_hold_def)

lemma db_upsert_effect:
  assumes "db_upsert d row = Inr (ids, d')"
  shows "upsert_effect row (db_tables d) ids (db_tables d')"
proof (cases "{r \<in> pt_blocks (db_tables d). br_hash r = br_hash row} = {}")
  case True
  then have h: "br_hash row \<notin> br_hash ` pt_blocks (db_tables d)" by auto
  with assms True have i: "br_id row \<notin> br_id ` pt_blocks (db_tables d)" "ids = [br_id row]"
    "d' = db_of ((db_tables d)\<lparr>pt_blocks := insert row (pt_blocks (db_tables d))\<rparr>)"
    by (auto simp: db_upsert_def Let_def split: if_splits)
  have "upsert_effect row (db_tables d) ids ((db_tables d)\<lparr>pt_blocks := insert row (pt_blocks (db_tables d))\<rparr>)"
    using h i by (simp add: upsert_effect_def)
  with keys_hold_upsert [OF db_keys this] i(3) show ?thesis by (simp add: db_tables_of)
next
  case False
  have "inj_on br_hash (pt_blocks (db_tables d))" using db_keys [of d] by (simp add: keys_hold_def)
  note pick = key_pick [OF this refl False]
  have "br_hash row \<in> br_hash ` pt_blocks (db_tables d)" using False by (auto intro: rev_image_eqI)
  moreover have "ids = [br_id (the_elem {r \<in> pt_blocks (db_tables d). br_hash r = br_hash row})]" "d' = d"
    using assms False by (auto simp: db_upsert_def Let_def)
  ultimately show ?thesis using pick(2,3) by (auto simp: upsert_effect_def)
qed

lemma db_block_answer: "block_answer i (db_tables d) (db_block d i)"
proof (cases "{r \<in> pt_blocks (db_tables d). br_id r = i} = {}")
  case False
  have "inj_on br_id (pt_blocks (db_tables d))" using db_keys [of d] by (simp add: keys_hold_def)
  from key_pick(1) [OF this refl False] False show ?thesis by (simp add: db_block_def Let_def block_answer_def)
qed (simp add: db_block_def block_answer_def)

lemma db_edges_answer: "edges_answer id q (db_tables d) (db_edges d q)"
proof -
  let ?S = "prod.swap ` edges_set q (db_tables d)"
  have fin: "finite ?S" using finite_edges_set [OF db_keys] by blast
  have "sorted_wrt (\<lambda>x y. fst x < fst y \<or> fst x = fst y \<and> snd x \<le> snd y) (sorted_list_of_set ?S)"
    by (rule sorted_wrt_mono_rel [OF _ sorted_sorted_list_of_set]) (auto simp: less_eq_prod_def)
  then have "sorted_wrt (edge_row_le id) (db_edges d q)"
    by (simp add: db_edges_def sorted_wrt_map edge_row_le_def)
  then show ?thesis using fin
    by (simp add: edges_answer_def db_edges_def distinct_map image_image)
qed

interpretation db: postgres db_lib db_tables id
proof unfold_locales
  fix d c n d' assume "pl_execute db_lib d c = Inr (n, d')"
  then show "(n, db_tables d') = command_effect c (db_tables d)"
    by (auto simp: db_lib_def db_tables_of keys_hold_command db_keys)
next
  fix d q rows assume "pl_ids db_lib d q = Inr rows"
  then show "ids_answer q (db_tables d) rows"
    by (auto simp: db_lib_def ids_answer_def finite_ids_set db_keys)
qed (auto simp: db_lib_def db_keys db_upsert_effect db_block_answer db_edges_answer)

lemma db_reliable: "pg_reliable db_lib db_tables"
  by (auto simp: pg_reliable_def db_lib_def db_upsert_def Let_def)

end
