(* ===== verification/Pg_Store.thy ===== *)
theory Pg_Store
  imports Pg_Sql Store_Spec
begin

text \<open>
  \<open>llm386-store-pg\<close>: opening a store and every operation of the blocking store (\<open>store.rs\<close>) and
  of the asynchronous one (\<open>async_store.rs\<close>). The two issue the same statements once they hold a
  connection, so the transactions are defined once and the operations of each store say how it
  gets its connection and how it prints a refused insertion. An operation returns its result and
  the database after it; when it fails its transaction is rolled back, so the caller keeps
  the database it had.
\<close>

abbreviation backend :: "bytes \<Rightarrow> pg_error + 'a \<Rightarrow> store_error + 'a" where
  "backend label m \<equiv> map_err (\<lambda>e. Backend (label @ '': '' @ pe_text e)) m"

definition query_one :: "pg_error \<Rightarrow> pg_error + 'r list \<times> 'd \<Rightarrow> pg_error + 'r \<times> 'd" where
  "query_one unexpected m = rbind m (\<lambda>(rows, d). case rows of [r] \<Rightarrow> Inr (r, d) | _ \<Rightarrow> Inl unexpected)"

definition query_opt :: "pg_error \<Rightarrow> pg_error + 'r list \<Rightarrow> pg_error + 'r option" where
  "query_opt unexpected m = rbind m (\<lambda>rows. case rows of [] \<Rightarrow> Inr None | [r] \<Rightarrow> Inr (Some r) | _ \<Rightarrow> Inl unexpected)"

section \<open>Opening\<close>

definition pg_config_with_ssl_mode :: "'d pg_lib \<Rightarrow> bytes \<Rightarrow> 'k tls_backend \<Rightarrow> pg_open_error + ssl_mode" where
  "pg_config_with_ssl_mode lib url tls =
     rbind (map_err (\<lambda>e. Connect (''invalid Postgres URL: '' @ pe_text e)) (pl_parse_url lib url)) (\<lambda>_.
     Inr (ssl_mode_of tls))"

definition connect_client :: "'d pg_lib \<Rightarrow> bytes \<Rightarrow> 'k tls_backend \<Rightarrow> pg_open_error + 'd" where
  "connect_client lib url tls =
     rbind (pg_config_with_ssl_mode lib url tls) (\<lambda>mode.
     map_err (\<lambda>e. Connect (''bootstrap connection: '' @ pe_text e)) (pl_connect lib url mode))"

definition schema_version_key :: bytes where
  "schema_version_key = ''schema_version''"

definition create_schema_sql :: "bytes \<Rightarrow> bytes" where
  "create_schema_sql schema =
     ''CREATE SCHEMA IF NOT EXISTS '' @ CHR 0x22 # schema @ CHR 0x22 # ''; SET search_path TO '' @
     CHR 0x22 # schema @ CHR 0x22 # '';''"

text \<open>The statements between the begin and the commit of the bootstrap transaction.\<close>

definition bootstrap_tx :: "'d pg_lib \<Rightarrow> 'd \<Rightarrow> bytes option \<Rightarrow> pg_open_error + 'd" where
  "bootstrap_tx lib d schema =
     rbind (map_err (\<lambda>e. Connect (''bootstrap begin: '' @ pe_text e)) (pl_begin lib)) (\<lambda>_.
     rbind (map_err (\<lambda>e. Connect (''advisory lock: '' @ pe_text e)) (pl_advisory_lock lib d)) (\<lambda>_.
     rbind (case schema of
         Some s \<Rightarrow> map_err (\<lambda>e. Connect (''CREATE SCHEMA: '' @ pe_text e)) (pl_create_schema lib d (create_schema_sql s))
       | None \<Rightarrow> Inr d) (\<lambda>d1.
     rbind (map_err Postgres (pl_migrate lib d1)) (\<lambda>d2.
     rbind (map_err Postgres (pl_execute lib d2 (Insert_Meta schema_version_key (be_bytes 4 (unat pg_current_schema)))))
       (\<lambda>(_, d3).
     rbind (map_err Postgres (query_opt (pl_unexpected_rows lib) (pl_ids lib d3 (Meta_Value schema_version_key)))) (\<lambda>found.
     rbind (ok_or (Pg_CorruptMeta ''schema_version row missing'') found) (\<lambda>v.
     if length v \<noteq> 4 then Inl (Pg_CorruptMeta (''schema_version width '' @ dec (length v)))
     else
       let found = word_of_nat (from_be v) in
       if found \<noteq> pg_current_schema then Inl (Pg_SchemaMismatch pg_current_schema found)
       else rbind (map_err (\<lambda>e. Connect (''bootstrap commit: '' @ pe_text e)) (pl_commit lib)) (\<lambda>_. Inr d3))))))))"

definition bootstrap_and_migrate ::
    "'d pg_lib \<Rightarrow> bytes \<Rightarrow> bytes option \<Rightarrow> 'k tls_backend \<Rightarrow> pg_open_error + 'd" where
  "bootstrap_and_migrate lib url schema tls =
     rbind (connect_client lib url tls) (\<lambda>d. bootstrap_tx lib d schema)"

definition build_pool ::
    "'d pg_lib \<Rightarrow> bytes \<Rightarrow> u32 \<Rightarrow> bytes option \<Rightarrow> 'k tls_backend \<Rightarrow> pg_open_error + unit" where
  "build_pool lib url max_pool_size schema tls =
     rbind (pg_config_with_ssl_mode lib url tls) (\<lambda>mode.
     map_err (\<lambda>e. Connect (''r2d2 pool: '' @ pe_text e)) (pl_build_pool lib url max_pool_size mode schema))"

definition pg_open ::
    "'d pg_lib \<Rightarrow> bool \<Rightarrow> ('k, 'c) tls_lib \<Rightarrow> bytes \<Rightarrow> pg_store_config \<Rightarrow> pg_open_error + 'd" where
  "pg_open lib feature tls_lib url config =
     rbind (case pc_schema config of
         Some s \<Rightarrow> if is_valid_ident s then Inr () else Inl (InvalidSchemaName s)
       | None \<Rightarrow> Inr ()) (\<lambda>_.
     rbind (build_backend feature tls_lib (pc_tls config)) (\<lambda>tls.
     rbind (bootstrap_and_migrate lib url (pc_schema config) tls) (\<lambda>d.
     rbind (build_pool lib url (pc_max_pool_size config) (pc_schema config) tls) (\<lambda>_. Inr d))))"

section \<open>Connections\<close>

definition with_conn :: "'d pg_lib \<Rightarrow> store_error + 'a \<Rightarrow> store_error + 'a" where
  "with_conn lib body = rbind (backend ''pool checkout'' (pl_checkout lib)) (\<lambda>_. body)"

definition async_conn :: "'d pg_lib \<Rightarrow> bytes option \<Rightarrow> store_error + 'a \<Rightarrow> store_error + 'a" where
  "async_conn lib schema body =
     rbind (backend ''pool checkout'' (pl_checkout lib)) (\<lambda>_.
     rbind (case schema of
         Some s \<Rightarrow> backend ''set search_path''
           (pl_search_path lib (''SET search_path TO '' @ CHR 0x22 # s @ CHR 0x22 # '';''))
       | None \<Rightarrow> Inr ()) (\<lambda>_. body))"

text \<open>How the asynchronous store prints the error of the driver for an insertion.\<close>

definition format_pg_err :: "pg_error \<Rightarrow> bytes" where
  "format_pg_err e =
     (case pe_db e of
        Some (severity, code, message) \<Rightarrow> severity @ '' (SQLSTATE '' @ code @ ''): '' @ message
      | None \<Rightarrow> pe_text e)"

section \<open>Transactions\<close>

definition put_tx ::
    "'d pg_lib \<Rightarrow> (pg_error \<Rightarrow> bytes) \<Rightarrow> 'd \<Rightarrow> session_id \<Rightarrow> context_block \<Rightarrow> store_error + block_id \<times> 'd" where
  "put_tx lib insert_text d session block =
     rbind (backend ''begin tx'' (pl_begin lib)) (\<lambda>_.
     rbind (map_err (\<lambda>e. Backend (''insert block: '' @ insert_text e))
         (query_one (pl_unexpected_rows lib) (pl_upsert lib d (block_params block)))) (\<lambda>(bs, d1).
     rbind (pg_decode_block_id bs) (\<lambda>stored_id.
     rbind (backend ''insert session_block''
         (pl_execute lib d1 (Insert_Ref (session_bytes session) (id_bytes stored_id)))) (\<lambda>(_, d2).
     rbind (backend ''commit'' (pl_commit lib)) (\<lambda>_. Inr (stored_id, d2))))))"

definition get_query :: "'d pg_lib \<Rightarrow> 'd \<Rightarrow> block_id \<Rightarrow> store_error + context_block option" where
  "get_query lib d i =
     rbind (backend ''get block'' (query_opt (pl_unexpected_rows lib) (pl_block lib d (id_bytes i)))) (\<lambda>row.
     case row of
       Some r \<Rightarrow> rbind (row_to_block r) (\<lambda>b. Inr (Some b))
     | None \<Rightarrow> Inr None)"

definition list_session_query :: "'d pg_lib \<Rightarrow> 'd \<Rightarrow> session_id \<Rightarrow> store_error + block_id list" where
  "list_session_query lib d session =
     rbind (backend ''list_session'' (pl_ids lib d (Session_Blocks_Sorted (session_bytes session)))) (\<lambda>rows.
     map_res pg_decode_block_id rows)"

definition list_sessions_query :: "'d pg_lib \<Rightarrow> 'd \<Rightarrow> store_error + session_id list" where
  "list_sessions_query lib d =
     rbind (backend ''list_sessions'' (pl_ids lib d Distinct_Sessions)) (\<lambda>rows. map_res pg_decode_block_id rows)"

definition lookup_hash_query :: "'d pg_lib \<Rightarrow> 'd \<Rightarrow> content_hash \<Rightarrow> store_error + block_id option" where
  "lookup_hash_query lib d h =
     rbind (backend ''lookup_hash'' (query_opt (pl_unexpected_rows lib) (pl_ids lib d (Id_By_Hash (hash_key h))))) (\<lambda>row.
     case row of
       Some bs \<Rightarrow> rbind (pg_decode_block_id bs) (\<lambda>i. Inr (Some i))
     | None \<Rightarrow> Inr None)"

definition delete_tx :: "'d pg_lib \<Rightarrow> 'd \<Rightarrow> block_id \<Rightarrow> store_error + bool \<times> 'd" where
  "delete_tx lib d i =
     rbind (backend ''begin tx'' (pl_begin lib)) (\<lambda>_.
     rbind (backend ''delete block'' (pl_execute lib d (Delete_Block (id_bytes i)))) (\<lambda>(block_deleted, d1).
     rbind (backend ''delete session refs'' (pl_execute lib d1 (Delete_Block_Refs (id_bytes i)))) (\<lambda>(sessions_deleted, d2).
     rbind (backend ''delete edges'' (pl_execute lib d2 (Delete_Block_Edges (id_bytes i)))) (\<lambda>(_, d3).
     rbind (backend ''commit'' (pl_commit lib)) (\<lambda>_.
     Inr (block_deleted > 0 \<or> sessions_deleted > 0, d3))))))"

text \<open>The purge of a session: what its first statement collects, and what it does with it.\<close>

definition purge_collect :: "'d pg_lib \<Rightarrow> 'd \<Rightarrow> session_id \<Rightarrow> store_error + block_id list" where
  "purge_collect lib d session =
     rbind (backend ''collect session blocks'' (pl_ids lib d (Session_Blocks (session_bytes session)))) (\<lambda>rows.
     map_res pg_decode_block_id rows)"

definition purge_orphans :: "'d pg_lib \<Rightarrow> 'd \<Rightarrow> raw list \<Rightarrow> store_error + 'd" where
  "purge_orphans lib d orphans =
     (if orphans \<noteq> [] then
        rbind (backend ''delete orphan edges'' (pl_execute lib d (Delete_Edges_Any orphans))) (\<lambda>(_, d1).
        rbind (backend ''delete orphan blocks'' (pl_execute lib d1 (Delete_Blocks_Any orphans))) (\<lambda>(_, d2).
        Inr d2))
      else Inr d)"

definition purge_collected ::
    "'d pg_lib \<Rightarrow> 'd \<Rightarrow> session_id \<Rightarrow> block_id list \<Rightarrow> store_error + nat \<times> 'd" where
  "purge_collected lib d session block_ids =
     (let count' = length block_ids in
      if count' = 0 then rbind (backend ''commit'' (pl_commit lib)) (\<lambda>_. Inr (0, d))
      else
        let id_slices = map id_bytes block_ids in
        rbind (backend ''lock blocks'' (pl_execute lib d (Lock_Blocks id_slices))) (\<lambda>(_, d1).
        rbind (backend ''lock session refs'' (pl_execute lib d1 (Lock_Refs id_slices))) (\<lambda>(_, d2).
        rbind (backend ''delete session refs'' (pl_execute lib d2 (Delete_Session_Refs (session_bytes session)))) (\<lambda>(_, d3).
        rbind (backend ''collect orphans'' (pl_ids lib d3 (Orphans id_slices))) (\<lambda>orphans.
        rbind (purge_orphans lib d3 orphans) (\<lambda>d4.
        rbind (backend ''commit'' (pl_commit lib)) (\<lambda>_. Inr (count', d4))))))))"

definition purge_tx :: "'d pg_lib \<Rightarrow> 'd \<Rightarrow> session_id \<Rightarrow> store_error + nat \<times> 'd" where
  "purge_tx lib d session =
     rbind (backend ''begin tx'' (pl_begin lib)) (\<lambda>_.
     rbind (purge_collect lib d session) (\<lambda>block_ids. purge_collected lib d session block_ids))"

definition put_edge_stmt :: "'d pg_lib \<Rightarrow> 'd \<Rightarrow> edge \<Rightarrow> store_error + unit \<times> 'd" where
  "put_edge_stmt lib d e =
     rbind (backend ''put_edge'' (pl_execute lib d
         (Insert_Edge (id_bytes (edge_from e)) (edge_kind_to_str (edge_kind e)) (id_bytes (edge_to e))))) (\<lambda>(_, d').
     Inr ((), d'))"

definition edges_from_query :: "'d pg_lib \<Rightarrow> 'd \<Rightarrow> block_id \<Rightarrow> store_error + edge list" where
  "edges_from_query lib d from =
     rbind (backend ''edges_from'' (pl_edges lib d (Edges_From (id_bytes from)))) (\<lambda>rows.
     map_res (\<lambda>(to_b, kind_str).
       rbind (pg_decode_block_id to_b) (\<lambda>to.
       rbind (edge_kind_from_str kind_str) (\<lambda>kind.
       Inr \<lparr>edge_from = from, edge_to = to, edge_kind = kind\<rparr>))) rows)"

definition edges_to_query :: "'d pg_lib \<Rightarrow> 'd \<Rightarrow> block_id \<Rightarrow> store_error + edge list" where
  "edges_to_query lib d to =
     rbind (backend ''edges_to'' (pl_edges lib d (Edges_To (id_bytes to)))) (\<lambda>rows.
     map_res (\<lambda>(from_b, kind_str).
       rbind (pg_decode_block_id from_b) (\<lambda>from.
       rbind (edge_kind_from_str kind_str) (\<lambda>kind.
       Inr \<lparr>edge_from = from, edge_to = to, edge_kind = kind\<rparr>))) rows)"

section \<open>The blocking store\<close>

definition pg_put :: "'d pg_lib \<Rightarrow> 'd \<Rightarrow> session_id \<Rightarrow> context_block \<Rightarrow> store_error + block_id \<times> 'd" where
  "pg_put lib d session block = with_conn lib (put_tx lib pe_text d session block)"

definition pg_get :: "'d pg_lib \<Rightarrow> 'd \<Rightarrow> block_id \<Rightarrow> store_error + context_block option" where
  "pg_get lib d i = with_conn lib (get_query lib d i)"

definition pg_list_session :: "'d pg_lib \<Rightarrow> 'd \<Rightarrow> session_id \<Rightarrow> store_error + block_id list" where
  "pg_list_session lib d session = with_conn lib (list_session_query lib d session)"

definition pg_list_sessions :: "'d pg_lib \<Rightarrow> 'd \<Rightarrow> store_error + session_id list" where
  "pg_list_sessions lib d = with_conn lib (list_sessions_query lib d)"

definition pg_lookup_hash :: "'d pg_lib \<Rightarrow> 'd \<Rightarrow> content_hash \<Rightarrow> store_error + block_id option" where
  "pg_lookup_hash lib d h = with_conn lib (lookup_hash_query lib d h)"

definition pg_delete :: "'d pg_lib \<Rightarrow> 'd \<Rightarrow> block_id \<Rightarrow> store_error + bool \<times> 'd" where
  "pg_delete lib d i = with_conn lib (delete_tx lib d i)"

definition pg_purge_session :: "'d pg_lib \<Rightarrow> 'd \<Rightarrow> session_id \<Rightarrow> store_error + nat \<times> 'd" where
  "pg_purge_session lib d session = with_conn lib (purge_tx lib d session)"

definition pg_put_edge :: "'d pg_lib \<Rightarrow> 'd \<Rightarrow> edge \<Rightarrow> store_error + unit \<times> 'd" where
  "pg_put_edge lib d e = with_conn lib (put_edge_stmt lib d e)"

definition pg_edges_from :: "'d pg_lib \<Rightarrow> 'd \<Rightarrow> block_id \<Rightarrow> store_error + edge list" where
  "pg_edges_from lib d i = with_conn lib (edges_from_query lib d i)"

definition pg_edges_to :: "'d pg_lib \<Rightarrow> 'd \<Rightarrow> block_id \<Rightarrow> store_error + edge list" where
  "pg_edges_to lib d i = with_conn lib (edges_to_query lib d i)"

section \<open>The asynchronous store\<close>

text \<open>Opening builds the pool first and bootstraps on a connection taken from it.\<close>

definition async_open ::
    "'d pg_lib \<Rightarrow> bool \<Rightarrow> ('k, 'c) tls_lib \<Rightarrow> (bytes \<Rightarrow> ssl_mode \<Rightarrow> bytes + 'p) \<Rightarrow>
       ('p \<Rightarrow> u32 \<Rightarrow> bytes + 'd) \<Rightarrow> bytes \<Rightarrow> pg_store_config \<Rightarrow> pg_open_error + 'd" where
  "async_open lib feature tls_lib builder build url config =
     rbind (case pc_schema config of
         Some s \<Rightarrow> if is_valid_ident s then Inr () else Inl (InvalidSchemaName s)
       | None \<Rightarrow> Inr ()) (\<lambda>_.
     rbind (build_backend feature tls_lib (pc_tls config)) (\<lambda>tls.
     rbind (map_err (\<lambda>e. Connect (''deadpool builder: '' @ e)) (builder url (ssl_mode_of tls))) (\<lambda>b.
     rbind (map_err (\<lambda>e. Connect (''deadpool build: '' @ e)) (build b (pc_max_pool_size config))) (\<lambda>d.
     rbind (map_err (\<lambda>e. Connect (''pool checkout: '' @ pe_text e)) (pl_checkout lib)) (\<lambda>_.
     bootstrap_tx lib d (pc_schema config))))))"

definition async_put ::
    "'d pg_lib \<Rightarrow> bytes option \<Rightarrow> 'd \<Rightarrow> session_id \<Rightarrow> context_block \<Rightarrow> store_error + block_id \<times> 'd" where
  "async_put lib schema d session block = async_conn lib schema (put_tx lib format_pg_err d session block)"

definition async_get :: "'d pg_lib \<Rightarrow> bytes option \<Rightarrow> 'd \<Rightarrow> block_id \<Rightarrow> store_error + context_block option" where
  "async_get lib schema d i = async_conn lib schema (get_query lib d i)"

definition async_list_session :: "'d pg_lib \<Rightarrow> bytes option \<Rightarrow> 'd \<Rightarrow> session_id \<Rightarrow> store_error + block_id list" where
  "async_list_session lib schema d session = async_conn lib schema (list_session_query lib d session)"

definition async_list_sessions :: "'d pg_lib \<Rightarrow> bytes option \<Rightarrow> 'd \<Rightarrow> store_error + session_id list" where
  "async_list_sessions lib schema d = async_conn lib schema (list_sessions_query lib d)"

definition async_lookup_hash :: "'d pg_lib \<Rightarrow> bytes option \<Rightarrow> 'd \<Rightarrow> content_hash \<Rightarrow> store_error + block_id option" where
  "async_lookup_hash lib schema d h = async_conn lib schema (lookup_hash_query lib d h)"

definition async_delete :: "'d pg_lib \<Rightarrow> bytes option \<Rightarrow> 'd \<Rightarrow> block_id \<Rightarrow> store_error + bool \<times> 'd" where
  "async_delete lib schema d i = async_conn lib schema (delete_tx lib d i)"

definition async_purge_session :: "'d pg_lib \<Rightarrow> bytes option \<Rightarrow> 'd \<Rightarrow> session_id \<Rightarrow> store_error + nat \<times> 'd" where
  "async_purge_session lib schema d session = async_conn lib schema (purge_tx lib d session)"

definition async_put_edge :: "'d pg_lib \<Rightarrow> bytes option \<Rightarrow> 'd \<Rightarrow> edge \<Rightarrow> store_error + unit \<times> 'd" where
  "async_put_edge lib schema d e = async_conn lib schema (put_edge_stmt lib d e)"

definition async_edges_from :: "'d pg_lib \<Rightarrow> bytes option \<Rightarrow> 'd \<Rightarrow> block_id \<Rightarrow> store_error + edge list" where
  "async_edges_from lib schema d i = async_conn lib schema (edges_from_query lib d i)"

definition async_edges_to :: "'d pg_lib \<Rightarrow> bytes option \<Rightarrow> 'd \<Rightarrow> block_id \<Rightarrow> store_error + edge list" where
  "async_edges_to lib schema d i = async_conn lib schema (edges_to_query lib d i)"

end
