(* ===== verification/Pg_Correct.thy ===== *)
theory Pg_Correct
  imports Pg_Store
begin

text \<open>
  The Postgres stores implement the store specification. \<open>pg_rel\<close> says which relations stand for
  a store; the lemmas in the locale \<open>postgres\<close> give one simulation per transaction, for either
  store since both run the same statements.
\<close>

definition ref_row :: "session_id \<times> block_id \<Rightarrow> raw \<times> raw" where
  "ref_row p = (session_bytes (fst p), id_bytes (snd p))"

definition edge_row :: "edge \<Rightarrow> raw \<times> bytes \<times> raw" where
  "edge_row e = (id_bytes (edge_from e), edge_kind_to_str (edge_kind e), id_bytes (edge_to e))"

text \<open>A block in the form in which it is stored.\<close>

definition pg_storable :: "context_block \<Rightarrow> bool" where
  "pg_storable b \<longleftrightarrow> bt_sorted (cb_token_counts b) \<and> pg_stored b = b"

definition pg_rel :: "pg_tables \<Rightarrow> store_spec \<Rightarrow> bool" where
  "pg_rel T a \<longleftrightarrow>
     pt_blocks T = block_params ` ran (st_blocks a) \<and> (\<forall>b \<in> ran (st_blocks a). pg_storable b) \<and>
     pt_refs T = ref_row ` st_members a \<and> pt_edges T = edge_row ` st_edges a"

lemma pg_relD:
  assumes "pg_rel T a"
  shows "pt_blocks T = block_params ` ran (st_blocks a)" "b \<in> ran (st_blocks a) \<Longrightarrow> pg_storable b"
    "pt_refs T = ref_row ` st_members a" "pt_edges T = edge_row ` st_edges a"
  using assms by (simp_all add: pg_rel_def)

lemma ref_row_simps [simp]:
  "fst (ref_row p) = session_bytes (fst p)" "snd (ref_row p) = id_bytes (snd p)"
  "ref_row p = ref_row q \<longleftrightarrow> p = q" "ref_row (s, i) = (session_bytes s, id_bytes i)"
  by (auto simp: ref_row_def prod_eq_iff)

lemma edge_row_simps [simp]:
  "fst (edge_row e) = id_bytes (edge_from e)" "snd (snd (edge_row e)) = id_bytes (edge_to e)"
  "edge_row e = edge_row f \<longleftrightarrow> e = f"
  by (auto simp: edge_row_def intro: edge.equality)

lemma id_bytes_image [simp]: "id_bytes i \<in> id_bytes ` I \<longleftrightarrow> i \<in> I"
  by auto

text \<open>Membership in the relations, read in the specification.\<close>

lemma pg_block_mem:
  assumes "pg_rel T a" "st_blocks a i = Some b"
  shows "block_params b \<in> pt_blocks T"
  using assms by (auto simp: pg_rel_def intro: ranI)

lemma pg_block_memE:
  assumes "pg_rel T a" "spec_wf a" "r \<in> pt_blocks T"
  obtains b where "r = block_params b" "st_blocks a (cb_id b) = Some b"
proof -
  from assms(1,3) obtain b i where "r = block_params b" "st_blocks a i = Some b" by (auto simp: pg_rel_def ran_def)
  with spec_wfD(1) [OF assms(2)] that show ?thesis by blast
qed

lemma pg_block_iff:
  assumes "pg_rel T a" "spec_wf a"
  shows "id_bytes i \<in> br_id ` pt_blocks T \<longleftrightarrow> st_blocks a i \<noteq> None"
proof
  assume "id_bytes i \<in> br_id ` pt_blocks T"
  then obtain r where r: "r \<in> pt_blocks T" "br_id r = id_bytes i" by auto
  from pg_block_memE [OF assms r(1)] obtain b where "r = block_params b" "st_blocks a (cb_id b) = Some b" .
  with r(2) show "st_blocks a i \<noteq> None" by auto
next
  assume "st_blocks a i \<noteq> None"
  then obtain b where b: "st_blocks a i = Some b" by auto
  have "br_id (block_params b) \<in> br_id ` pt_blocks T" using pg_block_mem [OF assms(1) b] by (rule imageI)
  then show "id_bytes i \<in> br_id ` pt_blocks T" using spec_wfD(1) [OF assms(2) b] by simp
qed

lemma pg_hash_mem:
  assumes "pg_rel T a" "spec_wf a" "r \<in> pt_blocks T" "br_hash r = hash_key h"
  shows "\<exists>i. st_hash a h = Some i \<and> br_id r = id_bytes i"
proof -
  from pg_block_memE [OF assms(1-3)] obtain b where b: "r = block_params b" "st_blocks a (cb_id b) = Some b" .
  with assms(4) have "cb_hash b = h" by simp
  with b spec_wfD(2) [OF assms(2), of h "cb_id b"] show ?thesis by simp
qed

lemma pg_hash_iff:
  assumes "pg_rel T a" "spec_wf a"
  shows "hash_key h \<in> br_hash ` pt_blocks T \<longleftrightarrow> st_hash a h \<noteq> None"
proof
  assume "hash_key h \<in> br_hash ` pt_blocks T"
  then obtain r where "r \<in> pt_blocks T" "br_hash r = hash_key h" by auto
  from pg_hash_mem [OF assms this] show "st_hash a h \<noteq> None" by auto
next
  assume "st_hash a h \<noteq> None"
  then obtain i where "st_hash a h = Some i" by auto
  then obtain b where b: "st_blocks a i = Some b" "cb_hash b = h" using spec_wfD(2) [OF assms(2)] by blast
  have "br_hash (block_params b) \<in> br_hash ` pt_blocks T" using pg_block_mem [OF assms(1) b(1)] by (rule imageI)
  then show "hash_key h \<in> br_hash ` pt_blocks T" using b(2) by simp
qed

lemma pg_ref_iff:
  assumes "pg_rel T a"
  shows "(session_bytes s, id_bytes i) \<in> pt_refs T \<longleftrightarrow> (s, i) \<in> st_members a"
proof -
  have "inj ref_row" by (rule injI) simp
  from inj_image_mem_iff [OF this, of "(s, i)" "st_members a"] show ?thesis
    by (simp only: ref_row_simps(4) pg_relD(3) [OF assms])
qed

text \<open>Taking blocks, their memberships and their edges out of the relations.\<close>

lemma ran_restrict_ids:
  assumes "\<And>i b. st_blocks a i = Some b \<Longrightarrow> cb_id b = i"
  shows "ran (st_blocks a |` (- I)) = {b \<in> ran (st_blocks a). cb_id b \<notin> I}"
  using assms by (auto simp: ran_def restrict_map_def)

lemma pg_rel_remove:
  assumes "pg_rel T a" and ids: "\<And>i b. st_blocks a i = Some b \<Longrightarrow> cb_id b = i"
    and "pt_blocks T' = {r \<in> pt_blocks T. br_id r \<notin> id_bytes ` I}"
    and "pt_refs T' = {p \<in> pt_refs T. snd p \<notin> id_bytes ` I}"
    and "pt_edges T' = {e \<in> pt_edges T. fst e \<notin> id_bytes ` I \<and> snd (snd e) \<notin> id_bytes ` I}"
  shows "pg_rel T' (spec_remove I a)"
proof -
  have "ran (st_blocks (spec_remove I a)) = {b \<in> ran (st_blocks a). cb_id b \<notin> I}"
    by (simp add: spec_remove_def ran_restrict_ids [OF ids])
  then show ?thesis
    using assms(1) unfolding pg_rel_def assms(3-5)
    by (auto simp: spec_remove_def image_iff)
qed

lemma pg_rel_leave:
  assumes "pg_rel T a" and "pt_blocks T' = pt_blocks T" and "pt_edges T' = pt_edges T"
    and "pt_refs T' = {p \<in> pt_refs T. fst p \<noteq> session_bytes s}"
  shows "pg_rel T' (spec_leave s a)"
  using assms(1) unfolding pg_rel_def assms(2-4) by (auto simp: spec_leave_def image_iff)

lemma spec_remove_none [simp]: "spec_remove {} a = a"
  by (auto simp: spec_remove_def intro!: store_spec.equality split: option.splits)

lemma spec_leave_none: "spec_session s a = {} \<Longrightarrow> spec_leave s a = a"
  by (auto simp: spec_leave_def spec_session_def intro!: store_spec.equality)

lemma decode_rows: "map_res pg_decode_block_id rows = Inr ids \<Longrightarrow> rows = map id_bytes ids"
proof -
  assume "map_res pg_decode_block_id rows = Inr ids"
  then have "list_all2 (\<lambda>r i. pg_decode_block_id r = Inr i) rows ids" by (simp only: map_res_Inr_iff)
  then show ?thesis
    by (induction rule: list_all2_induct) (auto simp: pg_decode_block_id_def id_bytes_def id_key_id_of_key split: if_splits)
qed

lemma pg_decode_Inr: "pg_decode_block_id r = Inr i \<longleftrightarrow> r = id_bytes i"
  by (auto simp: pg_decode_block_id_def id_bytes_def id_key_id_of_key split: if_splits)

lemma if_InrE:
  assumes "(if c then Inr x else m) = Inr y"
  obtains "c" "x = y" | "\<not> c" "m = Inr y"
  using assms by (cases c) simp_all

lemma edge_kind_from_Inr: "edge_kind_from_str s = Inr k \<longleftrightarrow> s = edge_kind_to_str k"
proof
  assume "edge_kind_from_str s = Inr k"
  then show "s = edge_kind_to_str k"
    unfolding edge_kind_from_str_def by (elim if_InrE) simp_all
qed simp

lemmas decode_edge = pg_decode_Inr edge_kind_from_Inr

lemma map_res_decode [simp]: "map_res pg_decode_block_id (map id_bytes ids) = Inr ids"
  by (rule map_res_map) simp

section \<open>One simulation per transaction\<close>

lemma query_one_Inr: "query_one u m = Inr (r, d) \<Longrightarrow> m = Inr ([r], d)"
proof -
  have "(case rows of [r] \<Rightarrow> Inr (r, d') | _ \<Rightarrow> Inl u) = Inr (r, d) \<Longrightarrow> rows = [r] \<and> d' = d" for rows d'
    by (cases rows rule: remdups_adj.cases) auto
  then show "query_one u m = Inr (r, d) \<Longrightarrow> m = Inr ([r], d)"
    unfolding query_one_def by (elim rbind_InrE) (auto split: prod.splits)
qed

lemma query_opt_Inr: "query_opt u m = Inr x \<Longrightarrow> m = Inr (case x of None \<Rightarrow> [] | Some r \<Rightarrow> [r])"
proof -
  have "(case rows of [] \<Rightarrow> Inr None | [r] \<Rightarrow> Inr (Some r) | _ \<Rightarrow> Inl u) = Inr x \<Longrightarrow>
      rows = (case x of None \<Rightarrow> [] | Some r \<Rightarrow> [r])" for rows
    by (cases rows rule: remdups_adj.cases) auto
  then show "query_opt u m = Inr x \<Longrightarrow> m = Inr (case x of None \<Rightarrow> [] | Some r \<Rightarrow> [r])"
    unfolding query_opt_def by (elim rbind_InrE) auto
qed

context postgres
begin

lemma put_spec:
  assumes "pg_rel (tables d) a" "spec_wf a" "bt_sorted (cb_token_counts b)"
    and "put_tx lib tx d session b = Inr (i, d')"
  shows "i = fst (spec_put session (pg_stored b) a) \<and> pg_rel (tables d') (snd (spec_put session (pg_stored b) a)) \<and>
    fresh_for b a"
proof -
  from assms(4) obtain bs d1 n where u: "pl_upsert lib d (block_params b) = Inr ([bs], d1)"
    and i: "pg_decode_block_id bs = Inr i"
    and r: "pl_execute lib d1 (Insert_Ref (session_bytes session) (id_bytes i)) = Inr (n, d')"
    by (auto simp: put_tx_def rbind_Inr_iff dest!: query_one_Inr)
  from execute_ok [OF r] have d': "tables d' = (tables d1)\<lparr>pt_refs := insert (session_bytes session, id_bytes i) (pt_refs (tables d1))\<rparr>"
    by simp
  note U = upsert_ok [OF u]
  show ?thesis
  proof (cases "st_hash a (cb_hash b)")
    case (Some j)
    then have "hash_key (cb_hash b) \<in> br_hash ` pt_blocks (tables d)" using pg_hash_iff [OF assms(1,2)] by simp
    with U obtain q where q: "tables d1 = tables d" "q \<in> pt_blocks (tables d)" "br_hash q = hash_key (cb_hash b)" "bs = br_id q"
      by (auto simp: upsert_effect_def)
    from pg_hash_mem [OF assms(1,2) q(2,3)] Some q(4) have "bs = id_bytes j" by simp
    with i have "i = j" by simp
    with Some q(1) d' assms(1) show ?thesis
      by (auto simp: spec_put_def pg_rel_def fresh_for_def)
  next
    case None
    then have nh: "hash_key (cb_hash b) \<notin> br_hash ` pt_blocks (tables d)" using pg_hash_iff [OF assms(1,2)] by simp
    with U have u1: "id_bytes (cb_id b) \<notin> br_id ` pt_blocks (tables d)" "bs = id_bytes (cb_id b)"
      "tables d1 = (tables d)\<lparr>pt_blocks := insert (block_params b) (pt_blocks (tables d))\<rparr>"
      by (auto simp: upsert_effect_def split: if_splits)
    have fresh: "st_blocks a (cb_id b) = None" using pg_block_iff [OF assms(1,2)] u1(1) by simp
    have "i = cb_id b" using i u1(2) by simp
    moreover have "pg_storable (pg_stored b)" using assms(3) by (simp add: pg_storable_def)
    moreover have "block_params ` insert (pg_stored b) (ran (st_blocks a)) = insert (block_params b) (pt_blocks (tables d))"
      using assms(1) by (simp add: pg_rel_def)
    ultimately show ?thesis
      using None fresh u1(3) d' assms(1) by (auto simp: spec_put_def pg_rel_def fresh_for_def ran_map_upd)
  qed
qed

lemma delete_spec:
  assumes "pg_rel (tables d) a" "spec_wf a" and "delete_tx lib d i = Inr (found, d')"
  shows "found = spec_has i a \<and> pg_rel (tables d') (spec_remove {i} a)"
proof -
  from assms(3) obtain n1 d1 n2 d2 n3 where
    e: "pl_execute lib d (Delete_Block (id_bytes i)) = Inr (n1, d1)"
       "pl_execute lib d1 (Delete_Block_Refs (id_bytes i)) = Inr (n2, d2)"
       "pl_execute lib d2 (Delete_Block_Edges (id_bytes i)) = Inr (n3, d')"
    and found: "found = (n1 > 0 \<or> n2 > 0)"
    by (clarsimp simp: delete_tx_def rbind_Inr_iff)
  note T = execute_ok [OF e(1)] execute_ok [OF e(2)] execute_ok [OF e(3)]
  have fin: "finite (pt_blocks (tables d))" "finite (pt_refs (tables d))" using keys_ok [of d] by (simp_all add: keys_hold_def)
  have "n1 > 0 \<longleftrightarrow> id_bytes i \<in> br_id ` pt_blocks (tables d)"
    using T(1) fin(1) by (auto simp: card_gt_0_iff intro: rev_image_eqI)
  moreover have "n2 > 0 \<longleftrightarrow> (\<exists>s. (s, i) \<in> st_members a)"
  proof -
    have "n2 > 0 \<longleftrightarrow> {p \<in> ref_row ` st_members a. snd p = id_bytes i} \<noteq> {}"
      using T(1,2) fin(2) pg_relD(3) [OF assms(1)] by (simp add: card_gt_0_iff)
    also have "\<dots> \<longleftrightarrow> (\<exists>s. (s, i) \<in> st_members a)"
    proof
      assume "\<exists>s. (s, i) \<in> st_members a"
      then obtain s where "ref_row (s, i) \<in> ref_row ` st_members a" by blast
      moreover have "snd (ref_row (s, i)) = id_bytes i" by simp
      ultimately show "{p \<in> ref_row ` st_members a. snd p = id_bytes i} \<noteq> {}" by blast
    qed auto
    finally show ?thesis .
  qed
  ultimately have "found = spec_has i a"
    using found pg_block_iff [OF assms(1,2), of i] by (simp add: spec_has_def)
  moreover have "pg_rel (tables d') (spec_remove {i} a)"
    by (rule pg_rel_remove [OF assms(1) spec_wfD(1) [OF assms(2)]]) (use T in auto)
  ultimately show ?thesis by simp
qed

text \<open>
  The purge of a session whose blocks were collected before, on whatever store the database has
  come to stand for since.
\<close>

lemma purge_orphans_tables:
  assumes "purge_orphans lib d os = Inr d'"
  shows "pt_blocks (tables d') = {r \<in> pt_blocks (tables d). br_id r \<notin> set os} \<and> pt_refs (tables d') = pt_refs (tables d) \<and>
    pt_edges (tables d') = {e \<in> pt_edges (tables d). fst e \<notin> set os \<and> snd (snd e) \<notin> set os}"
proof (cases "os = []")
  case True
  with assms show ?thesis by (simp add: purge_orphans_def)
next
  case False
  with assms obtain n1 d1 n2 where
    e: "pl_execute lib d (Delete_Edges_Any os) = Inr (n1, d1)" "pl_execute lib d1 (Delete_Blocks_Any os) = Inr (n2, d')"
    by (auto simp: purge_orphans_def rbind_Inr_iff)
  from execute_ok [OF e(1)] execute_ok [OF e(2)] show ?thesis by simp
qed

lemma purge_collected_spec:
  assumes "pg_rel (tables d) a" "spec_wf a" and "purge_collected lib d session ids = Inr (n, d')"
  shows "n = length ids \<and>
    (ids = [] \<longrightarrow> pg_rel (tables d') a) \<and>
    (ids \<noteq> [] \<longrightarrow> pg_rel (tables d') (spec_remove (spec_orphans (spec_leave session a) (set ids)) (spec_leave session a)))"
proof (cases "ids = []")
  case True
  with assms show ?thesis by (auto simp: purge_collected_def rbind_Inr_iff)
next
  case False
  let ?b = "map id_bytes ids"
  from assms(3) False obtain n1 d1 n2 d2 n3 d3 os where
    e: "pl_execute lib d (Lock_Blocks ?b) = Inr (n1, d1)" "pl_execute lib d1 (Lock_Refs ?b) = Inr (n2, d2)"
       "pl_execute lib d2 (Delete_Session_Refs (session_bytes session)) = Inr (n3, d3)"
       "pl_ids lib d3 (Orphans ?b) = Inr os" "purge_orphans lib d3 os = Inr d'" and n: "n = length ids"
    by (auto simp: purge_collected_def Let_def rbind_Inr_iff)
  have d3: "tables d3 = (tables d)\<lparr>pt_refs := {p \<in> pt_refs (tables d). fst p \<noteq> session_bytes session}\<rparr>"
    using execute_ok [OF e(1)] execute_ok [OF e(2)] execute_ok [OF e(3)] by simp
  have rel3: "pg_rel (tables d3) (spec_leave session a)"
    by (rule pg_rel_leave [OF assms(1)]) (simp_all add: d3)
  let ?O = "spec_orphans (spec_leave session a) (set ids)"
  have "set os = br_id ` {r \<in> pt_blocks (tables d3). br_id r \<in> set ?b \<and> br_id r \<notin> snd ` pt_refs (tables d3)}"
    using ids_ok [OF e(4)] by (simp add: ids_answer_def)
  moreover have "\<dots> = id_bytes ` ?O"
  proof (intro equalityI subsetI)
    fix x assume "x \<in> br_id ` {r \<in> pt_blocks (tables d3). br_id r \<in> set ?b \<and> br_id r \<notin> snd ` pt_refs (tables d3)}"
    then obtain r where r: "r \<in> pt_blocks (tables d3)" "br_id r \<in> set ?b" "br_id r \<notin> snd ` pt_refs (tables d3)" "x = br_id r"
      by blast
    then obtain i where i: "i \<in> set ids" "br_id r = id_bytes i" by auto
    have "st_blocks a i \<noteq> None"
      using r(1) i(2) pg_block_iff [OF assms(1,2), of i] d3 by (metis (mono_tags, lifting) image_eqI pg_tables.select_convs(1) pg_tables.surjective pg_tables.update_convs(2))
    moreover have "\<forall>s. (s, i) \<notin> st_members (spec_leave session a)"
    proof (intro allI notI)
      fix s assume "(s, i) \<in> st_members (spec_leave session a)"
      then have "ref_row (s, i) \<in> pt_refs (tables d3)"
        unfolding pg_relD(3) [OF rel3] by (rule imageI)
      then have "snd (ref_row (s, i)) \<in> snd ` pt_refs (tables d3)" by (rule imageI)
      with r(3) i(2) show False by simp
    qed
    ultimately show "x \<in> id_bytes ` ?O" using i r(4) by (auto simp: spec_orphans_def)
  next
    fix x assume "x \<in> id_bytes ` ?O"
    then obtain i where i: "x = id_bytes i" "i \<in> set ids" "st_blocks a i \<noteq> None"
      "\<forall>s. (s, i) \<notin> st_members (spec_leave session a)" by (auto simp: spec_orphans_def)
    have "id_bytes i \<in> br_id ` pt_blocks (tables d3)" using pg_block_iff [OF assms(1,2)] i(3) d3 by simp
    then obtain r where "r \<in> pt_blocks (tables d3)" "br_id r = id_bytes i" by auto
    moreover have "id_bytes i \<notin> snd ` pt_refs (tables d3)" using i(4) pg_relD(3) [OF rel3] by auto
    ultimately show "x \<in> br_id ` {r \<in> pt_blocks (tables d3). br_id r \<in> set ?b \<and> br_id r \<notin> snd ` pt_refs (tables d3)}"
      using i(1,2) by (intro rev_image_eqI [of r]) auto
  qed
  ultimately have os: "set os = id_bytes ` ?O" by simp
  note P = purge_orphans_tables [OF e(5)]
  have "p \<in> pt_refs (tables d3) \<Longrightarrow> snd p \<notin> id_bytes ` ?O" for p
    using pg_relD(3) [OF rel3] by (auto simp: spec_orphans_def)
  then have refs: "pt_refs (tables d') = {p \<in> pt_refs (tables d3). snd p \<notin> id_bytes ` ?O}" using P by auto
  have "pg_rel (tables d') (spec_remove ?O (spec_leave session a))"
    by (rule pg_rel_remove [OF rel3]) (use P os refs spec_wfD(1) [OF assms(2)] in auto)
  then show ?thesis using n False by simp
qed

lemma collect_spec:
  assumes "pg_rel (tables d) a" and "purge_collect lib d session = Inr ids"
  shows "distinct ids \<and> set ids = spec_session session a"
proof -
  from assms(2) obtain rows where r: "pl_ids lib d (Session_Blocks (session_bytes session)) = Inr rows"
    and m: "map_res pg_decode_block_id rows = Inr ids"
    by (auto simp: purge_collect_def rbind_Inr_iff)
  have rows: "rows = map id_bytes ids" by (rule decode_rows [OF m])
  have "distinct rows" "set rows = snd ` {p \<in> pt_refs (tables d). fst p = session_bytes session}"
    using ids_ok [OF r] by (simp_all add: ids_answer_def)
  then have "distinct ids" "id_bytes ` set ids = snd ` {p \<in> ref_row ` st_members a. fst p = session_bytes session}"
    by (simp_all add: rows distinct_map pg_relD(3) [OF assms(1)])
  moreover have "snd ` {p \<in> ref_row ` st_members a. fst p = session_bytes session} = id_bytes ` spec_session session a"
    by (force simp: spec_session_def)
  ultimately have "distinct ids" "id_bytes ` set ids = id_bytes ` spec_session session a" by simp_all
  then show ?thesis by (simp add: inj_image_eq_iff [of id_bytes] inj_def)
qed

lemma purge_spec:
  assumes "pg_rel (tables d) a" "spec_wf a" and "purge_tx lib d session = Inr (n, d')"
  shows "n = fst (spec_purge session a) \<and> pg_rel (tables d') (snd (spec_purge session a))"
proof -
  from assms(3) obtain ids where c: "purge_collect lib d session = Inr ids"
    and p: "purge_collected lib d session ids = Inr (n, d')"
    by (auto simp: purge_tx_def rbind_Inr_iff)
  note C = collect_spec [OF assms(1) c] and P = purge_collected_spec [OF assms(1,2) p]
  have "n = card (spec_session session a)" using C P by (metis distinct_card)
  moreover have "pg_rel (tables d') (snd (spec_purge session a))"
  proof (cases "ids = []")
    case True
    then have "spec_session session a = {}" using C by simp
    then have "snd (spec_purge session a) = a"
      by (simp add: spec_purge_def spec_leave_none spec_orphans_def)
    then show ?thesis using P True by simp
  next
    case False
    then show ?thesis using P C by (simp add: spec_purge_def)
  qed
  ultimately show ?thesis by (simp add: spec_purge_def)
qed

lemma put_edge_spec:
  assumes "pg_rel (tables d) a" and "put_edge_stmt lib d e = Inr (u, d')"
  shows "pg_rel (tables d') (spec_put_edge e a)"
proof -
  from assms(2) obtain n where
    "pl_execute lib d (Insert_Edge (id_bytes (edge_from e)) (edge_kind_to_str (edge_kind e)) (id_bytes (edge_to e))) = Inr (n, d')"
    by (auto simp: put_edge_stmt_def rbind_Inr_iff)
  from execute_ok [OF this] assms(1) show ?thesis
    by (auto simp: pg_rel_def spec_put_edge_def edge_row_def)
qed

section \<open>Reads\<close>

lemma get_spec:
  assumes "pg_rel (tables d) a" "spec_wf a" and "get_query lib d i = Inr ob"
  shows "ob = st_blocks a i"
proof -
  from assms(3) obtain row where b: "pl_block lib d (id_bytes i) = Inr (case row of None \<Rightarrow> [] | Some r \<Rightarrow> [r])"
    and ob: "(case row of Some r \<Rightarrow> rbind (row_to_block r) (\<lambda>b. Inr (Some b)) | None \<Rightarrow> Inr None) = Inr ob"
    unfolding get_query_def by (elim rbind_InrE) (auto dest: query_opt_Inr)
  have rows: "set (case row of None \<Rightarrow> [] | Some r \<Rightarrow> [r]) = {r \<in> pt_blocks (tables d). br_id r = id_bytes i}"
    using block_ok [OF b] by (simp add: block_answer_def)
  show ?thesis
  proof (cases row)
    case None
    with rows have "id_bytes i \<notin> br_id ` pt_blocks (tables d)" by auto
    with pg_block_iff [OF assms(1,2)] None ob show ?thesis by simp
  next
    case (Some r)
    with rows have r: "r \<in> pt_blocks (tables d)" "br_id r = id_bytes i" by auto
    from pg_block_memE [OF assms(1,2) r(1)] obtain b where b: "r = block_params b" "st_blocks a (cb_id b) = Some b" .
    then have "pg_storable b" using pg_relD(2) [OF assms(1)] by (auto intro: ranI)
    then have "row_to_block r = Inr b" by (simp add: b(1) row_block_params pg_storable_def)
    with ob Some b r(2) show ?thesis by simp
  qed
qed

lemma lookup_hash_spec:
  assumes "pg_rel (tables d) a" "spec_wf a" and "lookup_hash_query lib d h = Inr oi"
  shows "oi = st_hash a h"
proof -
  from assms(3) obtain row where b: "pl_ids lib d (Id_By_Hash (hash_key h)) = Inr (case row of None \<Rightarrow> [] | Some r \<Rightarrow> [r])"
    and oi: "(case row of Some bs \<Rightarrow> rbind (pg_decode_block_id bs) (\<lambda>i. Inr (Some i)) | None \<Rightarrow> Inr None) = Inr oi"
    unfolding lookup_hash_query_def by (elim rbind_InrE) (auto dest: query_opt_Inr)
  have rows: "set (case row of None \<Rightarrow> [] | Some r \<Rightarrow> [r]) = br_id ` {r \<in> pt_blocks (tables d). br_hash r = hash_key h}"
    using ids_ok [OF b] by (simp add: ids_answer_def)
  show ?thesis
  proof (cases row)
    case None
    with rows have "hash_key h \<notin> br_hash ` pt_blocks (tables d)" by auto
    with pg_hash_iff [OF assms(1,2)] None oi show ?thesis by simp
  next
    case (Some bs)
    with rows obtain r where r: "r \<in> pt_blocks (tables d)" "br_hash r = hash_key h" "bs = br_id r" by auto
    from pg_hash_mem [OF assms(1,2) r(1,2)] r(3) oi Some show ?thesis by auto
  qed
qed

lemma list_session_spec:
  assumes "pg_rel (tables d) a" and "list_session_query lib d session = Inr ids"
  shows "set ids = spec_session session a \<and> sorted_wrt (<) ids"
proof -
  from assms(2) obtain rows where r: "pl_ids lib d (Session_Blocks_Sorted (session_bytes session)) = Inr rows"
    and m: "map_res pg_decode_block_id rows = Inr ids"
    by (auto simp: list_session_query_def rbind_Inr_iff)
  have rows: "rows = map id_bytes ids" by (rule decode_rows [OF m])
  have A: "distinct rows" "sorted rows" "set rows = snd ` {p \<in> pt_refs (tables d). fst p = session_bytes session}"
    using ids_ok [OF r] by (simp_all add: ids_answer_def ordered_def)
  have "snd ` {p \<in> ref_row ` st_members a. fst p = session_bytes session} = id_bytes ` spec_session session a"
    by (force simp: spec_session_def)
  with A(3) have "id_bytes ` set ids = id_bytes ` spec_session session a"
    by (simp add: rows pg_relD(3) [OF assms(1)])
  moreover have "sorted_wrt (<) rows" using A(1,2) by (simp add: strict_sorted_iff)
  then have "sorted_wrt (<) ids" by (simp add: rows sorted_wrt_map id_bytes_def id_key_less)
  ultimately show ?thesis by (simp add: inj_image_eq_iff [of id_bytes] inj_def)
qed

lemma list_sessions_spec:
  assumes "pg_rel (tables d) a" and "list_sessions_query lib d = Inr ss"
  shows "set ss = fst ` st_members a \<and> sorted_wrt (<) ss"
proof -
  from assms(2) obtain rows where r: "pl_ids lib d Distinct_Sessions = Inr rows"
    and m: "map_res pg_decode_block_id rows = Inr ss"
    by (auto simp: list_sessions_query_def rbind_Inr_iff)
  have rows: "rows = map id_bytes ss" by (rule decode_rows [OF m])
  have A: "distinct rows" "sorted rows" "set rows = fst ` pt_refs (tables d)"
    using ids_ok [OF r] by (simp_all add: ids_answer_def ordered_def)
  have "id_bytes ` set ss = id_bytes ` fst ` st_members a"
    using A(3) by (simp add: rows pg_relD(3) [OF assms(1)] image_image session_bytes_def id_bytes_def)
  moreover have "sorted_wrt (<) rows" using A(1,2) by (simp add: strict_sorted_iff)
  then have "sorted_wrt (<) ss" by (simp add: rows sorted_wrt_map id_bytes_def id_key_less)
  ultimately show ?thesis by (simp add: inj_image_eq_iff [of id_bytes] inj_def)
qed

lemma edges_from_spec:
  assumes "pg_rel (tables d) a" and "edges_from_query lib d i = Inr es"
  shows "set es = {e \<in> st_edges a. edge_from e = i} \<and> distinct es \<and>
    sorted_wrt (\<lambda>e f. edge_row_le collate (id_bytes (edge_to e), edge_kind_to_str (edge_kind e))
      (id_bytes (edge_to f), edge_kind_to_str (edge_kind f))) es"
proof -
  let ?g = "\<lambda>e. (id_bytes (edge_to e), edge_kind_to_str (edge_kind e))"
  from assms(2) obtain rows where r: "pl_edges lib d (Edges_From (id_bytes i)) = Inr rows"
    and m: "list_all2 (\<lambda>row e. (\<lambda>(to_b, kind_str). rbind (pg_decode_block_id to_b) (\<lambda>to.
       rbind (edge_kind_from_str kind_str) (\<lambda>kind. Inr \<lparr>edge_from = i, edge_to = to, edge_kind = kind\<rparr>))) row = Inr e) rows es"
    by (auto simp: edges_from_query_def rbind_Inr_iff map_res_Inr_iff)
  have A: "distinct rows" "set rows = edges_set (Edges_From (id_bytes i)) (tables d)" "sorted_wrt (edge_row_le collate) rows"
    using edges_ok [OF r] by (simp_all add: edges_answer_def)
  have sub: "rows = map ?g es \<and> (\<forall>e \<in> set es. edge_from e = i)"
    using m by (induction rule: list_all2_induct) (auto simp: rbind_Inr_iff decode_edge)
  have "?g ` set es = ?g ` {e \<in> st_edges a. edge_from e = i}"
  proof -
    have "?g ` set es = set rows" using sub by simp
    also have "\<dots> = ?g ` {e \<in> st_edges a. edge_from e = i}"
      by (auto simp: A(2) pg_relD(4) [OF assms(1)] edge_row_def image_iff)
    finally show ?thesis .
  qed
  moreover have "inj_on ?g (set es \<union> {e \<in> st_edges a. edge_from e = i})"
    using sub by (auto intro!: inj_onI edge.equality)
  ultimately have "set es = {e \<in> st_edges a. edge_from e = i}"
    by (metis (no_types, lifting) inj_on_image_eq_iff sup_ge1 sup_ge2)
  moreover have "distinct es" using A(1) sub by (simp add: distinct_map)
  moreover have "sorted_wrt (\<lambda>e f. edge_row_le collate (?g e) (?g f)) es"
    using A(3) sub by (simp add: sorted_wrt_map)
  ultimately show ?thesis by blast
qed

lemma edges_to_spec:
  assumes "pg_rel (tables d) a" and "edges_to_query lib d i = Inr es"
  shows "set es = {e \<in> st_edges a. edge_to e = i} \<and> distinct es \<and>
    sorted_wrt (\<lambda>e f. edge_row_le collate (id_bytes (edge_from e), edge_kind_to_str (edge_kind e))
      (id_bytes (edge_from f), edge_kind_to_str (edge_kind f))) es"
proof -
  let ?g = "\<lambda>e. (id_bytes (edge_from e), edge_kind_to_str (edge_kind e))"
  from assms(2) obtain rows where r: "pl_edges lib d (Edges_To (id_bytes i)) = Inr rows"
    and m: "list_all2 (\<lambda>row e. (\<lambda>(from_b, kind_str). rbind (pg_decode_block_id from_b) (\<lambda>from.
       rbind (edge_kind_from_str kind_str) (\<lambda>kind. Inr \<lparr>edge_from = from, edge_to = i, edge_kind = kind\<rparr>))) row = Inr e) rows es"
    by (auto simp: edges_to_query_def rbind_Inr_iff map_res_Inr_iff)
  have A: "distinct rows" "set rows = edges_set (Edges_To (id_bytes i)) (tables d)" "sorted_wrt (edge_row_le collate) rows"
    using edges_ok [OF r] by (simp_all add: edges_answer_def)
  have sub: "rows = map ?g es \<and> (\<forall>e \<in> set es. edge_to e = i)"
    using m by (induction rule: list_all2_induct) (auto simp: rbind_Inr_iff decode_edge)
  have "?g ` set es = ?g ` {e \<in> st_edges a. edge_to e = i}"
  proof -
    have "?g ` set es = set rows" using sub by simp
    also have "\<dots> = ?g ` {e \<in> st_edges a. edge_to e = i}"
      by (auto simp: A(2) pg_relD(4) [OF assms(1)] edge_row_def image_iff)
    finally show ?thesis .
  qed
  moreover have "inj_on ?g (set es \<union> {e \<in> st_edges a. edge_to e = i})"
    using sub by (auto intro!: inj_onI edge.equality)
  ultimately have "set es = {e \<in> st_edges a. edge_to e = i}"
    by (metis (no_types, lifting) inj_on_image_eq_iff sup_ge1 sup_ge2)
  moreover have "distinct es" using A(1) sub by (simp add: distinct_map)
  moreover have "sorted_wrt (\<lambda>e f. edge_row_le collate (?g e) (?g f)) es"
    using A(3) sub by (simp add: sorted_wrt_map)
  ultimately show ?thesis by blast
qed

end

end
