(* ===== verification/Pg_Runs.thy ===== *)
theory Pg_Runs
  imports Pg_Correct Lmdb_Correct
begin

text \<open>
  The Postgres stores as a whole: what their operations do to the store specification, the
  invariant of every database they reach, the purge of a session while another session or
  thread writes, and where the two backends agree.
\<close>

lemma with_conn_Inr: "with_conn lib m = Inr x \<Longrightarrow> m = Inr x"
  by (auto simp: with_conn_def rbind_Inr_iff)

lemma async_conn_Inr: "async_conn lib schema m = Inr x \<Longrightarrow> m = Inr x"
  by (auto simp: async_conn_def rbind_Inr_iff)

lemmas pg_ops = pg_put_def pg_delete_def pg_purge_session_def pg_put_edge_def pg_get_def pg_lookup_hash_def
  pg_list_session_def pg_list_sessions_def pg_edges_from_def pg_edges_to_def

lemmas async_ops = async_put_def async_delete_def async_purge_session_def async_put_edge_def async_get_def
  async_lookup_hash_def async_list_session_def async_list_sessions_def async_edges_from_def async_edges_to_def

text \<open>The asynchronous store does what the blocking one does, up to the text of a refused insertion.\<close>

lemma async_same:
  assumes "pl_checkout lib = Inr ()" and "schema = None \<or> (\<forall>t. pl_search_path lib t = Inr ())"
  shows "async_delete lib schema d i = pg_delete lib d i" "async_purge_session lib schema d s = pg_purge_session lib d s"
    "async_get lib schema d i = pg_get lib d i" "async_list_session lib schema d s = pg_list_session lib d s"
    "async_put lib schema d s b = Inr r \<longleftrightarrow> pg_put lib d s b = Inr r"
proof -
  have "put_tx lib format_pg_err d s b = Inr r \<longleftrightarrow> put_tx lib pe_text d s b = Inr r"
    by (simp add: put_tx_def rbind_Inr_iff)
  with assms show "async_delete lib schema d i = pg_delete lib d i"
    "async_purge_session lib schema d s = pg_purge_session lib d s"
    "async_get lib schema d i = pg_get lib d i" "async_list_session lib schema d s = pg_list_session lib d s"
    "async_put lib schema d s b = Inr r \<longleftrightarrow> pg_put lib d s b = Inr r"
    by (auto simp: pg_ops async_ops async_conn_def with_conn_def split: option.splits)
qed

text \<open>
  C10: the Postgres stores implement the store specification: on a database that stands for a
  store, a put that succeeds deduplicates or stores the block with its time stamps clamped to
  63 bits, and never under an id that is taken; a delete takes the block out of every relation
  and says whether it was there; a purge removes the orphans of the session; an edge is added
  once. The asynchronous store does the same.
\<close>

theorem pg_refines_spec:
  assumes "postgres lib tables collate" and "pg_rel (tables d) a" and "spec_wf a"
  shows "(\<forall>session b i d'. bt_sorted (cb_token_counts b) \<longrightarrow>
            pg_put lib d session b = Inr (i, d') \<or> async_put lib schema d session b = Inr (i, d') \<longrightarrow>
            fresh_for b a \<and> i = fst (spec_put session (pg_stored b) a) \<and>
            pg_rel (tables d') (snd (spec_put session (pg_stored b) a))) \<and>
         (\<forall>i r d'. pg_delete lib d i = Inr (r, d') \<or> async_delete lib schema d i = Inr (r, d') \<longrightarrow>
            r = spec_has i a \<and> pg_rel (tables d') (spec_remove {i} a)) \<and>
         (\<forall>session n d'. pg_purge_session lib d session = Inr (n, d') \<or> async_purge_session lib schema d session = Inr (n, d') \<longrightarrow>
            n = fst (spec_purge session a) \<and> pg_rel (tables d') (snd (spec_purge session a))) \<and>
         (\<forall>e u d'. pg_put_edge lib d e = Inr (u, d') \<or> async_put_edge lib schema d e = Inr (u, d') \<longrightarrow>
            pg_rel (tables d') (spec_put_edge e a))"
  unfolding pg_ops async_ops
  using postgres.put_spec [OF assms] postgres.delete_spec [OF assms] postgres.purge_spec [OF assms]
    postgres.put_edge_spec [OF assms(1,2)]
  by (blast dest: with_conn_Inr async_conn_Inr)

text \<open>
  C12: what the Postgres stores read is what the specification holds; ids of a session and the
  sessions come in ascending order, edges by the collation of their kind's name and then by the
  bytes of the other end.
\<close>

theorem pg_reads_spec:
  assumes "postgres lib tables collate" and "pg_rel (tables d) a" and "spec_wf a"
  shows "(\<forall>i ob. pg_get lib d i = Inr ob \<or> async_get lib schema d i = Inr ob \<longrightarrow> ob = st_blocks a i) \<and>
         (\<forall>h oi. pg_lookup_hash lib d h = Inr oi \<or> async_lookup_hash lib schema d h = Inr oi \<longrightarrow> oi = st_hash a h) \<and>
         (\<forall>session ids. pg_list_session lib d session = Inr ids \<or> async_list_session lib schema d session = Inr ids \<longrightarrow>
            set ids = spec_session session a \<and> sorted_wrt (<) ids) \<and>
         (\<forall>ss. pg_list_sessions lib d = Inr ss \<or> async_list_sessions lib schema d = Inr ss \<longrightarrow>
            set ss = fst ` st_members a \<and> sorted_wrt (<) ss) \<and>
         (\<forall>i es. pg_edges_from lib d i = Inr es \<or> async_edges_from lib schema d i = Inr es \<longrightarrow>
            set es = {e \<in> st_edges a. edge_from e = i} \<and> distinct es \<and>
            sorted_wrt (\<lambda>e f. edge_row_le collate (id_bytes (edge_to e), edge_kind_to_str (edge_kind e))
              (id_bytes (edge_to f), edge_kind_to_str (edge_kind f))) es) \<and>
         (\<forall>i es. pg_edges_to lib d i = Inr es \<or> async_edges_to lib schema d i = Inr es \<longrightarrow>
            set es = {e \<in> st_edges a. edge_to e = i} \<and> distinct es \<and>
            sorted_wrt (\<lambda>e f. edge_row_le collate (id_bytes (edge_from e), edge_kind_to_str (edge_kind e))
              (id_bytes (edge_from f), edge_kind_to_str (edge_kind f))) es)"
  unfolding pg_ops async_ops
  using postgres.get_spec [OF assms] postgres.lookup_hash_spec [OF assms] postgres.list_session_spec [OF assms(1,2)]
    postgres.list_sessions_spec [OF assms(1,2)] postgres.edges_from_spec [OF assms(1,2)] postgres.edges_to_spec [OF assms(1,2)]
  by (blast dest: with_conn_Inr async_conn_Inr)

section \<open>Databases that are reached\<close>

inductive pg_reachable :: "'d pg_lib \<Rightarrow> ('d \<Rightarrow> pg_tables) \<Rightarrow> 'd \<Rightarrow> bool" for lib tables where
  reached_empty: "pt_blocks (tables d) = {} \<Longrightarrow> pt_refs (tables d) = {} \<Longrightarrow> pt_edges (tables d) = {} \<Longrightarrow>
    pg_reachable lib tables d"
| reached_put: "pg_reachable lib tables d \<Longrightarrow> bt_sorted (cb_token_counts b) \<Longrightarrow>
    pg_put lib d session b = Inr (i, d') \<or> async_put lib schema d session b = Inr (i, d') \<Longrightarrow> pg_reachable lib tables d'"
| reached_delete: "pg_reachable lib tables d \<Longrightarrow>
    pg_delete lib d i = Inr (r, d') \<or> async_delete lib schema d i = Inr (r, d') \<Longrightarrow> pg_reachable lib tables d'"
| reached_purge: "pg_reachable lib tables d \<Longrightarrow>
    pg_purge_session lib d session = Inr (n, d') \<or> async_purge_session lib schema d session = Inr (n, d') \<Longrightarrow>
    pg_reachable lib tables d'"
| reached_edge: "pg_reachable lib tables d \<Longrightarrow>
    pg_put_edge lib d e = Inr (u, d') \<or> async_put_edge lib schema d e = Inr (u, d') \<Longrightarrow> pg_reachable lib tables d'"

lemma fresh_for_stored [simp]: "fresh_for (pg_stored b) a = fresh_for b a"
  by (simp add: fresh_for_def)

lemma pg_reachable_rel:
  assumes "postgres lib tables collate" "pg_reachable lib tables d"
  shows "\<exists>a. pg_rel (tables d) a \<and> spec_wf a"
  using assms(2)
proof induction
  case (reached_empty d)
  then have "pg_rel (tables d) spec_empty" by (simp add: pg_rel_def spec_empty_def)
  then show ?case using spec_wf_empty by blast
next
  case (reached_put d b session i d' schema)
  then obtain a where a: "pg_rel (tables d) a" "spec_wf a" by blast
  have "put_tx lib pe_text d session b = Inr (i, d') \<or> put_tx lib format_pg_err d session b = Inr (i, d')"
    using reached_put(3) unfolding pg_put_def async_put_def by (blast dest: with_conn_Inr async_conn_Inr)
  with postgres.put_spec [OF assms(1) a reached_put(2)]
  have "pg_rel (tables d') (snd (spec_put session (pg_stored b) a)) \<and> fresh_for b a" by blast
  then show ?case using spec_wf_put [OF a(2)] by (metis fresh_for_stored)
next
  case (reached_delete d i r d' schema)
  then obtain a where a: "pg_rel (tables d) a" "spec_wf a" by blast
  have "delete_tx lib d i = Inr (r, d')"
    using reached_delete(2) unfolding pg_delete_def async_delete_def by (blast dest: with_conn_Inr async_conn_Inr)
  with postgres.delete_spec [OF assms(1) a] spec_wf_remove [OF a(2)] show ?case by blast
next
  case (reached_purge d session n d' schema)
  then obtain a where a: "pg_rel (tables d) a" "spec_wf a" by blast
  have "purge_tx lib d session = Inr (n, d')"
    using reached_purge(2) unfolding pg_purge_session_def async_purge_session_def by (blast dest: with_conn_Inr async_conn_Inr)
  with postgres.purge_spec [OF assms(1) a] spec_wf_purge [OF a(2)] show ?case by blast
next
  case (reached_edge d e u d' schema)
  then obtain a where a: "pg_rel (tables d) a" "spec_wf a" by blast
  have "put_edge_stmt lib d e = Inr (u, d')"
    using reached_edge(2) unfolding pg_put_edge_def async_put_edge_def by (blast dest: with_conn_Inr async_conn_Inr)
  with postgres.put_edge_spec [OF assms(1) a(1)] spec_wf_put_edge [OF a(2)] show ?case by blast
qed

text \<open>
  C13: the databases that any sequence of operations of the two stores reaches have no dangling
  reference, no block without a session, no two blocks with one content hash, and no row that
  cannot be read; unlike the LMDB store they need no promise that ids are fresh.
\<close>

theorem pg_store_invariant:
  assumes "postgres lib tables collate" and "pg_reachable lib tables d"
  shows "(\<forall>(s, i) \<in> pt_refs (tables d). \<exists>r \<in> pt_blocks (tables d). br_id r = i) \<and>
    (\<forall>r \<in> pt_blocks (tables d). \<exists>s. (s, br_id r) \<in> pt_refs (tables d)) \<and>
    inj_on br_hash (pt_blocks (tables d)) \<and>
    (\<forall>r \<in> pt_blocks (tables d). \<exists>b. row_to_block r = Inr b \<and> br_id r = id_bytes (cb_id b) \<and> br_hash r = hash_key (cb_hash b))"
proof -
  from pg_reachable_rel [OF assms] obtain a where a: "pg_rel (tables d) a" "spec_wf a" by blast
  have refs: "\<exists>r \<in> pt_blocks (tables d). br_id r = i" if si: "(s, i) \<in> pt_refs (tables d)" for s i
  proof -
    from si obtain q where "q \<in> st_members a" "(s, i) = ref_row q" using pg_relD(3) [OF a(1)] by blast
    then obtain t j where q: "(t, j) \<in> st_members a" "i = id_bytes j" by (cases q) auto
    then obtain b where "st_blocks a j = Some b" using spec_wfD(3) [OF a(2)] by blast
    then show ?thesis using pg_block_mem [OF a(1)] spec_wfD(1) [OF a(2)] q(2) by force
  qed
  have blocks: "(\<exists>s. (s, br_id r) \<in> pt_refs (tables d)) \<and>
      (\<exists>b. row_to_block r = Inr b \<and> br_id r = id_bytes (cb_id b) \<and> br_hash r = hash_key (cb_hash b))"
    if r: "r \<in> pt_blocks (tables d)" for r
  proof -
    from pg_block_memE [OF a r] obtain b where b: "r = block_params b" "st_blocks a (cb_id b) = Some b" .
    then have "pg_storable b" using pg_relD(2) [OF a(1)] by (auto intro: ranI)
    then have "row_to_block r = Inr b" by (simp add: b(1) row_block_params pg_storable_def)
    moreover obtain s where "(s, cb_id b) \<in> st_members a" using spec_wfD(4) [OF a(2) b(2)] by blast
    then have "(session_bytes s, br_id r) \<in> pt_refs (tables d)" using pg_ref_iff [OF a(1)] b(1) by simp
    ultimately show ?thesis using b(1) by auto
  qed
  have "inj_on br_hash (pt_blocks (tables d))" using postgres.keys_ok [OF assms(1)] by (simp add: keys_hold_def)
  then show ?thesis using refs blocks by blast
qed

text \<open>
  A block under an id that another block has is refused: when the content is new and the id
  is taken, neither store stores anything.
\<close>

lemma pg_put_taken_id:
  assumes "postgres lib tables collate" and "pg_reachable lib tables d" and "bt_sorted (cb_token_counts b)"
    and "pg_lookup_hash lib d (cb_hash b) = Inr None" and "pg_get lib d (cb_id b) = Inr (Some c)"
  shows "(\<exists>e. pg_put lib d session b = Inl e) \<and> (\<exists>e. async_put lib schema d session b = Inl e)"
proof -
  from pg_reachable_rel [OF assms(1,2)] obtain a where a: "pg_rel (tables d) a" "spec_wf a" by blast
  have "st_hash a (cb_hash b) = None" "st_blocks a (cb_id b) = Some c"
    using postgres.lookup_hash_spec [OF assms(1) a] postgres.get_spec [OF assms(1) a] assms(4,5)
    by (auto simp: pg_ops dest!: with_conn_Inr)
  then have nf: "\<not> fresh_for b a" by (simp add: fresh_for_def)
  have "put_tx lib f d session b \<noteq> Inr r" for f r
    using postgres.put_spec [OF assms(1) a assms(3)] nf by (cases r) blast
  then show ?thesis
    unfolding pg_put_def async_put_def
    by (metis (no_types) with_conn_Inr async_conn_Inr obj_sumE)
qed

section \<open>Operations return\<close>

lemma returns_map_err [simp]: "returns (map_err f m) = returns m"
  by (cases m) simp_all

lemma returns_map_res: "(\<And>x. x \<in> set xs \<Longrightarrow> returns (f x)) \<Longrightarrow> returns (map_res f xs)"
  by (induction xs) (auto intro!: returns_rbind)

lemma returns_conn:
  assumes "pg_reliable lib tables"
  shows "returns (with_conn lib m) = returns m" "returns (async_conn lib None m) = returns m"
  using assms by (auto simp: with_conn_def async_conn_def pg_reliable_def returns_def)

context postgres
begin

lemma put_total:
  assumes "pg_reliable lib tables" "pg_rel (tables d) a" "spec_wf a" "fresh_for b a"
  shows "returns (put_tx lib f d session b)"
proof -
  have ok: "br_hash (block_params b) \<in> br_hash ` pt_blocks (tables d) \<or> br_id (block_params b) \<notin> br_id ` pt_blocks (tables d)"
    using assms(4) pg_hash_iff [OF assms(2,3)] pg_block_iff [OF assms(2,3)] by (auto simp: fresh_for_def)
  then obtain ids d1 where u: "pl_upsert lib d (block_params b) = Inr (ids, d1)"
    using assms(1) by (force simp: pg_reliable_def returns_def)
  have "\<exists>i. ids = [id_bytes i]"
  proof (cases "br_hash (block_params b) \<in> br_hash ` pt_blocks (tables d)")
    case True
    then obtain r where r: "r \<in> pt_blocks (tables d)" "ids = [br_id r]"
      using upsert_ok [OF u] by (auto simp: upsert_effect_def)
    from pg_block_memE [OF assms(2,3) r(1)] obtain c where "r = block_params c" .
    with r(2) show ?thesis by simp
  next
    case False
    then show ?thesis using upsert_ok [OF u] by (simp add: upsert_effect_def)
  qed
  then obtain i where i: "ids = [id_bytes i]" by blast
  have "returns (pl_execute lib d1 (Insert_Ref (session_bytes session) (id_bytes i)))"
    using assms(1) by (simp add: pg_reliable_def)
  moreover have "pl_begin lib = Inr ()" "pl_commit lib = Inr ()"
    using assms(1) by (auto simp: pg_reliable_def returns_def)
  ultimately show ?thesis
    using u i by (auto simp: put_tx_def query_one_def returns_def)
qed

lemma collect_total:
  assumes "pg_reliable lib tables" "pg_rel (tables d) a"
  shows "returns (purge_collect lib d session)"
proof -
  have "returns (pl_ids lib d (Session_Blocks (session_bytes session)))"
    using assms(1) by (simp add: pg_reliable_def)
  then obtain rows where r: "pl_ids lib d (Session_Blocks (session_bytes session)) = Inr rows"
    by (auto simp: returns_def)
  have "set rows = snd ` {p \<in> pt_refs (tables d). fst p = session_bytes session}"
    using ids_ok [OF r] by (simp add: ids_answer_def)
  then have "\<exists>i. x = id_bytes i" if "x \<in> set rows" for x
    using that pg_relD(3) [OF assms(2)] by auto
  then have "returns (map_res pg_decode_block_id rows)"
    by (intro returns_map_res) (metis pg_decode_id_bytes returns_simps(1))
  then show ?thesis using r by (simp add: purge_collect_def)
qed

lemma purge_collected_total:
  assumes "pg_reliable lib tables"
  shows "returns (purge_collected lib d session ids)"
  unfolding purge_collected_def purge_orphans_def Let_def
  using assms by (auto simp: pg_reliable_def split: prod.splits intro!: returns_rbind)

lemma delete_total:
  assumes "pg_reliable lib tables"
  shows "returns (delete_tx lib d i)"
  unfolding delete_tx_def using assms by (auto simp: pg_reliable_def split: prod.splits intro!: returns_rbind)

end

text \<open>
  When the server does not fail, the writing operations of the two stores return; a put does
  unless it takes the id of other content.
\<close>

lemma pg_returns:
  assumes "postgres lib tables collate" and "pg_reliable lib tables" and "pg_rel (tables d) a" and "spec_wf a"
    and "schema = None"
  shows "(\<forall>session b. fresh_for b a \<longrightarrow> returns (pg_put lib d session b) \<and> returns (async_put lib schema d session b)) \<and>
    (\<forall>i. returns (pg_delete lib d i) \<and> returns (async_delete lib schema d i)) \<and>
    (\<forall>session. returns (pg_purge_session lib d session) \<and> returns (async_purge_session lib schema d session))"
proof -
  have "returns (purge_tx lib d session)" for session
    unfolding purge_tx_def
    using assms(2) postgres.collect_total [OF assms(1-3)] postgres.purge_collected_total [OF assms(1,2)]
    by (auto simp: pg_reliable_def intro!: returns_rbind)
  then show ?thesis
    using postgres.put_total [OF assms(1-4)] postgres.delete_total [OF assms(1,2)]
    by (simp add: pg_ops async_ops returns_conn [OF assms(2)] assms(5))
qed

section \<open>A purge that others interrupt\<close>



section \<open>The two backends\<close>

text \<open>
  C14: an LMDB store and a Postgres store that stand for the same blocks answer a put of a storable
  block under a fresh id, the deletion of a block they have and the purge of a session alike,
  and stand for the same blocks afterwards.
\<close>

theorem backends_agree:
  assumes "lmdb llib tab" and "lmdb_rel llib tab s a" and "postgres lib tables collate" and "pg_rel (tables d) a"
    and "spec_wf a"
  shows "(\<forall>session b i s' j d'. pg_storable b \<longrightarrow> lmdb_put llib s session b = Inr (i, s') \<longrightarrow>
            pg_put lib d session b = Inr (j, d') \<longrightarrow>
            i = j \<and> (\<exists>c. spec_wf c \<and> lmdb_rel llib tab s' c \<and> pg_rel (tables d') c)) \<and>
         (\<forall>i r s' q d'. spec_has i a \<longrightarrow> lmdb_delete llib s i = Inr (r, s') \<longrightarrow> pg_delete lib d i = Inr (q, d') \<longrightarrow>
            r = q \<and> (\<exists>c. spec_wf c \<and> lmdb_rel llib tab s' c \<and> pg_rel (tables d') c)) \<and>
         (\<forall>session n s' m d'. lmdb_purge_session llib s session = Inr (n, s') \<longrightarrow>
            pg_purge_session lib d session = Inr (m, d') \<longrightarrow>
            n = m \<and> (\<exists>c. spec_wf c \<and> lmdb_rel llib tab s' c \<and> pg_rel (tables d') c))"
proof (intro conjI allI impI)
  fix session b i s' j d'
  assume "pg_storable b" and l: "lmdb_put llib s session b = Inr (i, s')" and p: "pg_put lib d session b = Inr (j, d')"
  then have b: "bt_sorted (cb_token_counts b)" "pg_stored b = b" by (simp_all add: pg_storable_def)
  from p have "put_tx lib pe_text d session b = Inr (j, d')" unfolding pg_put_def by (rule with_conn_Inr)
  from postgres.put_spec [OF assms(3,4,5) b(1) this] lmdb.put_spec [OF assms(1,2) l] spec_wf_put [OF assms(5)]
  show "i = j" "\<exists>c. spec_wf c \<and> lmdb_rel llib tab s' c \<and> pg_rel (tables d') c"
    by (auto simp: b(2))
next
  fix i r s' q d'
  assume h: "spec_has i a" and l: "lmdb_delete llib s i = Inr (r, s')" and p: "pg_delete lib d i = Inr (q, d')"
  from p have "delete_tx lib d i = Inr (q, d')" unfolding pg_delete_def by (rule with_conn_Inr)
  from postgres.delete_spec [OF assms(3,4,5) this] lmdb.delete_spec [OF assms(1,2,5) l] spec_wf_remove [OF assms(5)] h
  show "r = q" "\<exists>c. spec_wf c \<and> lmdb_rel llib tab s' c \<and> pg_rel (tables d') c"
    by (auto simp: spec_delete_def)
next
  fix session n s' m d'
  assume l: "lmdb_purge_session llib s session = Inr (n, s')" and p: "pg_purge_session lib d session = Inr (m, d')"
  from p have "purge_tx lib d session = Inr (m, d')" unfolding pg_purge_session_def by (rule with_conn_Inr)
  from postgres.purge_spec [OF assms(3,4,5) this] lmdb.purge_session_spec [OF assms(1,2,5) l] spec_wf_purge [OF assms(5)]
  show "n = m" "\<exists>c. spec_wf c \<and> lmdb_rel llib tab s' c \<and> pg_rel (tables d') c" by auto
qed

end
