(* ===== verification/Packer.thy ===== *)
theory Packer
  imports Core_Types Iso8601
begin

text \<open>
  \<open>llm386-packer/src/simple.rs\<close>: the packer that renders a page plan as one prompt
  (\<open>pack\<close>) or as chat messages (\<open>pack_chat\<close>). The system clock and the message of a failed
  UTF-8 check are parameters.
\<close>

definition section_order :: "section_kind list" where
  "section_order =
     [Sec_System, Sec_Task, Sec_State, Sec_Plan, Sec_Retrieved, Sec_Tools, Sec_Recent,
      Sec_Background, Sec_Slack]"

record cache_options =
  co_stable_sections :: "section_kind list"

definition cache_options_default :: cache_options where
  "cache_options_default = \<lparr>co_stable_sections = [Sec_System, Sec_Background]\<rparr>"

record packer_options =
  po_include_timestamps :: bool
  po_now_ms :: "u64 option"
  po_cache :: cache_options

definition packer_options_default :: packer_options where
  "packer_options_default =
     \<lparr>po_include_timestamps = False, po_now_ms = None, po_cache = cache_options_default\<rparr>"

record simple_packer =
  sk_store :: store_view
  sk_tokenizer :: tokenizer
  sk_options :: packer_options

definition simple_packer_new :: "store_view \<Rightarrow> tokenizer \<Rightarrow> simple_packer" where
  "simple_packer_new st tok =
     \<lparr>sk_store = st, sk_tokenizer = tok, sk_options = packer_options_default\<rparr>"

definition with_options :: "packer_options \<Rightarrow> simple_packer \<Rightarrow> simple_packer" where
  "with_options opts pk = pk\<lparr>sk_options := opts\<rparr>"

definition with_timestamps :: "simple_packer \<Rightarrow> simple_packer" where
  "with_timestamps pk = pk\<lparr>sk_options := (sk_options pk)\<lparr>po_include_timestamps := True\<rparr>\<rparr>"

text \<open>What a call takes from outside: the clock and the text of a UTF-8 error.\<close>

record packer_env =
  en_clock_ms :: u64
  en_utf8_error :: "bytes \<Rightarrow> bytes"

definition now_ms :: "packer_env \<Rightarrow> simple_packer \<Rightarrow> u64" where
  "now_ms env pk = (case po_now_ms (sk_options pk) of Some ms \<Rightarrow> ms | None \<Rightarrow> en_clock_ms env)"

section \<open>Shared parts\<close>

fun section_label :: "section_kind \<Rightarrow> bytes" where
  "section_label Sec_System = ''System''"
| "section_label Sec_Task = ''Task''"
| "section_label Sec_State = ''State''"
| "section_label Sec_Plan = ''Plan''"
| "section_label Sec_Retrieved = ''Retrieved''"
| "section_label Sec_Tools = ''Tools''"
| "section_label Sec_Recent = ''Recent''"
| "section_label Sec_Background = ''Background''"
| "section_label Sec_Slack = ''Slack''"

abbreviation newline :: bytes where "newline \<equiv> [CHR 0x0A]"

definition header :: "section_kind \<Rightarrow> bytes" where
  "header s = ''## '' @ section_label s @ newline @ newline"

definition note_line :: "bytes \<Rightarrow> bytes" where
  "note_line note = ''[!] '' @ note @ newline"

definition stamp :: "timestamp \<Rightarrow> bytes" where
  "stamp t = ''['' @ format_iso8601_utc t @ ''] ''"

definition collect_notes :: "page_plan \<Rightarrow> (block_id \<rightharpoonup> bytes)" where
  "collect_notes plan =
     fold (\<lambda>s m. case sel_note s of None \<Rightarrow> m | Some n \<Rightarrow> m(sel_block_id s \<mapsto> n)) (pp_selections plan) Map.empty"

definition block_text :: "packer_env \<Rightarrow> context_block \<Rightarrow> packer_error + bytes" where
  "block_text env b =
     (case from_utf8 (cb_bytes b) of
        Some s \<Rightarrow> Inr s
      | None \<Rightarrow> Inl (Packer_Storage (Backend
          (''non-utf8 block '' @ block_id_display (cb_id b) @ '': '' @ en_utf8_error env (cb_bytes b)))))"

definition load_selected ::
    "simple_packer \<Rightarrow> block_id \<Rightarrow> (section_kind \<Rightarrow> context_block list) \<Rightarrow>
       packer_error + (section_kind \<Rightarrow> context_block list)" where
  "load_selected pk i by_section =
     rbind (map_err Packer_Storage (sv_get (sk_store pk) i)) (\<lambda>ob.
     rbind (ok_or (Packer_Storage (Backend
              (''selected block '' @ block_id_display i @ '' missing from store''))) ob) (\<lambda>block.
       let s = default_section (cb_kind block)
       in Inr (by_section(s := by_section s @ [block]))))"

definition group_selected ::
    "simple_packer \<Rightarrow> page_plan \<Rightarrow> packer_error + (section_kind \<Rightarrow> context_block list)" where
  "group_selected pk plan =
     rbind (for_each (load_selected pk) (pp_selected plan) (\<lambda>_. [])) (\<lambda>by_section.
       Inr (\<lambda>s. sort_by_key cb_id (by_section s)))"

definition count_bytes :: "simple_packer \<Rightarrow> bytes \<Rightarrow> packer_error + token_count" where
  "count_bytes pk s = map_err Packer_Tokenizer (tok_count (sk_tokenizer pk) s)"

definition opt_note :: "(block_id \<rightharpoonup> bytes) \<Rightarrow> context_block \<Rightarrow> bytes" where
  "opt_note notes b = (case notes (cb_id b) of Some n \<Rightarrow> note_line n | None \<Rightarrow> [])"

definition opt_stamp :: "bool \<Rightarrow> context_block \<Rightarrow> bytes" where
  "opt_stamp stamps b = (if stamps then stamp (cb_created_at b) else [])"

section \<open>The string prompt\<close>

record render_state =
  rs_rendered :: bytes
  rs_blocks :: "packed_block list"

definition render_block ::
    "packer_env \<Rightarrow> simple_packer \<Rightarrow> (block_id \<rightharpoonup> bytes) \<Rightarrow> section_kind \<Rightarrow> context_block \<Rightarrow>
       render_state \<Rightarrow> packer_error + render_state" where
  "render_block env pk notes s block rs =
     rbind (block_text env block) (\<lambda>body.
     rbind (count_bytes pk (cb_bytes block)) (\<lambda>tokens.
       Inr \<lparr>rs_rendered = rs_rendered rs @ opt_note notes block @
              opt_stamp (po_include_timestamps (sk_options pk)) block @ body @ newline @ newline,
            rs_blocks = rs_blocks rs @
              [\<lparr>pb_block_id = cb_id block, pb_section = s, pb_tokens = tokens, pb_score = f32_0\<rparr>]\<rparr>))"

definition render_section ::
    "packer_env \<Rightarrow> simple_packer \<Rightarrow> page_request \<Rightarrow> (block_id \<rightharpoonup> bytes) \<Rightarrow>
       (section_kind \<Rightarrow> context_block list) \<Rightarrow> section_kind \<Rightarrow> render_state \<Rightarrow> packer_error + render_state" where
  "render_section env pk req notes by_section s rs =
     (if s = Sec_Slack then Inr rs
      else if s = Sec_Task then
        Inr (if pr_task req = [] then rs
             else rs\<lparr>rs_rendered := rs_rendered rs @ header s @
               (if po_include_timestamps (sk_options pk)
                then ''Current time: '' @ format_iso8601_utc (now_ms env pk) @ newline @ newline else []) @
               pr_task req @ newline @ newline\<rparr>)
      else if by_section s = [] then Inr rs
      else for_each (render_block env pk notes s) (by_section s)
             (rs\<lparr>rs_rendered := rs_rendered rs @ header s\<rparr>))"

definition check_budget :: "page_request \<Rightarrow> token_count \<Rightarrow> packer_error + unit" where
  "check_budget req toks =
     (if input_budget (pr_model req) < toks
      then Inl (BudgetExceeded toks (input_budget (pr_model req))) else Inr ())"

definition pack :: "packer_env \<Rightarrow> simple_packer \<Rightarrow> page_request \<Rightarrow> page_plan \<Rightarrow> packer_error + packed_prompt" where
  "pack env pk req plan =
     rbind (group_selected pk plan) (\<lambda>by_section.
     rbind (for_each (render_section env pk req (collect_notes plan) by_section) section_order
              \<lparr>rs_rendered = [], rs_blocks = []\<rparr>) (\<lambda>rs.
     rbind (count_bytes pk (rs_rendered rs)) (\<lambda>toks.
     rbind (check_budget req toks) (\<lambda>_.
       Inr \<lparr>pk_model = mp_name (pr_model req), pk_input_tokens = toks,
            pk_blocks = rs_blocks rs, pk_rendered = rs_rendered rs\<rparr>))))"

section \<open>The chat prompt\<close>

definition system_side :: "section_kind list" where
  "system_side = [Sec_System, Sec_State, Sec_Plan, Sec_Retrieved, Sec_Background]"

definition ordered_sections :: "section_kind list \<Rightarrow> section_kind list" where
  "ordered_sections stab =
     filter (\<lambda>s. s \<in> set stab) system_side @ filter (\<lambda>s. s \<notin> set stab) system_side"

record chat_state =
  ch_messages :: "chat_message list"
  ch_stable_count :: nat
  ch_in_prefix :: bool

definition chat_body ::
    "packer_env \<Rightarrow> simple_packer \<Rightarrow> (block_id \<rightharpoonup> bytes) \<Rightarrow> context_block \<Rightarrow> bytes \<Rightarrow> packer_error + bytes" where
  "chat_body env pk notes block content =
     rbind (block_text env block) (\<lambda>body.
       Inr (content @ opt_note notes block @
            opt_stamp (po_include_timestamps (sk_options pk)) block @ body @ newline @ newline))"

definition chat_section ::
    "packer_env \<Rightarrow> simple_packer \<Rightarrow> page_request \<Rightarrow> (block_id \<rightharpoonup> bytes) \<Rightarrow>
       (section_kind \<Rightarrow> context_block list) \<Rightarrow> section_kind \<Rightarrow> chat_state \<Rightarrow> packer_error + chat_state" where
  "chat_section env pk req notes by_section s ch =
     (let stab = co_stable_sections (po_cache (sk_options pk));
          role = (if mp_supports_system_role (pr_model req) then Role_System else Role_User)
      in if by_section s = [] then Inr ch
         else rbind (for_each (chat_body env pk notes) (by_section s) (header s)) (\<lambda>content.
           let ch = ch\<lparr>ch_messages := ch_messages ch @
                 [\<lparr>cm_role = role, cm_content = trim_end content, cm_section = Some s\<rparr>]\<rparr>
           in Inr (if ch_in_prefix ch \<and> s \<in> set stab
                   then ch\<lparr>ch_stable_count := ch_stable_count ch + 1\<rparr>
                   else ch\<lparr>ch_in_prefix := False\<rparr>)))"

text \<open>One message of the transcript or one tool result; assistants are never stamped.\<close>

definition chat_message_of ::
    "packer_env \<Rightarrow> simple_packer \<Rightarrow> (block_id \<rightharpoonup> bytes) \<Rightarrow> section_kind \<Rightarrow> chat_role \<Rightarrow> context_block \<Rightarrow>
       packer_error + chat_message" where
  "chat_message_of env pk notes s role block =
     rbind (block_text env block) (\<lambda>body.
       Inr \<lparr>cm_role = role,
            cm_content = opt_note notes block @
              opt_stamp (po_include_timestamps (sk_options pk) \<and> role \<noteq> Role_Assistant) block @ body,
            cm_section = Some s\<rparr>)"

definition recent_role :: "context_block \<Rightarrow> chat_role" where
  "recent_role b = (if cb_kind b = Kind_AssistantMessage then Role_Assistant else Role_User)"

definition task_message :: "packer_env \<Rightarrow> simple_packer \<Rightarrow> page_request \<Rightarrow> chat_message list" where
  "task_message env pk req =
     (if pr_task req = [] then []
      else [\<lparr>cm_role = Role_User,
             cm_content =
               (if po_include_timestamps (sk_options pk)
                then ''Current time: '' @ format_iso8601_utc (now_ms env pk) @ newline @ newline @ pr_task req
                else pr_task req),
             cm_section = Some Sec_Task\<rparr>])"

definition pack_chat :: "packer_env \<Rightarrow> simple_packer \<Rightarrow> page_request \<Rightarrow> page_plan \<Rightarrow> packer_error + chat_prompt" where
  "pack_chat env pk req plan =
     rbind (group_selected pk plan) (\<lambda>by_section.
     let notes = collect_notes plan; stab = co_stable_sections (po_cache (sk_options pk)) in
     rbind (for_each (chat_section env pk req notes by_section) (ordered_sections stab)
              \<lparr>ch_messages = [], ch_stable_count = 0, ch_in_prefix = True\<rparr>) (\<lambda>ch.
     rbind (map_res (\<lambda>b. chat_message_of env pk notes Sec_Recent (recent_role b) b) (by_section Sec_Recent)) (\<lambda>recent.
     rbind (map_res (chat_message_of env pk notes Sec_Tools Role_Tool) (by_section Sec_Tools)) (\<lambda>tools.
     let messages = ch_messages ch @ recent @ tools @ task_message env pk req in
     rbind (for_each (\<lambda>m toks. rbind (count_bytes pk (cm_content m)) (\<lambda>n. Inr (token_saturating_add toks n)))
              messages token_count_zero) (\<lambda>toks.
     rbind (check_budget req toks) (\<lambda>_.
       Inr \<lparr>cp_model = mp_name (pr_model req), cp_input_tokens = toks, cp_messages = messages,
            cp_cache_boundary =
              (if ch_stable_count ch = 0 then None else Some (ch_stable_count ch - 1))\<rparr>))))))"

end
