(* ===== verification/Budget.thy ===== *)
theory Budget
  imports Core_Types
begin

text \<open>
  \<open>llm386-pager/src/budget.rs\<close>: the fractions of the variable budget per section and the
  concrete budgets they give, in the source's single and double precision. Every budget is
  at most the variable budget; the lemmas also say how far the sum can be trusted.
\<close>

type_synonym section_budget_table = "(section_kind, f32) btree"
type_synonym section_allocation = "(section_kind, token_count) btree"

fun fixed_section :: "section_kind \<Rightarrow> bool" where
  "fixed_section Sec_System = True"
| "fixed_section Sec_Task = True"
| "fixed_section _ = False"

definition table_default :: section_budget_table where
  "table_default =
     bt_of_list
       [(Sec_State, rnd32 (10 / 100)), (Sec_Plan, rnd32 (5 / 100)), (Sec_Recent, rnd32 (20 / 100)),
        (Sec_Retrieved, rnd32 (40 / 100)), (Sec_Tools, rnd32 (15 / 100)),
        (Sec_Background, rnd32 (5 / 100)), (Sec_Slack, rnd32 (5 / 100))]"

definition table_empty :: section_budget_table where
  "table_empty = []"

definition table_set :: "section_kind \<Rightarrow> f32 \<Rightarrow> section_budget_table \<Rightarrow> section_budget_table" where
  "table_set s f t = bt_insert s (fclamp f f32_0 f32_1) t"

definition table_with :: "section_budget_table \<Rightarrow> section_kind \<Rightarrow> f32 \<Rightarrow> section_budget_table" where
  "table_with t s f = table_set s f t"

definition fraction :: "section_budget_table \<Rightarrow> section_kind \<Rightarrow> f32" where
  "fraction t s = (case bt_get t s of Some f \<Rightarrow> f | None \<Rightarrow> f32_0)"

definition variable_fractions_sum :: "section_budget_table \<Rightarrow> f32" where
  "variable_fractions_sum t =
     foldl (fadd rnd32) f32_0 (map snd (filter (\<lambda>(s, _). \<not> fixed_section s) t))"

definition budget_scale :: "section_budget_table \<Rightarrow> f32" where
  "budget_scale t =
     (let s = variable_fractions_sum t in if flt f32_1 s then fdiv rnd32 f32_1 s else f32_1)"

definition section_tokens :: "token_count \<Rightarrow> f32 \<Rightarrow> f32 \<Rightarrow> token_count" where
  "section_tokens variable fr scale =
     f64_as_u32 (fmul rnd64 (fmul rnd64 (Fin (of_nat (unat variable))) fr) scale)"

definition allocate_variable :: "section_budget_table \<Rightarrow> token_count \<Rightarrow> section_allocation" where
  "allocate_variable t variable =
     fold (\<lambda>(s, fr) budgets.
       if fixed_section s then budgets
       else bt_insert s (section_tokens variable fr (budget_scale t)) budgets) t []"

definition for_section :: "section_allocation \<Rightarrow> section_kind \<Rightarrow> token_count" where
  "for_section a s = (case bt_get a s of Some n \<Rightarrow> n | None \<Rightarrow> token_count_zero)"

definition allocation_iter :: "section_allocation \<Rightarrow> (section_kind \<times> token_count) list" where
  "allocation_iter a = a"

section \<open>Tables a caller can build\<close>

inductive table_reachable :: "section_budget_table \<Rightarrow> bool" where
  empty: "table_reachable table_empty"
| default: "table_reachable table_default"
| set: "table_reachable t \<Longrightarrow> table_reachable (table_set s f t)"

definition frac_ok :: "f32 \<Rightarrow> bool" where
  "frac_ok f \<longleftrightarrow> (case f of NaN \<Rightarrow> True | Fin q \<Rightarrow> 0 \<le> q \<and> q \<le> 1 | _ \<Rightarrow> False)"

definition table_ok :: "section_budget_table \<Rightarrow> bool" where
  "table_ok t \<longleftrightarrow> bt_sorted t \<and> (\<forall>(s, f)\<in>set t. frac_ok f)"

lemma set_bt_insert_subset: "set (bt_insert k v m) \<subseteq> insert (k, v) (set m)"
  by (induction k v m rule: bt_insert.induct) auto

lemma fclamp_frac_ok: "frac_ok (fclamp f f32_0 f32_1)"
  by (cases f) (auto simp: frac_ok_def fclamp_def Let_def)

lemma table_default_eval:
  "table_default =
     [(Sec_State, Fin (13421773 / 134217728)), (Sec_Plan, Fin (13421773 / 268435456)),
      (Sec_Retrieved, Fin (13421773 / 33554432)), (Sec_Tools, Fin (5033165 / 33554432)),
      (Sec_Recent, Fin (13421773 / 67108864)), (Sec_Background, Fin (13421773 / 268435456)),
      (Sec_Slack, Fin (13421773 / 268435456))]"
  by (simp add: table_default_def bt_of_list_def less_section_kind_def rnd_eval)

lemma table_reachable_ok: "table_reachable t \<Longrightarrow> table_ok t"
proof (induction rule: table_reachable.induct)
  case empty
  then show ?case by (simp add: table_ok_def table_empty_def)
next
  case default
  then show ?case by (simp add: table_ok_def table_default_eval less_section_kind_def frac_ok_def)
next
  case (set t s f)
  then show ?case
    using set_bt_insert_subset [of s "fclamp f f32_0 f32_1" t] fclamp_frac_ok [of f]
    by (auto simp: table_ok_def table_set_def bt_sorted_insert)
qed

section \<open>The budget of one section\<close>

lemma for_section_fold:
  assumes "distinct (map fst t)"
  shows "map_of (fold (\<lambda>(s, f) b. if fixed_section s then b else bt_insert s (g f) b) t b) s =
     (if s \<in> fst ` set t \<and> \<not> fixed_section s then map_option g (map_of t s) else map_of b s)"
  using assms by (induction t arbitrary: b) (auto simp: map_of_bt_insert)

lemma for_section_allocate:
  assumes "bt_sorted t"
  shows "for_section (allocate_variable t v) s =
     (if fixed_section s then 0
      else case bt_get t s of None \<Rightarrow> 0 | Some f \<Rightarrow> section_tokens v f (budget_scale t))"
  using for_section_fold [OF bt_sorted_distinct [OF assms], of "\<lambda>f. section_tokens v f (budget_scale t)" "[]" s]
  by (auto simp: for_section_def allocate_variable_def bt_get_def token_count_zero_def
      split: option.splits dest: map_of_SomeD intro: rev_image_eqI)

lemma budget_scale_range: "\<exists>q. budget_scale t = Fin q \<and> 0 \<le> q \<and> q \<le> 1"
proof (cases "variable_fractions_sum t")
  case (Fin s)
  show ?thesis
  proof (cases "1 < s")
    case True
    then have "0 \<le> 1 / s" "1 / s \<le> of_int 1" by simp_all
    from rnd32_range [OF this] obtain r where "rnd32 (1 / s) = Fin r" "0 \<le> r" "r \<le> 1"
      by (auto simp: pow2_def)
    with Fin True show ?thesis by (simp add: budget_scale_def)
  next
    case False
    with Fin show ?thesis by (simp add: budget_scale_def)
  qed
qed (simp_all add: budget_scale_def)

lemma section_tokens_Fin:
  assumes "0 \<le> q" "q \<le> 1" "0 \<le> s" "s \<le> 1"
  shows "\<exists>r1 r. r1 = rnd_rat 53 (- 1074) (of_nat (unat v) * q) \<and> r = rnd_rat 53 (- 1074) (r1 * s) \<and>
     0 \<le> r1 \<and> r1 \<le> of_nat (unat v) \<and> 0 \<le> r \<and> r \<le> of_nat (unat v) \<and>
     unat (section_tokens v (Fin q) (Fin s)) = nat \<lfloor>r\<rfloor>"
proof -
  let ?v = "of_nat (unat v) :: rat"
  have v32: "?v < 2 ^ 32"
  proof -
    have "unat v < 2 ^ 32" using unat_lt_max [of v] by simp
    then have "?v < of_nat (2 ^ 32)" by (simp only: of_nat_less_iff)
    then show ?thesis by simp
  qed
  have p53: "of_int (int (unat v)) < pow2 53" using v32 by (simp add: pow2_def)
  have "?v * q \<le> ?v * 1" using assms by (intro mult_left_mono) simp_all
  then have "0 \<le> ?v * q" "?v * q \<le> of_int (int (unat v))" using assms by simp_all
  from rnd64_range [OF this p53] obtain r1 where
    r1: "rnd64 (?v * q) = Fin r1" "r1 = rnd_rat 53 (- 1074) (?v * q)" "0 \<le> r1" "r1 \<le> ?v" by auto
  have "r1 * s \<le> r1 * 1" using assms r1 by (intro mult_left_mono) simp_all
  then have "0 \<le> r1 * s" "r1 * s \<le> of_int (int (unat v))" using assms r1 by simp_all
  from rnd64_range [OF this p53] obtain r where
    r: "rnd64 (r1 * s) = Fin r" "r = rnd_rat 53 (- 1074) (r1 * s)" "0 \<le> r" "r \<le> ?v" by auto
  have "r < 2 ^ 32" using r(4) v32 by simp
  then have "unat (section_tokens v (Fin q) (Fin s)) = nat \<lfloor>r\<rfloor>"
    using r(3) by (simp only: section_tokens_def fmul.simps r1(1) r(1) f64_as_u32_Fin)
  with r1 r show ?thesis by auto
qed

lemma section_tokens_le:
  assumes "frac_ok f" "0 \<le> s" "s \<le> 1"
  shows "section_tokens v f (Fin s) \<le> v"
proof (cases f)
  case NaN
  then show ?thesis by (simp add: section_tokens_def f64_as_u32_def)
next
  case (Fin q)
  with assms have q: "0 \<le> q" "q \<le> 1" by (simp_all add: frac_ok_def)
  from section_tokens_Fin [OF q assms(2,3), of v] obtain r1 r :: rat where
    "0 \<le> r" and r: "r \<le> of_nat (unat v)" "unat (section_tokens v (Fin q) (Fin s)) = nat \<lfloor>r\<rfloor>"
    by (elim exE conjE) (rule that, assumption, assumption, assumption)
  have "nat \<lfloor>r\<rfloor> \<le> nat \<lfloor>of_nat (unat v) :: rat\<rfloor>"
    using r(1) by (intro nat_mono floor_mono)
  then have "nat \<lfloor>r\<rfloor> \<le> unat v" by (simp only: floor_of_nat nat_int)
  then show ?thesis using r(2) Fin by (simp add: word_le_nat_alt)
qed (use assms in \<open>simp_all add: frac_ok_def\<close>)

section \<open>The allocation\<close>

lemma budget_scale_default: "budget_scale table_default = f32_1"
  by (simp add: budget_scale_def variable_fractions_sum_def table_default_eval rnd_eval)

lemma allocate_default:
  "allocate_variable table_default v =
     [(Sec_State, section_tokens v (Fin (13421773 / 134217728)) f32_1),
      (Sec_Plan, section_tokens v (Fin (13421773 / 268435456)) f32_1),
      (Sec_Retrieved, section_tokens v (Fin (13421773 / 33554432)) f32_1),
      (Sec_Tools, section_tokens v (Fin (5033165 / 33554432)) f32_1),
      (Sec_Recent, section_tokens v (Fin (13421773 / 67108864)) f32_1),
      (Sec_Background, section_tokens v (Fin (13421773 / 268435456)) f32_1),
      (Sec_Slack, section_tokens v (Fin (13421773 / 268435456)) f32_1)]"
  unfolding allocate_variable_def budget_scale_default
  by (simp add: table_default_eval less_section_kind_def)

definition allocation_sum :: "section_allocation \<Rightarrow> nat" where
  "allocation_sum a = sum_list (map (unat \<circ> snd) a)"

text \<open>
  No section is given more than the variable budget, whatever fractions were configured,
  and the fixed sections and the sections without a fraction are given nothing.
\<close>

lemma allocate_section_le:
  assumes "table_reachable t"
  shows "for_section (allocate_variable t v) s \<le> v \<and>
    (fixed_section s \<or> bt_get t s = None \<longrightarrow> for_section (allocate_variable t v) s = 0)"
proof -
  from assms have ok: "table_ok t" by (rule table_reachable_ok)
  then have sorted: "bt_sorted t" by (simp add: table_ok_def)
  obtain q where q: "budget_scale t = Fin q" "0 \<le> q" "q \<le> 1" using budget_scale_range by blast
  have "frac_ok f" if "bt_get t s = Some f" for f
    using ok that by (auto simp: table_ok_def bt_get_def dest: map_of_SomeD)
  then show ?thesis
    using section_tokens_le [OF _ q(2,3)]
    by (auto simp: for_section_allocate [OF sorted] q(1) split: option.splits)
qed

lemma allocate_section_le_witness:
  "for_section (allocate_variable table_default 1000) Sec_Retrieved = 400 \<and>
   for_section (allocate_variable table_default 1000) Sec_Retrieved \<le> (1000 :: token_count)"
proof
  show "for_section (allocate_variable table_default 1000) Sec_Retrieved = 400"
    by (simp add: allocate_default for_section_def bt_get_def section_tokens_def rnd_eval f64_as_u32_def)
  show "for_section (allocate_variable table_default 1000) Sec_Retrieved \<le> (1000 :: token_count)"
    using allocate_section_le [OF table_reachable.default, of 1000 Sec_Retrieved] by simp
qed

text \<open>
  One section of a default-like table (scale 1): the rounded product stays close to the
  exact one while the variable budget is below \<open>2 ^ 26\<close>.
\<close>

lemma section_tokens_close:
  assumes "0 \<le> q" "q \<le> 1" "unat v < 2 ^ 26"
  shows "(of_nat (unat (section_tokens v (Fin q) (Fin 1))) :: rat) \<le> of_nat (unat v) * q + 1 / 2 ^ 27"
proof -
  let ?v = "of_nat (unat v) :: rat"
  from section_tokens_Fin [OF assms(1,2), of 1 v] obtain r1 r :: rat where
    r: "r1 = rnd_rat 53 (- 1074) (?v * q)" "r = rnd_rat 53 (- 1074) (r1 * 1)"
    "0 \<le> r1" "r1 \<le> ?v" "0 \<le> r"
    "unat (section_tokens v (Fin q) (Fin 1)) = nat \<lfloor>r\<rfloor>"
    by auto
  have "?v < of_nat (2 ^ 26)" using assms(3) by (simp only: of_nat_less_iff)
  then have v: "?v < pow2 26" by (simp add: pow2_def)
  have "?v * q \<le> ?v * 1" using assms by (intro mult_left_mono) simp_all
  then have "r1 \<le> ?v * q + pow2 (26 - 53) / 2"
    unfolding r(1) using assms v by (intro rnd_rat_err_below) simp_all
  moreover have "r \<le> r1 * 1 + pow2 (26 - 53) / 2"
    unfolding r(2) using r(3,4) v by (intro rnd_rat_err_below) simp_all
  moreover have "of_nat (nat \<lfloor>r\<rfloor>) \<le> r" using r(5) by simp
  ultimately show ?thesis using r(6) by (simp add: pow2_def)
qed

text \<open>
  With the default fractions the section budgets add up to at most the variable budget,
  for every budget up to \<open>2 ^ 25\<close> tokens.
\<close>

lemma allocate_default_sum:
  assumes "unat v \<le> 2 ^ 25"
  shows "allocation_sum (allocate_variable table_default v) \<le> unat v"
proof -
  let ?S = "allocation_sum (allocate_variable table_default v)"
  have v: "unat v < 2 ^ 26" using assms by simp
  note close = section_tokens_close [OF _ _ v]
  have "(of_nat ?S :: rat) \<le> of_nat (unat v) * (268435461 / 268435456) + 7 / 2 ^ 27"
    using close [of "13421773 / 134217728"] close [of "13421773 / 268435456"]
      close [of "13421773 / 33554432"] close [of "5033165 / 33554432"] close [of "13421773 / 67108864"]
    by (simp add: allocation_sum_def allocate_default)
  also have "\<dots> < of_nat (unat v) + 1"
  proof -
    have "(of_nat (unat v) :: rat) \<le> of_nat (2 ^ 25)" using assms by (simp only: of_nat_le_iff)
    then show ?thesis by simp
  qed
  finally have "(of_nat ?S :: rat) < of_nat (unat v + 1)" by simp
  then show ?thesis by (simp only: of_nat_less_iff)
qed

lemma allocate_default_sum_witness: "allocation_sum (allocate_variable table_default 128000) \<le> 128000"
  using allocate_default_sum [of 128000] by simp

text \<open>
  The normalization does not bound the sum in general. At four billion tokens the default
  fractions, which round up to a little more than one, hand out more than the variable
  budget; and a fraction that is not a number hides from the test of the sum that the others
  add up to two.
\<close>

lemma allocation_can_exceed_variable:
  "allocation_sum (allocate_variable table_default 4000000000) > unat (4000000000 :: token_count) \<and>
   allocation_sum (allocate_variable
     (table_set Sec_Plan NaN (table_set Sec_Tools f32_1 (table_set Sec_State f32_1 table_empty))) 1000)
     = 2 * unat (1000 :: token_count)"
proof
  show "allocation_sum (allocate_variable table_default 4000000000) > unat (4000000000 :: token_count)"
    by (simp add: allocation_sum_def allocate_default section_tokens_def rnd_eval f64_as_u32_def)
  let ?t = "table_set Sec_Plan NaN (table_set Sec_Tools f32_1 (table_set Sec_State f32_1 table_empty))"
  have t: "?t = [(Sec_State, f32_1), (Sec_Plan, NaN), (Sec_Tools, f32_1)]"
    by (simp add: table_set_def table_empty_def fclamp_def less_section_kind_def)
  show "allocation_sum (allocate_variable ?t 1000) = 2 * unat (1000 :: token_count)"
    unfolding t
    by (simp add: allocation_sum_def allocate_variable_def budget_scale_def variable_fractions_sum_def
        less_section_kind_def section_tokens_def rnd_eval f64_as_u32_def)
qed

end
