(* ===== verification/Edges.thy ===== *)
theory Edges
  imports Core_Types
begin

text \<open>
  \<open>llm386-pager/src/edges.rs\<close>: what each kind of edge does when a working set is assembled,
  and the bounds of the traversal.
\<close>

definition max_depth_ceiling :: u8 where
  "max_depth_ceiling = 5"

datatype parent_mode = Parent_Off | ContainerOnly | Bidirectional
datatype derived_mode = Derived_Off | CoRetrieveSource | SuppressSource
datatype supports_mode = Supports_Off | Supports_CoRetrieve
datatype contradict_mode = Contradict_Off | PreferNewer | Flag
datatype tool_mode = Tool_Off | Tool_CoRetrieve

record edge_policy =
  ep_enabled :: bool
  ep_max_depth :: u8
  ep_max_fanout :: nat
  ep_follow_provenance_parents :: bool
  ep_parent :: parent_mode
  ep_derived_from :: derived_mode
  ep_supports :: supports_mode
  ep_contradicts :: contradict_mode
  ep_tool_invocation :: tool_mode

definition edge_policy_default :: edge_policy where
  "edge_policy_default =
     \<lparr>ep_enabled = True, ep_max_depth = 1, ep_max_fanout = 8,
      ep_follow_provenance_parents = False, ep_parent = ContainerOnly,
      ep_derived_from = CoRetrieveSource, ep_supports = Supports_CoRetrieve,
      ep_contradicts = Flag, ep_tool_invocation = Tool_CoRetrieve\<rparr>"

definition edge_policy_disabled :: edge_policy where
  "edge_policy_disabled = edge_policy_default\<lparr>ep_enabled := False\<rparr>"

definition effective_depth :: "edge_policy \<Rightarrow> u8" where
  "effective_depth p = min (ep_max_depth p) max_depth_ceiling"

definition pulls_outgoing :: "edge_policy \<Rightarrow> edge_kind \<Rightarrow> bool" where
  "pulls_outgoing p k =
     (case k of
        Parent \<Rightarrow> ep_parent p = ContainerOnly \<or> ep_parent p = Bidirectional
      | DerivedFrom \<Rightarrow> ep_derived_from p = CoRetrieveSource
      | Supports \<Rightarrow> ep_supports p = Supports_CoRetrieve
      | Contradicts \<Rightarrow> False
      | ToolInvocation \<Rightarrow> ep_tool_invocation p = Tool_CoRetrieve)"

definition pulls_children :: "edge_policy \<Rightarrow> bool" where
  "pulls_children p \<longleftrightarrow> ep_parent p = Bidirectional"

definition reconciles :: "edge_policy \<Rightarrow> bool" where
  "reconciles p \<longleftrightarrow> ep_derived_from p = SuppressSource \<or> ep_contradicts p \<noteq> Contradict_Off"

lemma effective_depth_le: "unat (effective_depth p) \<le> 5"
proof -
  have "effective_depth p \<le> max_depth_ceiling" by (simp add: effective_depth_def)
  then have "unat (effective_depth p) \<le> unat max_depth_ceiling" by (simp only: word_le_nat_alt)
  then show ?thesis by (simp add: max_depth_ceiling_def)
qed

end
