(* ===== verification/Pager.thy ===== *)
theory Pager
  imports Budget Edges Retrievers
begin

text \<open>
  \<open>llm386-pager/src/greedy.rs\<close>: the greedy pager. The loops are folds over explicit state;
  every \<open>?\<close> of the source is an \<open>rbind\<close>. The iteration orders of the three hash maps the
  source loops over (candidates by id, candidates by section, edge targets by kind) are
  parameters, as is Unicode lower-casing.
\<close>

definition retrieval_limit :: nat where
  "retrieval_limit = 4096"

record scoring_policy =
  sp_priority_weight :: f32
  sp_redundancy_threshold :: "f32 option"
  sp_edge_policy :: edge_policy
  sp_summary_fallback :: bool

definition scoring_default :: scoring_policy where
  "scoring_default =
     \<lparr>sp_priority_weight = rnd32 (5 / 10), sp_redundancy_threshold = None,
      sp_edge_policy = edge_policy_default, sp_summary_fallback = False\<rparr>"

record greedy_pager =
  gp_store :: store_view
  gp_tokenizer :: tokenizer
  gp_scoring :: scoring_policy
  gp_budgets :: section_budget_table
  gp_retrievers :: "retriever list"

definition greedy_pager_new :: "(f32 \<Rightarrow> f32) \<Rightarrow> store_view \<Rightarrow> tokenizer \<Rightarrow> greedy_pager" where
  "greedy_pager_new exp2 st tok =
     \<lparr>gp_store = st, gp_tokenizer = tok, gp_scoring = scoring_default, gp_budgets = table_default,
      gp_retrievers = [recency_retriever exp2 st None]\<rparr>"

definition with_scoring :: "scoring_policy \<Rightarrow> greedy_pager \<Rightarrow> greedy_pager" where
  "with_scoring sp gp = gp\<lparr>gp_scoring := sp\<rparr>"

definition with_budgets :: "section_budget_table \<Rightarrow> greedy_pager \<Rightarrow> greedy_pager" where
  "with_budgets t gp = gp\<lparr>gp_budgets := t\<rparr>"

definition with_retrievers :: "retriever list \<Rightarrow> greedy_pager \<Rightarrow> greedy_pager" where
  "with_retrievers rs gp = gp\<lparr>gp_retrievers := rs\<rparr>"

definition with_edge_policy :: "edge_policy \<Rightarrow> greedy_pager \<Rightarrow> greedy_pager" where
  "with_edge_policy p gp = gp\<lparr>gp_scoring := (gp_scoring gp)\<lparr>sp_edge_policy := p\<rparr>\<rparr>"

definition add_retriever :: "retriever \<Rightarrow> greedy_pager \<Rightarrow> greedy_pager" where
  "add_retriever r gp = gp\<lparr>gp_retrievers := gp_retrievers gp @ [r]\<rparr>"

text \<open>The orders in which the hash maps of one run are iterated.\<close>

record hash_orders =
  ho_ids :: "block_id list \<Rightarrow> block_id list"
  ho_sections :: "section_kind list \<Rightarrow> section_kind list"
  ho_kinds :: "block_id \<Rightarrow> edge_kind list \<Rightarrow> edge_kind list"

definition hash_orders_ok :: "hash_orders \<Rightarrow> bool" where
  "hash_orders_ok ord \<longleftrightarrow>
     (\<forall>xs. mset (ho_ids ord xs) = mset xs) \<and> (\<forall>xs. mset (ho_sections ord xs) = mset xs) \<and>
     (\<forall>b xs. mset (ho_kinds ord b xs) = mset xs)"

section \<open>Candidates\<close>

record cand =
  cd_id :: block_id
  cd_tokens :: token_count
  cd_score :: f32
  cd_word_set :: "bytes list option"

definition word_set :: "(bytes \<Rightarrow> bytes) \<Rightarrow> bytes \<Rightarrow> bytes list" where
  "word_set lower bs =
     remdups (map lower (split_whitespace (case from_utf8 bs of Some s \<Rightarrow> s | None \<Rightarrow> [])))"

definition jaccard :: "bytes list \<Rightarrow> bytes list \<Rightarrow> f32" where
  "jaccard a b =
     (let inter = length (filter (\<lambda>w. w \<in> set b) a);
          union = length (a @ filter (\<lambda>w. w \<notin> set a) b)
      in if union = 0 then f32_0 else fdiv rnd32 (nat_as_f32 inter) (nat_as_f32 union))"

definition score_per_token :: "cand \<Rightarrow> f32" where
  "score_per_token c = fdiv rnd32 (cd_score c) (nat_as_f32 (unat (max (cd_tokens c) 1)))"

definition cand_cmp :: "cand \<Rightarrow> cand \<Rightarrow> ordering" where
  "cand_cmp a b =
     then_with (unwrap_equal (partial_cmp (score_per_token b) (score_per_token a)))
       (then_with (unwrap_equal (partial_cmp (cd_score b) (cd_score a))) (cmp_of (cd_id b) (cd_id a)))"

definition sort_candidates :: "cand list \<Rightarrow> cand list" where
  "sort_candidates = sort_by cand_cmp"

definition pager_get :: "greedy_pager \<Rightarrow> block_id \<Rightarrow> pager_error + context_block option" where
  "pager_get gp i = map_err Pager_Storage (sv_get (gp_store gp) i)"

definition tokens_for :: "tokenizer \<Rightarrow> context_block \<Rightarrow> pager_error + token_count" where
  "tokens_for tok block =
     (case tc_get (cb_token_counts block) (tok_id tok) of
        Some n \<Rightarrow> Inr n
      | None \<Rightarrow> map_err Pager_Tokenizer (tok_count tok (cb_bytes block)))"

section \<open>The working set\<close>

text \<open>
  \<open>pg_prompt_total\<close> counts the task too; \<open>pg_block_tokens\<close> counts the selected blocks only.
\<close>

record pager_state =
  pg_selected :: "block_id list"
  pg_selections :: "selection list"
  pg_omitted :: "omitted_block list"
  pg_prompt_total :: token_count
  pg_block_tokens :: token_count

definition fits :: "token_count \<Rightarrow> token_count \<Rightarrow> token_count \<Rightarrow> bool" where
  "fits used tokens budget \<longleftrightarrow> token_saturating_add used tokens \<le> budget"

definition select_block ::
    "block_id \<Rightarrow> token_count \<Rightarrow> f32 \<Rightarrow> selection_reason \<Rightarrow> 'a pager_state_scheme \<Rightarrow> 'a pager_state_scheme" where
  "select_block i tokens score reason st =
     st\<lparr>pg_prompt_total := token_saturating_add (pg_prompt_total st) tokens,
        pg_block_tokens := token_saturating_add (pg_block_tokens st) tokens,
        pg_selected := pg_selected st @ [i],
        pg_selections := pg_selections st @
          [\<lparr>sel_block_id = i, sel_score = score, sel_reason = reason, sel_note = None\<rparr>]\<rparr>"

definition omit_block ::
    "cand \<Rightarrow> omission_reason \<Rightarrow> 'a pager_state_scheme \<Rightarrow> 'a pager_state_scheme" where
  "omit_block c reason st =
     st\<lparr>pg_omitted := pg_omitted st @
          [\<lparr>om_block_id = cd_id c, om_reason = reason, om_score = cd_score c\<rparr>]\<rparr>"

definition pager_init :: pager_state where
  "pager_init =
     \<lparr>pg_selected = [], pg_selections = [], pg_omitted = [],
      pg_prompt_total = token_count_zero, pg_block_tokens = token_count_zero\<rparr>"

section \<open>Step 1: required blocks\<close>

definition add_required ::
    "greedy_pager \<Rightarrow> token_count \<Rightarrow> block_id \<Rightarrow> pager_state \<Rightarrow> pager_error + pager_state" where
  "add_required gp budget i st =
     rbind (pager_get gp i) (\<lambda>ob.
     rbind (ok_or (RequiredBlockMissing i) ob) (\<lambda>block.
     rbind (tokens_for (gp_tokenizer gp) block) (\<lambda>tokens.
       if fits (pg_prompt_total st) tokens budget
       then Inr (select_block i tokens f32_1 Pinned st)
       else Inl RequiredOverBudget)))"

section \<open>Step 2: the task\<close>

definition task_tokens :: "greedy_pager \<Rightarrow> bytes \<Rightarrow> pager_error + token_count" where
  "task_tokens gp task =
     (if task = [] then Inr token_count_zero
      else map_err Pager_Tokenizer (tok_count (gp_tokenizer gp) task))"

section \<open>Step 3: candidates from the retrievers\<close>

fun upsert_max :: "block_id \<Rightarrow> f32 \<Rightarrow> (block_id \<times> f32) list \<Rightarrow> (block_id \<times> f32) list" where
  "upsert_max i s [] = [(i, s)]"
| "upsert_max i s ((j, x) # m) =
     (if j = i then (j, if flt x s then s else x) # m else (j, x) # upsert_max i s m)"

definition merge_candidates ::
    "block_id set \<Rightarrow> retrieval_candidate list \<Rightarrow> (block_id \<times> f32) list \<Rightarrow> (block_id \<times> f32) list" where
  "merge_candidates required cands m =
     fold (\<lambda>c m. if rc_block_id c \<in> required then m else upsert_max (rc_block_id c) (rc_score c) m) cands m"

definition gather ::
    "greedy_pager \<Rightarrow> page_request \<Rightarrow> pager_error + (block_id \<times> f32) list" where
  "gather gp req =
     for_each (\<lambda>r m.
         rbind (map_err Pager_Retrieval (ret_retrieve r (pr_session_id req) (pr_task req) retrieval_limit))
           (\<lambda>cands. Inr (merge_candidates (set (pr_required_blocks req)) cands m)))
       (gp_retrievers gp) []"

type_synonym sections = "section_kind \<Rightarrow> cand list"

definition candidate_of ::
    "greedy_pager \<Rightarrow> (bytes \<Rightarrow> bytes) \<Rightarrow> f32 \<Rightarrow> context_block \<Rightarrow> token_count \<Rightarrow> cand" where
  "candidate_of gp lower base_score block tokens =
     (let priority = fclamp (cb_priority block) f32_0 f32_1;
          final_score = fadd rnd32 base_score (fmul rnd32 (sp_priority_weight (gp_scoring gp)) priority);
          ws = (if sp_redundancy_threshold (gp_scoring gp) \<noteq> None
                then Some (word_set lower (cb_bytes block)) else None)
      in \<lparr>cd_id = cb_id block, cd_tokens = tokens, cd_score = final_score, cd_word_set = ws\<rparr>)"

definition base_score :: "(block_id \<times> f32) list \<Rightarrow> block_id \<Rightarrow> f32" where
  "base_score scores i = (case map_of scores i of Some s \<Rightarrow> s | None \<Rightarrow> f32_0)"

definition load_candidate ::
    "greedy_pager \<Rightarrow> (bytes \<Rightarrow> bytes) \<Rightarrow> (block_id \<times> f32) list \<Rightarrow> block_id \<Rightarrow> sections \<Rightarrow>
       pager_error + sections" where
  "load_candidate gp lower scores i by_section =
     rbind (pager_get gp i) (\<lambda>ob.
       case ob of
         None \<Rightarrow> Inr by_section
       | Some block \<Rightarrow>
           rbind (tokens_for (gp_tokenizer gp) block) (\<lambda>tokens.
             let s = default_section (cb_kind block)
             in Inr (by_section(s := by_section s @
                       [candidate_of gp lower (base_score scores i) block tokens]))))"

lemma candidate_of_sel [simp]:
  "cd_id (candidate_of gp lower bs b t) = cb_id b" "cd_tokens (candidate_of gp lower bs b t) = t"
  by (simp_all add: candidate_of_def Let_def)

definition load_candidates ::
    "greedy_pager \<Rightarrow> hash_orders \<Rightarrow> (bytes \<Rightarrow> bytes) \<Rightarrow> (block_id \<times> f32) list \<Rightarrow> pager_error + sections" where
  "load_candidates gp ord lower scores =
     rbind (for_each (load_candidate gp lower scores) (ho_ids ord (map fst scores)) (\<lambda>_. []))
       (\<lambda>by_section. Inr (\<lambda>s. sort_candidates (by_section s)))"

section \<open>Step 4: System blocks\<close>

definition fill_system_candidate :: "token_count \<Rightarrow> cand \<Rightarrow> pager_state \<Rightarrow> pager_state" where
  "fill_system_candidate budget c st =
     (if fits (pg_prompt_total st) (cd_tokens c) budget
      then select_block (cd_id c) (cd_tokens c) (cd_score c) HighRelevance st
      else omit_block c Om_Budget st)"

definition fill_system :: "token_count \<Rightarrow> cand list \<Rightarrow> pager_state \<Rightarrow> pager_state" where
  "fill_system budget cands st = fold (fill_system_candidate budget) cands st"

section \<open>Step 5: the variable sections\<close>

definition index_summary ::
    "greedy_pager \<Rightarrow> block_id \<Rightarrow> (block_id \<rightharpoonup> block_id) \<Rightarrow> pager_error + (block_id \<rightharpoonup> block_id)" where
  "index_summary gp i m =
     rbind (pager_get gp i) (\<lambda>ob.
       case ob of
         None \<Rightarrow> Inr m
       | Some block \<Rightarrow>
           if cb_kind block \<noteq> Kind_Summary then Inr m
           else Inr (fold (\<lambda>p m. if m p = None then m(p \<mapsto> i) else m)
                       (prov_parents (cb_provenance block)) m))"

definition build_summary_index ::
    "greedy_pager \<Rightarrow> session_id \<Rightarrow> pager_error + (block_id \<rightharpoonup> block_id)" where
  "build_summary_index gp session =
     rbind (map_err Pager_Storage (sv_list_session (gp_store gp) session)) (\<lambda>ids.
       for_each (index_summary gp) ids Map.empty)"

record fill_state = pager_state +
  fs_section_used :: token_count
  fs_word_sets :: "bytes list list"
  fs_compressed_into :: "block_id list"

definition redundant :: "greedy_pager \<Rightarrow> cand \<Rightarrow> fill_state \<Rightarrow> bool" where
  "redundant gp c st =
     (case (sp_redundancy_threshold (gp_scoring gp), cd_word_set c) of
        (Some t, Some ws) \<Rightarrow> list_ex (\<lambda>sel. fle t (jaccard ws sel)) (fs_word_sets st)
      | _ \<Rightarrow> False)"

definition use_section :: "token_count \<Rightarrow> fill_state \<Rightarrow> fill_state" where
  "use_section tokens st = st\<lparr>fs_section_used := token_saturating_add (fs_section_used st) tokens\<rparr>"

definition fill_candidate ::
    "greedy_pager \<Rightarrow> token_count \<Rightarrow> token_count \<Rightarrow> (block_id \<rightharpoonup> block_id) \<Rightarrow> cand \<Rightarrow> fill_state \<Rightarrow>
       pager_error + fill_state" where
  "fill_candidate gp input_bud section_bud summary_for c st =
     (if redundant gp c st then Inr (omit_block c Om_Redundant st)
      else if fits (fs_section_used st) (cd_tokens c) section_bud \<and>
              fits (pg_prompt_total st) (cd_tokens c) input_bud
      then
        let st = select_block (cd_id c) (cd_tokens c) (cd_score c) HighRelevance
                   (use_section (cd_tokens c) st)
        in Inr (case cd_word_set c of
                  None \<Rightarrow> st
                | Some ws \<Rightarrow> st\<lparr>fs_word_sets := fs_word_sets st @ [ws]\<rparr>)
      else
        case (if sp_summary_fallback (gp_scoring gp) then summary_for (cd_id c) else None) of
          None \<Rightarrow> Inr (omit_block c Om_Budget st)
        | Some summary_id \<Rightarrow>
            if summary_id \<in> set (fs_compressed_into st) then Inr (omit_block c Om_Compressed st)
            else rbind (pager_get gp summary_id) (\<lambda>ob.
              case ob of
                None \<Rightarrow> Inr (omit_block c Om_Budget st)
              | Some s_block \<Rightarrow>
                  rbind (tokens_for (gp_tokenizer gp) s_block) (\<lambda>s_tokens.
                    if fits (fs_section_used st) s_tokens section_bud \<and>
                       fits (pg_prompt_total st) s_tokens input_bud
                    then
                      let st = select_block summary_id s_tokens (cd_score c) HighRelevance
                                 (use_section s_tokens st);
                          st = st\<lparr>fs_compressed_into := summary_id # fs_compressed_into st\<rparr>
                      in Inr (omit_block c Om_Compressed st)
                    else Inr (omit_block c Om_Budget st))))"

definition fill_section ::
    "greedy_pager \<Rightarrow> token_count \<Rightarrow> section_allocation \<Rightarrow> (block_id \<rightharpoonup> block_id) \<Rightarrow> sections \<Rightarrow>
       section_kind \<Rightarrow> fill_state \<Rightarrow> pager_error + fill_state" where
  "fill_section gp input_bud allocation summary_for by_section s st =
     (if s = Sec_Slack then Inr (fold (\<lambda>c. omit_block c Om_Budget) (by_section s) st)
      else for_each (fill_candidate gp input_bud (for_section allocation s) summary_for) (by_section s)
             (st\<lparr>fs_section_used := token_count_zero, fs_word_sets := []\<rparr>))"

definition all_sections :: "section_kind list" where
  "all_sections =
     [Sec_System, Sec_Task, Sec_State, Sec_Plan, Sec_Retrieved, Sec_Tools, Sec_Recent,
      Sec_Background, Sec_Slack]"

definition fill_variable ::
    "greedy_pager \<Rightarrow> hash_orders \<Rightarrow> token_count \<Rightarrow> session_id \<Rightarrow> sections \<Rightarrow> pager_state \<Rightarrow>
       pager_error + pager_state" where
  "fill_variable gp ord input_bud session by_section st =
     (let variable = token_saturating_sub input_bud (pg_prompt_total st);
          allocation = allocate_variable (gp_budgets gp) variable
      in rbind (if sp_summary_fallback (gp_scoring gp) then build_summary_index gp session
                else Inr Map.empty) (\<lambda>summary_for.
         rbind (for_each (fill_section gp input_bud allocation summary_for by_section)
                  (ho_sections ord
                     (filter (\<lambda>s. s \<noteq> Sec_System \<and> by_section s \<noteq> []) all_sections))
                  (pager_state.extend st (fill_state.fields token_count_zero [] [])))
           (\<lambda>st. Inr (pager_state.truncate st))))"

section \<open>Step 6: edge expansion\<close>

definition all_edge_kinds :: "edge_kind list" where
  "all_edge_kinds = [Parent, DerivedFrom, Supports, Contradicts, ToolInvocation]"

text \<open>Newest first: the high bits of a block id are its creation time.\<close>

definition newest_first :: "nat \<Rightarrow> block_id list \<Rightarrow> block_id list" where
  "newest_first n ids = take n (sort_by (\<lambda>a b. cmp_of b a) ids)"

definition collect_outgoing ::
    "edge_policy \<Rightarrow> (edge_kind list \<Rightarrow> edge_kind list) \<Rightarrow> edge list \<Rightarrow> block_id list" where
  "collect_outgoing policy kind_order edges =
     (let by_kind = (\<lambda>k. map edge_to (filter (\<lambda>e. edge_kind e = k \<and> pulls_outgoing policy k) edges))
      in concat (map (\<lambda>k. newest_first (ep_max_fanout policy) (by_kind k))
                  (kind_order (filter (\<lambda>k. by_kind k \<noteq> []) all_edge_kinds))))"

definition collect_children :: "edge_policy \<Rightarrow> edge list \<Rightarrow> block_id list" where
  "collect_children policy in_edges =
     newest_first (ep_max_fanout policy) (map edge_from (filter (\<lambda>e. edge_kind e = Parent) in_edges))"

definition dependencies ::
    "greedy_pager \<Rightarrow> hash_orders \<Rightarrow> edge_policy \<Rightarrow> block_id \<Rightarrow> context_block \<Rightarrow>
       pager_error + block_id list" where
  "dependencies gp ord policy i block =
     rbind (map_err Pager_Storage (sv_edges_from (gp_store gp) i)) (\<lambda>out_edges.
       let deps = (if ep_follow_provenance_parents policy
                   then prov_parents (cb_provenance block) else []) @
                  collect_outgoing policy (ho_kinds ord i) out_edges
       in if pulls_children policy
          then rbind (map_err Pager_Storage (sv_edges_to (gp_store gp) i)) (\<lambda>in_edges.
                 Inr (deps @ collect_children policy in_edges))
          else Inr deps)"

type_synonym frontier = "(block_id \<times> u8) list"

definition pull_dep ::
    "greedy_pager \<Rightarrow> token_count \<Rightarrow> u8 \<Rightarrow> block_id \<Rightarrow> block_id list \<times> frontier \<times> pager_state \<Rightarrow>
       pager_error + (block_id list \<times> frontier \<times> pager_state)" where
  "pull_dep gp input_bud depth dep_id = (\<lambda>(visited, new, st).
     if dep_id \<in> set visited then Inr (visited, new, st)
     else rbind (pager_get gp dep_id) (\<lambda>ob.
       case ob of
         None \<Rightarrow> Inr (dep_id # visited, new, st)
       | Some dep \<Rightarrow>
           rbind (tokens_for (gp_tokenizer gp) dep) (\<lambda>tokens.
             if fits (pg_prompt_total st) tokens input_bud
             then Inr (dep_id # visited, new @ [(dep_id, depth + 1)],
                       select_block dep_id tokens f32_0 Dependency st)
             else Inr (dep_id # visited, new, st))))"

lemma pull_dep_frontier:
  assumes "for_each (pull_dep gp b d) deps (v, new, st) = Inr (v', new', st')"
    and "\<forall>x\<in>set new. snd x = d + 1"
  shows "\<forall>x\<in>set new'. snd x = d + 1"
  using for_each_inv [OF assms(1), of "\<lambda>(v, n, s). \<forall>x\<in>set n. snd x = d + 1"] assms(2)
  by (fastforce simp: pull_dep_def rbind_Inr_iff split: if_splits option.splits)

lemma u8_depth_less: "d < m \<Longrightarrow> unat m - unat (d + 1) < unat m - unat (d :: u8)"
proof -
  assume "d < m"
  then have "unat d < unat m" by (simp add: word_less_nat_alt)
  moreover have "unat m < 256" using unat_lt_max [of m] by simp
  ultimately have "unat (d + 1) = unat d + 1" by (simp add: unat_word_ariths)
  with \<open>unat d < unat m\<close> show ?thesis by simp
qed

definition frontier_measure :: "u8 \<Rightarrow> frontier \<Rightarrow> nat multiset" where
  "frontier_measure m fr = image_mset (\<lambda>(_, d). unat m - unat d) (mset fr)"

lemma frontier_measure_pop: "(frontier_measure m fr, frontier_measure m (x # fr)) \<in> mult less_than"
  unfolding frontier_measure_def
  by (rule subset_implies_mult) simp

lemma frontier_measure_push:
  assumes "\<forall>x\<in>set new. snd x = d + 1" "d < m"
  shows "(frontier_measure m (fr @ new), frontier_measure m ((i, d) # fr)) \<in> mult less_than"
proof -
  have "(frontier_measure m fr + frontier_measure m new, frontier_measure m fr + {#unat m - unat d#})
          \<in> mult less_than"
    using assms u8_depth_less [OF assms(2)]
    by (intro one_step_implies_mult) (auto simp: frontier_measure_def)
  then show ?thesis by (simp add: frontier_measure_def)
qed

text \<open>
  The breadth-first walk. It ends because every popped entry is replaced by finitely many
  entries that are one step deeper.
\<close>

function expand_loop ::
    "greedy_pager \<Rightarrow> hash_orders \<Rightarrow> edge_policy \<Rightarrow> token_count \<Rightarrow> u8 \<Rightarrow> block_id list \<Rightarrow> frontier \<Rightarrow>
       pager_state \<Rightarrow> pager_error + pager_state" where
  "expand_loop gp ord policy input_bud max_depth visited [] st = Inr st"
| "expand_loop gp ord policy input_bud max_depth visited ((i, depth) # frontier) st =
     (if max_depth \<le> depth then expand_loop gp ord policy input_bud max_depth visited frontier st
      else rbind (pager_get gp i) (\<lambda>ob.
        case ob of
          None \<Rightarrow> expand_loop gp ord policy input_bud max_depth visited frontier st
        | Some block \<Rightarrow>
            rbind (dependencies gp ord policy i block) (\<lambda>deps.
            rbind (for_each (pull_dep gp input_bud depth) deps (visited, [], st))
              (\<lambda>(visited, new, st).
                expand_loop gp ord policy input_bud max_depth visited (frontier @ new) st))))"
  by pat_completeness auto

termination
proof (relation "inv_image (mult less_than) (\<lambda>(gp, ord, p, b, m, v, fr, st). frontier_measure m fr)")
  show "wf (inv_image (mult less_than) (\<lambda>(gp, ord, p, b, m, v, fr, st). frontier_measure m fr))"
    by (intro wf_inv_image wf_mult wf_less_than)
qed (auto simp: not_le intro: frontier_measure_pop frontier_measure_push dest: pull_dep_frontier)

definition expand_edges ::
    "greedy_pager \<Rightarrow> hash_orders \<Rightarrow> edge_policy \<Rightarrow> token_count \<Rightarrow> pager_state \<Rightarrow> pager_error + pager_state" where
  "expand_edges gp ord policy input_bud st =
     (let max_depth = effective_depth policy in
      if max_depth = 0 then Inr st
      else expand_loop gp ord policy input_bud max_depth (pg_selected st)
             (map (\<lambda>i. (i, 0)) (pg_selected st)) st)"

section \<open>Step 6: reconciliation\<close>

definition resolve_contradiction ::
    "greedy_pager \<Rightarrow> block_id \<Rightarrow> block_id \<Rightarrow> pager_error + (block_id \<times> block_id)" where
  "resolve_contradiction gp a b =
     rbind (pager_get gp a) (\<lambda>block_a.
     rbind (pager_get gp b) (\<lambda>block_b.
       let winner_is_a =
         (case (block_a, block_b) of
            (Some x, Some y) \<Rightarrow>
              (case cmp_of (cb_created_at x) (cb_created_at y) of
                 Greater \<Rightarrow> True
               | Less \<Rightarrow> False
               | Equal \<Rightarrow>
                   (case partial_cmp (cb_priority x) (cb_priority y) of
                      Some Greater \<Rightarrow> True
                    | Some Less \<Rightarrow> False
                    | _ \<Rightarrow> cb_id y \<le> cb_id x))
          | (None, Some _) \<Rightarrow> False
          | (_, None) \<Rightarrow> True)
       in Inr (if winner_is_a then (b, a) else (a, b))))"

record recon_state =
  re_remove :: "block_id \<rightharpoonup> omission_reason"
  re_notes :: "block_id \<rightharpoonup> bytes"

text \<open>\<open>map.entry(k).or_insert(v)\<close>.\<close>

definition or_insert :: "'k \<Rightarrow> 'v \<Rightarrow> ('k \<rightharpoonup> 'v) \<Rightarrow> ('k \<rightharpoonup> 'v)" where
  "or_insert k v m = (if m k = None then m(k \<mapsto> v) else m)"

definition recon_edge ::
    "greedy_pager \<Rightarrow> edge_policy \<Rightarrow> block_id set \<Rightarrow> block_id set \<Rightarrow> block_id \<Rightarrow> edge \<Rightarrow> recon_state \<Rightarrow>
       pager_error + recon_state" where
  "recon_edge gp policy selected_set pinned i e rs =
     (if edge_kind e = DerivedFrom \<and> ep_derived_from policy = SuppressSource \<and> i \<noteq> edge_to e \<and>
         edge_to e \<in> selected_set \<and> edge_to e \<notin> pinned
      then Inr (rs\<lparr>re_remove := or_insert (edge_to e) Om_SupersededByDerived (re_remove rs)\<rparr>)
      else if edge_kind e = Contradicts \<and> ep_contradicts policy \<noteq> Contradict_Off \<and> i \<noteq> edge_to e \<and>
         edge_to e \<in> selected_set
      then rbind (resolve_contradiction gp i (edge_to e)) (\<lambda>(loser, winner).
             if ep_contradicts policy = PreferNewer \<and> loser \<notin> pinned
             then Inr (rs\<lparr>re_remove := or_insert loser Om_Contradicted (re_remove rs)\<rparr>)
             else Inr (rs\<lparr>re_notes := or_insert loser
                      (''contradicted by newer block '' @ block_id_display winner) (re_notes rs)\<rparr>))
      else Inr rs)"

definition recon_block ::
    "greedy_pager \<Rightarrow> edge_policy \<Rightarrow> block_id set \<Rightarrow> block_id set \<Rightarrow> block_id \<Rightarrow> recon_state \<Rightarrow>
       pager_error + recon_state" where
  "recon_block gp policy selected_set pinned i rs =
     rbind (map_err Pager_Storage (sv_edges_from (gp_store gp) i)) (\<lambda>es.
       for_each (recon_edge gp policy selected_set pinned i) es rs)"

definition rebuild_step ::
    "greedy_pager \<Rightarrow> recon_state \<Rightarrow> block_id \<times> selection \<Rightarrow> pager_state \<Rightarrow> pager_error + pager_state" where
  "rebuild_step gp rs = (\<lambda>(i, sel) st.
     case re_remove rs i of
       Some reason \<Rightarrow>
         rbind (pager_get gp i) (\<lambda>ob.
         rbind (case ob of
                  None \<Rightarrow> Inr (pg_block_tokens st)
                | Some block \<Rightarrow>
                    rbind (tokens_for (gp_tokenizer gp) block) (\<lambda>tokens.
                      Inr (token_saturating_sub (pg_block_tokens st) tokens)))
           (\<lambda>total.
             Inr (st\<lparr>pg_block_tokens := total,
                    pg_omitted := pg_omitted st @
                      [\<lparr>om_block_id = i, om_reason = reason, om_score = sel_score sel\<rparr>]\<rparr>)))
     | None \<Rightarrow>
         Inr (st\<lparr>pg_selected := pg_selected st @ [i],
                pg_selections := pg_selections st @
                  [case re_notes rs i of Some note \<Rightarrow> sel\<lparr>sel_note := Some note\<rparr> | None \<Rightarrow> sel]\<rparr>))"

definition pinned_set :: "'a pager_state_scheme \<Rightarrow> block_id set" where
  "pinned_set st = set (map sel_block_id (filter (\<lambda>s. sel_reason s = Pinned) (pg_selections st)))"

definition reconcile_edges ::
    "greedy_pager \<Rightarrow> edge_policy \<Rightarrow> pager_state \<Rightarrow> pager_error + pager_state" where
  "reconcile_edges gp policy st =
     rbind (for_each (recon_block gp policy (set (pg_selected st)) (pinned_set st)) (pg_selected st)
              \<lparr>re_remove = Map.empty, re_notes = Map.empty\<rparr>) (\<lambda>rs.
       if re_remove rs = Map.empty \<and> re_notes rs = Map.empty then Inr st
       else for_each (rebuild_step gp rs) (zip (pg_selected st) (pg_selections st))
              (st\<lparr>pg_selected := [], pg_selections := []\<rparr>))"

definition edge_passes ::
    "greedy_pager \<Rightarrow> hash_orders \<Rightarrow> token_count \<Rightarrow> pager_state \<Rightarrow> pager_error + pager_state" where
  "edge_passes gp ord input_bud st =
     (let policy = sp_edge_policy (gp_scoring gp) in
      if ep_enabled policy
      then rbind (expand_edges gp ord policy input_bud st) (\<lambda>st.
             if reconciles policy then reconcile_edges gp policy st else Inr st)
      else Inr st)"

section \<open>The pager\<close>

definition plan_of :: "pager_state \<Rightarrow> page_plan" where
  "plan_of st =
     \<lparr>pp_selected = pg_selected st, pp_selections = pg_selections st,
      pp_omitted = pg_omitted st, pp_estimated_tokens = pg_block_tokens st\<rparr>"

definition page ::
    "greedy_pager \<Rightarrow> hash_orders \<Rightarrow> (bytes \<Rightarrow> bytes) \<Rightarrow> page_request \<Rightarrow> pager_error + page_plan" where
  "page gp ord lower req =
     (if tok_id (gp_tokenizer gp) \<noteq> mp_tokenizer (pr_model req)
      then Inl (TokenizerMismatch (tok_id (gp_tokenizer gp)) (mp_tokenizer (pr_model req)))
      else
        let input_bud = input_budget (pr_model req) in
        rbind (for_each (add_required gp input_bud) (pr_required_blocks req) pager_init) (\<lambda>st.
        rbind (task_tokens gp (pr_task req)) (\<lambda>task_n.
        let st = st\<lparr>pg_prompt_total := token_saturating_add (pg_prompt_total st) task_n\<rparr> in
        rbind (gather gp req) (\<lambda>scores.
        rbind (load_candidates gp ord lower scores) (\<lambda>by_section.
        let st = fill_system input_bud (by_section Sec_System) st in
        rbind (fill_variable gp ord input_bud (pr_session_id req) by_section st) (\<lambda>st.
        rbind (edge_passes gp ord input_bud st) (\<lambda>st.
        Inr (plan_of st))))))))"

end
