(* ===== verification/Tokenizers.thy ===== *)
theory Tokenizers
  imports Core_Types
begin

text \<open>
  \<open>llm386-tokenizer\<close>: the adapters for tiktoken and for the HuggingFace tokenizers, whose
  encoders are parameters, the registry, and the caching wrapper over an LRU cache (the crate
  \<open>lru\<close>), whose behaviour is the locale \<open>lru\<close>. The lock of the cache is released between the
  lookup and the insertion, so the steps of several threads interleave; \<open>caching_reach\<close> has
  all the interleavings.
\<close>

section \<open>Adapters\<close>

definition u32_saturated :: "nat \<Rightarrow> u32" where
  "u32_saturated n = (if n < 2 ^ 32 then word_of_nat n else - 1)"

definition tiktoken_count :: "(bytes \<Rightarrow> bytes) \<Rightarrow> (bytes \<Rightarrow> nat list) \<Rightarrow> bytes \<Rightarrow> tokenizer_error + token_count" where
  "tiktoken_count utf8_error encode_ordinary bs =
     rbind (ok_or (EncodingFailed (''invalid UTF-8: '' @ utf8_error bs)) (from_utf8 bs)) (\<lambda>s.
     Inr (u32_saturated (length (encode_ordinary s))))"

definition tiktoken_tokenizer :: "(bytes \<Rightarrow> bytes) \<Rightarrow> tokenizer_id \<Rightarrow> (bytes \<Rightarrow> nat list) \<Rightarrow> tokenizer" where
  "tiktoken_tokenizer utf8_error i encode_ordinary = \<lparr>tok_id = i, tok_count = tiktoken_count utf8_error encode_ordinary\<rparr>"

definition cl100k_base :: "(bytes \<Rightarrow> bytes) \<Rightarrow> bytes + (bytes \<Rightarrow> nat list) \<Rightarrow> tokenizer_error + tokenizer" where
  "cl100k_base utf8_error loaded =
     rbind (map_err (\<lambda>e. EncodingFailed (''cl100k_base init: '' @ e)) loaded) (\<lambda>bpe.
     Inr (tiktoken_tokenizer utf8_error ''cl100k_base'' bpe))"

definition o200k_base :: "(bytes \<Rightarrow> bytes) \<Rightarrow> bytes + (bytes \<Rightarrow> nat list) \<Rightarrow> tokenizer_error + tokenizer" where
  "o200k_base utf8_error loaded =
     rbind (map_err (\<lambda>e. EncodingFailed (''o200k_base init: '' @ e)) loaded) (\<lambda>bpe.
     Inr (tiktoken_tokenizer utf8_error ''o200k_base'' bpe))"

text \<open>The encoder of a HuggingFace tokenizer may fail; it is asked not to add special tokens.\<close>

definition hf_count :: "(bytes \<Rightarrow> bytes) \<Rightarrow> (bytes \<Rightarrow> bool \<Rightarrow> bytes + nat list) \<Rightarrow> bytes \<Rightarrow> tokenizer_error + token_count" where
  "hf_count utf8_error encode bs =
     rbind (ok_or (EncodingFailed (''invalid UTF-8: '' @ utf8_error bs)) (from_utf8 bs)) (\<lambda>s.
     rbind (map_err (\<lambda>e. EncodingFailed (''encode: '' @ e)) (encode s False)) (\<lambda>ids.
     Inr (u32_saturated (length ids))))"

definition hf_tokenizer :: "(bytes \<Rightarrow> bytes) \<Rightarrow> tokenizer_id \<Rightarrow> (bytes \<Rightarrow> bool \<Rightarrow> bytes + nat list) \<Rightarrow> tokenizer" where
  "hf_tokenizer utf8_error i encode = \<lparr>tok_id = i, tok_count = hf_count utf8_error encode\<rparr>"

definition hf_from_file ::
    "(bytes \<Rightarrow> bytes) \<Rightarrow> bytes + (bytes \<Rightarrow> bool \<Rightarrow> bytes + nat list) \<Rightarrow> tokenizer_id \<Rightarrow> tokenizer_error + tokenizer" where
  "hf_from_file utf8_error loaded i =
     rbind (map_err (\<lambda>e. EncodingFailed (''from_file: '' @ e)) loaded) (\<lambda>inner. Inr (hf_tokenizer utf8_error i inner))"

definition hf_from_bytes ::
    "(bytes \<Rightarrow> bytes) \<Rightarrow> bytes + (bytes \<Rightarrow> bool \<Rightarrow> bytes + nat list) \<Rightarrow> tokenizer_id \<Rightarrow> tokenizer_error + tokenizer" where
  "hf_from_bytes utf8_error loaded i =
     rbind (map_err (\<lambda>e. EncodingFailed (''from_bytes: '' @ e)) loaded) (\<lambda>inner. Inr (hf_tokenizer utf8_error i inner))"

section \<open>The registry\<close>

type_synonym tokenizer_registry = "(tokenizer_id, tokenizer) btree"

datatype registry_error = RegistryNotFound tokenizer_id

definition registry_error_display :: "registry_error \<Rightarrow> bytes" where
  "registry_error_display e = (case e of RegistryNotFound i \<Rightarrow> ''tokenizer not found: '' @ i)"

definition tokenizers_new :: tokenizer_registry where
  "tokenizers_new = []"

definition tokenizers_register :: "tokenizer_registry \<Rightarrow> tokenizer \<Rightarrow> tokenizer_registry" where
  "tokenizers_register reg t = bt_insert (tok_id t) t reg"

definition tokenizers_get :: "tokenizer_registry \<Rightarrow> tokenizer_id \<Rightarrow> tokenizer option" where
  "tokenizers_get reg i = bt_get reg i"

definition tokenizers_require :: "tokenizer_registry \<Rightarrow> tokenizer_id \<Rightarrow> registry_error + tokenizer" where
  "tokenizers_require reg i = ok_or (RegistryNotFound i) (tokenizers_get reg i)"

text \<open>The ids in the order of the hash map, which is a parameter.\<close>

definition tokenizers_ids :: "(tokenizer_id list \<Rightarrow> tokenizer_id list) \<Rightarrow> tokenizer_registry \<Rightarrow> tokenizer_id list" where
  "tokenizers_ids ord reg = ord (map fst reg)"

definition tokenizers_len :: "tokenizer_registry \<Rightarrow> nat" where
  "tokenizers_len reg = length reg"

definition tokenizers_is_empty :: "tokenizer_registry \<Rightarrow> bool" where
  "tokenizers_is_empty reg \<longleftrightarrow> reg = []"

definition tokenizers_default :: "(bytes \<Rightarrow> bytes) \<Rightarrow> bytes + (bytes \<Rightarrow> nat list) \<Rightarrow> bytes + (bytes \<Rightarrow> nat list) \<Rightarrow>
    tokenizer_error + tokenizer_registry" where
  "tokenizers_default utf8_error cl100k o200k =
     rbind (cl100k_base utf8_error cl100k) (\<lambda>c.
     let reg = tokenizers_register tokenizers_new c in
     rbind (o200k_base utf8_error o200k) (\<lambda>t. Inr (tokenizers_register reg t)))"

text \<open>Whatever is registered, a tokenizer is found under its own id only.\<close>

definition registry_ok :: "tokenizer_registry \<Rightarrow> bool" where
  "registry_ok reg \<longleftrightarrow> bt_sorted reg \<and> (\<forall>i t. bt_get reg i = Some t \<longrightarrow> tok_id t = i)"

lemma registry_ok_new: "registry_ok tokenizers_new"
  by (simp add: registry_ok_def tokenizers_new_def bt_get_def)

lemma registry_ok_register: "registry_ok reg \<Longrightarrow> registry_ok (tokenizers_register reg t)"
  by (auto simp: registry_ok_def tokenizers_register_def bt_sorted_insert bt_get_def map_of_bt_insert)

lemma tokenizers_get_register:
  "tokenizers_get (tokenizers_register reg t) i = (if i = tok_id t then Some t else tokenizers_get reg i)"
  by (simp add: tokenizers_get_def tokenizers_register_def bt_get_def map_of_bt_insert)

lemma tokenizers_default_ok:
  assumes "tokenizers_default utf8_error (Inr f) (Inr g) = Inr reg"
  shows "registry_ok reg \<and> tokenizers_len reg = 2 \<and>
    tokenizers_get reg ''cl100k_base'' = Some (tiktoken_tokenizer utf8_error ''cl100k_base'' f) \<and>
    tokenizers_get reg ''o200k_base'' = Some (tiktoken_tokenizer utf8_error ''o200k_base'' g)"
proof -
  let ?c = "tiktoken_tokenizer utf8_error ''cl100k_base'' f" and ?o = "tiktoken_tokenizer utf8_error ''o200k_base'' g"
  have reg: "reg = tokenizers_register (tokenizers_register tokenizers_new ?c) ?o"
    using assms by (simp add: tokenizers_default_def cl100k_base_def o200k_base_def Let_def)
  have "tokenizers_len reg = 2"
    unfolding reg by (simp add: tokenizers_len_def tokenizers_register_def tokenizers_new_def tiktoken_tokenizer_def)
  moreover have "registry_ok reg"
    unfolding reg by (intro registry_ok_register registry_ok_new)
  ultimately show ?thesis
    unfolding reg by (simp add: tokenizers_get_register tiktoken_tokenizer_def)
qed

section \<open>The cache\<close>

record 'c lru_lib =
  lru_new :: "nat \<Rightarrow> 'c"
  lru_get :: "'c \<Rightarrow> content_hash \<Rightarrow> token_count option \<times> 'c"
  lru_put :: "'c \<Rightarrow> content_hash \<Rightarrow> token_count \<Rightarrow> 'c"
  lru_clear :: "'c \<Rightarrow> 'c"

text \<open>What is used of the cache: it may forget entries, and never makes one up.\<close>

locale lru =
  fixes lib :: "'c lru_lib" and entries :: "'c \<Rightarrow> content_hash \<rightharpoonup> token_count"
  assumes new_ok: "entries (lru_new lib cap) = Map.empty"
    and get_ok: "lru_get lib c k = (found, c') \<Longrightarrow> found = entries c k \<and> entries c' \<subseteq>\<^sub>m entries c"
    and put_ok: "entries (lru_put lib c k n) \<subseteq>\<^sub>m (entries c)(k \<mapsto> n)"
    and clear_ok: "entries (lru_clear lib c) = Map.empty"

text \<open>A result and the cache after the call; a failing call moves entries too.\<close>

definition caching_count ::
    "'c lru_lib \<Rightarrow> (bytes \<Rightarrow> content_hash) \<Rightarrow> tokenizer \<Rightarrow> 'c \<Rightarrow> bytes \<Rightarrow> (tokenizer_error + token_count) \<times> 'c" where
  "caching_count lib hsh inner c bs =
     (let key = hsh bs in
      case lru_get lib c key of
        (Some hit, c') \<Rightarrow> (Inr hit, c')
      | (None, c') \<Rightarrow>
          (case tok_count inner bs of
             Inl e \<Rightarrow> (Inl e, c')
           | Inr n \<Rightarrow> (Inr n, lru_put lib c' key n)))"

definition caching_clear :: "'c lru_lib \<Rightarrow> 'c \<Rightarrow> 'c" where
  "caching_clear lib c = lru_clear lib c"

text \<open>\<open>None\<close> is the panic for a capacity of zero.\<close>

definition caching_with_capacity :: "'c lru_lib \<Rightarrow> nat \<Rightarrow> 'c option" where
  "caching_with_capacity lib capacity = (if capacity = 0 then None else Some (lru_new lib capacity))"

text \<open>
  Calls in progress: a cache, the calls that have counted and not yet stored their count, and
  the counts that were returned.
\<close>

record 'c caching_run =
  cr_cache :: 'c
  cr_pending :: "(bytes \<times> token_count) list"
  cr_returned :: "(bytes \<times> token_count) list"

inductive caching_reach :: "'c lru_lib \<Rightarrow> (bytes \<Rightarrow> content_hash) \<Rightarrow> tokenizer \<Rightarrow> 'c caching_run \<Rightarrow> bool"
  for lib hsh inner where
  call_none: "caching_with_capacity lib n = Some c \<Longrightarrow>
    caching_reach lib hsh inner \<lparr>cr_cache = c, cr_pending = [], cr_returned = []\<rparr>"
| call_hit: "caching_reach lib hsh inner r \<Longrightarrow> lru_get lib (cr_cache r) (hsh bs) = (Some hit, c') \<Longrightarrow>
    caching_reach lib hsh inner (r\<lparr>cr_cache := c', cr_returned := (bs, hit) # cr_returned r\<rparr>)"
| call_miss: "caching_reach lib hsh inner r \<Longrightarrow> lru_get lib (cr_cache r) (hsh bs) = (None, c') \<Longrightarrow>
    tok_count inner bs = Inr n \<Longrightarrow>
    caching_reach lib hsh inner (r\<lparr>cr_cache := c', cr_pending := (bs, n) # cr_pending r\<rparr>)"
| call_fails: "caching_reach lib hsh inner r \<Longrightarrow> lru_get lib (cr_cache r) (hsh bs) = (None, c') \<Longrightarrow>
    tok_count inner bs = Inl e \<Longrightarrow> caching_reach lib hsh inner (r\<lparr>cr_cache := c'\<rparr>)"
| call_stores: "caching_reach lib hsh inner r \<Longrightarrow> cr_pending r = ps @ (bs, n) # qs \<Longrightarrow>
    caching_reach lib hsh inner (r\<lparr>cr_cache := lru_put lib (cr_cache r) (hsh bs) n, cr_pending := ps @ qs,
      cr_returned := (bs, n) # cr_returned r\<rparr>)"
| call_clear: "caching_reach lib hsh inner r \<Longrightarrow>
    caching_reach lib hsh inner (r\<lparr>cr_cache := caching_clear lib (cr_cache r)\<rparr>)"

text \<open>A call that is not interrupted is a lookup followed at once by the storing of its count.\<close>

lemma caching_count_reach:
  assumes "caching_reach lib hsh inner r" and "caching_count lib hsh inner (cr_cache r) bs = (Inr n, c')"
  shows "caching_reach lib hsh inner (r\<lparr>cr_cache := c', cr_returned := (bs, n) # cr_returned r\<rparr>)"
proof (cases "lru_get lib (cr_cache r) (hsh bs)")
  case (Pair found d)
  show ?thesis
  proof (cases found)
    case (Some hit)
    with Pair assms(2) have "hit = n" "d = c'" by (simp_all add: caching_count_def)
    with call_hit [OF assms(1), of bs hit d] Pair Some show ?thesis by simp
  next
    case None
    with Pair assms(2) have m: "tok_count inner bs = Inr n" "c' = lru_put lib d (hsh bs) n"
      by (auto simp: caching_count_def Let_def split: sum.splits)
    have "caching_reach lib hsh inner (r\<lparr>cr_cache := d, cr_pending := (bs, n) # cr_pending r\<rparr>)"
      using call_miss [OF assms(1) _ m(1)] Pair None by simp
    from call_stores [OF this, of "[]" bs n "cr_pending r"] m(2) show ?thesis by simp
  qed
qed

section \<open>The cache does not change the counts\<close>

text \<open>Texts of one hash have one count, for the texts that were counted.\<close>

definition no_collisions :: "(bytes \<Rightarrow> content_hash) \<Rightarrow> tokenizer \<Rightarrow> bytes set \<Rightarrow> bool" where
  "no_collisions hsh inner A \<longleftrightarrow>
     (\<forall>a \<in> A. \<forall>b \<in> A. hsh a = hsh b \<longrightarrow> tok_count inner a = tok_count inner b)"

lemma no_collisions_mono: "no_collisions hsh inner B \<Longrightarrow> A \<subseteq> B \<Longrightarrow> no_collisions hsh inner A"
  unfolding no_collisions_def by blast

context lru
begin

lemma map_leD: "m \<subseteq>\<^sub>m m' \<Longrightarrow> m k = Some v \<Longrightarrow> m' k = Some v"
  unfolding map_le_def dom_def by force

lemma cache_sound:
  assumes "caching_reach lib hsh inner r" and "no_collisions hsh inner (fst ` set (cr_returned r))"
  shows "(\<forall>(bs, n) \<in> set (cr_returned r) \<union> set (cr_pending r). tok_count inner bs = Inr n) \<and>
    (\<forall>k n. entries (cr_cache r) k = Some n \<longrightarrow> (\<exists>bs. (bs, n) \<in> set (cr_returned r) \<and> hsh bs = k))"
  using assms
proof (induction rule: caching_reach.induct)
  case (call_none n c)
  then show ?case by (auto simp: caching_with_capacity_def new_ok split: if_splits)
next
  case (call_hit r bs hit c')
  have nc: "no_collisions hsh inner (fst ` set (cr_returned r))"
    by (rule no_collisions_mono [OF call_hit(4)]) auto
  note IH = call_hit(3) [OF nc]
  have g: "entries (cr_cache r) (hsh bs) = Some hit" "entries c' \<subseteq>\<^sub>m entries (cr_cache r)"
    using get_ok [OF call_hit(2)] by simp_all
  then obtain as where a: "(as, hit) \<in> set (cr_returned r)" "hsh as = hsh bs" using IH by blast
  have "tok_count inner bs = tok_count inner as"
    using call_hit(4) a by (force simp: no_collisions_def)
  moreover have "tok_count inner as = Inr hit" using IH a(1) by blast
  ultimately have "tok_count inner bs = Inr hit" by simp
  moreover have "\<exists>bs. (bs, n) \<in> set (cr_returned r) \<and> hsh bs = k" if "entries c' k = Some n" for k n
    using IH map_leD [OF g(2) that] by blast
  ultimately show ?case using IH by fastforce
next
  case (call_miss r bs c' n)
  then have le: "entries c' \<subseteq>\<^sub>m entries (cr_cache r)" using get_ok by blast
  have "no_collisions hsh inner (fst ` set (cr_returned r))" using call_miss(5) by simp
  note IH = call_miss(4) [OF this]
  have "\<exists>bs. (bs, m) \<in> set (cr_returned r) \<and> hsh bs = k" if "entries c' k = Some m" for k m
    using IH map_leD [OF le that] by blast
  then show ?case using IH call_miss(3) by simp
next
  case (call_fails r bs c' e)
  then have le: "entries c' \<subseteq>\<^sub>m entries (cr_cache r)" using get_ok by blast
  have "no_collisions hsh inner (fst ` set (cr_returned r))" using call_fails(5) by simp
  note IH = call_fails(4) [OF this]
  have "\<exists>bs. (bs, m) \<in> set (cr_returned r) \<and> hsh bs = k" if "entries c' k = Some m" for k m
    using IH map_leD [OF le that] by blast
  then show ?case using IH by simp
next
  case (call_stores r ps bs n qs)
  have nc: "no_collisions hsh inner (fst ` set (cr_returned r))"
    by (rule no_collisions_mono [OF call_stores(4)]) auto
  note IH = call_stores(3) [OF nc]
  have "\<exists>as. (as, m) \<in> set ((bs, n) # cr_returned r) \<and> hsh as = k"
    if "entries (lru_put lib (cr_cache r) (hsh bs) n) k = Some m" for k m
  proof (cases "k = hsh bs")
    case True
    then show ?thesis using map_leD [OF put_ok that] by auto
  next
    case False
    then have "entries (cr_cache r) k = Some m" using map_leD [OF put_ok that] by simp
    then have "\<exists>as. (as, m) \<in> set (cr_returned r) \<and> hsh as = k" using IH by blast
    then show ?thesis by auto
  qed
  moreover have "tok_count inner bs = Inr n" using IH call_stores(2) by simp
  ultimately show ?case using IH call_stores(2) by simp
next
  case (call_clear r)
  then show ?case by (simp add: caching_clear_def clear_ok)
qed

end

section \<open>A cache as a list\<close>

text \<open>The most recently used entry first, at most as many as the capacity.\<close>

record lru_list =
  ll_capacity :: nat
  ll_entries :: "(content_hash \<times> token_count) list"

definition ll_get :: "lru_list \<Rightarrow> content_hash \<Rightarrow> token_count option \<times> lru_list" where
  "ll_get c k = (case map_of (ll_entries c) k of
       None \<Rightarrow> (None, c)
     | Some n \<Rightarrow> (Some n, c\<lparr>ll_entries := (k, n) # filter (\<lambda>e. fst e \<noteq> k) (ll_entries c)\<rparr>))"

definition ll_put :: "lru_list \<Rightarrow> content_hash \<Rightarrow> token_count \<Rightarrow> lru_list" where
  "ll_put c k n =
     c\<lparr>ll_entries := take (ll_capacity c) ((k, n) # filter (\<lambda>e. fst e \<noteq> k) (ll_entries c))\<rparr>"

definition list_lru :: "lru_list lru_lib" where
  "list_lru = \<lparr>lru_new = (\<lambda>n. \<lparr>ll_capacity = n, ll_entries = []\<rparr>), lru_get = ll_get, lru_put = ll_put,
     lru_clear = (\<lambda>c. c\<lparr>ll_entries := []\<rparr>)\<rparr>"

lemma map_of_take: "map_of (take n xs) \<subseteq>\<^sub>m map_of xs"
  by (induction xs arbitrary: n) (auto simp: map_le_def take_Cons split: nat.splits if_splits)

lemma map_of_drop_key: "map_of ((k, n) # filter (\<lambda>e. fst e \<noteq> k) xs) = (map_of xs)(k \<mapsto> n)"
proof
  fix j
  show "map_of ((k, n) # filter (\<lambda>e. fst e \<noteq> k) xs) j = ((map_of xs)(k \<mapsto> n)) j"
    by (induction xs) auto
qed

interpretation list_cache: lru list_lru "\<lambda>c. map_of (ll_entries c)"
proof unfold_locales
  fix c c' k and found :: "token_count option"
  assume "lru_get list_lru c k = (found, c')"
  then show "found = map_of (ll_entries c) k \<and> map_of (ll_entries c') \<subseteq>\<^sub>m map_of (ll_entries c)"
    by (auto simp: list_lru_def ll_get_def map_of_drop_key fun_upd_idem simp del: map_of.simps split: option.splits)
next
  fix c k n
  show "map_of (ll_entries (lru_put list_lru c k n)) \<subseteq>\<^sub>m (map_of (ll_entries c))(k \<mapsto> n)"
    using map_of_take [of "ll_capacity c" "(k, n) # filter (\<lambda>e. fst e \<noteq> k) (ll_entries c)"]
    unfolding map_of_drop_key by (simp add: list_lru_def ll_put_def)
qed (simp_all add: list_lru_def)

text \<open>
  C29: the cache is transparent: however the calls of several threads and the clearing of the cache
  interleave, every count that was returned is the count of the wrapped tokenizer, as long as
  no two of the counted texts with different counts have the same hash.
\<close>

theorem caching_transparent:
  assumes "lru lib entries" and "caching_reach lib hsh inner r"
    and "no_collisions hsh inner (fst ` set (cr_returned r))"
    and "(bs, n) \<in> set (cr_returned r)"
  shows "tok_count inner bs = Inr n"
  using lru.cache_sound [OF assms(1-3)] assms(4) by blast

definition demo_length_tokenizer :: tokenizer where
  "demo_length_tokenizer = \<lparr>tok_id = ''length'', tok_count = (\<lambda>bs. Inr (u32_saturated (length bs)))\<rparr>"

theorem caching_transparent_witness:
  "\<exists>r. caching_reach list_lru (\<lambda>bs. word_of_nat (length bs)) demo_length_tokenizer r \<and>
     cr_returned r = [(''ab'', 2), (''ab'', 2)] \<and> cr_pending r = [] \<and>
     tok_count demo_length_tokenizer ''ab'' = Inr 2"
proof -
  let ?h = "\<lambda>bs :: bytes. word_of_nat (length bs) :: content_hash" and ?t = demo_length_tokenizer
  have "caching_reach list_lru ?h ?t \<lparr>cr_cache = \<lparr>ll_capacity = 8, ll_entries = []\<rparr>, cr_pending = [], cr_returned = []\<rparr>"
    by (rule call_none [of _ 8]) (simp add: caching_with_capacity_def list_lru_def)
  from caching_count_reach [OF this, of "''ab''" 2 "\<lparr>ll_capacity = 8, ll_entries = [(2, 2)]\<rparr>"]
  have "caching_reach list_lru ?h ?t \<lparr>cr_cache = \<lparr>ll_capacity = 8, ll_entries = [(2, 2)]\<rparr>, cr_pending = [],
      cr_returned = [(''ab'', 2)]\<rparr>"
    by (simp add: caching_count_def list_lru_def ll_get_def ll_put_def demo_length_tokenizer_def u32_saturated_def)
  from caching_count_reach [OF this, of "''ab''" 2 "\<lparr>ll_capacity = 8, ll_entries = [(2, 2)]\<rparr>"]
  have r: "caching_reach list_lru ?h ?t \<lparr>cr_cache = \<lparr>ll_capacity = 8, ll_entries = [(2, 2)]\<rparr>, cr_pending = [],
      cr_returned = [(''ab'', 2), (''ab'', 2)]\<rparr>"
    by (simp add: caching_count_def list_lru_def ll_get_def)
  have "tok_count ?t ''ab'' = Inr 2"
    by (rule caching_transparent [OF list_cache.lru_axioms r]) (simp_all add: no_collisions_def)
  with r show ?thesis by (metis caching_run.select_convs(2,3))
qed

end
