(* ===== verification/Config.thy ===== *)
theory Config
  imports Packer Pager Tokenizers Pg_Common
begin

text \<open>
  \<open>llm386-config/src/lib.rs\<close>: the sections of the configuration file, the values they are built
  into, and the choice of a backend. Reading the file and parsing TOML are parameters of
  \<open>parse_config\<close>; opening a store and loading a tokenizer are parameters too. Errors are texts.
\<close>

section \<open>The file\<close>

datatype store_entry =
  Entry_Lmdb "bytes option"
| Entry_Pg "bytes option" "u32 option" "bytes option" "bytes option" "bytes option"

record hf_tokenizer_entry =
  he_name :: bytes
  he_path :: bytes

record retriever_entry =
  re_kind :: bytes
  re_half_life_secs :: "f32 option"
  re_min_word_len :: "nat option"
  re_k1 :: "f32 option"
  re_b :: "f32 option"
  re_score :: "f32 option"

record packer_entry =
  pe_include_timestamps :: bool

record cache_entry =
  ce_stable_sections :: "bytes list option"

record section_budget_entry =
  sb_state :: "f32 option"
  sb_plan :: "f32 option"
  sb_recent :: "f32 option"
  sb_retrieved :: "f32 option"
  sb_tools :: "f32 option"
  sb_background :: "f32 option"
  sb_slack :: "f32 option"

record edge_entry =
  ee_enabled :: "bool option"
  ee_max_depth :: "u8 option"
  ee_max_fanout :: "nat option"
  ee_follow_provenance_parents :: "bool option"
  ee_parent :: "bytes option"
  ee_derived_from :: "bytes option"
  ee_supports :: "bytes option"
  ee_contradicts :: "bytes option"
  ee_tool_invocation :: "bytes option"

record config_file =
  cf_profile :: "model_profile list"
  cf_hf_tokenizer :: "hf_tokenizer_entry list"
  cf_retriever :: "retriever_entry list"
  cf_section_budgets :: "section_budget_entry option"
  cf_packer :: "packer_entry option"
  cf_cache :: "cache_entry option"
  cf_store :: "store_entry option"
  cf_edges :: "edge_entry option"

definition parse_config :: "(bytes \<Rightarrow> bytes + bytes) \<Rightarrow> (bytes \<Rightarrow> bytes + config_file) \<Rightarrow> bytes \<Rightarrow> bytes + config_file" where
  "parse_config read_to_string from_toml path =
     rbind (map_err (\<lambda>e. ''reading config file at '' @ path @ '': '' @ e) (read_to_string path)) (\<lambda>s.
     map_err (\<lambda>e. ''parsing config file at '' @ path @ '': '' @ e) (from_toml s))"

section \<open>Values\<close>

text \<open>The dash U+2014 of the messages, and text in double quotes.\<close>

definition em_dash :: bytes where
  "em_dash = map char_of [226 :: nat, 128, 148]"

definition quoted :: "bytes \<Rightarrow> bytes" where
  "quoted s = CHR 0x22 # s @ [CHR 0x22]"

definition parse_tls_mode :: "bytes option \<Rightarrow> bytes option \<Rightarrow> bytes + tls_mode" where
  "parse_tls_mode tls tls_ca_path =
     (case map_option to_ascii_lowercase tls of
        None \<Rightarrow> Inr Tls_Disable
      | Some s \<Rightarrow>
          if s = ''disable'' then Inr Tls_Disable
          else if s = ''require'' then Inr Tls_Require
          else if s = ''require-noverify'' then Inr Tls_RequireNoverify
          else if s = ''require-custom-ca''
          then rbind (ok_or (''[store] tls = '' @ quoted ''require-custom-ca'' @
                 '' requires `tls_ca_path` to be set (PEM bundle)'') tls_ca_path) (\<lambda>p. Inr (Tls_RequireCustomCa p))
          else Inl (''[store] tls = '' @ quoted s @ '' '' @ em_dash @
                 '' expected one of: disable, require, require-noverify, require-custom-ca''))"

definition build_packer :: "packer_entry \<Rightarrow> packer_options" where
  "build_packer e = \<lparr>po_include_timestamps = pe_include_timestamps e, po_now_ms = None, po_cache = cache_options_default\<rparr>"

definition parse_section :: "bytes \<Rightarrow> bytes + section_kind" where
  "parse_section name =
     (let s = to_ascii_lowercase name in
      if s = ''system'' then Inr Sec_System
      else if s = ''state'' then Inr Sec_State
      else if s = ''plan'' then Inr Sec_Plan
      else if s = ''retrieved'' then Inr Sec_Retrieved
      else if s = ''background'' then Inr Sec_Background
      else Inl (''[cache].stable_sections: unsupported section `'' @ s @ ''` '' @ em_dash @
             '' valid: system, state, plan, retrieved, background''))"

definition build_cache :: "cache_entry \<Rightarrow> bytes + cache_options" where
  "build_cache e =
     (case ce_stable_sections e of
        None \<Rightarrow> Inr cache_options_default
      | Some names \<Rightarrow> rbind (map_res parse_section names) (\<lambda>ss. Inr (cache_options_default\<lparr>co_stable_sections := ss\<rparr>)))"

definition set_if :: "section_kind \<Rightarrow> f32 option \<Rightarrow> section_budget_table \<Rightarrow> section_budget_table" where
  "set_if s v t = (case v of Some f \<Rightarrow> table_set s f t | None \<Rightarrow> t)"

definition build_section_budgets :: "section_budget_entry \<Rightarrow> section_budget_table" where
  "build_section_budgets e =
     (let t = set_if Sec_State (sb_state e) Budget.table_empty;
          t = set_if Sec_Plan (sb_plan e) t;
          t = set_if Sec_Recent (sb_recent e) t;
          t = set_if Sec_Retrieved (sb_retrieved e) t;
          t = set_if Sec_Tools (sb_tools e) t;
          t = set_if Sec_Background (sb_background e) t
      in set_if Sec_Slack (sb_slack e) t)"

definition mode_error :: "bytes \<Rightarrow> bytes \<Rightarrow> bytes \<Rightarrow> bytes" where
  "mode_error field s valid = ''[edges].'' @ field @ '' = '' @ quoted s @ '' '' @ em_dash @ '' valid: '' @ valid"

definition parse_parent_mode :: "bytes \<Rightarrow> bytes + parent_mode" where
  "parse_parent_mode v =
     (let s = to_ascii_lowercase v in
      if s = ''off'' then Inr Parent_Off
      else if s = ''container-only'' then Inr ContainerOnly
      else if s = ''bidirectional'' then Inr Bidirectional
      else Inl (mode_error ''parent'' s ''off, container-only, bidirectional''))"

definition parse_derived_mode :: "bytes \<Rightarrow> bytes + derived_mode" where
  "parse_derived_mode v =
     (let s = to_ascii_lowercase v in
      if s = ''off'' then Inr Derived_Off
      else if s = ''co-retrieve-source'' then Inr CoRetrieveSource
      else if s = ''suppress-source'' then Inr SuppressSource
      else Inl (mode_error ''derived_from'' s ''off, co-retrieve-source, suppress-source''))"

definition parse_supports_mode :: "bytes \<Rightarrow> bytes + supports_mode" where
  "parse_supports_mode v =
     (let s = to_ascii_lowercase v in
      if s = ''off'' then Inr Supports_Off
      else if s = ''co-retrieve'' then Inr Supports_CoRetrieve
      else Inl (mode_error ''supports'' s ''off, co-retrieve''))"

definition parse_contradict_mode :: "bytes \<Rightarrow> bytes + contradict_mode" where
  "parse_contradict_mode v =
     (let s = to_ascii_lowercase v in
      if s = ''off'' then Inr Contradict_Off
      else if s = ''prefer-newer'' then Inr PreferNewer
      else if s = ''flag'' then Inr Flag
      else Inl (mode_error ''contradicts'' s ''off, prefer-newer, flag''))"

definition parse_tool_mode :: "bytes \<Rightarrow> bytes + tool_mode" where
  "parse_tool_mode v =
     (let s = to_ascii_lowercase v in
      if s = ''off'' then Inr Tool_Off
      else if s = ''co-retrieve'' then Inr Tool_CoRetrieve
      else Inl (mode_error ''tool_invocation'' s ''off, co-retrieve''))"

text \<open>An optional field: absent, it leaves the value it has.\<close>

definition field_or :: "'a \<Rightarrow> 'a option \<Rightarrow> 'a" where
  "field_or d v = (case v of Some x \<Rightarrow> x | None \<Rightarrow> d)"

definition parse_or :: "'a \<Rightarrow> (bytes \<Rightarrow> bytes + 'a) \<Rightarrow> bytes option \<Rightarrow> bytes + 'a" where
  "parse_or d f v = (case v of Some s \<Rightarrow> f s | None \<Rightarrow> Inr d)"

definition build_edges :: "edge_entry \<Rightarrow> bytes + edge_policy" where
  "build_edges e =
     (let p = edge_policy_default\<lparr>ep_enabled := field_or (ep_enabled edge_policy_default) (ee_enabled e),
            ep_max_depth := field_or (ep_max_depth edge_policy_default) (ee_max_depth e),
            ep_max_fanout := field_or (ep_max_fanout edge_policy_default) (ee_max_fanout e),
            ep_follow_provenance_parents :=
              field_or (ep_follow_provenance_parents edge_policy_default) (ee_follow_provenance_parents e)\<rparr>
      in rbind (parse_or (ep_parent p) parse_parent_mode (ee_parent e)) (\<lambda>m1.
         rbind (parse_or (ep_derived_from p) parse_derived_mode (ee_derived_from e)) (\<lambda>m2.
         rbind (parse_or (ep_supports p) parse_supports_mode (ee_supports e)) (\<lambda>m3.
         rbind (parse_or (ep_contradicts p) parse_contradict_mode (ee_contradicts e)) (\<lambda>m4.
         rbind (parse_or (ep_tool_invocation p) parse_tool_mode (ee_tool_invocation e)) (\<lambda>m5.
         Inr (p\<lparr>ep_parent := m1, ep_derived_from := m2, ep_supports := m3, ep_contradicts := m4,
                ep_tool_invocation := m5\<rparr>)))))))"

section \<open>Applying the file\<close>

record applied =
  ap_retrievers :: "retriever_entry list"
  ap_section_budgets :: "section_budget_table option"
  ap_packer_options :: "packer_options option"
  ap_store :: "store_entry option"
  ap_edge_policy :: "edge_policy option"

text \<open>The tokenizers are loaded in order; the registry keeps those loaded before a failure.\<close>

fun load_tokenizers ::
    "(bytes \<Rightarrow> tokenizer_id \<Rightarrow> tokenizer_error + tokenizer) \<Rightarrow> hf_tokenizer_entry list \<Rightarrow> tokenizer_registry \<Rightarrow>
       (bytes + unit) \<times> tokenizer_registry" where
  "load_tokenizers from_file [] reg = (Inr (), reg)"
| "load_tokenizers from_file (e # es) reg =
     (case from_file (he_path e) (he_name e) of
        Inl err \<Rightarrow> (Inl (''loading huggingface tokenizer `'' @ he_name e @ ''` from '' @ he_path e @ '': '' @
          tokenizer_error_display err), reg)
      | Inr tok \<Rightarrow> load_tokenizers from_file es (tokenizers_register reg tok))"

definition merge_cache :: "packer_options option \<Rightarrow> cache_entry option \<Rightarrow> bytes + packer_options option" where
  "merge_cache packer_options cache =
     (case cache of
        None \<Rightarrow> Inr packer_options
      | Some c \<Rightarrow>
          rbind (build_cache c) (\<lambda>cache_opts.
          Inr (Some ((case packer_options of Some o' \<Rightarrow> o' | None \<Rightarrow> packer_options_default)\<lparr>po_cache := cache_opts\<rparr>))))"

definition transpose_res :: "('e + 'a) option \<Rightarrow> 'e + 'a option" where
  "transpose_res m = (case m of None \<Rightarrow> Inr None | Some r \<Rightarrow> rbind r (\<lambda>x. Inr (Some x)))"

definition apply_config ::
    "(bytes \<Rightarrow> tokenizer_id \<Rightarrow> tokenizer_error + tokenizer) \<Rightarrow> config_file \<Rightarrow> model_registry \<Rightarrow> tokenizer_registry \<Rightarrow>
       (bytes + applied) \<times> model_registry \<times> tokenizer_registry" where
  "apply_config from_file parsed models tokenizers =
     (let models' = fold register (cf_profile parsed) models;
          (loaded, tokenizers') = load_tokenizers from_file (cf_hf_tokenizer parsed) tokenizers
      in (rbind loaded (\<lambda>_.
          rbind (merge_cache (map_option build_packer (cf_packer parsed)) (cf_cache parsed)) (\<lambda>packer_options.
          rbind (transpose_res (map_option build_edges (cf_edges parsed))) (\<lambda>edge_policy.
          Inr \<lparr>ap_retrievers = cf_retriever parsed,
               ap_section_budgets = map_option build_section_budgets (cf_section_budgets parsed),
               ap_packer_options = packer_options, ap_store = cf_store parsed, ap_edge_policy = edge_policy\<rparr>))),
          models', tokenizers'))"

section \<open>The backend\<close>

datatype ('l, 'p) store_backend = Backend_Lmdb 'l | Backend_Pg 'p

fun backend_label :: "('l, 'p) store_backend \<Rightarrow> bytes" where
  "backend_label (Backend_Lmdb _) = ''lmdb''"
| "backend_label (Backend_Pg _) = ''pg''"

definition as_lmdb :: "('l, 'p) store_backend \<Rightarrow> bytes + 'l" where
  "as_lmdb b = (case b of Backend_Lmdb s \<Rightarrow> Inr s | Backend_Pg _ \<Rightarrow> Inl (backend_label b))"

definition option_or :: "'a option \<Rightarrow> 'a option \<Rightarrow> 'a option" where
  "option_or a b = (case a of Some x \<Rightarrow> Some x | None \<Rightarrow> b)"

text \<open>The stores are opened by parameters that give a store or the text of their error.\<close>

definition open_pg_store :: "(bytes \<Rightarrow> pg_store_config \<Rightarrow> bytes + 'p) \<Rightarrow> bytes \<Rightarrow> pg_store_config \<Rightarrow> bytes + ('l, 'p) store_backend" where
  "open_pg_store pg url cfg = rbind (map_err (\<lambda>e. ''open pg store: '' @ e) (pg url cfg)) (\<lambda>s. Inr (Backend_Pg s))"

definition open_lmdb_store :: "(bytes \<Rightarrow> bytes + 'l) \<Rightarrow> bytes \<Rightarrow> bytes + ('l, 'p) store_backend" where
  "open_lmdb_store open_l path = rbind (map_err (\<lambda>e. ''open lmdb store: '' @ e) (open_l path)) (\<lambda>s. Inr (Backend_Lmdb s))"

definition pg_config_of :: "u32 option \<Rightarrow> bytes option \<Rightarrow> tls_mode \<Rightarrow> pg_store_config" where
  "pg_config_of pool_size schema tls =
     pg_config_default\<lparr>pc_max_pool_size := field_or (pc_max_pool_size pg_config_default) pool_size,
       pc_schema := option_or schema (pc_schema pg_config_default), pc_tls := tls\<rparr>"

definition open_backend ::
    "(bytes \<Rightarrow> bytes + 'l) \<Rightarrow> (bytes \<Rightarrow> pg_store_config \<Rightarrow> bytes + 'p) \<Rightarrow>
       store_entry option \<Rightarrow> bytes option \<Rightarrow> bytes option \<Rightarrow> bytes + ('l, 'p) store_backend" where
  "open_backend open_l pg store_entry path url =
     (case store_entry of
        Some (Entry_Pg cfg_url pool_size schema tls tls_ca_path) \<Rightarrow>
          if path \<noteq> None
          then Inl (''[store] backend='' @ quoted ''pg'' @
            '' is incompatible with an LMDB path override; pass `url`/`--pg-url` instead'')
          else
            rbind (ok_or (''[store] backend='' @ quoted ''pg'' @
              '' requires a Postgres URL (set `url` in the TOML or pass `--pg-url`/`url=`)'') (option_or url cfg_url)) (\<lambda>connect_url.
            rbind (parse_tls_mode tls tls_ca_path) (\<lambda>mode.
            open_pg_store pg connect_url (pg_config_of pool_size schema mode)))
      | Some (Entry_Lmdb cfg_path) \<Rightarrow>
          if url \<noteq> None
          then Inl (''[store] backend='' @ quoted ''lmdb'' @
            '' is incompatible with a Postgres URL override; pass `path`/`--store` instead'')
          else
            rbind (ok_or (''[store] backend='' @ quoted ''lmdb'' @
              '' requires a path (set `path` in the TOML or pass `--store`/positional)'') (option_or path cfg_path))
              (open_lmdb_store open_l)
      | None \<Rightarrow>
          (case (path, url) of
             (Some _, Some _) \<Rightarrow>
               Inl (''pass either an LMDB path or a Postgres URL, not both '' @ em_dash @ '' or pin one in a [store] section'')
           | (None, Some connect_url) \<Rightarrow> open_pg_store pg connect_url pg_config_default
           | (Some p, None) \<Rightarrow> open_lmdb_store open_l p
           | (None, None) \<Rightarrow>
               Inl (''no block-store backend selected: pass an LMDB path, a `--pg-url`/`url=`, or a [store] section in the config TOML'')))"

section \<open>Retrievers\<close>

text \<open>What the retrievers of the pager are parameterized by.\<close>

record retriever_env =
  rv_exp2 :: "f32 \<Rightarrow> f32"
  rv_ln :: "f32 \<Rightarrow> f32"
  rv_text :: text_ops
  rv_term_order :: "block_id \<Rightarrow> (bytes \<times> u32) list \<Rightarrow> (bytes \<times> u32) list"

definition build_retriever :: "retriever_env \<Rightarrow> store_view \<Rightarrow> retriever_entry \<Rightarrow> bytes + retriever" where
  "build_retriever env st e =
     (if re_kind e = ''recency''
      then Inr (recency_retriever (rv_exp2 env) st (Option.bind (re_half_life_secs e) with_half_life))
      else if re_kind e = ''lexical''
      then Inr (lexical_retriever (rv_text env) st (field_or 3 (re_min_word_len e)))
      else if re_kind e = ''bm25''
      then Inr (bm25_retriever (rv_text env) (rv_ln env) (rv_term_order env) st
             \<lparr>bm_k1 = field_or (bm_k1 bm25_default) (re_k1 e), bm_b = field_or (bm_b bm25_default) (re_b e),
              bm_min_word_len = field_or (bm_min_word_len bm25_default) (re_min_word_len e)\<rparr>)
      else if re_kind e = ''session''
      then Inr (session_retriever st (field_or session_default_score (map_option session_with_score (re_score e))))
      else Inl (''unknown retriever kind `'' @ re_kind e @ ''`; expected one of: recency, lexical, bm25, session''))"

definition build_retrievers ::
    "retriever_env \<Rightarrow> retriever_entry list \<Rightarrow> store_view \<Rightarrow> bytes + retriever list option" where
  "build_retrievers env entries st =
     (if entries = [] then Inr None
      else rbind (map_res (build_retriever env st) entries) (\<lambda>rs. Inr (Some rs)))"

section \<open>What a configuration gives\<close>

lemma set_if_reachable: "table_reachable t \<Longrightarrow> table_reachable (set_if s v t)"
  by (auto simp: set_if_def intro: table_reachable.set split: option.splits)

lemma build_section_budgets_reachable: "table_reachable (build_section_budgets e)"
  unfolding build_section_budgets_def Let_def
  by (intro set_if_reachable table_reachable.empty)

lemma bt_get_set_if: "bt_get (set_if s v t) k = (if k = s \<and> v \<noteq> None then map_option (\<lambda>f. fclamp f f32_0 f32_1) v else bt_get t k)"
  by (auto simp: set_if_def table_set_def bt_get_def map_of_bt_insert split: option.splits)

definition configured :: "section_budget_entry \<Rightarrow> section_kind \<Rightarrow> f32 option" where
  "configured e s =
     (case s of
        Sec_State \<Rightarrow> sb_state e
      | Sec_Plan \<Rightarrow> sb_plan e
      | Sec_Recent \<Rightarrow> sb_recent e
      | Sec_Retrieved \<Rightarrow> sb_retrieved e
      | Sec_Tools \<Rightarrow> sb_tools e
      | Sec_Background \<Rightarrow> sb_background e
      | Sec_Slack \<Rightarrow> sb_slack e
      | Sec_System \<Rightarrow> None
      | Sec_Task \<Rightarrow> None)"

text \<open>
  C35: the budget table of a configuration is well formed: sections in ascending order and every
  fraction in the unit interval or not a number. It holds exactly the sections that the file
  sets, each with its own fraction clamped; the fixed sections System and Task never get one.
\<close>

theorem config_budget_table:
  "table_ok (build_section_budgets e) \<and>
   bt_get (build_section_budgets e) s = map_option (\<lambda>f. fclamp f f32_0 f32_1) (configured e s)"
proof -
  have "bt_get Budget.table_empty s = None" by (simp add: Budget.table_empty_def bt_get_def)
  then show ?thesis
    using table_reachable_ok [OF build_section_budgets_reachable]
    by (cases s) (simp_all add: build_section_budgets_def Let_def bt_get_set_if configured_def)
qed

lemma parse_tls_mode_disable:
  "parse_tls_mode tls ca = Inr mode \<Longrightarrow> mode = Tls_Disable \<longleftrightarrow> tls = None \<or> map_option to_ascii_lowercase tls = Some ''disable''"
  by (cases tls) (auto simp: parse_tls_mode_def rbind_Inr_iff split: if_splits)

text \<open>
  The backend is the one that the file names, or else the one that is given: a Postgres store
  is opened only without a path and an LMDB store only without a URL, an explicit path or URL
  wins over the file, and a store with a \<open>tls\<close> entry other than disable, in any case of
  letters, is opened with a mode that requires TLS.
\<close>

lemma open_backend_choice:
  assumes "open_backend open_l pg entry path url = Inr b"
  shows "case b of
      Backend_Lmdb s \<Rightarrow> url = None \<and>
        (\<exists>p. open_l p = Inr s \<and>
          (case entry of None \<Rightarrow> path = Some p | Some (Entry_Lmdb q) \<Rightarrow> option_or path q = Some p | Some _ \<Rightarrow> False))
    | Backend_Pg s \<Rightarrow> path = None \<and>
        (\<exists>u cfg. pg u cfg = Inr s \<and>
          (case entry of
             None \<Rightarrow> url = Some u \<and> pc_tls cfg = Tls_Disable
           | Some (Entry_Pg q n schema tls ca) \<Rightarrow> option_or url q = Some u \<and> pc_schema cfg = schema \<and>
               (pc_tls cfg = Tls_Disable \<longleftrightarrow> tls = None \<or> map_option to_ascii_lowercase tls = Some ''disable'')
           | Some _ \<Rightarrow> False))"
proof (cases "\<exists>q n schema tls ca. entry = Some (Entry_Pg q n schema tls ca)")
  case True
  then obtain q n schema tls ca where e: "entry = Some (Entry_Pg q n schema tls ca)" by blast
  from assms obtain u mode s where p: "path = None" "option_or url q = Some u" "parse_tls_mode tls ca = Inr mode"
    "pg u (pg_config_of n schema mode) = Inr s" "b = Backend_Pg s"
    unfolding e by (auto simp: open_backend_def open_pg_store_def rbind_Inr_iff split: if_splits)
  have "pc_schema (pg_config_of n schema mode) = schema" "pc_tls (pg_config_of n schema mode) = mode"
    by (simp_all add: pg_config_of_def pg_config_default_def option_or_def split: option.splits)
  then have "pg u (pg_config_of n schema mode) = Inr s \<and> option_or url q = Some u \<and>
      pc_schema (pg_config_of n schema mode) = schema \<and>
      (pc_tls (pg_config_of n schema mode) = Tls_Disable \<longleftrightarrow> tls = None \<or> map_option to_ascii_lowercase tls = Some ''disable'')"
    using p(2,4) parse_tls_mode_disable [OF p(3)] by (simp only: simp_thms)
  then show ?thesis
    unfolding e p(5) by (simp only: store_backend.case option.case store_entry.case p(1) simp_thms) blast
next
  case False
  have plain: "pc_tls pg_config_default = Tls_Disable"
    by (simp add: pg_config_default_def tls_mode_default_def)
  from assms False show ?thesis
    by (cases entry; cases path; cases url)
      (auto simp: open_backend_def open_pg_store_def open_lmdb_store_def rbind_Inr_iff option_or_def plain intro!: exI [of _ pg_config_default] split: store_entry.splits)
qed

lemma open_backend_choice_witness:
  "\<exists>u cfg. open_backend Inr (\<lambda>u cfg. Inr (u, cfg)) (Some (Entry_Pg (Some ''pg://a'') None None (Some ''Require'') None))
     None (Some ''pg://b'') = (Inr (Backend_Pg (u, cfg)) :: bytes + (bytes, bytes \<times> pg_store_config) store_backend) \<and>
   u = ''pg://b'' \<and> pc_tls cfg \<noteq> Tls_Disable"
proof -
  have low: "to_ascii_lowercase ''Require'' = ''require''"
    by code_simp
  obtain u cfg where run: "open_backend Inr (\<lambda>u cfg. Inr (u, cfg))
      (Some (Entry_Pg (Some ''pg://a'') None None (Some ''Require'') None)) None (Some ''pg://b'') =
      (Inr (Backend_Pg (u, cfg)) :: bytes + (bytes, bytes \<times> pg_store_config) store_backend)"
    by (simp add: open_backend_def open_pg_store_def parse_tls_mode_def low option_or_def)
  from open_backend_choice [OF run] have "u = ''pg://b''" "pc_tls cfg \<noteq> Tls_Disable"
    by (auto simp: option_or_def low)
  with run show ?thesis by blast
qed

end
