(* ===== verification/Store_Ops.thy ===== *)
theory Store_Ops
  imports Lmdb_Runs Pg_Runs Config
begin

text \<open>
  The trait \<open>BlockStore\<close> as a record of operations over a state, the two stores that implement
  it, and the store a command opens, which is one of the two (\<open>StoreBackend\<close> and \<open>dispatch!\<close> of
  \<open>llm386-config\<close>). The locale \<open>store_contract\<close> is what a client may rely on; both stores meet
  it, and so does the one that a command opens.
\<close>

record 's block_store =
  bs_put :: "'s \<Rightarrow> session_id \<Rightarrow> context_block \<Rightarrow> store_error + block_id \<times> 's"
  bs_get :: "'s \<Rightarrow> block_id \<Rightarrow> store_error + context_block option"
  bs_list_session :: "'s \<Rightarrow> session_id \<Rightarrow> store_error + block_id list"
  bs_list_sessions :: "'s \<Rightarrow> store_error + session_id list"
  bs_delete :: "'s \<Rightarrow> block_id \<Rightarrow> store_error + bool \<times> 's"
  bs_purge_session :: "'s \<Rightarrow> session_id \<Rightarrow> store_error + nat \<times> 's"
  bs_put_edge :: "'s \<Rightarrow> edge \<Rightarrow> store_error + unit \<times> 's"
  bs_edges_from :: "'s \<Rightarrow> block_id \<Rightarrow> store_error + edge list"
  bs_edges_to :: "'s \<Rightarrow> block_id \<Rightarrow> store_error + edge list"

definition lmdb_ops :: "'t lmdb_lib \<Rightarrow> 't lmdb_store block_store" where
  "lmdb_ops lib = \<lparr>bs_put = lmdb_put lib, bs_get = lmdb_get lib, bs_list_session = lmdb_list_session lib,
     bs_list_sessions = lmdb_list_sessions lib, bs_delete = lmdb_delete lib,
     bs_purge_session = lmdb_purge_session lib, bs_put_edge = lmdb_put_edge lib,
     bs_edges_from = lmdb_edges_from lib, bs_edges_to = lmdb_edges_to lib\<rparr>"

definition pg_store_ops :: "'d pg_lib \<Rightarrow> 'd block_store" where
  "pg_store_ops lib = \<lparr>bs_put = pg_put lib, bs_get = pg_get lib, bs_list_session = pg_list_session lib,
     bs_list_sessions = pg_list_sessions lib, bs_delete = pg_delete lib,
     bs_purge_session = pg_purge_session lib, bs_put_edge = pg_put_edge lib,
     bs_edges_from = pg_edges_from lib, bs_edges_to = pg_edges_to lib\<rparr>"

text \<open>The view of a store that the pager, the packer and the retrievers read.\<close>

definition view_of :: "'s block_store \<Rightarrow> 's \<Rightarrow> store_view" where
  "view_of ops s = \<lparr>sv_get = bs_get ops s, sv_list_session = bs_list_session ops s,
     sv_edges_from = bs_edges_from ops s, sv_edges_to = bs_edges_to ops s\<rparr>"

section \<open>The opened backend\<close>

definition backend_reads :: "('l \<Rightarrow> 'r) \<Rightarrow> ('p \<Rightarrow> 'r) \<Rightarrow> ('l, 'p) store_backend \<Rightarrow> 'r" where
  "backend_reads f g b = (case b of Backend_Lmdb s \<Rightarrow> f s | Backend_Pg d \<Rightarrow> g d)"

definition backend_writes :: "('l \<Rightarrow> 'e + 'a \<times> 'l) \<Rightarrow> ('p \<Rightarrow> 'e + 'a \<times> 'p) \<Rightarrow> ('l, 'p) store_backend \<Rightarrow>
    'e + 'a \<times> ('l, 'p) store_backend" where
  "backend_writes f g b =
     (case b of
        Backend_Lmdb s \<Rightarrow> rbind (f s) (\<lambda>(x, s'). Inr (x, Backend_Lmdb s'))
      | Backend_Pg d \<Rightarrow> rbind (g d) (\<lambda>(x, d'). Inr (x, Backend_Pg d')))"

definition backend_ops :: "'l block_store \<Rightarrow> 'p block_store \<Rightarrow> ('l, 'p) store_backend block_store" where
  "backend_ops l p =
     \<lparr>bs_put = (\<lambda>b session blk. backend_writes (\<lambda>s. bs_put l s session blk) (\<lambda>d. bs_put p d session blk) b),
      bs_get = (\<lambda>b i. backend_reads (\<lambda>s. bs_get l s i) (\<lambda>d. bs_get p d i) b),
      bs_list_session = (\<lambda>b i. backend_reads (\<lambda>s. bs_list_session l s i) (\<lambda>d. bs_list_session p d i) b),
      bs_list_sessions = backend_reads (bs_list_sessions l) (bs_list_sessions p),
      bs_delete = (\<lambda>b i. backend_writes (\<lambda>s. bs_delete l s i) (\<lambda>d. bs_delete p d i) b),
      bs_purge_session = (\<lambda>b i. backend_writes (\<lambda>s. bs_purge_session l s i) (\<lambda>d. bs_purge_session p d i) b),
      bs_put_edge = (\<lambda>b e. backend_writes (\<lambda>s. bs_put_edge l s e) (\<lambda>d. bs_put_edge p d e) b),
      bs_edges_from = (\<lambda>b i. backend_reads (\<lambda>s. bs_edges_from l s i) (\<lambda>d. bs_edges_from p d i) b),
      bs_edges_to = (\<lambda>b i. backend_reads (\<lambda>s. bs_edges_to l s i) (\<lambda>d. bs_edges_to p d i) b)\<rparr>"

section \<open>What a client relies on\<close>

text \<open>
  The reading half speaks of the store specification a state stands for; the writing half is
  about a block that the store keeps as it is (\<open>storable\<close>) under a fresh id.
\<close>

locale store_reads =
  fixes ops :: "'s block_store" and rel :: "'s \<Rightarrow> store_spec \<Rightarrow> bool"
  assumes get_law: "rel s a \<Longrightarrow> spec_wf a \<Longrightarrow> bs_get ops s i = Inr ob \<Longrightarrow> ob = st_blocks a i"
    and list_law: "rel s a \<Longrightarrow> spec_wf a \<Longrightarrow> bs_list_session ops s session = Inr ids \<Longrightarrow>
      set ids = spec_session session a \<and> sorted_wrt (<) ids"
    and from_law: "rel s a \<Longrightarrow> spec_wf a \<Longrightarrow> bs_edges_from ops s i = Inr es \<Longrightarrow> set es = {e \<in> st_edges a. edge_from e = i}"
    and to_law: "rel s a \<Longrightarrow> spec_wf a \<Longrightarrow> bs_edges_to ops s i = Inr es \<Longrightarrow> set es = {e \<in> st_edges a. edge_to e = i}"

locale store_contract = store_reads ops rel for ops :: "'s block_store" and rel +
  fixes storable :: "context_block \<Rightarrow> bool"
  assumes put_law: "rel s a \<Longrightarrow> spec_wf a \<Longrightarrow> storable b \<Longrightarrow> bs_put ops s session b = Inr (i, s') \<Longrightarrow>
      i = fst (spec_put session b a) \<and> rel s' (snd (spec_put session b a))"
    and delete_law: "rel s a \<Longrightarrow> spec_wf a \<Longrightarrow> bs_delete ops s i = Inr (r, s') \<Longrightarrow>
      r = spec_has i a \<and> (rel s' (spec_remove {i} a) \<or> \<not> r \<and> rel s' a)"
    and purge_law: "rel s a \<Longrightarrow> spec_wf a \<Longrightarrow> bs_purge_session ops s session = Inr (n, s') \<Longrightarrow>
      n = fst (spec_purge session a) \<and> rel s' (snd (spec_purge session a))"
    and put_edge_law: "rel s a \<Longrightarrow> spec_wf a \<Longrightarrow> bs_put_edge ops s e = Inr (u, s') \<Longrightarrow> rel s' (spec_put_edge e a)"
begin

lemma put_get:
  assumes "rel s a" "spec_wf a" "storable b" "fresh_for b a"
    and "bs_put ops s session b = Inr (i, s')" "bs_get ops s' i = Inr ob"
  shows "\<exists>c. ob = Some c \<and> cb_id c = i \<and> cb_hash c = cb_hash b \<and> (st_hash a (cb_hash b) = None \<longrightarrow> c = b)"
proof -
  let ?a = "snd (spec_put session b a)"
  note put = put_law [OF assms(1,2,3,5)]
  have wf: "spec_wf ?a" using assms(2,4) by (rule spec_wf_put)
  have ob: "ob = st_blocks ?a i" using get_law [OF _ wf assms(6)] put by blast
  show ?thesis
  proof (cases "st_hash a (cb_hash b)")
    case None
    with put ob show ?thesis by (auto simp: spec_put_def)
  next
    case (Some j)
    with put ob show ?thesis using spec_wfD(2) [OF assms(2), of "cb_hash b" j] spec_wfD(1) [OF assms(2)]
      by (auto simp: spec_put_def)
  qed
qed

lemma delete_get:
  assumes "rel s a" "spec_wf a" "bs_delete ops s i = Inr (r, s')" "bs_get ops s' i = Inr ob"
  shows "ob = None"
proof -
  have "st_blocks (spec_remove {i} a) i = None" by (simp add: spec_remove_def)
  moreover have "st_blocks a i = None" if "\<not> r" using delete_law [OF assms(1,2,3)] that by (simp add: spec_has_def)
  ultimately show ?thesis
    using delete_law [OF assms(1,2,3)] get_law [OF _ spec_wf_remove [OF assms(2)] assms(4)] get_law [OF _ assms(2,4)]
    by auto
qed

lemma purge_list:
  assumes "rel s a" "spec_wf a" "bs_purge_session ops s session = Inr (n, s')" "bs_list_session ops s' session = Inr ids"
  shows "ids = []"
proof -
  note p = purge_law [OF assms(1,2,3)]
  from list_law [OF conjunct2 [OF p] spec_wf_purge [OF assms(2)] assms(4)] show ?thesis
    by (auto simp: spec_session_def spec_purge_def)
qed

end

section \<open>The two stores\<close>

text \<open>The LMDB store keeps every block as it is; Postgres those without clamped time stamps.\<close>

sublocale lmdb \<subseteq> store: store_contract "lmdb_ops lib" "lmdb_rel lib tab" "\<lambda>_. True"
proof unfold_locales
  fix s a i r s'
  assume "lmdb_rel lib tab s a" "spec_wf a" and "bs_delete (lmdb_ops lib) s i = Inr (r, s')"
  with delete_spec [of s a i r s'] show "r = spec_has i a \<and> (lmdb_rel lib tab s' (spec_remove {i} a) \<or> \<not> r \<and> lmdb_rel lib tab s' a)"
    by (auto simp: lmdb_ops_def spec_delete_def split: if_splits)
qed (auto simp: lmdb_ops_def dest: get_spec list_session_spec edges_from_spec edges_to_spec put_spec
      purge_session_spec put_edge_spec)

sublocale postgres \<subseteq> store: store_contract "pg_store_ops lib" "\<lambda>d. pg_rel (tables d)" pg_storable
proof unfold_locales
  fix d a b session i d'
  assume a: "pg_rel (tables d) a" "spec_wf a" and "pg_storable b" "bs_put (pg_store_ops lib) d session b = Inr (i, d')"
  then have "put_tx lib pe_text d session b = Inr (i, d')" "bt_sorted (cb_token_counts b)" "pg_stored b = b"
    by (auto simp: pg_store_ops_def pg_put_def pg_storable_def dest: with_conn_Inr)
  with put_spec [OF a this(2,1)] show "i = fst (spec_put session b a) \<and> pg_rel (tables d') (snd (spec_put session b a))"
    by auto
next
  fix d a i r d'
  assume a: "pg_rel (tables d) a" "spec_wf a" and "bs_delete (pg_store_ops lib) d i = Inr (r, d')"
  then have "delete_tx lib d i = Inr (r, d')" by (auto simp: pg_store_ops_def pg_delete_def dest: with_conn_Inr)
  from delete_spec [OF a this] show "r = spec_has i a \<and> (pg_rel (tables d') (spec_remove {i} a) \<or> \<not> r \<and> pg_rel (tables d') a)"
    by auto
qed (auto simp: pg_store_ops_def pg_ops dest!: with_conn_Inr
      dest: get_spec list_session_spec edges_from_spec edges_to_spec purge_spec put_edge_spec)

section \<open>The backend of a command\<close>

definition backend_rel :: "('l \<Rightarrow> store_spec \<Rightarrow> bool) \<Rightarrow> ('p \<Rightarrow> store_spec \<Rightarrow> bool) \<Rightarrow> ('l, 'p) store_backend \<Rightarrow> store_spec \<Rightarrow> bool" where
  "backend_rel f g b a = (case b of Backend_Lmdb s \<Rightarrow> f s a | Backend_Pg d \<Rightarrow> g d a)"

locale two_stores =
  l: store_contract lops lrel lok + p: store_contract pops prel pok
  for lops :: "'l block_store" and lrel lok and pops :: "'p block_store" and prel pok

sublocale two_stores \<subseteq> backend: store_contract "backend_ops lops pops" "backend_rel lrel prel" "\<lambda>b. lok b \<and> pok b"
proof unfold_locales
  fix s a i ob
  assume "backend_rel lrel prel s a" "spec_wf a" "bs_get (backend_ops lops pops) s i = Inr ob"
  then show "ob = st_blocks a i"
    by (cases s) (auto simp: backend_rel_def backend_ops_def backend_reads_def dest: l.get_law p.get_law)
next
  fix s a session ids
  assume "backend_rel lrel prel s a" "spec_wf a" "bs_list_session (backend_ops lops pops) s session = Inr ids"
  then show "set ids = spec_session session a \<and> sorted_wrt (<) ids"
    by (cases s) (auto simp: backend_rel_def backend_ops_def backend_reads_def dest: l.list_law p.list_law)
next
  fix s a i es
  assume "backend_rel lrel prel s a" "spec_wf a" "bs_edges_from (backend_ops lops pops) s i = Inr es"
  then show "set es = {e \<in> st_edges a. edge_from e = i}"
    by (cases s) (auto simp: backend_rel_def backend_ops_def backend_reads_def dest: l.from_law p.from_law)
next
  fix s a i es
  assume "backend_rel lrel prel s a" "spec_wf a" "bs_edges_to (backend_ops lops pops) s i = Inr es"
  then show "set es = {e \<in> st_edges a. edge_to e = i}"
    by (cases s) (auto simp: backend_rel_def backend_ops_def backend_reads_def dest: l.to_law p.to_law)
next
  fix s a b session i s'
  assume "backend_rel lrel prel s a" "spec_wf a" "lok b \<and> pok b" "bs_put (backend_ops lops pops) s session b = Inr (i, s')"
  then show "i = fst (spec_put session b a) \<and> backend_rel lrel prel s' (snd (spec_put session b a))"
    by (cases s) (auto simp: backend_rel_def backend_ops_def backend_writes_def rbind_Inr_iff dest: l.put_law p.put_law)
next
  fix s a i r s'
  assume "backend_rel lrel prel s a" "spec_wf a" "bs_delete (backend_ops lops pops) s i = Inr (r, s')"
  then show "r = spec_has i a \<and>
      (backend_rel lrel prel s' (spec_remove {i} a) \<or> \<not> r \<and> backend_rel lrel prel s' a)"
    by (cases s) (auto simp: backend_rel_def backend_ops_def backend_writes_def rbind_Inr_iff dest: l.delete_law p.delete_law)
next
  fix s a session n s'
  assume "backend_rel lrel prel s a" "spec_wf a" "bs_purge_session (backend_ops lops pops) s session = Inr (n, s')"
  then show "n = fst (spec_purge session a) \<and> backend_rel lrel prel s' (snd (spec_purge session a))"
    by (cases s) (auto simp: backend_rel_def backend_ops_def backend_writes_def rbind_Inr_iff dest: l.purge_law p.purge_law)
next
  fix s a e u s'
  assume "backend_rel lrel prel s a" "spec_wf a" "bs_put_edge (backend_ops lops pops) s e = Inr (u, s')"
  then show "backend_rel lrel prel s' (spec_put_edge e a)"
    by (cases s) (auto simp: backend_rel_def backend_ops_def backend_writes_def rbind_Inr_iff dest: l.put_edge_law p.put_edge_law)
qed

text \<open>The contracts, for use outside the locales.\<close>

context lmdb
begin

lemmas contract = store.store_contract_axioms store.store_reads_axioms

end

context postgres
begin

lemmas contract = store.store_contract_axioms store.store_reads_axioms

end

context two_stores
begin

lemmas contract = backend.store_contract_axioms backend.store_reads_axioms

end

interpretation memory: two_stores "lmdb_ops (list_lib bs hsh)" "lmdb_rel (list_lib bs hsh) table_get" "\<lambda>_. True"
  "pg_store_ops db_lib" "\<lambda>d. pg_rel (db_tables d)" pg_storable for bs hsh
  by (intro two_stores.intro mem.store.store_contract_axioms db.store.store_contract_axioms)

end
