(* ===== verification/Trace.thy ===== *)
theory Trace
  imports Lmdb_Store Diff
begin

text \<open>
  \<open>llm386-core/src/trace.rs\<close> and \<open>llm386-trace/src/lmdb.rs\<close>: the record of a call, the interface
  of a trace sink with its default \<open>update_output\<close>, and the sink over an LMDB table. A sink is a
  state that its operations return updated; the locale \<open>trace_log\<close> is what a sink promises, a log
  with one record for each call, and the LMDB sink is one.
\<close>

record trace_record =
  tr_call_id :: call_id
  tr_session :: session_id
  tr_model :: bytes
  tr_plan :: page_plan
  tr_prompt_tokens :: token_count
  tr_prompt_hash :: content_hash
  tr_started_at :: timestamp
  tr_duration_ms :: u32
  tr_model_version :: bytes
  tr_tokenizer_version :: bytes
  tr_output :: "bytes option"
  tr_output_tokens :: "token_count option"

record 's trace_sink =
  ts_record :: "'s \<Rightarrow> trace_record \<Rightarrow> trace_error + 's"
  ts_fetch :: "'s \<Rightarrow> call_id \<Rightarrow> trace_error + trace_record option"

definition update_output :: "'s trace_sink \<Rightarrow> 's \<Rightarrow> call_id \<Rightarrow> bytes \<Rightarrow> token_count \<Rightarrow> trace_error + 's" where
  "update_output sink s c output output_tokens =
     rbind (ts_fetch sink s c) (\<lambda>found.
     rbind (ok_or (TraceFailed (''no trace for '' @ call_id_display c)) found) (\<lambda>r.
     ts_record sink s (r\<lparr>tr_output := Some output, tr_output_tokens := Some output_tokens\<rparr>)))"

definition diff_traces :: "(reasons \<Rightarrow> reasons) \<Rightarrow> trace_record \<Rightarrow> trace_record \<Rightarrow> prompt_diff" where
  "diff_traces ord prev next' = diff_plans ord (tr_plan prev) (tr_plan next')"

section \<open>The sink over LMDB\<close>

record 't lmdb_trace_sink =
  lt_trace_by_call :: 't
  lt_meta :: 't

text \<open>The encoding of trace records, which is not the one of blocks.\<close>

record trace_codec =
  tc_encode :: "trace_record \<Rightarrow> bytes + raw"
  tc_decode :: "raw \<Rightarrow> bytes + trace_record"

definition trace_err :: "heed_error \<Rightarrow> trace_error" where
  "trace_err e = TraceFailed (''LMDB: '' @ e)"

datatype trace_open_error =
  Trace_Io bytes | Trace_Lmdb heed_error | Trace_SchemaMismatch u32 u32 | Trace_CorruptMeta bytes

fun trace_open_error_display :: "trace_open_error \<Rightarrow> bytes" where
  "trace_open_error_display (Trace_Io e) = ''io error: '' @ e"
| "trace_open_error_display (Trace_Lmdb e) = ''LMDB error: '' @ e"
| "trace_open_error_display (Trace_SchemaMismatch expected found) =
     ''on-disk trace schema version '' @ dec (unat found) @ '' does not match expected '' @ dec (unat expected)"
| "trace_open_error_display (Trace_CorruptMeta s) = ''trace meta table is corrupt: '' @ s"

definition trace_schema :: u32 where
  "trace_schema = 1"

text \<open>Opening the environment with its two tables, and the schema check.\<close>

definition trace_schema_check :: "'t lmdb_lib \<Rightarrow> 't lmdb_trace_sink \<Rightarrow> trace_open_error + 't lmdb_trace_sink" where
  "trace_schema_check lib s =
     rbind (map_err Trace_Lmdb (lib_get lib (lt_meta s) schema_key)) (\<lambda>existing.
     rbind (case existing of
         Some v \<Rightarrow>
           if length v \<noteq> 4 then Inl (Trace_CorruptMeta ''schema_version width'')
           else
             let found = word_of_nat (from_be v)
             in if found \<noteq> trace_schema then Inl (Trace_SchemaMismatch trace_schema found) else Inr s
       | None \<Rightarrow>
           rbind (map_err Trace_Lmdb (lib_put lib (lt_meta s) schema_key (be_bytes 4 (unat trace_schema))))
             (\<lambda>t. Inr (s\<lparr>lt_meta := t\<rparr>))) (\<lambda>s'.
     rbind (map_err Trace_Lmdb (lib_commit lib)) (\<lambda>_. Inr s')))"

definition trace_open :: "('e, 't) open_io \<Rightarrow> 't lmdb_lib \<Rightarrow> bytes \<Rightarrow> trace_open_error + 't lmdb_trace_sink" where
  "trace_open io lib path =
     rbind (map_err Trace_Io (oi_create_dir io path)) (\<lambda>_.
     rbind (map_err Trace_Lmdb (oi_open_env io (4 * 1024 * 1024 * 1024) 4 path)) (\<lambda>env.
     rbind (map_err Trace_Lmdb (lib_write_txn lib)) (\<lambda>_.
     rbind (map_err Trace_Lmdb (oi_create_database io env ''trace_by_call'')) (\<lambda>by_call.
     rbind (map_err Trace_Lmdb (oi_create_database io env ''meta'')) (\<lambda>meta.
     trace_schema_check lib \<lparr>lt_trace_by_call = by_call, lt_meta = meta\<rparr>)))))"

definition trace_record_call ::
    "'t lmdb_lib \<Rightarrow> trace_codec \<Rightarrow> 't lmdb_trace_sink \<Rightarrow> trace_record \<Rightarrow> trace_error + 't lmdb_trace_sink" where
  "trace_record_call lib codec s r =
     rbind (map_err (\<lambda>e. TraceFailed (''postcard encode: '' @ e)) (tc_encode codec r)) (\<lambda>v.
     rbind (map_err trace_err (lib_write_txn lib)) (\<lambda>_.
     rbind (map_err trace_err (lib_put lib (lt_trace_by_call s) (id_key (tr_call_id r)) v)) (\<lambda>t.
     rbind (map_err trace_err (lib_commit lib)) (\<lambda>_.
     Inr (s\<lparr>lt_trace_by_call := t\<rparr>)))))"

definition trace_fetch ::
    "'t lmdb_lib \<Rightarrow> trace_codec \<Rightarrow> 't lmdb_trace_sink \<Rightarrow> call_id \<Rightarrow> trace_error + trace_record option" where
  "trace_fetch lib codec s c =
     rbind (map_err trace_err (lib_read_txn lib)) (\<lambda>_.
     rbind (map_err trace_err (lib_get lib (lt_trace_by_call s) (id_key c))) (\<lambda>found.
     case found of
       Some v \<Rightarrow>
         rbind (map_err (\<lambda>e. TraceFailed (''postcard decode: '' @ e)) (tc_decode codec v)) (\<lambda>r. Inr (Some r))
     | None \<Rightarrow> Inr None))"

definition lmdb_sink :: "'t lmdb_lib \<Rightarrow> trace_codec \<Rightarrow> 't lmdb_trace_sink trace_sink" where
  "lmdb_sink lib codec = \<lparr>ts_record = trace_record_call lib codec, ts_fetch = trace_fetch lib codec\<rparr>"

section \<open>What a sink promises\<close>

locale trace_log =
  fixes sink :: "'s trace_sink" and log :: "'s \<Rightarrow> call_id \<rightharpoonup> trace_record"
  assumes record_ok: "ts_record sink s r = Inr s' \<Longrightarrow> log s' = (log s)(tr_call_id r \<mapsto> r)"
    and fetch_ok: "ts_fetch sink s c = Inr found \<Longrightarrow> found = log s c"
begin

lemma update_ok:
  assumes "\<And>c r. log s c = Some r \<Longrightarrow> tr_call_id r = c"
    and "update_output sink s c output n = Inr s'"
  shows "\<exists>r. log s c = Some r \<and>
    log s' = (log s)(c \<mapsto> r\<lparr>tr_output := Some output, tr_output_tokens := Some n\<rparr>)"
proof -
  from assms(2) obtain r where f: "ts_fetch sink s c = Inr (Some r)"
    and w: "ts_record sink s (r\<lparr>tr_output := Some output, tr_output_tokens := Some n\<rparr>) = Inr s'"
    unfolding update_output_def by (elim rbind_InrE) auto
  have l: "log s c = Some r" using fetch_ok [OF f] by simp
  then show ?thesis using assms(1) [OF l] record_ok [OF w] by simp
qed

lemma update_unknown:
  assumes "log s c = None" and "ts_fetch sink s c = Inr found"
  shows "update_output sink s c output n = Inl (TraceFailed (''no trace for '' @ call_id_display c))"
  using assms fetch_ok [OF assms(2)] by (simp add: update_output_def)

text \<open>The records of a log are filed under their own calls, whatever is recorded.\<close>

lemma record_filed:
  "ts_record sink s r = Inr s' \<Longrightarrow> (\<And>c q. log s c = Some q \<Longrightarrow> tr_call_id q = c) \<Longrightarrow>
    log s' c = Some q \<Longrightarrow> tr_call_id q = c"
  using record_ok [of s r s'] by (auto split: if_splits)

lemma update_filed:
  assumes "update_output sink s d output n = Inr s'" and "\<And>c q. log s c = Some q \<Longrightarrow> tr_call_id q = c"
    and "log s' c = Some q"
  shows "tr_call_id q = c"
  using update_ok [OF assms(2,1)] assms(2,3) by (auto split: if_splits)

end

section \<open>The LMDB sink is a log\<close>

text \<open>The records a sink holds: what its table has under a call, decoded.\<close>

definition trace_view ::
    "('t \<Rightarrow> raw \<rightharpoonup> raw) \<Rightarrow> trace_codec \<Rightarrow> 't lmdb_trace_sink \<Rightarrow> call_id \<rightharpoonup> trace_record" where
  "trace_view tab codec s c =
     Option.bind (tab (lt_trace_by_call s) (id_key c)) (\<lambda>v. case tc_decode codec v of Inr r \<Rightarrow> Some r | Inl _ \<Rightarrow> None)"

locale trace_store = lmdb lib tab for lib :: "'t lmdb_lib" and tab +
  fixes codec :: trace_codec
  assumes trace_decode_encode: "tc_encode codec r = Inr v \<Longrightarrow> tc_decode codec v = Inr r"
begin

lemma record_view:
  assumes "trace_record_call lib codec s r = Inr s'"
  shows "trace_view tab codec s' = (trace_view tab codec s)(tr_call_id r \<mapsto> r)"
proof -
  from assms obtain v t where v: "tc_encode codec r = Inr v"
    and t: "lib_put lib (lt_trace_by_call s) (id_key (tr_call_id r)) v = Inr t" and s': "s' = s\<lparr>lt_trace_by_call := t\<rparr>"
    unfolding trace_record_call_def by (elim rbind_InrE) auto
  then show ?thesis
    by (auto simp: trace_view_def put_ok [OF t] trace_decode_encode [OF v] split: option.splits)
qed

lemma fetch_view:
  assumes "trace_fetch lib codec s c = Inr found"
  shows "found = trace_view tab codec s c"
  using assms unfolding trace_fetch_def
  by (elim rbind_InrE) (auto simp: trace_view_def dest!: get_ok [THEN sym] split: option.splits elim!: rbind_InrE)

end

sublocale trace_store \<subseteq> calls: trace_log "lmdb_sink lib codec" "trace_view tab codec"
  by unfold_locales (auto simp: lmdb_sink_def intro: record_view fetch_view)

context trace_store
begin

lemmas sink_record = calls.record_ok and sink_fetch = calls.fetch_ok

lemmas sink_update = calls.update_ok and sink_unknown = calls.update_unknown

lemmas sink_filed = calls.record_filed and sink_update_filed = calls.update_filed

end

text \<open>Sinks that start without a record and have recorded and updated calls since.\<close>

inductive trace_reachable :: "'t lmdb_lib \<Rightarrow> ('t \<Rightarrow> raw \<rightharpoonup> raw) \<Rightarrow> trace_codec \<Rightarrow> 't lmdb_trace_sink \<Rightarrow> bool"
  for lib tab codec where
  fresh_sink: "tab (lt_trace_by_call s) = Map.empty \<Longrightarrow> trace_reachable lib tab codec s"
| recorded: "trace_reachable lib tab codec s \<Longrightarrow> trace_record_call lib codec s r = Inr s' \<Longrightarrow>
    trace_reachable lib tab codec s'"
| updated: "trace_reachable lib tab codec s \<Longrightarrow> update_output (lmdb_sink lib codec) s c out n = Inr s' \<Longrightarrow>
    trace_reachable lib tab codec s'"

lemma trace_reachable_filed:
  assumes "trace_reachable lib tab codec s" and "trace_store lib tab codec"
    and "trace_view tab codec s c = Some q"
  shows "tr_call_id q = c"
  using assms(1,3)
proof (induction arbitrary: c q)
  case (fresh_sink s)
  then show ?case by (simp add: trace_view_def)
next
  case (recorded s r s')
  then show ?case by (auto simp: trace_store.record_view [OF assms(2)] split: if_splits)
next
  case (updated s d out n s')
  then show ?case using trace_store.sink_update_filed [OF assms(2) updated(2)] by blast
qed

section \<open>What a reader of the log sees\<close>

text \<open>Runs of a sink: calls recorded and outputs patched in, and the log they should leave.\<close>

datatype trace_op = Op_Record trace_record | Op_Update call_id bytes token_count

primrec trace_step ::
    "'t lmdb_lib \<Rightarrow> trace_codec \<Rightarrow> trace_op \<Rightarrow> 't lmdb_trace_sink \<Rightarrow> trace_error + 't lmdb_trace_sink" where
  "trace_step lib codec (Op_Record r) s = trace_record_call lib codec s r"
| "trace_step lib codec (Op_Update c out n) s = update_output (lmdb_sink lib codec) s c out n"

primrec log_op :: "trace_op \<Rightarrow> (call_id \<rightharpoonup> trace_record) \<Rightarrow> (call_id \<rightharpoonup> trace_record)" where
  "log_op (Op_Record r) m = m(tr_call_id r \<mapsto> r)"
| "log_op (Op_Update c out n) m =
     m(c := map_option (\<lambda>r. r\<lparr>tr_output := Some out, tr_output_tokens := Some n\<rparr>) (m c))"

lemma trace_step_view:
  assumes "trace_store lib tab codec" and "trace_step lib codec oper s = Inr s'"
    and "\<And>c r. trace_view tab codec s c = Some r \<Longrightarrow> tr_call_id r = c"
  shows "trace_view tab codec s' = log_op oper (trace_view tab codec s)"
proof (cases oper)
  case (Op_Record r)
  with assms(2) show ?thesis by (simp add: trace_store.record_view [OF assms(1)])
next
  case (Op_Update c out n)
  with assms(2) have "update_output (lmdb_sink lib codec) s c out n = Inr s'" by simp
  from trace_store.sink_update [OF assms(1,3) this] Op_Update show ?thesis by auto
qed

lemma trace_run_view:
  assumes "trace_store lib tab codec"
    and "for_each (trace_step lib codec) ops s = Inr s'" and "trace_reachable lib tab codec s"
  shows "trace_view tab codec s' = fold log_op ops (trace_view tab codec s)"
  using assms(2,3)
proof (induction ops arbitrary: s)
  case (Cons x ops)
  then obtain u where u: "trace_step lib codec x s = Inr u" "for_each (trace_step lib codec) ops u = Inr s'"
    by (auto elim: rbind_InrE)
  have "trace_reachable lib tab codec u"
    using u(1) Cons.prems(2) by (cases x) (auto intro: recorded updated)
  with Cons.IH [OF u(2)] trace_step_view [OF assms(1) u(1) trace_reachable_filed [OF Cons.prems(2) assms(1)]]
  show ?case by simp
qed simp

text \<open>
  C31: the log gives back what was recorded and patched: after any sequence of recorded calls and
  patched outputs on a sink that had no records, a fetch gives the record last stored for the call,
  with the output and its count from the last patch since then, and every other field as it was
  recorded; a call that was never recorded gives nothing, and patching its output is refused.
\<close>

theorem trace_fetch_recorded:
  assumes "trace_store lib tab codec" and "tab (lt_trace_by_call s) = Map.empty"
    and "for_each (trace_step lib codec) ops s = Inr s'"
    and "trace_fetch lib codec s' c = Inr found"
  shows "found = fold log_op ops Map.empty c \<and>
    (found = None \<longrightarrow> (\<forall>out n. update_output (lmdb_sink lib codec) s' c out n =
       Inl (TraceFailed (''no trace for '' @ call_id_display c))))"
proof -
  have "trace_view tab codec s = Map.empty" by (simp add: trace_view_def assms(2) fun_eq_iff)
  moreover have "trace_reachable lib tab codec s" using assms(2) by (rule fresh_sink)
  ultimately have view: "trace_view tab codec s' = fold log_op ops Map.empty"
    using trace_run_view [OF assms(1,3)] by simp
  have f: "found = trace_view tab codec s' c" by (rule trace_store.fetch_view [OF assms(1,4)])
  have "ts_fetch (lmdb_sink lib codec) s' c = Inr found" using assms(4) by (simp add: lmdb_sink_def)
  with trace_store.sink_unknown [OF assms(1) _ this] f view show ?thesis by auto
qed

text \<open>
  Patching in the output of a call leaves every other call alone and every other field of
  the call; a call the sink does not hold is refused by name.
\<close>

lemma trace_update_output:
  assumes "trace_store lib tab codec" and "trace_reachable lib tab codec s"
    and "trace_fetch lib codec s c = Inr before"
  shows "case before of
      None \<Rightarrow> update_output (lmdb_sink lib codec) s c out n =
        Inl (TraceFailed (''no trace for '' @ call_id_display c))
    | Some r \<Rightarrow> \<forall>s' d found. update_output (lmdb_sink lib codec) s c out n = Inr s' \<longrightarrow>
        trace_fetch lib codec s' d = Inr found \<longrightarrow>
        found = (if d = c then Some (r\<lparr>tr_output := Some out, tr_output_tokens := Some n\<rparr>)
                 else trace_view tab codec s d)"
proof (cases before)
  case None
  have "trace_view tab codec s c = None" using trace_store.fetch_view [OF assms(1,3)] None by simp
  moreover have "ts_fetch (lmdb_sink lib codec) s c = Inr before" using assms(3) by (simp add: lmdb_sink_def)
  ultimately show ?thesis
    using trace_store.sink_unknown [OF assms(1)] None by simp
next
  case (Some r)
  have r: "trace_view tab codec s c = Some r" using trace_store.fetch_view [OF assms(1,3)] Some by simp
  have "found = (if d = c then Some (r\<lparr>tr_output := Some out, tr_output_tokens := Some n\<rparr>) else trace_view tab codec s d)"
    if u: "update_output (lmdb_sink lib codec) s c out n = Inr s'" and f: "trace_fetch lib codec s' d = Inr found"
    for s' d found
    using trace_store.sink_update [OF assms(1) trace_reachable_filed [OF assms(2,1)] u]
      trace_store.fetch_view [OF assms(1) f] r by auto
  then show ?thesis using Some by simp
qed

section \<open>A sink over sorted lists\<close>

text \<open>Records are encoded as their position in a given list.\<close>

definition list_codec :: "trace_record list \<Rightarrow> trace_codec" where
  "list_codec rs =
     \<lparr>tc_encode = (\<lambda>r. if length rs < 2 ^ 64 then ok_or ''unknown record'' (map_option (be_bytes 8) (position r rs))
        else Inl ''too many records''),
      tc_decode = (\<lambda>v. if from_be v < length rs then Inr (rs ! from_be v) else Inl ''unexpected end'')\<rparr>"

lemma list_codec_inverse: "tc_encode (list_codec rs) r = Inr v \<Longrightarrow> tc_decode (list_codec rs) v = Inr r"
  by (auto simp: list_codec_def from_be_be_bytes dest!: position_Some split: if_splits)

interpretation mem_trace: trace_store "list_lib bs hsh" table_get "list_codec rs" for bs hsh rs
  by unfold_locales (rule list_codec_inverse)

definition demo_record :: trace_record where
  "demo_record = \<lparr>tr_call_id = 42, tr_session = 1, tr_model = ''gpt-4o'', tr_plan = demo_prev,
     tr_prompt_tokens = 18, tr_prompt_hash = 7, tr_started_at = 1000, tr_duration_ms = 0,
     tr_model_version = [], tr_tokenizer_version = ''o200k_base'', tr_output = None, tr_output_tokens = None\<rparr>"

definition demo_answered :: trace_record where
  "demo_answered = demo_record\<lparr>tr_output := Some ''42'', tr_output_tokens := Some 1\<rparr>"

definition demo_sink :: "table lmdb_trace_sink" where
  "demo_sink = \<lparr>lt_trace_by_call = table_empty, lt_meta = table_empty\<rparr>"

definition demo_recorded :: "table lmdb_trace_sink" where
  "demo_recorded = demo_sink\<lparr>lt_trace_by_call := table_insert (id_key 42) (be_bytes 8 0) table_empty\<rparr>"

abbreviation demo_codec :: trace_codec where
  "demo_codec \<equiv> list_codec [demo_record, demo_answered]"

lemma demo_record_call: "trace_record_call (list_lib [] (\<lambda>_. 0)) demo_codec demo_sink demo_record = Inr demo_recorded"
  by (simp add: trace_record_call_def list_lib_def list_codec_def demo_recorded_def demo_sink_def demo_record_def)

lemma demo_fetch: "trace_fetch (list_lib [] (\<lambda>_. 0)) demo_codec demo_recorded 42 = Inr (Some demo_record)"
  by (simp add: trace_fetch_def list_lib_def list_codec_def demo_recorded_def from_be_be_bytes)

lemma demo_sink_empty: "table_get (lt_trace_by_call demo_sink) = Map.empty"
  by (simp add: demo_sink_def)

lemma demo_update:
  obtains s' where "update_output (lmdb_sink (list_lib [] (\<lambda>_. 0)) demo_codec) demo_recorded 42 ''42'' 1 = Inr s'"
    "trace_fetch (list_lib [] (\<lambda>_. 0)) demo_codec s' 42 = Inr (Some demo_answered)"
proof
  have ne: "demo_record \<noteq> demo_answered" by (simp add: demo_answered_def demo_record_def)
  have i: "tr_call_id demo_answered = 42" "tr_call_id demo_record = 42"
    by (simp_all add: demo_answered_def demo_record_def)
  let ?s = "demo_recorded\<lparr>lt_trace_by_call := table_insert (id_key 42) (be_bytes 8 1) (lt_trace_by_call demo_recorded)\<rparr>"
  show "update_output (lmdb_sink (list_lib [] (\<lambda>_. 0)) demo_codec) demo_recorded 42 ''42'' 1 = Inr ?s"
    using ne demo_fetch i
    by (simp add: update_output_def lmdb_sink_def trace_record_call_def list_lib_def list_codec_def flip: demo_answered_def)
  show "trace_fetch (list_lib [] (\<lambda>_. 0)) demo_codec ?s 42 = Inr (Some demo_answered)"
    by (simp add: trace_fetch_def list_lib_def list_codec_def from_be_be_bytes)
qed

theorem trace_fetch_recorded_witness:
  "\<exists>s. for_each (trace_step (list_lib [] (\<lambda>_. 0)) demo_codec) [Op_Record demo_record, Op_Update 42 ''42'' 1] demo_sink = Inr s \<and>
     trace_fetch (list_lib [] (\<lambda>_. 0)) demo_codec s 42 = Inr (Some demo_answered) \<and>
     Some demo_answered = fold log_op [Op_Record demo_record, Op_Update 42 ''42'' 1] Map.empty 42"
proof -
  obtain s where s: "update_output (lmdb_sink (list_lib [] (\<lambda>_. 0)) demo_codec) demo_recorded 42 ''42'' 1 = Inr s"
    "trace_fetch (list_lib [] (\<lambda>_. 0)) demo_codec s 42 = Inr (Some demo_answered)"
    by (rule demo_update)
  have run: "for_each (trace_step (list_lib [] (\<lambda>_. 0)) demo_codec) [Op_Record demo_record, Op_Update 42 ''42'' 1] demo_sink = Inr s"
    by (simp add: demo_record_call s(1))
  from trace_fetch_recorded [OF mem_trace.trace_store_axioms demo_sink_empty run s(2)] run s(2) show ?thesis by blast
qed

lemma trace_update_output_witness:
  "\<exists>s'. update_output (lmdb_sink (list_lib [] (\<lambda>_. 0)) demo_codec) demo_recorded 42 ''42'' 1 = Inr s' \<and>
     trace_fetch (list_lib [] (\<lambda>_. 0)) demo_codec s' 42 = Inr (Some demo_answered)"
proof -
  have reach: "trace_reachable (list_lib [] (\<lambda>_. 0)) table_get demo_codec demo_recorded"
    by (rule recorded [OF fresh_sink [where s = demo_sink, of table_get, OF demo_sink_empty] demo_record_call])
  obtain s' where "update_output (lmdb_sink (list_lib [] (\<lambda>_. 0)) demo_codec) demo_recorded 42 ''42'' 1 = Inr s'"
    "trace_fetch (list_lib [] (\<lambda>_. 0)) demo_codec s' 42 = Inr (Some demo_answered)"
    by (rule demo_update)
  then show ?thesis
    using trace_update_output [OF mem_trace.trace_store_axioms reach demo_fetch, of "''42''" 1]
    by (simp add: demo_answered_def)
qed

end
