(* ===== verification/Compress.thy ===== *)
theory Compress
  imports Core_Types Rust_Chars
begin

text \<open>
  Summarizers: the interface of \<open>llm386-core/src/summarizer.rs\<close>, the placeholder and the
  truncating summarizers of \<open>llm386-compress\<close>, and the one of \<open>llm386-compress-anthropic\<close>, whose
  HTTP client is a parameter. The text of a \<open>Utf8Error\<close> is a parameter too.
\<close>

record summarizer =
  sum_name :: bytes
  sum_summarize :: "context_block list \<Rightarrow> summarizer_error + bytes"

definition noop_summarize :: "context_block list \<Rightarrow> summarizer_error + bytes" where
  "noop_summarize blocks = Inr (''[summary of '' @ dec (length blocks) @ '' block(s) elided]'')"

definition noop_summarizer :: summarizer where
  "noop_summarizer = \<lparr>sum_name = ''noop'', sum_summarize = noop_summarize\<rparr>"

section \<open>Truncation\<close>

fun kind_label :: "block_kind \<Rightarrow> bytes" where
  "kind_label Kind_System = ''system''"
| "kind_label Kind_UserMessage = ''user''"
| "kind_label Kind_AssistantMessage = ''assistant''"
| "kind_label Kind_ToolResult = ''tool''"
| "kind_label Kind_Summary = ''summary''"
| "kind_label Kind_Fact = ''fact''"
| "kind_label Kind_DocumentChunk = ''document''"
| "kind_label Kind_Plan = ''plan''"
| "kind_label Kind_State = ''state''"
| "kind_label Kind_Trace = ''trace''"

record truncating_summarizer =
  ts_max_chars_per_block :: nat

definition truncating_new :: "nat \<Rightarrow> truncating_summarizer" where
  "truncating_new n = \<lparr>ts_max_chars_per_block = n\<rparr>"

definition truncating_default :: truncating_summarizer where
  "truncating_default = truncating_new 80"

text \<open>The character U+2026, three bytes long.\<close>

definition ellipsis :: bytes where
  "ellipsis = map char_of [226 :: nat, 128, 166]"

definition newline :: char where
  "newline = char_of (10 :: nat)"

definition truncated :: "truncating_summarizer \<Rightarrow> bytes \<Rightarrow> bytes" where
  "truncated sm txt' =
     (let oneline = join '' '' (split_whitespace txt')
      in if length (chars_of oneline) > ts_max_chars_per_block sm
         then concat (take (ts_max_chars_per_block sm) (chars_of oneline)) @ ellipsis
         else oneline)"

definition truncating_summarize ::
    "(bytes \<Rightarrow> bytes) \<Rightarrow> truncating_summarizer \<Rightarrow> context_block list \<Rightarrow> summarizer_error + bytes" where
  "truncating_summarize utf8_error sm blocks =
     for_each (\<lambda>b out.
       rbind (ok_or (SummarizerFailed (''non-utf8 block: '' @ utf8_error (cb_bytes b))) (from_utf8 (cb_bytes b)))
         (\<lambda>txt'. Inr (out @ ''- '' @ kind_label (cb_kind b) @ '': '' @ truncated sm txt' @ [newline])))
       blocks []"

definition truncating_interface :: "(bytes \<Rightarrow> bytes) \<Rightarrow> truncating_summarizer \<Rightarrow> summarizer" where
  "truncating_interface utf8_error sm =
     \<lparr>sum_name = ''truncating'', sum_summarize = truncating_summarize utf8_error sm\<rparr>"

section \<open>The Anthropic client\<close>

record anthropic_summarizer =
  an_api_key :: bytes
  an_model :: bytes
  an_api_base :: bytes
  an_max_tokens :: u32
  an_instruction :: bytes

definition default_instruction :: bytes where
  "default_instruction =
     ''Summarize the following blocks concisely. Preserve essential facts and the overall conversational arc. '' @
     ''Output only the summary itself with no preamble.''"

definition anthropic_new :: "bytes \<Rightarrow> anthropic_summarizer" where
  "anthropic_new key = \<lparr>an_api_key = key, an_model = ''claude-haiku-4-5'',
     an_api_base = ''https://api.anthropic.com/v1'', an_max_tokens = 1024, an_instruction = default_instruction\<rparr>"

definition anthropic_from_env :: "bytes option \<Rightarrow> summarizer_error + anthropic_summarizer" where
  "anthropic_from_env var =
     rbind (ok_or (SummarizerFailed ''ANTHROPIC_API_KEY env var not set'') var) (\<lambda>key.
     if key = [] then Inl (SummarizerFailed ''ANTHROPIC_API_KEY env var is empty'')
     else Inr (anthropic_new key))"

definition with_model :: "anthropic_summarizer \<Rightarrow> bytes \<Rightarrow> anthropic_summarizer" where
  "with_model a v = a\<lparr>an_model := v\<rparr>"

definition with_max_tokens :: "anthropic_summarizer \<Rightarrow> u32 \<Rightarrow> anthropic_summarizer" where
  "with_max_tokens a v = a\<lparr>an_max_tokens := v\<rparr>"

definition with_api_base :: "anthropic_summarizer \<Rightarrow> bytes \<Rightarrow> anthropic_summarizer" where
  "with_api_base a v = a\<lparr>an_api_base := v\<rparr>"

definition with_instruction :: "anthropic_summarizer \<Rightarrow> bytes \<Rightarrow> anthropic_summarizer" where
  "with_instruction a v = a\<lparr>an_instruction := v\<rparr>"

record message =
  msg_role :: bytes
  msg_content :: bytes

record messages_request =
  mr_model :: bytes
  mr_max_tokens :: u32
  mr_messages :: "message list"

record content_block =
  ct_kind :: bytes
  ct_text :: bytes

text \<open>What becomes of a request: the three ways it fails, or the content of the response.\<close>

datatype http_result = Send_Failed bytes | Status_Failed bytes | Json_Failed bytes | Messages "content_block list"

text \<open>\<open>{:?}\<close> of a block kind.\<close>

fun kind_debug :: "block_kind \<Rightarrow> bytes" where
  "kind_debug Kind_System = ''System''"
| "kind_debug Kind_UserMessage = ''UserMessage''"
| "kind_debug Kind_AssistantMessage = ''AssistantMessage''"
| "kind_debug Kind_ToolResult = ''ToolResult''"
| "kind_debug Kind_Summary = ''Summary''"
| "kind_debug Kind_Fact = ''Fact''"
| "kind_debug Kind_DocumentChunk = ''DocumentChunk''"
| "kind_debug Kind_Plan = ''Plan''"
| "kind_debug Kind_State = ''State''"
| "kind_debug Kind_Trace = ''Trace''"

definition user_message :: "(bytes \<Rightarrow> bytes) \<Rightarrow> bytes \<Rightarrow> context_block list \<Rightarrow> summarizer_error + bytes" where
  "user_message utf8_error instruction blocks =
     for_each (\<lambda>(i, b) out.
       rbind (ok_or (SummarizerFailed (''non-utf8 block: '' @ utf8_error (cb_bytes b))) (from_utf8 (cb_bytes b)))
         (\<lambda>txt'. Inr (out @ ''--- block '' @ dec (i + 1) @ '' ('' @ kind_debug (cb_kind b) @ '') ---'' @ [newline] @
            txt' @ [newline, newline])))
       (enumerate 0 blocks) (instruction @ [newline, newline])"

text \<open>The client is given the URL, the two headers and the request.\<close>

type_synonym http_client = "bytes \<Rightarrow> (bytes \<times> bytes) list \<Rightarrow> messages_request \<Rightarrow> http_result"

definition anthropic_summarize ::
    "(bytes \<Rightarrow> bytes) \<Rightarrow> http_client \<Rightarrow> anthropic_summarizer \<Rightarrow> context_block list \<Rightarrow> summarizer_error + bytes" where
  "anthropic_summarize utf8_error client a blocks =
     (if blocks = [] then Inr []
      else
        rbind (user_message utf8_error (an_instruction a) blocks) (\<lambda>user_msg.
        rbind (case client (an_api_base a @ ''/messages'')
                 [(''x-api-key'', an_api_key a), (''anthropic-version'', ''2023-06-01'')]
                 \<lparr>mr_model = an_model a, mr_max_tokens = an_max_tokens a,
                  mr_messages = [\<lparr>msg_role = ''user'', msg_content = user_msg\<rparr>]\<rparr> of
             Send_Failed e \<Rightarrow> Inl (SummarizerFailed (''request: '' @ e))
           | Status_Failed e \<Rightarrow> Inl (SummarizerFailed (''status: '' @ e))
           | Json_Failed e \<Rightarrow> Inl (SummarizerFailed (''parse: '' @ e))
           | Messages content \<Rightarrow> Inr content) (\<lambda>content.
        let summary = concat (map ct_text (filter (\<lambda>c. ct_kind c = ''text'') content))
        in if summary = [] then Inl (SummarizerFailed ''no text content in response'') else Inr summary)))"

definition anthropic_interface :: "(bytes \<Rightarrow> bytes) \<Rightarrow> http_client \<Rightarrow> anthropic_summarizer \<Rightarrow> summarizer" where
  "anthropic_interface utf8_error client a =
     \<lparr>sum_name = ''anthropic'', sum_summarize = anthropic_summarize utf8_error client a\<rparr>"

section \<open>What a truncated line is\<close>

lemma byte_val_newline [simp]: "byte_val newline = 10"
  by (simp add: newline_def)

lemma ellipsis_ok: "char_ok ellipsis" "newline \<notin> set ellipsis"
  by (simp_all add: char_ok_def ellipsis_def newline_def utf8_next_def utf8_width_def second_ok_def is_cont_def)

lemma one_line:
  "utf8_valid (join '' '' (split_whitespace s))" "newline \<notin> set (join '' '' (split_whitespace s))"
proof -
  have "utf8_valid '' ''" by (rule utf8_valid_ascii) simp
  then show "utf8_valid (join '' '' (split_whitespace s))"
    using utf8_valid_join [of "split_whitespace s" "'' ''"] split_whitespace_valid by blast
  have "is_whitespace [newline]" by (simp add: is_whitespace_def code_point_def)
  then have "newline \<notin> set w" if "w \<in> set (split_whitespace s)" for w
    using split_whitespace_no_ascii_space [OF that, of newline] by simp
  moreover have "byte_val newline \<noteq> byte_val (CHR '' '')" by simp
  then have "newline \<noteq> CHR '' ''" by metis
  ultimately show "newline \<notin> set (join '' '' (split_whitespace s))"
    using set_join [of "'' ''" "split_whitespace s"] by auto
qed

lemma chars_take: "concat (take n (chars_of s)) = concat cs \<Longrightarrow> list_all char_ok (take n (chars_of s))"
  by (metis append_take_drop_id chars_of_ok list_all_append)

lemma truncated_line:
  "utf8_valid (truncated sm s) \<and> newline \<notin> set (truncated sm s) \<and>
   length (chars_of (truncated sm s)) \<le> ts_max_chars_per_block sm + 1"
proof (cases "length (chars_of (join '' '' (split_whitespace s))) > ts_max_chars_per_block sm")
  case False
  then show ?thesis using one_line by (simp add: truncated_def)
next
  case True
  let ?cs = "take (ts_max_chars_per_block sm) (chars_of (join '' '' (split_whitespace s)))"
  have t: "truncated sm s = concat (?cs @ [ellipsis])" using True by (simp add: truncated_def)
  have ok: "list_all char_ok (?cs @ [ellipsis])"
    using chars_take [OF refl] ellipsis_ok(1) by simp
  have "set (concat ?cs) \<subseteq> set (concat (chars_of (join '' '' (split_whitespace s))))"
    by (auto dest: in_set_takeD)
  then have "newline \<notin> set (concat ?cs)" using one_line [of s] by (auto simp: chars_of_concat)
  then show ?thesis
    unfolding t using ok utf8_valid_concat [OF ok] ellipsis_ok(2) chars_of_concat_ok [OF ok] by simp
qed

text \<open>The first block that is not UTF-8 decides the error.\<close>

lemma for_each_append_out:
  assumes "\<And>x out. x \<in> set xs \<Longrightarrow> f x out = rbind (g x) (\<lambda>t. Inr (out @ h x t))"
  shows "for_each f xs out = rbind (map_res g xs) (\<lambda>ts. Inr (out @ concat (map2 h xs ts)))"
  using assms
proof (induction xs arbitrary: out)
  case (Cons x xs)
  then show ?case by (cases "g x"; cases "map_res g xs") (auto cong: rbind_cong)
qed simp

lemma map_res_first_error:
  assumes "map_res g xs = Inl e"
  shows "\<exists>ys x zs. xs = ys @ x # zs \<and> (\<forall>y \<in> set ys. \<exists>t. g y = Inr t) \<and> g x = Inl e"
  using assms
proof (induction xs)
  case (Cons x xs)
  show ?case
  proof (cases "g x")
    case (Inl e')
    then have "x # xs = [] @ x # xs \<and> g x = Inl e" using Cons.prems by simp
    then show ?thesis by (metis empty_iff list.set(1))
  next
    case (Inr t)
    then have "map_res g xs = Inl e" using Cons.prems by (cases "map_res g xs") simp_all
    then obtain ys y zs where y: "xs = ys @ y # zs" "\<forall>z \<in> set ys. \<exists>t. g z = Inr t" "g y = Inl e"
      using Cons.IH by blast
    then have "x # xs = (x # ys) @ y # zs" "\<forall>z \<in> set (x # ys). \<exists>t. g z = Inr t" using Inr by auto
    then show ?thesis using y(3) by blast
  qed
qed simp

lemma for_each_error:
  assumes "x \<in> set xs" and "\<And>s. \<exists>e. f x s = Inl e"
  shows "\<exists>e. for_each f xs s = Inl e"
  using assms(1)
proof (induction xs arbitrary: s)
  case (Cons y xs)
  show ?case
  proof (cases "f y s")
    case (Inr s')
    with assms(2) have "y \<noteq> x" by (metis Inr_Inl_False)
    with Cons Inr show ?thesis by simp
  qed simp
qed simp

text \<open>
  The truncating summarizer gives one line for each block, in order: a bullet with the kind of
  the block and at most the configured number of characters of its text and an ellipsis, valid
  UTF-8 without a line break; the first block that is not UTF-8 is an error.
\<close>

lemma truncating_summarize_lines:
  "case truncating_summarize utf8_error sm blocks of
     Inr out \<Rightarrow> (\<forall>b \<in> set blocks. utf8_valid (cb_bytes b)) \<and>
       out = concat (map (\<lambda>b. ''- '' @ kind_label (cb_kind b) @ '': '' @ truncated sm (cb_bytes b) @ [newline]) blocks) \<and>
       (\<forall>b \<in> set blocks. utf8_valid (truncated sm (cb_bytes b)) \<and> newline \<notin> set (truncated sm (cb_bytes b)) \<and>
         length (chars_of (truncated sm (cb_bytes b))) \<le> ts_max_chars_per_block sm + 1)
   | Inl e \<Rightarrow> \<exists>bs b cs. blocks = bs @ b # cs \<and> (\<forall>x \<in> set bs. utf8_valid (cb_bytes x)) \<and>
       \<not> utf8_valid (cb_bytes b) \<and> e = SummarizerFailed (''non-utf8 block: '' @ utf8_error (cb_bytes b))"
proof -
  let ?g = "\<lambda>b. ok_or (SummarizerFailed (''non-utf8 block: '' @ utf8_error (cb_bytes b))) (from_utf8 (cb_bytes b))"
  let ?h = "\<lambda>b txt'. ''- '' @ kind_label (cb_kind b) @ '': '' @ truncated sm txt' @ [newline]"
  have run: "truncating_summarize utf8_error sm blocks = rbind (map_res ?g blocks) (\<lambda>ts. Inr (concat (map2 ?h blocks ts)))"
    unfolding truncating_summarize_def using for_each_append_out [of blocks _ ?g ?h "[]"] by simp
  show ?thesis
  proof (cases "map_res ?g blocks")
    case (Inl e)
    obtain bs b cs where d: "blocks = bs @ b # cs" "\<forall>x \<in> set bs. \<exists>t. ?g x = Inr t" "?g b = Inl e"
      using map_res_first_error [OF Inl] by blast
    then have "\<forall>x \<in> set bs. utf8_valid (cb_bytes x)" by (simp add: from_utf8_def split: if_splits)
    moreover have "\<not> utf8_valid (cb_bytes b) \<and> e = SummarizerFailed (''non-utf8 block: '' @ utf8_error (cb_bytes b))"
      using d(3) by (cases "utf8_valid (cb_bytes b)") (simp_all add: from_utf8_def)
    ultimately show ?thesis using Inl run d(1) by (simp only: rbind_simps sum.case) blast
  next
    case (Inr ts)
    then have all: "list_all2 (\<lambda>b t. ?g b = Inr t) blocks ts" by (simp only: map_res_Inr_iff)
    then have v: "(\<forall>b \<in> set blocks. utf8_valid (cb_bytes b)) \<and> ts = map cb_bytes blocks"
      by (induction rule: list_all2_induct) auto
    have "map2 ?h blocks (map cb_bytes blocks) = map (\<lambda>b. ?h b (cb_bytes b)) blocks"
      by (induction blocks) auto
    then show ?thesis using run Inr v truncated_line by simp
  qed
qed

definition demo_text :: context_block where
  "demo_text = \<lparr>cb_id = 1, cb_kind = Kind_Fact, cb_bytes = ''hello'', cb_token_counts = tc_new, cb_priority = f32_0,
     cb_created_at = 0, cb_updated_at = 0,
     cb_provenance = \<lparr>prov_source = None, prov_parents = [], prov_labels = []\<rparr>, cb_hash = 0\<rparr>"

lemma truncating_summarize_lines_witness:
  "\<exists>out. truncating_summarize (\<lambda>_. []) (truncating_new 3) [demo_text] = Inr out \<and>
     length (chars_of (truncated (truncating_new 3) ''hello'')) \<le> 4"
proof -
  have ok: "utf8_valid ''hello''" by code_simp
  have b: "cb_bytes demo_text = ''hello''" by (simp add: demo_text_def)
  show ?thesis
  proof (cases "truncating_summarize (\<lambda>_. []) (truncating_new 3) [demo_text]")
    case (Inl e)
    with truncating_summarize_lines [where utf8_error = "\<lambda>_. []" and sm = "truncating_new 3" and blocks = "[demo_text]"] ok b show ?thesis
      by (auto simp: Cons_eq_append_conv)
  next
    case (Inr out)
    with truncating_summarize_lines [where utf8_error = "\<lambda>_. []" and sm = "truncating_new 3" and blocks = "[demo_text]"] b show ?thesis
      by (simp add: truncating_new_def)
  qed
qed

text \<open>Nothing is sent for no blocks or when a block is not UTF-8, and only text comes back.\<close>

lemma anthropic_no_request:
  assumes "blocks = [] \<or> (\<exists>b \<in> set blocks. \<not> utf8_valid (cb_bytes b))"
  shows "anthropic_summarize utf8_error client a blocks = anthropic_summarize utf8_error client' a blocks"
proof (cases "blocks = []")
  case False
  with assms obtain b where b: "b \<in> set blocks" "\<not> utf8_valid (cb_bytes b)" by blast
  have "\<exists>e. user_message utf8_error (an_instruction a) blocks = Inl e"
  proof -
    obtain i where "(i, b) \<in> set (enumerate 0 blocks)"
      using b(1) by (metis in_set_conv_nth nth_enumerate_eq length_enumerate)
    then show ?thesis unfolding user_message_def by (rule for_each_error) (use b(2) in \<open>simp add: from_utf8_def\<close>)
  qed
  then show ?thesis by (auto simp: anthropic_summarize_def)
qed (simp add: anthropic_summarize_def)

end
