(* ===== verification/Host.thy ===== *)
theory Host
  imports Store_Ops Trace Compress Tokenizers Pager Packer
begin

text \<open>
  What the two front ends, the command line and the Python class, have in common: the outside
  world as a record of what a call reads of it, the ids made of the clock and of random bytes,
  the opening of block and trace stores, and the bundle of registries that both load.
\<close>

record ('e, 't, 'd, 'k, 'c) host =
  hs_io :: "('e, 't) open_io"
  hs_trace_io :: "('e, 't) open_io"
  hs_lib :: "'t lmdb_lib"
  hs_codec :: trace_codec
  hs_pg :: "'d pg_lib"
  hs_tls_feature :: bool
  hs_tls :: "('k, 'c) tls_lib"
  hs_path_debug :: "bytes \<Rightarrow> bytes"
  hs_id_order :: "block_id list \<Rightarrow> block_id list"
  hs_reason_order :: "reasons \<Rightarrow> reasons"
  hs_clock :: "nat \<Rightarrow> u128 option"
  hs_random :: "u8 list option"
  hs_elapsed_ms :: u128
  hs_var :: "bytes \<Rightarrow> bytes option"
  hs_client :: http_client
  hs_retrievers :: retriever_env
  hs_orders :: hash_orders
  hs_packer :: packer_env
  hs_cl100k :: "bytes + (bytes \<Rightarrow> nat list)"
  hs_o200k :: "bytes + (bytes \<Rightarrow> nat list)"
  hs_hf_file :: "bytes \<Rightarrow> tokenizer_id \<Rightarrow> tokenizer_error + tokenizer"
  hs_models :: models_file
  hs_read_to_string :: "bytes \<Rightarrow> bytes + bytes"
  hs_from_toml :: "bytes \<Rightarrow> bytes + config_file"

section \<open>Time and ids\<close>

text \<open>
  The clock is read several times in a call; \<open>hs_clock host n\<close> is the reading after \<open>n\<close> others, in
  milliseconds since the epoch, \<open>None\<close> before the epoch. \<open>None\<close> of random bytes is a panic.
\<close>

definition host_now_ms :: "('e, 't, 'd, 'k, 'c) host \<Rightarrow> nat \<Rightarrow> u64" where
  "host_now_ms host n =
     (case hs_clock host n of
        None \<Rightarrow> 0
      | Some d \<Rightarrow> (case u64_try_from d of Some ms \<Rightarrow> ms | None \<Rightarrow> - 1))"

definition host_block_id :: "('e, 't, 'd, 'k, 'c) host \<Rightarrow> nat \<Rightarrow> block_id option" where
  "host_block_id host n =
     map_option (\<lambda>buf. from_parts (host_now_ms host n) (word_of_nat (from_be buf))) (hs_random host)"

definition host_call_id :: "('e, 't, 'd, 'k, 'c) host \<Rightarrow> call_id option" where
  "host_call_id host = map_option (\<lambda>buf. word_of_nat (from_be buf)) (hs_random host)"

definition host_duration_ms :: "('e, 't, 'd, 'k, 'c) host \<Rightarrow> u32" where
  "host_duration_ms host =
     (if unat (hs_elapsed_ms host) < 2 ^ 32 then word_of_nat (unat (hs_elapsed_ms host)) else - 1)"

section \<open>Stores\<close>

type_synonym ('t, 'd) opened = "('t lmdb_store, 'd) store_backend"

definition host_ops :: "('e, 't, 'd, 'k, 'c) host \<Rightarrow> ('t, 'd) opened block_store" where
  "host_ops host = backend_ops (lmdb_ops (hs_lib host)) (pg_store_ops (hs_pg host))"

definition host_open_backend ::
    "('e, 't, 'd, 'k, 'c) host \<Rightarrow> store_entry option \<Rightarrow> bytes option \<Rightarrow> bytes option \<Rightarrow> bytes + ('t, 'd) opened" where
  "host_open_backend host =
     open_backend
       (\<lambda>path. map_err open_error_display (lmdb_open (hs_io host) (hs_lib host) path lmdb_config_default))
       (\<lambda>url cfg. map_err (pg_open_error_display (hs_path_debug host))
          (pg_open (hs_pg host) (hs_tls_feature host) (hs_tls host) url cfg))"

definition host_open_trace :: "('e, 't, 'd, 'k, 'c) host \<Rightarrow> bytes \<Rightarrow> trace_open_error + 't lmdb_trace_sink" where
  "host_open_trace host path = trace_open (hs_trace_io host) (hs_lib host) path"

abbreviation host_sink :: "('e, 't, 'd, 'k, 'c) host \<Rightarrow> 't lmdb_trace_sink trace_sink" where
  "host_sink host \<equiv> lmdb_sink (hs_lib host) (hs_codec host)"

section \<open>Configuration\<close>

record loaded_config =
  ld_models :: model_registry
  ld_tokenizers :: tokenizer_registry
  ld_retriever_entries :: "retriever_entry list"
  ld_section_budgets :: "section_budget_table option"
  ld_packer_options :: packer_options
  ld_store :: "store_entry option"
  ld_edge_policy :: "edge_policy option"

definition applied_none :: applied where
  "applied_none = \<lparr>ap_retrievers = [], ap_section_budgets = None, ap_packer_options = None, ap_store = None,
     ap_edge_policy = None\<rparr>"

definition loaded_of :: "model_registry \<Rightarrow> tokenizer_registry \<Rightarrow> applied \<Rightarrow> loaded_config" where
  "loaded_of models tokenizers a =
     \<lparr>ld_models = models, ld_tokenizers = tokenizers, ld_retriever_entries = ap_retrievers a,
      ld_section_budgets = ap_section_budgets a,
      ld_packer_options = (case ap_packer_options a of Some opts \<Rightarrow> opts | None \<Rightarrow> packer_options_default),
      ld_store = ap_store a, ld_edge_policy = ap_edge_policy a\<rparr>"

text \<open>The registries with the file at a path folded in; the error is the text of the configuration.\<close>

definition load_applied ::
    "('e, 't, 'd, 'k, 'c) host \<Rightarrow> model_registry \<Rightarrow> tokenizer_registry \<Rightarrow> bytes option \<Rightarrow> bytes + loaded_config" where
  "load_applied host models tokenizers path =
     (case path of
        Some p \<Rightarrow>
          rbind (parse_config (hs_read_to_string host) (hs_from_toml host) p) (\<lambda>parsed.
          case apply_config (hs_hf_file host) parsed models tokenizers of
            (r, models', tokenizers') \<Rightarrow> rbind r (\<lambda>a. Inr (loaded_of models' tokenizers' a)))
      | None \<Rightarrow> Inr (loaded_of models tokenizers applied_none))"

definition host_tokenizers :: "('e, 't, 'd, 'k, 'c) host \<Rightarrow> tokenizer_error + tokenizer_registry" where
  "host_tokenizers host =
     tokenizers_default (en_utf8_error (hs_packer host)) (hs_cl100k host) (hs_o200k host)"

section \<open>Pagers and packers\<close>

definition session_request :: "session_id \<Rightarrow> bytes \<Rightarrow> model_profile \<Rightarrow> page_request" where
  "session_request session task profile =
     \<lparr>pr_session_id = session, pr_task = task, pr_model = profile, pr_required_blocks = []\<rparr>"

text \<open>The budgets and the edge policy of the configuration, where it has them.\<close>

definition tune_pager :: "loaded_config \<Rightarrow> greedy_pager \<Rightarrow> greedy_pager" where
  "tune_pager config gp =
     (let gp = (case ld_section_budgets config of Some t \<Rightarrow> with_budgets t gp | None \<Rightarrow> gp)
      in case ld_edge_policy config of Some p \<Rightarrow> with_edge_policy p gp | None \<Rightarrow> gp)"

definition run_page :: "('e, 't, 'd, 'k, 'c) host \<Rightarrow> greedy_pager \<Rightarrow> page_request \<Rightarrow> pager_error + page_plan" where
  "run_page host gp req = page gp (hs_orders host) (tx_to_lowercase (rv_text (hs_retrievers host))) req"

definition packer_opts :: "loaded_config \<Rightarrow> bool \<Rightarrow> packer_options" where
  "packer_opts config timestamps =
     (if timestamps then (ld_packer_options config)\<lparr>po_include_timestamps := True\<rparr> else ld_packer_options config)"

definition make_packer :: "store_view \<Rightarrow> tokenizer \<Rightarrow> packer_options \<Rightarrow> simple_packer" where
  "make_packer view tok opts = with_options opts (simple_packer_new view tok)"

lemma tune_pager_keeps [simp]:
  "gp_tokenizer (tune_pager config gp) = gp_tokenizer gp" "gp_store (tune_pager config gp) = gp_store gp"
  "gp_retrievers (tune_pager config gp) = gp_retrievers gp"
  by (simp_all add: tune_pager_def Let_def with_budgets_def with_edge_policy_def split: option.split)

section \<open>Summaries\<close>

text \<open>The ids of the newest \<open>n\<close> blocks, and the blocks of them that the store has.\<close>

definition session_tail :: "nat option \<Rightarrow> block_id list \<Rightarrow> block_id list" where
  "session_tail last' ids =
     (let ids = sort ids in case last' of Some n \<Rightarrow> drop (length ids - n) ids | None \<Rightarrow> ids)"

definition load_blocks :: "'s block_store \<Rightarrow> 's \<Rightarrow> block_id list \<Rightarrow> store_error + context_block list" where
  "load_blocks ops s ids =
     for_each (\<lambda>i bs. rbind (bs_get ops s i) (\<lambda>found. Inr (case found of Some b \<Rightarrow> bs @ [b] | None \<Rightarrow> bs))) ids []"

definition anthropic_of_flags :: "bytes option \<Rightarrow> u32 option \<Rightarrow> anthropic_summarizer \<Rightarrow> anthropic_summarizer" where
  "anthropic_of_flags model max_tokens a =
     (let a = (case model of Some v \<Rightarrow> Compress.with_model a v | None \<Rightarrow> a)
      in case max_tokens of Some n \<Rightarrow> with_max_tokens a n | None \<Rightarrow> a)"

end
