(* ===== verification/Cli_Args.thy ===== *)
theory Cli_Args
  imports Core_Types
begin

text \<open>
  \<open>llm386-cli/src/cli.rs\<close>: the commands of the command line as data, the conversions of their
  enumerations, and the parser of ids. The crate clap, which makes a command of the arguments,
  is not modelled; \<open>parse_u128\<close> is the parser it is given for every id. The printing of
  integers, floats and enumerations that the handlers use is here too.
\<close>

section \<open>Integers from text\<close>

text \<open>\<open>from_str_radix\<close> of an unsigned type, with the error it gives: the digits are read from the left.\<close>

datatype parse_int_error = Int_Empty | Int_InvalidDigit | Int_PosOverflow

fun parse_int_error_display :: "parse_int_error \<Rightarrow> bytes" where
  "parse_int_error_display Int_Empty = ''cannot parse integer from empty string''"
| "parse_int_error_display Int_InvalidDigit = ''invalid digit found in string''"
| "parse_int_error_display Int_PosOverflow = ''number too large to fit in target type''"

fun parse_digits :: "nat \<Rightarrow> nat \<Rightarrow> bytes \<Rightarrow> nat \<Rightarrow> parse_int_error + nat" where
  "parse_digits bits r [] acc = Inr acc"
| "parse_digits bits r (c # s) acc =
     (case digit_val r c of
        None \<Rightarrow> Inl Int_InvalidDigit
      | Some d \<Rightarrow> if 2 ^ bits \<le> acc * r + d then Inl Int_PosOverflow else parse_digits bits r s (acc * r + d))"

definition parse_int :: "nat \<Rightarrow> nat \<Rightarrow> bytes \<Rightarrow> parse_int_error + nat" where
  "parse_int bits r s =
     (case s of
        [] \<Rightarrow> Inl Int_Empty
      | c # u \<Rightarrow> parse_digits bits r (if c = CHR ''+'' \<and> u \<noteq> [] then u else s) 0)"

definition parse_u128 :: "bytes \<Rightarrow> bytes + u128" where
  "parse_u128 s =
     map_err parse_int_error_display
       (rbind (if starts_with ''0x'' s \<or> starts_with ''0X'' s then parse_int 128 16 (drop 2 s)
               else if length s = 32 \<and> list_all hex_digit s then parse_int 128 16 s
               else parse_int 128 10 s) (\<lambda>n. Inr (word_of_nat n)))"

section \<open>Commands\<close>

datatype edge_kind_arg = EdgeArg_Parent | EdgeArg_DerivedFrom | EdgeArg_Supports | EdgeArg_Contradicts
| EdgeArg_ToolInvocation

fun edge_kind_of_arg :: "edge_kind_arg \<Rightarrow> edge_kind" where
  "edge_kind_of_arg EdgeArg_Parent = Parent"
| "edge_kind_of_arg EdgeArg_DerivedFrom = DerivedFrom"
| "edge_kind_of_arg EdgeArg_Supports = Supports"
| "edge_kind_of_arg EdgeArg_Contradicts = Contradicts"
| "edge_kind_of_arg EdgeArg_ToolInvocation = ToolInvocation"

datatype kind_arg = KindArg_System | KindArg_UserMessage | KindArg_AssistantMessage | KindArg_ToolResult
| KindArg_Summary | KindArg_Fact | KindArg_DocumentChunk | KindArg_Plan | KindArg_State | KindArg_Trace

fun kind_of_arg :: "kind_arg \<Rightarrow> block_kind" where
  "kind_of_arg KindArg_System = Kind_System"
| "kind_of_arg KindArg_UserMessage = Kind_UserMessage"
| "kind_of_arg KindArg_AssistantMessage = Kind_AssistantMessage"
| "kind_of_arg KindArg_ToolResult = Kind_ToolResult"
| "kind_of_arg KindArg_Summary = Kind_Summary"
| "kind_of_arg KindArg_Fact = Kind_Fact"
| "kind_of_arg KindArg_DocumentChunk = Kind_DocumentChunk"
| "kind_of_arg KindArg_Plan = Kind_Plan"
| "kind_of_arg KindArg_State = Kind_State"
| "kind_of_arg KindArg_Trace = Kind_Trace"

datatype summarizer_arg = SumArg_Noop | SumArg_Truncating | SumArg_Anthropic

record pack_flags =
  pf_prompt_only :: bool
  pf_chat :: bool
  pf_timestamps :: bool
  pf_trace :: "bytes option"

record summarize_args =
  sa_session :: u128
  sa_summarizer :: summarizer_arg
  sa_max_chars :: nat
  sa_last :: "nat option"
  sa_store_summary :: bool
  sa_anthropic_model :: "bytes option"
  sa_anthropic_max_tokens :: "u32 option"

datatype trace_sub =
  Trace_Show bytes u128
| Trace_Diff bytes u128 u128

datatype cli_command =
  Cmd_Init bytes
| Cmd_Put u128 kind_arg f32 bytes
| Cmd_ListModels
| Cmd_Page u128 bytes bytes bool
| Cmd_Pack u128 bytes bytes pack_flags
| Cmd_Trace trace_sub
| Cmd_ListSessions
| Cmd_Verify
| Cmd_Repair bool
| Cmd_Purge "u128 option" "u128 option" bool
| Cmd_Show u128 bool
| Cmd_AddEdge u128 u128 edge_kind_arg
| Cmd_Edges u128 bool
| Cmd_Summarize summarize_args

section \<open>Printing\<close>

fun edge_kind_debug :: "edge_kind \<Rightarrow> bytes" where
  "edge_kind_debug Parent = ''Parent''"
| "edge_kind_debug DerivedFrom = ''DerivedFrom''"
| "edge_kind_debug Supports = ''Supports''"
| "edge_kind_debug Contradicts = ''Contradicts''"
| "edge_kind_debug ToolInvocation = ''ToolInvocation''"

fun selection_reason_debug :: "selection_reason \<Rightarrow> bytes" where
  "selection_reason_debug Pinned = ''Pinned''"
| "selection_reason_debug HighRelevance = ''HighRelevance''"
| "selection_reason_debug Recency = ''Recency''"
| "selection_reason_debug Dependency = ''Dependency''"
| "selection_reason_debug GlobalFact = ''GlobalFact''"
| "selection_reason_debug Reason_ToolResult = ''ToolResult''"

fun omission_reason_debug :: "omission_reason \<Rightarrow> bytes" where
  "omission_reason_debug Om_Budget = ''Budget''"
| "omission_reason_debug Om_Stale = ''Stale''"
| "omission_reason_debug Om_Redundant = ''Redundant''"
| "omission_reason_debug Om_LowScore = ''LowScore''"
| "omission_reason_debug Om_FilteredByKind = ''FilteredByKind''"
| "omission_reason_debug Om_DependencyMissing = ''DependencyMissing''"
| "omission_reason_debug Om_Compressed = ''Compressed''"
| "omission_reason_debug Om_Contradicted = ''Contradicted''"
| "omission_reason_debug Om_SupersededByDerived = ''SupersededByDerived''"

text \<open>\<open>{:<w}\<close> of a string and \<open>{:>w}\<close> of an integer, and \<open>{:.4}\<close> of a float, ties to even.\<close>

definition pad_right :: "nat \<Rightarrow> bytes \<Rightarrow> bytes" where
  "pad_right w s = s @ replicate (w - length (chars_of s)) (CHR '' '')"

definition dec_right :: "nat \<Rightarrow> nat \<Rightarrow> bytes" where
  "dec_right w n = pad_left w (CHR '' '') (dec n)"

fun fixed4 :: "f32 \<Rightarrow> bytes" where
  "fixed4 NaN = ''NaN''"
| "fixed4 PInf = ''inf''"
| "fixed4 NInf = ''-inf''"
| "fixed4 (Fin x) =
     (let n = nat (round_half_even (\<bar>x\<bar> * 10000))
      in (if x < 0 then ''-'' else []) @ dec (n div 10000) @ ''.'' @ dec_pad 4 (n mod 10000))"

section \<open>Which number is read\<close>

lemma parse_digits_Inr:
  "1 \<le> r \<Longrightarrow> acc < 2 ^ bits \<Longrightarrow> parse_digits bits r s acc = Inr n \<longleftrightarrow> digits_val r acc s = Some n \<and> n < 2 ^ bits"
proof (induction s arbitrary: acc)
  case Nil
  then show ?case by auto
next
  case (Cons c s)
  have grows: "acc \<le> m" if "digits_val r acc s = Some m" for acc m s
    using that
  proof (induction s arbitrary: acc)
    case (Cons c s)
    then obtain d where "digits_val r (acc * r + d) s = Some m" by (auto split: option.splits)
    then have "acc * r + d \<le> m" by (rule Cons.IH)
    moreover have "acc * 1 \<le> acc * r" using \<open>1 \<le> r\<close> by (rule mult_le_mono2)
    ultimately show ?case by linarith
  qed simp
  show ?case
  proof (cases "digit_val r c")
    case (Some d)
    show ?thesis
    proof (cases "2 ^ bits \<le> acc * r + d")
      case True
      with Some grows [of "acc * r + d" s n] show ?thesis by auto
    next
      case False
      with Some Cons show ?thesis by simp
    qed
  qed simp
qed

lemma parse_int_Inr: "1 \<le> r \<Longrightarrow> parse_int bits r s = Inr n \<longleftrightarrow> from_str_radix bits r s = Some n"
  by (cases s) (auto simp: parse_int_def from_str_radix_def parse_digits_Inr Let_def split: option.splits)

lemma hex_pad_digits: "list_all hex_digit (hex_pad w n)"
proof -
  have "digits_val 16 0 (hex_pad w n) = Some n"
    by (simp add: hex_pad_def pad_left_def digits_val_replicate_0 digits_val_radix)
  then show ?thesis using digits_val_Some_iff [of 16 0 "hex_pad w n"] by (auto simp: hex_digit_def list_all_iff)
qed

lemma not_hex_prefix: "digit_val r (CHR ''x'') = None \<Longrightarrow> digit_val r (CHR ''X'') = None \<Longrightarrow>
    digits_val r acc s = Some n \<Longrightarrow> \<not> starts_with ''0x'' s \<and> \<not> starts_with ''0X'' s"
  by (cases s rule: list.exhaust; cases "tl s" rule: list.exhaust)
    (auto simp: starts_with_def split: option.splits)

lemma no_x: "r \<le> 16 \<Longrightarrow> digit_val r (CHR ''x'') = None" "r \<le> 16 \<Longrightarrow> digit_val r (CHR ''X'') = None"
  by (simp_all add: digit_val_def)

lemma parse_u128_hex_pad:
  assumes "n < 2 ^ 128"
  shows "parse_u128 (hex_pad 32 n) = Inr (word_of_nat n)"
proof -
  have "length (radix_digits 16 n) \<le> 32" using assms by (intro length_radix_digits) simp_all
  then have len: "length (hex_pad 32 n) = 32" by (simp add: hex_pad_def length_pad_left)
  have "digits_val 16 0 (hex_pad 32 n) = Some n"
    by (simp add: hex_pad_def pad_left_def digits_val_replicate_0 digits_val_radix)
  from not_hex_prefix [OF no_x this] have "\<not> starts_with ''0x'' (hex_pad 32 n)" "\<not> starts_with ''0X'' (hex_pad 32 n)"
    by simp_all
  moreover have "parse_int 128 16 (hex_pad 32 n) = Inr n"
    using assms by (simp add: parse_int_Inr from_str_radix_hex_pad)
  ultimately show ?thesis by (simp add: parse_u128_def len hex_pad_digits)
qed

text \<open>Digits of two or more places stand for more in the base 16 than in the base 10.\<close>

lemma digits_val_mono:
  assumes "digits_val 10 a s = Some n" "digits_val 16 b s = Some m"
  shows "(a \<le> b \<longrightarrow> n \<le> m) \<and> (a < b \<longrightarrow> n < m)"
  using assms
proof (induction s arbitrary: a b)
  case (Cons c s)
  then obtain d e where d: "digit_val 10 c = Some d" "digits_val 10 (a * 10 + d) s = Some n"
    and e: "digit_val 16 c = Some e" "digits_val 16 (b * 16 + e) s = Some m"
    by (auto split: option.splits)
  have "d = e" using d(1) e(1) by (auto simp: digit_val_def Let_def split: if_splits)
  have "a \<le> b \<longrightarrow> a * 10 + d \<le> b * 16 + e" "a < b \<longrightarrow> a * 10 + d < b * 16 + e"
    by (simp_all add: \<open>d = e\<close>)
  with Cons.IH [OF d(2) e(2)] show ?case by auto
qed simp

lemma parse_u128_display: "parse_u128 (block_id_display b) = Inr b"
  using parse_u128_hex_pad [of "unat b"] unat_lt_max [of b] by (simp add: block_id_display_def)

lemma dec_value: "digits_val 10 0 (dec n) = Some n"
  by (simp add: dec_def digits_val_radix)

lemma parse_u128_dec:
  assumes "n < 2 ^ 128" and "length (dec n) \<noteq> 32"
  shows "parse_u128 (dec n) = Inr (word_of_nat n)"
proof -
  have np: "CHR ''+'' \<notin> set (dec n)" by (simp add: dec_def radix_digits_no_plus)
  have ne: "dec n \<noteq> []" by (simp add: dec_def)
  have "from_str_radix 128 10 (dec n) = Some n"
    using np ne assms(1) dec_value [of n] by (auto simp: from_str_radix_def Let_def split: list.splits)
  then have "parse_int 128 10 (dec n) = Inr n" by (simp add: parse_int_Inr)
  with assms(2) not_hex_prefix [OF no_x dec_value [of n]] show ?thesis by (simp add: parse_u128_def)
qed

lemma parse_u128_dec_32:
  assumes "length (dec n) = 32"
  shows "\<exists>m. parse_u128 (dec n) = Inr (word_of_nat m) \<and> n < m \<and> m < 2 ^ 128"
proof -
  obtain c s where cs: "dec n = c # s" using assms by (cases "dec n") auto
  have hex: "list_all hex_digit (dec n)"
  proof -
    have "\<forall>c \<in> set (dec n). digit_val 10 c \<noteq> None" using digits_val_Some_iff [of 10 0 "dec n"] dec_value by blast
    then show ?thesis by (auto simp: list_all_iff hex_digit_def digit_val_def Let_def split: if_splits)
  qed
  then obtain m where m: "digits_val 16 0 (dec n) = Some m"
    using digits_val_Some_iff [of 16 0 "dec n"] by (auto simp: hex_digit_def list_all_iff)
  have bound: "m < 2 ^ 128" using digits_val_hex_bound [OF m] assms by simp
  have "10 ^ 31 \<le> n"
  proof (rule ccontr)
    assume "\<not> 10 ^ 31 \<le> n"
    then have "length (radix_digits 10 n) \<le> 31" by (intro length_radix_digits) simp_all
    with assms show False by (simp add: dec_def)
  qed
  obtain d where d: "digit_val 10 c = Some d" "digits_val 10 d s = Some n"
    using dec_value [of n] cs by (auto split: option.splits)
  have d16: "digit_val 16 c = Some d" using d(1) by (auto simp: digit_val_def Let_def split: if_splits)
  then have m16: "digits_val 16 d s = Some m" using m cs by simp
  have "0 < d"
  proof (rule ccontr)
    assume "\<not> 0 < d"
    then have "n < 10 ^ length s" using digits_val_less [OF d(2)] by simp
    with assms cs \<open>10 ^ 31 \<le> n\<close> show False by simp
  qed
  obtain c' t where s: "s = c' # t" using assms cs by (cases s) auto
  obtain e where e: "digit_val 10 c' = Some e" "digits_val 10 (d * 10 + e) t = Some n"
    using d(2) s by (auto split: option.splits)
  have "digit_val 16 c' = Some e" using e(1) by (auto simp: digit_val_def Let_def split: if_splits)
  then have "digits_val 16 (d * 16 + e) t = Some m" using m16 s by simp
  then have "n < m" using digits_val_mono [OF e(2)] \<open>0 < d\<close> by simp
  have np: "CHR ''+'' \<notin> set (dec n)" by (simp add: dec_def radix_digits_no_plus)
  then have "from_str_radix 128 16 (dec n) = Some m"
    using m bound cs by (auto simp: from_str_radix_def Let_def)
  then have "parse_int 128 16 (dec n) = Inr m" by (simp add: parse_int_Inr)
  then have "parse_u128 (dec n) = Inr (word_of_nat m)"
    using not_hex_prefix [OF no_x dec_value [of n]] assms hex by (simp add: parse_u128_def)
  with \<open>n < m\<close> bound show ?thesis by blast
qed

lemma parse_u128_0x:
  assumes "n < 2 ^ 128" and "0 < w"
  shows "parse_u128 (''0x'' @ hex_pad w n) = Inr (word_of_nat n)" "parse_u128 (''0X'' @ hex_pad w n) = Inr (word_of_nat n)"
proof -
  have "parse_int 128 16 (hex_pad w n) = Inr n"
    using assms by (simp add: parse_int_Inr from_str_radix_hex_pad)
  then show "parse_u128 (''0x'' @ hex_pad w n) = Inr (word_of_nat n)" "parse_u128 (''0X'' @ hex_pad w n) = Inr (word_of_nat n)"
    by (simp_all add: parse_u128_def starts_with_def)
qed

text \<open>
  C37: an id is read back from the form in which the program prints it, from its hexadecimal form
  after \<open>0x\<close> or \<open>0X\<close>, with or without leading zeros, and from its decimal form unless that has 32
  digits: such a number is taken for the hexadecimal form of another, larger id.
\<close>

theorem parse_u128_spec:
  "parse_u128 (block_id_display b) = Inr b \<and>
   (0 < w \<longrightarrow> parse_u128 (''0x'' @ hex_pad w (unat b)) = Inr b \<and> parse_u128 (''0X'' @ hex_pad w (unat b)) = Inr b) \<and>
   (length (dec (unat b)) \<noteq> 32 \<longrightarrow> parse_u128 (dec (unat b)) = Inr b) \<and>
   (length (dec (unat b)) = 32 \<longrightarrow> (\<exists>c. parse_u128 (dec (unat b)) = Inr c \<and> b < c))"
proof (intro conjI impI)
  have b: "unat b < 2 ^ 128" using unat_lt_max [of b] by simp
  show "parse_u128 (block_id_display b) = Inr b" by (rule parse_u128_display)
  show "parse_u128 (''0x'' @ hex_pad w (unat b)) = Inr b" "parse_u128 (''0X'' @ hex_pad w (unat b)) = Inr b" if "0 < w"
    using parse_u128_0x [OF b that] by simp_all
  show "parse_u128 (dec (unat b)) = Inr b" if "length (dec (unat b)) \<noteq> 32"
    using parse_u128_dec [OF b that] by simp
  show "\<exists>c. parse_u128 (dec (unat b)) = Inr c \<and> b < c" if "length (dec (unat b)) = 32"
    using parse_u128_dec_32 [OF that] by (auto simp: word_less_nat_alt unat_of_nat take_bit_nat_eq_self)
qed

theorem parse_u128_spec_witness:
  "parse_u128 ''0xff'' = Inr 255 \<and> parse_u128 ''0X00ff'' = Inr 255 \<and>
   parse_u128 (dec (10 ^ 30)) = Inr (10 ^ 30 :: u128) \<and>
   (\<exists>c. parse_u128 (dec (10 ^ 31)) = Inr c \<and> (10 ^ 31 :: u128) < c)"
proof (intro conjI)
  have unat_numeral_255: "unat (255 :: u128) = 255" by simp
  have h: "hex_pad 1 255 = ''ff''" "hex_pad 4 255 = ''00ff''"
    by code_simp+
  have "parse_u128 (''0x'' @ hex_pad 1 (unat (255 :: u128))) = Inr 255"
    by (rule parse_u128_spec [THEN conjunct2, THEN conjunct1, THEN mp, THEN conjunct1]) simp
  moreover have "parse_u128 (''0X'' @ hex_pad 4 (unat (255 :: u128))) = Inr 255"
    by (rule parse_u128_spec [THEN conjunct2, THEN conjunct1, THEN mp, THEN conjunct2]) simp
  ultimately show "parse_u128 ''0xff'' = Inr 255" "parse_u128 ''0X00ff'' = Inr 255"
    by (simp_all only: unat_numeral_255 h append.simps)
  have a: "unat (10 ^ 30 :: u128) = 10 ^ 30" "unat (10 ^ 31 :: u128) = 10 ^ 31" by simp_all
  have "length (dec (10 ^ 30)) = 31" "length (dec (10 ^ 31)) = 32" by (simp_all add: dec_def radix_digits.simps)
  then show "parse_u128 (dec (10 ^ 30)) = Inr (10 ^ 30 :: u128)"
    "\<exists>c. parse_u128 (dec (10 ^ 31)) = Inr c \<and> (10 ^ 31 :: u128) < c"
    using parse_u128_spec [where b = "10 ^ 30" and w = 1] parse_u128_spec [where b = "10 ^ 31" and w = 1]
    by (simp_all only: a simp_thms)
qed

end
