(* ===== verification/Cli.thy ===== *)
theory Cli
  imports Host Cli_Args
begin

text \<open>
  \<open>llm386-cli/src/commands.rs\<close>: the handlers of the commands. A handler runs over a state with
  the opened store, the trace store it wrote, and what has been printed so far; it ends with a
  result or an error, and what it printed and stored before an error stays. The log of the
  program, which \<open>tracing\<close> writes to the standard error too, is not part of \<open>cs_err\<close>.
\<close>

section \<open>Runs\<close>

datatype cli_error =
  Message bytes
| With_Context bytes cli_error
| Cli_Store store_error
| Cli_Pager pager_error
| Cli_Packer packer_error
| Cli_Summarizer summarizer_error
| Cli_Trace trace_error
| Cli_Trace_Open trace_open_error
| Cli_Open open_error
| Cli_Tokenizer tokenizer_error
| Cli_Io bytes
| Cli_Json bytes
| Panics bytes

record ('s, 't) cli_state =
  cs_store :: 's
  cs_trace :: "'t lmdb_trace_sink option"
  cs_out :: bytes
  cs_err :: bytes

type_synonym ('s, 't, 'a) cli = "('s, 't) cli_state \<Rightarrow> (cli_error + 'a) \<times> ('s, 't) cli_state"

definition cret :: "'a \<Rightarrow> ('s, 't, 'a) cli" where
  "cret x st = (Inr x, st)"

definition cfail :: "cli_error \<Rightarrow> ('s, 't, 'a) cli" where
  "cfail e st = (Inl e, st)"

definition cbind :: "('s, 't, 'a) cli \<Rightarrow> ('a \<Rightarrow> ('s, 't, 'b) cli) \<Rightarrow> ('s, 't, 'b) cli" where
  "cbind m f st = (case m st of (Inl e, st') \<Rightarrow> (Inl e, st') | (Inr x, st') \<Rightarrow> f x st')"

definition clift :: "cli_error + 'a \<Rightarrow> ('s, 't, 'a) cli" where
  "clift r st = (r, st)"

fun cdo :: "('s, 't, unit) cli list \<Rightarrow> ('s, 't, unit) cli" where
  "cdo [] = cret ()"
| "cdo (m # ms) = cbind m (\<lambda>_. cdo ms)"

definition cwhen :: "bool \<Rightarrow> ('s, 't, unit) cli \<Rightarrow> ('s, 't, unit) cli" where
  "cwhen b m = (if b then m else cret ())"

text \<open>What the store is asked, and what it is told.\<close>

definition cget :: "('s \<Rightarrow> cli_error + 'a) \<Rightarrow> ('s, 't, 'a) cli" where
  "cget f st = (f (cs_store st), st)"

definition cput :: "('s \<Rightarrow> cli_error + 'a \<times> 's) \<Rightarrow> ('s, 't, 'a) cli" where
  "cput f st = (case f (cs_store st) of Inl e \<Rightarrow> (Inl e, st) | Inr (x, s) \<Rightarrow> (Inr x, st\<lparr>cs_store := s\<rparr>))"

abbreviation creads :: "('s \<Rightarrow> store_error + 'a) \<Rightarrow> ('s, 't, 'a) cli" where
  "creads f \<equiv> cget (\<lambda>s. map_err Cli_Store (f s))"

abbreviation cwrites :: "('s \<Rightarrow> store_error + 'a \<times> 's) \<Rightarrow> ('s, 't, 'a) cli" where
  "cwrites f \<equiv> cput (\<lambda>s. map_err Cli_Store (f s))"

abbreviation nl :: bytes where
  "nl \<equiv> [CHR 0x0A]"

definition print :: "bytes \<Rightarrow> ('s, 't, unit) cli" where
  "print s st = (Inr (), st\<lparr>cs_out := cs_out st @ s\<rparr>)"

definition eprint :: "bytes \<Rightarrow> ('s, 't, unit) cli" where
  "eprint s st = (Inr (), st\<lparr>cs_err := cs_err st @ s\<rparr>)"

abbreviation println :: "bytes \<Rightarrow> ('s, 't, unit) cli" where
  "println s \<equiv> print (s @ nl)"

abbreviation eprintln :: "bytes \<Rightarrow> ('s, 't, unit) cli" where
  "eprintln s \<equiv> eprint (s @ nl)"

text \<open>An \<open>expect\<close> on an option.\<close>

definition cexpect :: "bytes \<Rightarrow> 'a option \<Rightarrow> ('s, 't, 'a) cli" where
  "cexpect msg x = (case x of Some v \<Rightarrow> cret v | None \<Rightarrow> cfail (Panics msg))"

section \<open>Startup\<close>

text \<open>
  The dispatcher of a command of the block store is given the opened store; the file named by
  the flag wins over the one named by the environment variable.
\<close>

definition load_config :: "('e, 't, 'd, 'k, 'c) host \<Rightarrow> bytes option \<Rightarrow> cli_error + loaded_config" where
  "load_config host flag_path =
     rbind (map_err (\<lambda>e. With_Context ''initializing default tokenizer registry'' (Cli_Tokenizer e)) (host_tokenizers host))
       (\<lambda>tokenizers.
     map_err Message (load_applied host (registry_of_file (hs_models host)) tokenizers
       (option_or flag_path (hs_var host ''LLM386_PROFILES''))))"

definition open_block_store ::
    "('e, 't, 'd, 'k, 'c) host \<Rightarrow> loaded_config \<Rightarrow> bytes option \<Rightarrow> bytes option \<Rightarrow> cli_error + ('t, 'd) opened" where
  "open_block_store host config cli_store cli_pg_url =
     map_err Message (host_open_backend host (ld_store config) cli_store cli_pg_url)"

definition cli_init :: "('e, 't, 'd, 'k, 'c) host \<Rightarrow> bytes \<Rightarrow> ('s, 't, unit) cli" where
  "cli_init host path =
     cbind (clift (map_err (\<lambda>e. With_Context (''opening store at '' @ path) (Cli_Open e))
       (lmdb_open (hs_io host) (hs_lib host) path lmdb_config_default))) (\<lambda>_.
     println (''initialized LMDB store at '' @ path))"

section \<open>Blocks\<close>

definition new_block_id :: "('e, 't, 'd, 'k, 'c) host \<Rightarrow> nat \<Rightarrow> ('s, 't, block_id) cli" where
  "new_block_id host n = cexpect ''getrandom failed'' (host_block_id host n)"

text \<open>The block of a body: the two time stamps agree and the hash is that of the body.\<close>

definition fresh_block ::
    "('e, 't, 'd, 'k, 'c) host \<Rightarrow> block_id \<Rightarrow> block_kind \<Rightarrow> bytes \<Rightarrow> f32 \<Rightarrow> timestamp \<Rightarrow> provenance \<Rightarrow> context_block" where
  "fresh_block host i kind body priority now prov =
     \<lparr>cb_id = i, cb_kind = kind, cb_bytes = body, cb_token_counts = tc_new, cb_priority = priority,
      cb_created_at = now, cb_updated_at = now, cb_provenance = prov, cb_hash = lib_hash (hs_lib host) body\<rparr>"

text \<open>The bytes of the file, or of the standard input; \<open>file\<close> is the result of reading it.\<close>

definition cli_put ::
    "('e, 't, 'd, 'k, 'c) host \<Rightarrow> 's block_store \<Rightarrow> (bytes \<Rightarrow> bytes + bytes) \<Rightarrow> bytes + bytes \<Rightarrow>
       session_id \<Rightarrow> block_kind \<Rightarrow> f32 \<Rightarrow> bytes \<Rightarrow> ('s, 't, unit) cli" where
  "cli_put host ops read_file stdin session kind priority file =
     cbind (clift (if file = ''-''
       then map_err (\<lambda>e. With_Context ''reading stdin'' (Cli_Io e)) stdin
       else map_err (\<lambda>e. With_Context (''reading '' @ file) (Cli_Io e)) (read_file file))) (\<lambda>body.
     cbind (new_block_id host 0) (\<lambda>i.
     cbind (cwrites (\<lambda>s. bs_put ops s session
       (fresh_block host i kind body priority (host_now_ms host 1) provenance_default))) (\<lambda>stored.
     println (block_id_display stored))))"

definition profile_row :: "model_profile \<Rightarrow> bytes" where
  "profile_row p =
     pad_right 24 (mp_name p) @ ''  '' @ dec_right 8 (unat (mp_max_context_tokens p)) @ ''  '' @
     dec_right 6 (unat (mp_reserved_output_tokens p)) @ ''  '' @ dec_right 6 (unat (mp_safety_margin_tokens p)) @
     ''  '' @ mp_tokenizer p"

definition list_models :: "model_registry \<Rightarrow> ('s, 't, unit) cli" where
  "list_models reg =
     cdo (println (pad_right 24 ''name'' @ ''  '' @ pad_left 8 (CHR '' '') ''ctx'' @ ''  '' @
            pad_left 6 (CHR '' '') ''out'' @ ''  '' @ pad_left 6 (CHR '' '') ''margin'' @ ''  '' @ pad_right 14 ''tokenizer'') #
          map (\<lambda>p. println (profile_row p)) (sort_key mp_name (reg_profiles reg)))"

definition show_block :: "context_block \<Rightarrow> ('s, 't, unit) cli" where
  "show_block b =
     cdo [println (''id:            '' @ block_id_display (cb_id b)),
          println (''kind:          '' @ kind_debug (cb_kind b)),
          println (''priority:      '' @ fixed4 (cb_priority b)),
          println (''created_at:    '' @ dec (unat (cb_created_at b))),
          println (''updated_at:    '' @ dec (unat (cb_updated_at b))),
          println (''hash:          '' @ content_hash_debug (cb_hash b)),
          println (''body_bytes:    '' @ dec (length (cb_bytes b)))]"

definition show_provenance :: "provenance \<Rightarrow> ('s, 't, unit) cli" where
  "show_provenance p =
     cwhen (prov_source p \<noteq> None \<or> prov_parents p \<noteq> [] \<or> prov_labels p \<noteq> []) (cdo
       [println ''provenance:'',
        case prov_source p of Some src \<Rightarrow> println (''  source:      '' @ src) | None \<Rightarrow> cret (),
        cwhen (prov_parents p \<noteq> []) (cdo (println (''  parents ('' @ dec (length (prov_parents p)) @ ''):'') #
          map (\<lambda>i. println (''    '' @ block_id_display i)) (prov_parents p))),
        cwhen (prov_labels p \<noteq> []) (println (''  labels:      '' @ join '', '' (prov_labels p)))])"

function chunks :: "nat \<Rightarrow> 'a list \<Rightarrow> 'a list list" where
  "chunks n xs = (if n = 0 \<or> xs = [] then [] else take n xs # chunks n (drop n xs))"
  by pat_completeness auto
termination
  by (relation "measure (length \<circ> snd)") auto

declare chunks.simps [simp del]

definition show_body :: "bytes \<Rightarrow> ('s, 't, unit) cli" where
  "show_body body =
     (case from_utf8 body of
        Some txt' \<Rightarrow> cdo [print txt', cwhen (body = [] \<or> last body \<noteq> CHR 0x0A) (println [])]
      | None \<Rightarrow>
          cdo [cdo (map (\<lambda>chunk. cdo [print (concat (map (\<lambda>b. hex_pad 2 (of_char b) @ '' '') chunk)), println []])
                 (take 16 (chunks 16 body))),
               cwhen (256 < length body) (println (''... ('' @ dec (length body - 256) @ '' more bytes)''))])"

definition cli_show ::
    "'s block_store \<Rightarrow> (context_block \<Rightarrow> bytes + bytes) \<Rightarrow> block_id \<Rightarrow> bool \<Rightarrow> ('s, 't, unit) cli" where
  "cli_show ops block_json i json =
     cbind (creads (\<lambda>s. bs_get ops s i)) (\<lambda>found.
     cbind (clift (ok_or (Message (''block not found: '' @ block_id_display i)) found)) (\<lambda>b.
     if json
     then cbind (clift (map_err (\<lambda>e. With_Context ''serializing block'' (Cli_Json e)) (block_json b))) println
     else cdo
       [show_block b, show_provenance (cb_provenance b),
        cwhen (\<not> tc_is_empty (cb_token_counts b)) (cdo (println ''token_counts:'' #
          map (\<lambda>(tid, n). println (''  '' @ tid @ '': '' @ token_count_display n)) (tc_iter (cb_token_counts b)))),
        println ''---'', show_body (cb_bytes b)]))"

definition list_sessions :: "'s block_store \<Rightarrow> ('s, 't, unit) cli" where
  "list_sessions ops =
     cbind (creads (bs_list_sessions ops)) (\<lambda>sessions. cdo (map (\<lambda>s. println (session_id_display s)) sessions))"

definition add_edge :: "'s block_store \<Rightarrow> block_id \<Rightarrow> block_id \<Rightarrow> edge_kind \<Rightarrow> ('s, 't, unit) cli" where
  "add_edge ops from' to' kind =
     cbind (cwrites (\<lambda>s. bs_put_edge ops s \<lparr>edge_from = from', edge_to = to', edge_kind = kind\<rparr>)) (\<lambda>_.
     println (''edge added: '' @ block_id_display from' @ '' --'' @ edge_kind_debug kind @ ''--> '' @ block_id_display to'))"

definition list_edges :: "'s block_store \<Rightarrow> block_id \<Rightarrow> bool \<Rightarrow> ('s, 't, unit) cli" where
  "list_edges ops i incoming =
     cbind (creads (\<lambda>s. if incoming then bs_edges_to ops s i else bs_edges_from ops s i)) (\<lambda>es.
     if es = [] then println ''no edges''
     else cdo (map (\<lambda>e. println (block_id_display (edge_from e) @ '' --'' @ edge_kind_debug (edge_kind e) @ ''--> '' @
       block_id_display (edge_to e))) es))"

definition purge :: "'s block_store \<Rightarrow> u128 option \<Rightarrow> u128 option \<Rightarrow> bool \<Rightarrow> ('s, 't, unit) cli" where
  "purge ops block session yes =
     (if \<not> yes then cfail (Message ''destructive operation: pass --yes to confirm'')
      else case (block, session) of
        (Some i, None) \<Rightarrow>
          cbind (cwrites (\<lambda>s. bs_delete ops s i)) (\<lambda>deleted.
          if deleted then println (''deleted block '' @ block_id_display i)
          else eprintln (''block not found: '' @ block_id_display i))
      | (None, Some sid) \<Rightarrow>
          cbind (cwrites (\<lambda>s. bs_purge_session ops s sid)) (\<lambda>n.
          println (''purged '' @ dec n @ '' blocks from session '' @ session_id_display sid))
      | _ \<Rightarrow> cfail (Message ''specify exactly one of --block or --session''))"

end
