(* ===== verification/Cli_Run.thy ===== *)
theory Cli_Run
  imports Cli
begin

text \<open>
  \<open>llm386-cli/src/commands.rs\<close>, continued: integrity and repair, paging and packing, traces,
  summaries, and the dispatch of a command to its handler.
\<close>

section \<open>Integrity\<close>

definition lmdb_of :: "bytes \<Rightarrow> ('l, 'p) store_backend \<Rightarrow> cli_error + 'l" where
  "lmdb_of command b =
     map_err (\<lambda>label. Message (command @ '' is LMDB-only (active backend: '' @ label @ '')'')) (as_lmdb b)"

definition print_ids :: "bytes \<Rightarrow> block_id list \<Rightarrow> ('s, 't, unit) cli" where
  "print_ids title ids =
     cwhen (ids \<noteq> []) (cdo (eprintln (nl @ title) # map (\<lambda>i. eprintln (''  '' @ block_id_display i)) ids))"

definition verify_report_lines :: "verify_report \<Rightarrow> ('s, 't, unit) cli" where
  "verify_report_lines r =
     cdo [println (''blocks checked:           '' @ dec (vr_blocks_checked r)),
          println (''hash mismatches:          '' @ dec (length (vr_hash_mismatches r))),
          println (''missing from hash index:  '' @ dec (length (vr_missing_from_hash_index r))),
          println (''hash index misroutes:     '' @ dec (length (vr_hash_index_misroutes r))),
          println (''orphan session entries:   '' @ dec (vr_orphan_session_entries r)),
          println (''blocks with no session:   '' @ dec (length (vr_blocks_with_no_session r))),
          print_ids ''hash mismatches:'' (vr_hash_mismatches r),
          print_ids ''missing from hash index:'' (vr_missing_from_hash_index r)]"

definition cli_verify :: "('e, 't, 'd, 'k, 'c) host \<Rightarrow> (('t, 'd) opened, 't, unit) cli" where
  "cli_verify host =
     cbind (cget (\<lambda>b. rbind (lmdb_of ''verify'' b) (\<lambda>s. map_err Cli_Store (lmdb_verify (hs_lib host) (hs_id_order host) s)))) (\<lambda>r.
     cbind (verify_report_lines r) (\<lambda>_.
     if is_clean r then println (nl @ ''OK'') else cfail (Message ''integrity check failed'')))"

definition repair_report_lines :: "repair_report \<Rightarrow> ('s, 't, unit) cli" where
  "repair_report_lines r =
     cdo [println (''hash index rebuilt:                  '' @ (if rr_hash_index_rebuilt r then ''true'' else ''false'')),
          println (''hash entries written:                '' @ dec (rr_hash_entries_written r)),
          println (''orphan session entries removed:      '' @ dec (rr_orphan_session_entries_removed r)),
          println (''blocks with no session (untouched):  '' @ dec (length (rr_blocks_with_no_session r))),
          println (''hash mismatches quarantined:         '' @ dec (length (rr_hash_mismatches_quarantined r))),
          print_ids ''hash mismatches (left as-is, need human review):'' (rr_hash_mismatches_quarantined r)]"

definition cli_repair :: "('e, 't, 'd, 'k, 'c) host \<Rightarrow> bool \<Rightarrow> (('t, 'd) opened, 't, unit) cli" where
  "cli_repair host yes =
     (if \<not> yes then cfail (Message ''destructive operation: pass --yes to confirm'')
      else
        cbind (cput (\<lambda>b. rbind (lmdb_of ''repair'' b) (\<lambda>s.
          rbind (map_err Cli_Store (lmdb_repair (hs_lib host) (hs_id_order host) s)) (\<lambda>(r, s').
          Inr (r, Backend_Lmdb s'))))) repair_report_lines)"

section \<open>Paging\<close>

text \<open>An empty registry without a default is a panic; the log of the resolution is not modelled.\<close>

definition profile_and_tokenizer :: "loaded_config \<Rightarrow> bytes \<Rightarrow> cli_error + model_profile \<times> tokenizer" where
  "profile_and_tokenizer config model_name =
     rbind (ok_or (Panics ''ModelRegistry is empty and has no default'') (resolve model_name (ld_models config))) (\<lambda>(profile, _).
     rbind (ok_or (Message (''no tokenizer adapter for '' @ mp_tokenizer profile @ '' (used by model '' @ mp_name profile @ '')''))
       (tokenizers_get (ld_tokenizers config) (mp_tokenizer profile))) (\<lambda>tok.
     Inr (profile, tok)))"

definition make_pager ::
    "('e, 't, 'd, 'k, 'c) host \<Rightarrow> store_view \<Rightarrow> tokenizer \<Rightarrow> loaded_config \<Rightarrow> cli_error + greedy_pager" where
  "make_pager host view tok config =
     (let gp = greedy_pager_new (rv_exp2 (hs_retrievers host)) view tok in
      rbind (map_err Message (build_retrievers (hs_retrievers host) (ld_retriever_entries config) view)) (\<lambda>built.
      Inr (tune_pager config (case built of Some rs \<Rightarrow> with_retrievers rs gp | None \<Rightarrow> gp))))"

definition plan_of_store ::
    "('e, 't, 'd, 'k, 'c) host \<Rightarrow> store_view \<Rightarrow> tokenizer \<Rightarrow> loaded_config \<Rightarrow> page_request \<Rightarrow> cli_error + page_plan" where
  "plan_of_store host view tok config req =
     rbind (make_pager host view tok config) (\<lambda>gp. map_err Cli_Pager (run_page host gp req))"

definition print_omitted :: "omitted_block \<Rightarrow> ('s, 't, unit) cli" where
  "print_omitted o' =
     println (''  '' @ block_id_display (om_block_id o') @ '' ('' @ omission_reason_debug (om_reason o') @ '', score='' @
       fixed4 (om_score o') @ '')'')"

definition print_plan :: "page_plan \<Rightarrow> ('s, 't, unit) cli" where
  "print_plan plan =
     cdo [println (''selected ('' @ dec (length (pp_selected plan)) @ ''):''),
          cdo (map (\<lambda>i. println (''  '' @ block_id_display i)) (pp_selected plan)),
          println (''omitted ('' @ dec (length (pp_omitted plan)) @ ''):''),
          cdo (map print_omitted (pp_omitted plan)),
          println (''estimated_tokens: '' @ token_count_display (pp_estimated_tokens plan))]"

definition cli_page ::
    "('e, 't, 'd, 'k, 'c) host \<Rightarrow> 's block_store \<Rightarrow> (page_plan \<Rightarrow> bytes + bytes) \<Rightarrow> session_id \<Rightarrow> bytes \<Rightarrow> bytes \<Rightarrow> bool \<Rightarrow>
       loaded_config \<Rightarrow> ('s, 't, unit) cli" where
  "cli_page host ops plan_json session model_name task json config =
     cbind (clift (profile_and_tokenizer config model_name)) (\<lambda>(profile, tok).
     cbind (cget (\<lambda>s. plan_of_store host (view_of ops s) tok config (session_request session task profile))) (\<lambda>plan.
     if json
     then cbind (clift (map_err (\<lambda>e. With_Context ''serializing plan'' (Cli_Json e)) (plan_json plan))) println
     else print_plan plan))"

section \<open>Packing\<close>

text \<open>What a run of the pager and the packer gives: the plan, the prompt, and the chat prompt with its JSON.\<close>

definition pack_store ::
    "('e, 't, 'd, 'k, 'c) host \<Rightarrow> store_view \<Rightarrow> (chat_prompt \<Rightarrow> bytes + bytes) \<Rightarrow> tokenizer \<Rightarrow> loaded_config \<Rightarrow>
       page_request \<Rightarrow> packer_options \<Rightarrow> bool \<Rightarrow>
       cli_error + page_plan \<times> packed_prompt \<times> (chat_prompt \<times> bytes) option" where
  "pack_store host view chat_json tok config req opts chat =
     rbind (make_pager host view tok config) (\<lambda>gp.
     let packer = make_packer view tok opts in
     rbind (map_err Cli_Pager (run_page host gp req)) (\<lambda>plan.
     rbind (map_err Cli_Packer (pack (hs_packer host) packer req plan)) (\<lambda>prompt.
     rbind (if chat
            then rbind (map_err Cli_Packer (pack_chat (hs_packer host) packer req plan)) (\<lambda>cp.
                 rbind (map_err (\<lambda>e. With_Context ''serializing chat prompt'' (Cli_Json e)) (chat_json cp)) (\<lambda>js.
                 Inr (Some (cp, js))))
            else Inr None) (\<lambda>chat_prompt.
     Inr (plan, prompt, chat_prompt)))))"

definition open_trace :: "('e, 't, 'd, 'k, 'c) host \<Rightarrow> bytes \<Rightarrow> ('s, 't, 't lmdb_trace_sink) cli" where
  "open_trace host path =
     clift (map_err (\<lambda>e. With_Context (''opening trace store at '' @ path) (Cli_Trace_Open e)) (host_open_trace host path))"

definition call_record ::
    "call_id \<Rightarrow> page_request \<Rightarrow> page_plan \<Rightarrow> token_count \<Rightarrow> content_hash \<Rightarrow> timestamp \<Rightarrow> u32 \<Rightarrow> trace_record" where
  "call_record c req plan tokens h started duration =
     \<lparr>tr_call_id = c, tr_session = pr_session_id req, tr_model = mp_name (pr_model req), tr_plan = plan,
      tr_prompt_tokens = tokens, tr_prompt_hash = h, tr_started_at = started, tr_duration_ms = duration,
      tr_model_version = mp_name (pr_model req), tr_tokenizer_version = mp_tokenizer (pr_model req),
      tr_output = None, tr_output_tokens = None\<rparr>"

text \<open>The trace of the string prompt, also when a chat prompt is printed.\<close>

definition record_call ::
    "('e, 't, 'd, 'k, 'c) host \<Rightarrow> bytes option \<Rightarrow> page_request \<Rightarrow> page_plan \<Rightarrow> packed_prompt \<Rightarrow> timestamp \<Rightarrow>
       ('s, 't, call_id option) cli" where
  "record_call host trace_path req plan prompt started =
     (case trace_path of
        None \<Rightarrow> cret None
      | Some path \<Rightarrow>
          cbind (open_trace host path) (\<lambda>sink.
          cbind (cexpect ''getrandom failed'' (host_call_id host)) (\<lambda>c.
          cbind (clift (map_err Cli_Trace (ts_record (host_sink host) sink
            (call_record c req plan (pk_input_tokens prompt) (lib_hash (hs_lib host) (pk_rendered prompt)) started
              (host_duration_ms host))))) (\<lambda>sink' st.
          (Inr (Some c), st\<lparr>cs_trace := Some sink'\<rparr>)))))"

definition print_trace_id :: "bytes \<Rightarrow> call_id option \<Rightarrow> ('s, 't, unit) cli" where
  "print_trace_id label trace_id =
     (case trace_id of Some i \<Rightarrow> eprintln (label @ call_id_display i) | None \<Rightarrow> cret ())"

definition print_pack ::
    "('e, 't, 'd, 'k, 'c) host \<Rightarrow> page_request \<Rightarrow> packed_prompt \<Rightarrow> (chat_prompt \<times> bytes) option \<Rightarrow> call_id option \<Rightarrow>
       bool \<Rightarrow> ('s, 't, unit) cli" where
  "print_pack host req prompt chat_prompt trace_id prompt_only =
     (case chat_prompt of
        Some (cp, js) \<Rightarrow>
          cdo [eprintln (''# model:          '' @ cp_model cp),
               eprintln (''# input_tokens:   '' @ token_count_display (cp_input_tokens cp)),
               eprintln (''# messages:       '' @ dec (length (cp_messages cp))),
               (case cp_cache_boundary cp of
                  Some n \<Rightarrow> eprintln (''# cache_boundary: '' @ dec n @ '' (messages[0..='' @ dec n @ ''] cacheable)'')
                | None \<Rightarrow> eprintln ''# cache_boundary: none''),
               eprintln (''# duration_ms:    '' @ dec (unat (host_duration_ms host))),
               print_trace_id ''# trace_id:       '' trace_id,
               eprintln ''---'',
               println js]
      | None \<Rightarrow>
          if prompt_only then print (pk_rendered prompt)
          else cdo [eprintln (''# model:         '' @ mp_name (pr_model req)),
                    eprintln (''# input_tokens:  '' @ token_count_display (pk_input_tokens prompt)),
                    eprintln (''# duration_ms:   '' @ dec (unat (host_duration_ms host))),
                    print_trace_id ''# trace_id:      '' trace_id,
                    eprintln ''---'',
                    print (pk_rendered prompt)])"

definition cli_pack ::
    "('e, 't, 'd, 'k, 'c) host \<Rightarrow> 's block_store \<Rightarrow> (chat_prompt \<Rightarrow> bytes + bytes) \<Rightarrow> session_id \<Rightarrow> bytes \<Rightarrow> bytes \<Rightarrow>
       pack_flags \<Rightarrow> loaded_config \<Rightarrow> ('s, 't, unit) cli" where
  "cli_pack host ops chat_json session model_name task flags config =
     cbind (clift (profile_and_tokenizer config model_name)) (\<lambda>(profile, tok).
     let req = session_request session task profile in
     cbind (cget (\<lambda>s. pack_store host (view_of ops s) chat_json tok config req
       (packer_opts config (pf_timestamps flags)) (pf_chat flags))) (\<lambda>(plan, prompt, chat_prompt).
     cbind (record_call host (pf_trace flags) req plan prompt (host_now_ms host 0)) (\<lambda>trace_id.
     print_pack host req prompt chat_prompt trace_id (pf_prompt_only flags))))"

section \<open>Traces\<close>

definition fetch_trace :: "('e, 't, 'd, 'k, 'c) host \<Rightarrow> 't lmdb_trace_sink \<Rightarrow> call_id \<Rightarrow> cli_error + trace_record" where
  "fetch_trace host sink c =
     rbind (map_err Cli_Trace (ts_fetch (host_sink host) sink c)) (\<lambda>found.
     ok_or (Message (''no trace for '' @ call_id_display c)) found)"

definition diff_line ::
    "bytes \<Rightarrow> (diff_entry \<Rightarrow> selection_reason option) \<Rightarrow> bytes \<Rightarrow> diff_entry \<Rightarrow> ('s, 't, unit) cli" where
  "diff_line mark reason msg e =
     cbind (cexpect msg (reason e)) (\<lambda>r.
     println (mark @ block_id_display (de_block_id e) @ '' ('' @ selection_reason_debug r @ '')''))"

definition change_line :: "diff_entry \<Rightarrow> ('s, 't, unit) cli" where
  "change_line e =
     cbind (cexpect ''kept entries have a prev reason'' (de_reason_prev e)) (\<lambda>r.
     cbind (cexpect ''kept entries have a next reason'' (de_reason_next e)) (\<lambda>r'.
     println (''  ~ '' @ block_id_display (de_block_id e) @ '' ('' @ selection_reason_debug r @ '' -> '' @
       selection_reason_debug r' @ '')'')))"

definition counted_section :: "bytes \<Rightarrow> ('x \<Rightarrow> ('s, 't, unit) cli) \<Rightarrow> 'x list \<Rightarrow> ('s, 't, unit) cli" where
  "counted_section title line xs =
     cwhen (xs \<noteq> []) (cdo (println (title @ '' ('' @ dec (length xs) @ ''):'') # map line xs))"

definition print_diff :: "call_id \<Rightarrow> call_id \<Rightarrow> prompt_diff \<Rightarrow> ('s, 't, unit) cli" where
  "print_diff prev next' d =
     cdo [println (''prev:    '' @ call_id_display prev), println (''next:    '' @ call_id_display next'),
          println (''summary: '' @ diff_summary d),
          counted_section ''added'' (diff_line ''  + '' de_reason_next ''added entries have a next reason'') (pd_added d),
          counted_section ''removed'' (diff_line ''  - '' de_reason_prev ''removed entries have a prev reason'') (pd_removed d),
          counted_section ''reason changes'' change_line (filter reason_changed (pd_kept d))]"

definition trace_diff :: "('e, 't, 'd, 'k, 'c) host \<Rightarrow> bytes \<Rightarrow> call_id \<Rightarrow> call_id \<Rightarrow> ('s, 't, unit) cli" where
  "trace_diff host path prev next' =
     cbind (open_trace host path) (\<lambda>sink.
     cbind (clift (fetch_trace host sink prev)) (\<lambda>prev_rec.
     cbind (clift (fetch_trace host sink next')) (\<lambda>next_rec.
     print_diff prev next' (diff_traces (hs_reason_order host) prev_rec next_rec))))"

definition trace_show :: "('e, 't, 'd, 'k, 'c) host \<Rightarrow> bytes \<Rightarrow> call_id \<Rightarrow> ('s, 't, unit) cli" where
  "trace_show host path c =
     cbind (open_trace host path) (\<lambda>sink.
     cbind (clift (fetch_trace host sink c)) (\<lambda>r.
     cdo [println (''call_id:         '' @ call_id_display (tr_call_id r)),
          println (''session:         '' @ session_id_display (tr_session r)),
          println (''model:           '' @ tr_model r),
          println (''started_at_ms:   '' @ dec (unat (tr_started_at r))),
          println (''duration_ms:     '' @ dec (unat (tr_duration_ms r))),
          println (''prompt_tokens:   '' @ token_count_display (tr_prompt_tokens r)),
          println (''prompt_hash:     '' @ content_hash_debug (tr_prompt_hash r)),
          println (''estimated:       '' @ token_count_display (pp_estimated_tokens (tr_plan r))),
          println (''plan.selected ('' @ dec (length (pp_selected (tr_plan r))) @ ''):''),
          cdo (map (\<lambda>i. println (''  '' @ block_id_display i)) (pp_selected (tr_plan r))),
          println (''plan.omitted ('' @ dec (length (pp_omitted (tr_plan r))) @ ''):''),
          cdo (map print_omitted (pp_omitted (tr_plan r)))]))"

section \<open>Summaries\<close>

definition summarizer_of_arg :: "('e, 't, 'd, 'k, 'c) host \<Rightarrow> summarize_args \<Rightarrow> cli_error + summarizer" where
  "summarizer_of_arg host args =
     (case sa_summarizer args of
        SumArg_Noop \<Rightarrow> Inr noop_summarizer
      | SumArg_Truncating \<Rightarrow>
          Inr (truncating_interface (en_utf8_error (hs_packer host)) (truncating_new (sa_max_chars args)))
      | SumArg_Anthropic \<Rightarrow>
          rbind (map_err (\<lambda>e. With_Context ''constructing AnthropicSummarizer'' (Cli_Summarizer e))
            (anthropic_from_env (hs_var host ''ANTHROPIC_API_KEY''))) (\<lambda>a.
          Inr (anthropic_interface (en_utf8_error (hs_packer host)) (hs_client host)
            (anthropic_of_flags (sa_anthropic_model args) (sa_anthropic_max_tokens args) a))))"

definition cli_summarize ::
    "('e, 't, 'd, 'k, 'c) host \<Rightarrow> 's block_store \<Rightarrow> summarize_args \<Rightarrow> ('s, 't, unit) cli" where
  "cli_summarize host ops args =
     cbind (creads (\<lambda>s. bs_list_session ops s (sa_session args))) (\<lambda>listed.
     let ids = session_tail (sa_last args) listed in
     cbind (creads (\<lambda>s. load_blocks ops s ids)) (\<lambda>blocks.
     cbind (clift (rbind (summarizer_of_arg host args) (\<lambda>sm.
       rbind (map_err Cli_Summarizer (sum_summarize sm blocks)) (\<lambda>txt'. Inr (sm, txt'))))) (\<lambda>(sm, summary).
     cbind (print summary) (\<lambda>_.
     cwhen (sa_store_summary args)
       (cbind (new_block_id host 1) (\<lambda>i.
        cbind (cwrites (\<lambda>s. bs_put ops s (sa_session args)
          (fresh_block host i Kind_Summary summary f32_0 (host_now_ms host 0)
            \<lparr>prov_source = Some (''summarize:'' @ sum_name sm), prov_parents = ids, prov_labels = []\<rparr>))) (\<lambda>stored.
        eprintln (''# summary stored: '' @ block_id_display stored))))))))"

section \<open>Dispatch\<close>

text \<open>What the commands read of the world beside the host.\<close>

record cli_io =
  ci_read_file :: "bytes \<Rightarrow> bytes + bytes"
  ci_stdin :: "bytes + bytes"
  ci_plan_json :: "page_plan \<Rightarrow> bytes + bytes"
  ci_chat_json :: "chat_prompt \<Rightarrow> bytes + bytes"
  ci_block_json :: "context_block \<Rightarrow> bytes + bytes"

fun dispatch_store ::
    "('e, 't, 'd, 'k, 'c) host \<Rightarrow> cli_io \<Rightarrow> loaded_config \<Rightarrow> cli_command \<Rightarrow> (('t, 'd) opened, 't, unit) cli" where
  "dispatch_store host io config (Cmd_Put session kind priority file) =
     cli_put host (host_ops host) (ci_read_file io) (ci_stdin io) session (kind_of_arg kind) priority file"
| "dispatch_store host io config (Cmd_Page session model task json) =
     cli_page host (host_ops host) (ci_plan_json io) session model task json config"
| "dispatch_store host io config (Cmd_Pack session model task flags) =
     cli_pack host (host_ops host) (ci_chat_json io) session model task flags config"
| "dispatch_store host io config Cmd_ListSessions = list_sessions (host_ops host)"
| "dispatch_store host io config Cmd_Verify = cli_verify host"
| "dispatch_store host io config (Cmd_Repair yes) = cli_repair host yes"
| "dispatch_store host io config (Cmd_Purge block session yes) = purge (host_ops host) block session yes"
| "dispatch_store host io config (Cmd_Show i json) = cli_show (host_ops host) (ci_block_json io) i json"
| "dispatch_store host io config (Cmd_AddEdge from' to' kind) =
     add_edge (host_ops host) from' to' (edge_kind_of_arg kind)"
| "dispatch_store host io config (Cmd_Edges i incoming) = list_edges (host_ops host) i incoming"
| "dispatch_store host io config (Cmd_Summarize args) = cli_summarize host (host_ops host) args"
| "dispatch_store host io config _ = cfail (Panics ''handled above'')"

text \<open>A store command starts with the store it opens, and nothing printed.\<close>

definition cli_start :: "'s \<Rightarrow> ('s, 't) cli_state" where
  "cli_start s = \<lparr>cs_store = s, cs_trace = None, cs_out = [], cs_err = []\<rparr>"

record ('t, 'd) cli_result =
  cr_result :: "cli_error + unit"
  cr_store :: "('t, 'd) opened option"
  cr_trace :: "'t lmdb_trace_sink option"
  cr_out :: bytes
  cr_err :: bytes

definition storeless :: "(unit, 't, unit) cli \<Rightarrow> ('t, 'd) cli_result" where
  "storeless m =
     (let (r, st) = m (cli_start ())
      in \<lparr>cr_result = r, cr_store = None, cr_trace = cs_trace st, cr_out = cs_out st, cr_err = cs_err st\<rparr>)"

definition dispatch ::
    "('e, 't, 'd, 'k, 'c) host \<Rightarrow> cli_io \<Rightarrow> cli_command \<Rightarrow> bytes option \<Rightarrow> bytes option \<Rightarrow> loaded_config \<Rightarrow> ('t, 'd) cli_result" where
  "dispatch host io command cli_store cli_pg_url config =
     (case command of
        Cmd_Init path \<Rightarrow> storeless (cli_init host path)
      | Cmd_ListModels \<Rightarrow> storeless (list_models (ld_models config))
      | Cmd_Trace (Trace_Show path c) \<Rightarrow> storeless (trace_show host path c)
      | Cmd_Trace (Trace_Diff path prev next') \<Rightarrow> storeless (trace_diff host path prev next')
      | _ \<Rightarrow>
          (case open_block_store host config cli_store cli_pg_url of
             Inl e \<Rightarrow> \<lparr>cr_result = Inl e, cr_store = None, cr_trace = None, cr_out = [], cr_err = []\<rparr>
           | Inr opened_store \<Rightarrow>
               (let (r, st) = dispatch_store host io config command (cli_start opened_store)
                in \<lparr>cr_result = r, cr_store = Some (cs_store st), cr_trace = cs_trace st, cr_out = cs_out st,
                    cr_err = cs_err st\<rparr>)))"

text \<open>\<open>main\<close>: the configuration first, then the command.\<close>

record cli_args =
  ca_profiles :: "bytes option"
  ca_store :: "bytes option"
  ca_pg_url :: "bytes option"
  ca_command :: cli_command

definition cli_main :: "('e, 't, 'd, 'k, 'c) host \<Rightarrow> cli_io \<Rightarrow> cli_args \<Rightarrow> ('t, 'd) cli_result" where
  "cli_main host io args =
     (case load_config host (ca_profiles args) of
        Inl e \<Rightarrow> \<lparr>cr_result = Inl e, cr_store = None, cr_trace = None, cr_out = [], cr_err = []\<rparr>
      | Inr config \<Rightarrow> dispatch host io (ca_command args) (ca_store args) (ca_pg_url args) config)"

end
