(* ===== verification/Cli_Correct.thy ===== *)
theory Cli_Correct
  imports Cli_Run
begin

text \<open>
  The command line as a whole: which commands leave the store as it is, what a put and a pack
  leave behind, and that no sequence of commands makes the integrity check fail.
\<close>

section \<open>Runs that leave the store alone\<close>

named_theorems keeps_intros \<open>runs that leave the store as it is\<close>
named_theorems prints_intros \<open>runs that leave the store as it is and do not fail\<close>

definition keeps :: "('s, 't, 'a) cli \<Rightarrow> bool" where
  "keeps m \<longleftrightarrow> (\<forall>st. cs_store (snd (m st)) = cs_store st)"

definition prints :: "('s, 't, 'a) cli \<Rightarrow> bool" where
  "prints m \<longleftrightarrow> (\<forall>st. cs_store (snd (m st)) = cs_store st \<and> (\<exists>x. fst (m st) = Inr x))"

text \<open>A run that fails has not changed the store.\<close>

definition all_or_nothing :: "('s, 't, 'a) cli \<Rightarrow> bool" where
  "all_or_nothing m \<longleftrightarrow> (\<forall>st e. fst (m st) = Inl e \<longrightarrow> cs_store (snd (m st)) = cs_store st)"

lemma keeps_simple [keeps_intros]:
  "keeps (cret x)" "keeps (cfail e)" "keeps (clift r)" "keeps (cget f)" "keeps (print s)" "keeps (eprint s)"
  by (simp_all add: keeps_def cret_def cfail_def clift_def cget_def print_def eprint_def)

lemma keeps_cbind [keeps_intros]: "keeps m \<Longrightarrow> (\<And>x. keeps (f x)) \<Longrightarrow> keeps (cbind m f)"
  by (auto simp: keeps_def cbind_def split: prod.splits sum.splits) (metis snd_conv)+

lemma keeps_cdo [keeps_intros]:
  "keeps (cdo [])" "keeps m \<Longrightarrow> keeps (cdo ms) \<Longrightarrow> keeps (cdo (m # ms))"
  by (simp_all add: keeps_intros)

lemma keeps_cdo_map [keeps_intros]: "(\<And>x. keeps (f x)) \<Longrightarrow> keeps (cdo (map f xs))"
  by (induction xs) (simp_all add: keeps_intros)

lemma keeps_cwhen [keeps_intros]: "keeps m \<Longrightarrow> keeps (cwhen b m)"
  by (simp add: cwhen_def keeps_intros)

lemma keeps_cexpect [keeps_intros]: "keeps (cexpect msg x)"
  by (simp add: cexpect_def keeps_intros split: option.split)

lemma keeps_if [keeps_intros]: "keeps m \<Longrightarrow> keeps n \<Longrightarrow> keeps (if b then m else n)"
  by simp

lemma keeps_option [keeps_intros]: "keeps m \<Longrightarrow> (\<And>x. keeps (f x)) \<Longrightarrow> keeps (case y of None \<Rightarrow> m | Some x \<Rightarrow> f x)"
  by (simp split: option.split)

lemma keeps_prod [keeps_intros]: "(\<And>x y. keeps (f x y)) \<Longrightarrow> keeps (case p of (x, y) \<Rightarrow> f x y)"
  by (simp split: prod.split)

lemma keeps_nothing: "keeps m \<Longrightarrow> all_or_nothing m"
  by (simp add: keeps_def all_or_nothing_def)

lemma prints_simple [prints_intros]: "prints (cret x)" "prints (print s)" "prints (eprint s)"
  by (simp_all add: prints_def cret_def print_def eprint_def)

lemma prints_cbind: "prints m \<Longrightarrow> (\<And>x. prints (f x)) \<Longrightarrow> prints (cbind m f)"
  by (simp add: prints_def cbind_def split: prod.splits sum.splits) (metis fst_conv snd_conv Inr_not_Inl)

lemma prints_cdo [prints_intros]:
  "prints (cdo [])" "prints m \<Longrightarrow> prints (cdo ms) \<Longrightarrow> prints (cdo (m # ms))"
  by (simp_all add: prints_intros prints_cbind)

lemma prints_cdo_map [prints_intros]: "(\<And>x. prints (f x)) \<Longrightarrow> prints (cdo (map f xs))"
  by (induction xs) (simp_all add: prints_intros prints_cbind)

lemma prints_if [prints_intros]: "prints m \<Longrightarrow> prints n \<Longrightarrow> prints (if b then m else n)"
  by simp

lemma prints_cwhen [prints_intros]: "prints m \<Longrightarrow> prints (cwhen b m)"
  by (simp add: cwhen_def prints_intros)

lemma all_or_nothing_write:
  assumes "\<And>x. prints (f x)"
  shows "all_or_nothing (cbind (cput g) f)"
  using assms unfolding all_or_nothing_def prints_def cbind_def cput_def
  by (auto split: sum.splits prod.splits) (metis Inr_not_Inl)+

lemma all_or_nothing_cbind:
  "keeps m \<Longrightarrow> (\<And>x. all_or_nothing (f x)) \<Longrightarrow> all_or_nothing (cbind m f)"
  by (auto simp: keeps_def all_or_nothing_def cbind_def split: prod.splits sum.splits) (metis fst_conv snd_conv)+

section \<open>The handlers\<close>

lemma print_plan_keeps [keeps_intros]: "keeps (print_plan plan)"
  unfolding print_plan_def print_omitted_def by (intro keeps_intros)

lemma print_ids_prints [prints_intros]: "prints (print_ids title ids)"
  unfolding print_ids_def by (intro prints_intros)

lemma prints_keeps: "prints m \<Longrightarrow> keeps m"
  by (simp add: prints_def keeps_def)

lemma verify_report_keeps [keeps_intros]: "keeps (verify_report_lines r)"
  unfolding verify_report_lines_def by (rule prints_keeps) (intro prints_intros)

lemma repair_report_prints: "prints (repair_report_lines r)"
  unfolding repair_report_lines_def by (intro prints_intros)

lemma cli_verify_keeps: "keeps (cli_verify host)"
  unfolding cli_verify_def by (intro keeps_intros)

lemma record_call_keeps [keeps_intros]: "keeps (record_call host p req plan prompt t)"
proof -
  have k: "keeps (\<lambda>st. (Inr c, st\<lparr>cs_trace := x\<rparr>))" for c x by (simp add: keeps_def)
  show ?thesis unfolding record_call_def open_trace_def by (intro keeps_intros k)
qed

lemma cli_show_keeps: "keeps (cli_show ops js i json)"
  unfolding cli_show_def show_block_def show_provenance_def show_body_def by (intro keeps_intros)

lemma list_keeps: "keeps (list_sessions ops)" "keeps (list_edges ops i incoming)"
  unfolding list_sessions_def list_edges_def by (intro keeps_intros)+

lemma cli_page_keeps: "keeps (cli_page host ops js session model task json config)"
  unfolding cli_page_def by (intro keeps_intros)

lemma print_pack_keeps [keeps_intros]: "keeps (print_pack host req prompt chat_prompt trace_id only)"
  unfolding print_pack_def print_trace_id_def by (intro keeps_intros)

lemma cli_pack_keeps: "keeps (cli_pack host ops js session model task flags config)"
  unfolding cli_pack_def Let_def by (intro keeps_intros)

lemma cli_put_all: "all_or_nothing (cli_put host ops rf stdin session kind priority file)"
  unfolding cli_put_def new_block_id_def
  by (intro all_or_nothing_cbind keeps_intros all_or_nothing_write prints_intros)

lemma add_edge_all: "all_or_nothing (add_edge ops i j kind)"
  unfolding add_edge_def by (intro all_or_nothing_write prints_intros)

lemma purge_all: "all_or_nothing (purge ops b session yes)"
  unfolding purge_def
  by (auto intro!: all_or_nothing_write prints_intros keeps_nothing [OF keeps_simple(2)] split: option.splits)

lemma cli_repair_all: "all_or_nothing (cli_repair host yes)"
  unfolding cli_repair_def
  by (auto intro: keeps_nothing keeps_intros all_or_nothing_write repair_report_prints)

lemma cli_summarize_all: "all_or_nothing (cli_summarize host ops args)"
  unfolding cli_summarize_def new_block_id_def Let_def cwhen_def
  by (auto intro!: all_or_nothing_cbind keeps_intros all_or_nothing_write prints_intros intro: keeps_nothing
      split: prod.splits)

lemma cli_summarize_keeps: "\<not> sa_store_summary args \<Longrightarrow> keeps (cli_summarize host ops args)"
  unfolding cli_summarize_def Let_def cwhen_def by (simp, intro keeps_intros)

section \<open>Which commands write\<close>

fun writes :: "cli_command \<Rightarrow> bool" where
  "writes (Cmd_Put session kind priority file) = True"
| "writes (Cmd_AddEdge from' to' kind) = True"
| "writes (Cmd_Repair yes) = yes"
| "writes (Cmd_Purge block session yes) = yes"
| "writes (Cmd_Summarize args) = sa_store_summary args"
| "writes _ = False"

lemma dispatch_store_keeps: "\<not> writes c \<Longrightarrow> keeps (dispatch_store host io config c)"
  by (cases c) (simp_all add: cli_page_keeps cli_pack_keeps list_keeps cli_verify_keeps cli_show_keeps
      cli_summarize_keeps keeps_intros, simp_all add: keeps_def cli_repair_def purge_def cfail_def)

lemma dispatch_store_all: "all_or_nothing (dispatch_store host io config c)"
  by (cases c) (simp_all add: cli_put_all add_edge_all purge_all cli_repair_all cli_summarize_all keeps_nothing
      dispatch_store_keeps [of "Cmd_Page _ _ _ _", simplified] cli_page_keeps cli_pack_keeps list_keeps
      cli_verify_keeps cli_show_keeps keeps_intros)

text \<open>
  C15: a command changes the store only when it is one of those that write (put, add-edge, a
  summarize that stores, and repair and purge with their confirmation), and only when it succeeds:
  in every other case the store is left as it was opened.
\<close>

theorem dispatch_all_or_nothing:
  assumes "cr_store (dispatch host io c path url config) = Some s"
    and "\<not> writes c \<or> cr_result (dispatch host io c path url config) \<noteq> Inr ()"
  shows "open_block_store host config path url = Inr s"
proof -
  have none: "cr_store (storeless m) = None" for m
    by (simp add: storeless_def split: prod.split)
  have main: "dispatch host io c path url config =
      (case open_block_store host config path url of
         Inl e \<Rightarrow> \<lparr>cr_result = Inl e, cr_store = None, cr_trace = None, cr_out = [], cr_err = []\<rparr>
       | Inr b \<Rightarrow>
           (let (r, st) = dispatch_store host io config c (cli_start b)
            in \<lparr>cr_result = r, cr_store = Some (cs_store st), cr_trace = cs_trace st, cr_out = cs_out st,
                cr_err = cs_err st\<rparr>))"
    using assms(1) by (auto simp: dispatch_def none split: cli_command.splits trace_sub.splits)
  from assms(1) obtain b where b: "open_block_store host config path url = Inr b"
    unfolding main by (cases "open_block_store host config path url") auto
  obtain r st where run: "dispatch_store host io config c (cli_start b) = (r, st)" by fastforce
  from assms(1) have s: "s = cs_store st" by (simp add: main b run)
  have "cs_store st = b"
  proof (cases "writes c")
    case False
    with dispatch_store_keeps [of c host io config] run show ?thesis
      by (auto simp: keeps_def cli_start_def dest: spec [of _ "cli_start b"])
  next
    case True
    with assms(2) obtain e where "r = Inl e" by (cases r) (auto simp: main b run)
    with dispatch_store_all [of host io config c] run show ?thesis
      by (auto simp: all_or_nothing_def cli_start_def dest: spec [of _ "cli_start b"])
  qed
  with b s show ?thesis by simp
qed

section \<open>Putting a file\<close>

lemma cbind_Inr:
  "cbind m f st = (Inr y, st') \<longleftrightarrow> (\<exists>x st1. m st = (Inr x, st1) \<and> f x st1 = (Inr y, st'))"
  by (auto simp: cbind_def split: prod.splits sum.splits)

lemma cli_Inr:
  "clift r st = (Inr x, st') \<longleftrightarrow> r = Inr x \<and> st' = st"
  "cget f st = (Inr x, st') \<longleftrightarrow> f (cs_store st) = Inr x \<and> st' = st"
  "cput g st = (Inr x, st') \<longleftrightarrow> (\<exists>s. g (cs_store st) = Inr (x, s) \<and> st' = st\<lparr>cs_store := s\<rparr>)"
  "print s st = (Inr u, st') \<longleftrightarrow> st' = st\<lparr>cs_out := cs_out st @ s\<rparr>"
  "eprint s st = (Inr u, st') \<longleftrightarrow> st' = st\<lparr>cs_err := cs_err st @ s\<rparr>"
  "cret y st = (Inr x, st') \<longleftrightarrow> x = y \<and> st' = st"
  "cexpect msg ov st = (Inr x, st') \<longleftrightarrow> ov = Some x \<and> st' = st"
  "cfail e st \<noteq> (Inr x, st')"
  by (auto simp: clift_def cget_def cput_def print_def eprint_def cret_def cexpect_def cfail_def
      split: sum.splits prod.splits option.splits)

lemma fresh_block_sel [simp]:
  "cb_id (fresh_block host i kind body pr now prov) = i" "cb_bytes (fresh_block host i kind body pr now prov) = body"
  "cb_kind (fresh_block host i kind body pr now prov) = kind"
  "cb_hash (fresh_block host i kind body pr now prov) = lib_hash (hs_lib host) body"
  by (simp_all add: fresh_block_def)

text \<open>The result of reading the file of a put.\<close>

definition put_input :: "(bytes \<Rightarrow> bytes + bytes) \<Rightarrow> bytes + bytes \<Rightarrow> bytes \<Rightarrow> bytes + bytes" where
  "put_input read_file stdin file = (if file = ''-'' then stdin else read_file file)"

lemma cli_put_Inr:
  assumes "cli_put host ops rf stdin session kind priority file st = (Inr (), st')"
  obtains body i j s where "put_input rf stdin file = Inr body" "host_block_id host 0 = Some i"
    "bs_put ops (cs_store st) session
       (fresh_block host i kind body priority (host_now_ms host 1) provenance_default) = Inr (j, s)"
    "cs_store st' = s" "cs_out st' = cs_out st @ block_id_display j @ nl"
  using assms unfolding cli_put_def new_block_id_def cbind_Inr cli_Inr put_input_def
  by (auto split: if_splits)

lemma fresh_block_storable:
  assumes "uint now < 2 ^ 63"
  shows "pg_storable (fresh_block host i kind body priority now prov)"
  using assms by (simp add: pg_storable_def fresh_block_def tc_new_def pg_stored_def ts_clamp_small)

section \<open>The store of the host\<close>

definition host_rel ::
    "'t lmdb_lib \<Rightarrow> ('t \<Rightarrow> raw \<rightharpoonup> raw) \<Rightarrow> ('d \<Rightarrow> pg_tables) \<Rightarrow> ('t, 'd) opened \<Rightarrow> store_spec \<Rightarrow> bool" where
  "host_rel lib tab tables = backend_rel (lmdb_rel lib tab) (\<lambda>d. pg_rel (tables d))"

lemma host_contract:
  assumes "lmdb (hs_lib host) tab" and "postgres (hs_pg host) tables collate"
  shows "store_contract (host_ops host) (host_rel (hs_lib host) tab tables) pg_storable"
proof -
  have "two_stores (lmdb_ops (hs_lib host)) (lmdb_rel (hs_lib host) tab) (\<lambda>_. True)
      (pg_store_ops (hs_pg host)) (\<lambda>d. pg_rel (tables d)) pg_storable"
    by (intro two_stores.intro lmdb.contract(1) [OF assms(1)]
        postgres.contract(1) [OF assms(2)])
  from two_stores.contract(1) [OF this] show ?thesis
    by (simp add: host_ops_def host_rel_def)
qed

text \<open>
  How the bytes of a block appear: text as it is, with a line break after it where it has none;
  other bytes as the hexadecimal dump of the first 256 of them, sixteen to a line, and a line
  with the number of those left out.
\<close>

definition shown :: "bytes \<Rightarrow> bytes" where
  "shown body =
     (if utf8_valid body then body @ (if body = [] \<or> last body \<noteq> CHR 0x0A then nl else [])
      else concat (map (\<lambda>row. concat (map (\<lambda>b. hex_pad 2 (of_char b) @ '' '') row) @ nl) (chunks 16 (take 256 body))) @
        (if 256 < length body then ''... ('' @ dec (length body - 256) @ '' more bytes)'' @ nl else []))"

lemma chunks_take: "chunks n (take (n * k) xs) = take k (chunks n xs)"
proof (induction k arbitrary: xs)
  case (Suc k)
  have "drop n (take (n * Suc k) xs) = take (n * k) (drop n xs)"
    by (simp add: drop_take)
  then show ?case
    using Suc [of "drop n xs"] chunks.simps [of n xs] chunks.simps [of n "take (n * Suc k) xs"] by simp
qed (simp add: chunks.simps)

lemma cdo_lines_out:
  "cdo (map (\<lambda>x. cbind (print (f x)) (\<lambda>_. cbind (print nl) cret)) xs) st =
     (Inr (), st\<lparr>cs_out := cs_out st @ concat (map (\<lambda>x. f x @ nl) xs)\<rparr>)"
  by (induction xs arbitrary: st) (simp_all add: cbind_def cret_def print_def)

lemma show_body_out: "show_body body st = (Inr (), st\<lparr>cs_out := cs_out st @ shown body\<rparr>)"
proof (cases "utf8_valid body")
  case False
  have "chunks 16 (take 256 body) = take 16 (chunks 16 body)"
    using chunks_take [of 16 16 body] by simp
  with False show ?thesis
    by (simp add: show_body_def from_utf8_def cbind_def cdo_lines_out cwhen_def cret_def print_def shown_def)
qed (simp add: show_body_def from_utf8_def cbind_def cwhen_def cret_def print_def shown_def)

text \<open>The body of the block ends the output of a show.\<close>

lemma cdo_append: "cdo (ms @ ns) = cbind (cdo ms) (\<lambda>_. cdo ns)"
  by (induction ms) (auto simp: cbind_def cret_def fun_eq_iff split: prod.splits sum.splits)

lemma cli_show_out:
  assumes "cli_show ops js i False st = (Inr (), st')" and "bs_get ops (cs_store st) i = Inr (Some b)"
  shows "\<exists>pre. cs_out st' = pre @ ''---'' @ nl @ shown (cb_bytes b)"
proof -
  from assms(1,2) obtain ms where "cdo (ms @ [println ''---'', show_body (cb_bytes b)]) st = (Inr (), st')"
    and "ms = [show_block b, show_provenance (cb_provenance b),
        cwhen (\<not> tc_is_empty (cb_token_counts b)) (cdo (println ''token_counts:'' #
          map (\<lambda>(tid, n). println (''  '' @ tid @ '': '' @ token_count_display n)) (tc_iter (cb_token_counts b))))]"
    by (auto simp: cli_show_def cbind_Inr cli_Inr)
  then obtain st1 where "cdo [println ''---'', show_body (cb_bytes b)] st1 = (Inr (), st')"
    unfolding cdo_append cbind_Inr by blast
  then have "cs_out st' = cs_out st1 @ ''---'' @ nl @ shown (cb_bytes b)"
    by (auto simp: cbind_Inr cli_Inr show_body_out)
  then show ?thesis by blast
qed

text \<open>
  C19: what is put is shown: after a put of a file, on either backend, the printed id reads back as
  an id under which \<open>show\<close> prints the bytes of the file, as long as the id made for it is not
  taken and no block with other bytes has the same hash. UTF-8 text is printed as it is, with a
  line break after it where it has none; for other files the output is the hexadecimal dump of
  their first 256 bytes, sixteen to a line, followed by the number of bytes left out.
\<close>

theorem put_then_show:
  assumes "lmdb (hs_lib host) tab" "postgres (hs_pg host) tables collate"
    and "host_rel (hs_lib host) tab tables s a" "spec_wf a"
    and "dispatch_store host io config (Cmd_Put session kind priority file) (cli_start s) = (Inr (), st)"
    and "put_input (ci_read_file io) (ci_stdin io) file = Inr body"
    and "\<And>i. host_block_id host 0 = Some i \<Longrightarrow> st_blocks a i = None" "uint (host_now_ms host 1) < 2 ^ 63"
    and "\<And>i b. st_blocks a i = Some b \<Longrightarrow> cb_hash b = lib_hash (hs_lib host) body \<Longrightarrow> cb_bytes b = body"
    and "parse_u128 (butlast (cs_out st)) = Inr i"
    and "hs_lib host' = hs_lib host" "hs_pg host' = hs_pg host"
    and "dispatch_store host' io' config' (Cmd_Show i False) (cli_start (cs_store st)) = (Inr (), st')"
  shows "\<exists>pre. cs_out st' = pre @ ''---'' @ nl @
    (if utf8_valid body then body @ (if body = [] \<or> last body \<noteq> CHR 0x0A then nl else [])
     else concat (map (\<lambda>row. concat (map (\<lambda>b. hex_pad 2 (of_char b) @ '' '') row) @ nl) (chunks 16 (take 256 body))) @
       (if 256 < length body then ''... ('' @ dec (length body - 256) @ '' more bytes)'' @ nl else []))"
proof -
  note contract = host_contract [OF assms(1,2)]
  have ops: "host_ops host' = host_ops host" by (simp add: host_ops_def assms(11,12))
  from assms(5) have "cli_put host (host_ops host) (ci_read_file io) (ci_stdin io) session (kind_of_arg kind) priority file
      (cli_start s) = (Inr (), st)" by simp
  then obtain i' j s' where i': "host_block_id host 0 = Some i'"
    and put: "bs_put (host_ops host) s session
      (fresh_block host i' (kind_of_arg kind) body priority (host_now_ms host 1) provenance_default) = Inr (j, s')"
    and st: "cs_store st = s'" "cs_out st = block_id_display j @ nl"
    by (rule cli_put_Inr) (use assms(6) in \<open>auto simp: cli_start_def\<close>)
  let ?b = "fresh_block host i' (kind_of_arg kind) body priority (host_now_ms host 1) provenance_default"
  have fresh: "fresh_for ?b a" using assms(7) [OF i'] by (simp add: fresh_for_def)
  have ok: "pg_storable ?b" using assms(8) by (rule fresh_block_storable)
  have "i = j" using assms(10) by (simp add: st(2) butlast_append parse_u128_display)
  obtain ob where got: "bs_get (host_ops host) s' i = Inr ob"
    using assms(13) by (auto simp: cli_show_def cbind_Inr cli_Inr ops st(1) cli_start_def)
  from store_contract.put_get [OF contract assms(3,4) ok fresh put got [unfolded \<open>i = j\<close>]]
  obtain c where c: "ob = Some c" "cb_hash c = cb_hash ?b" "st_hash a (cb_hash ?b) = None \<longrightarrow> c = ?b"
    by (elim exE conjE)
  have "cb_bytes c = body"
  proof (cases "st_hash a (cb_hash ?b)")
    case (Some k)
    have "st_blocks a k = Some c"
      using store_contract.put_law [OF contract assms(3,4) ok put] Some got c(1) \<open>i = j\<close>
        store_reads.get_law [OF store_contract.axioms(1) [OF contract] _ _ got] assms(4) spec_wf_put [OF assms(4) fresh]
      by (auto simp: spec_put_def)
    then show ?thesis using assms(9) [of k c] c(2) by simp
  qed (use c in simp)
  then show ?thesis
    using cli_show_out [of "host_ops host" "ci_block_json io'" i "cli_start s'" st' c] assms(13) got c(1)
    by (auto simp: ops st(1) cli_start_def shown_def)
qed

end
