(* ===== verification/Pager_Steps.thy ===== *)
theory Pager_Steps
  imports Pager
begin

text \<open>
  The growth of the pager's working set as a step relation: selecting a stored block that fits
  the budget, or recording an omission. Each phase of the pager before reconciliation is shown
  to be a sequence of such steps, so an invariant of the steps is an invariant of the pager.
\<close>

section \<open>Reading states\<close>

lemma select_block_sel [simp]:
  "pg_selected (select_block i t s r st) = pg_selected st @ [i]"
  "pg_selections (select_block i t s r st) =
     pg_selections st @ [\<lparr>sel_block_id = i, sel_score = s, sel_reason = r, sel_note = None\<rparr>]"
  "pg_omitted (select_block i t s r st) = pg_omitted st"
  "pg_prompt_total (select_block i t s r st) = token_saturating_add (pg_prompt_total st) t"
  "pg_block_tokens (select_block i t s r st) = token_saturating_add (pg_block_tokens st) t"
  by (simp_all add: select_block_def)

lemma omit_block_sel [simp]:
  "pg_selected (omit_block c r st) = pg_selected st"
  "pg_selections (omit_block c r st) = pg_selections st"
  "pg_omitted (omit_block c r st) =
     pg_omitted st @ [\<lparr>om_block_id = cd_id c, om_reason = r, om_score = cd_score c\<rparr>]"
  "pg_prompt_total (omit_block c r st) = pg_prompt_total st"
  "pg_block_tokens (omit_block c r st) = pg_block_tokens st"
  by (simp_all add: omit_block_def)

lemma truncate_sel [simp]:
  "pg_selected (pager_state.truncate st) = pg_selected st"
  "pg_selections (pager_state.truncate st) = pg_selections st"
  "pg_omitted (pager_state.truncate st) = pg_omitted st"
  "pg_prompt_total (pager_state.truncate st) = pg_prompt_total st"
  "pg_block_tokens (pager_state.truncate st) = pg_block_tokens st"
  by (simp_all add: pager_state.defs)

lemma truncate_select [simp]:
  "pager_state.truncate (select_block i t s r st) = select_block i t s r (pager_state.truncate st)"
  by (simp add: pager_state.defs select_block_def)

lemma truncate_omit [simp]:
  "pager_state.truncate (omit_block c r st) = omit_block c r (pager_state.truncate st)"
  by (simp add: pager_state.defs omit_block_def)

lemma truncate_fill [simp]:
  "pager_state.truncate (fs_section_used_update f st) = pager_state.truncate st"
  "pager_state.truncate (fs_word_sets_update g st) = pager_state.truncate st"
  "pager_state.truncate (fs_compressed_into_update h st) = pager_state.truncate st"
  "pager_state.truncate (use_section n st) = pager_state.truncate st"
  by (simp_all add: pager_state.defs use_section_def)

lemma truncate_extend [simp]: "pager_state.truncate (pager_state.extend st m) = st"
  by (simp add: pager_state.defs)

lemma truncate_plain [simp]: "pager_state.truncate (st :: pager_state) = st"
  by (simp add: pager_state.defs)

text \<open>A block the store has, with the token count the pager uses for it.\<close>

definition stored :: "greedy_pager \<Rightarrow> block_id \<Rightarrow> token_count \<Rightarrow> bool" where
  "stored gp i t \<longleftrightarrow>
     (\<exists>b. sv_get (gp_store gp) i = Inr (Some b) \<and> tokens_for (gp_tokenizer gp) b = Inr t)"

definition tok_of :: "greedy_pager \<Rightarrow> block_id \<Rightarrow> nat" where
  "tok_of gp i =
     (case sv_get (gp_store gp) i of
        Inr (Some b) \<Rightarrow> (case tokens_for (gp_tokenizer gp) b of Inr t \<Rightarrow> unat t | Inl _ \<Rightarrow> 0)
      | _ \<Rightarrow> 0)"

lemma tok_of_stored: "stored gp i t \<Longrightarrow> tok_of gp i = unat t"
  by (auto simp: stored_def tok_of_def)

text \<open>A store answers a lookup with the block of that id.\<close>

definition store_view_ok :: "store_view \<Rightarrow> bool" where
  "store_view_ok st \<longleftrightarrow> (\<forall>i b. sv_get st i = Inr (Some b) \<longrightarrow> cb_id b = i)"

definition covered :: "'a pager_state_scheme \<Rightarrow> block_id set" where
  "covered st = set (pg_selected st) \<union> om_block_id ` set (pg_omitted st)"

lemma covered_simps [simp]:
  "covered (select_block i t s r st) = insert i (covered st)"
  "covered (omit_block c r' st) = insert (cd_id c) (covered st)"
  "covered (pager_state.truncate st) = covered st"
  "covered (use_section n fl) = covered fl"
  by (auto simp: covered_def use_section_def)

section \<open>Steps\<close>

inductive pager_step :: "greedy_pager \<Rightarrow> token_count \<Rightarrow> pager_state \<Rightarrow> pager_state \<Rightarrow> bool"
  for gp bud where
  sel: "fits (pg_prompt_total st) t bud \<Longrightarrow> stored gp i t \<Longrightarrow> r \<noteq> Pinned \<Longrightarrow>
        pager_step gp bud st (select_block i t s r st)"
| omit: "pager_step gp bud st (omit_block c r st)"

abbreviation pager_steps :: "greedy_pager \<Rightarrow> token_count \<Rightarrow> pager_state \<Rightarrow> pager_state \<Rightarrow> bool" where
  "pager_steps gp bud \<equiv> (pager_step gp bud)\<^sup>*\<^sup>*"

lemma pager_steps_sel:
  "fits (pg_prompt_total st) t bud \<Longrightarrow> stored gp i t \<Longrightarrow> r \<noteq> Pinned \<Longrightarrow>
     pager_steps gp bud st (select_block i t s r st)"
  by (rule r_into_rtranclp [of "pager_step gp bud"]) (rule pager_step.sel)

inductive_cases pager_stepE: "pager_step gp bud st st'"

definition pinned_ids :: "'a pager_state_scheme \<Rightarrow> block_id list" where
  "pinned_ids st = map sel_block_id (filter (\<lambda>s. sel_reason s = Pinned) (pg_selections st))"

lemma pinned_set_ids: "pinned_set st = set (pinned_ids st)"
  by (simp add: pinned_set_def pinned_ids_def)

text \<open>
  The invariant: the two lists are in lockstep, every selected block is stored, and the block
  total is the exact sum, below both the prompt total and the budget.
\<close>

definition pager_inv :: "greedy_pager \<Rightarrow> token_count \<Rightarrow> 'a pager_state_scheme \<Rightarrow> bool" where
  "pager_inv gp bud st \<longleftrightarrow>
     map sel_block_id (pg_selections st) = pg_selected st \<and>
     (\<forall>i\<in>set (pg_selected st). \<exists>t. stored gp i t) \<and>
     unat (pg_block_tokens st) = sum_list (map (tok_of gp) (pg_selected st)) \<and>
     pg_block_tokens st \<le> pg_prompt_total st \<and> pg_block_tokens st \<le> bud"

lemma pager_inv_init: "pager_inv gp bud pager_init"
  by (simp add: pager_inv_def pager_init_def token_count_zero_def)

lemma pager_inv_select:
  assumes "pager_inv gp bud st" "fits (pg_prompt_total st) t bud" "stored gp i t" "bud < - 1"
  shows "pager_inv gp bud (select_block i t s r st)"
proof -
  have fit: "token_saturating_add (pg_prompt_total st) t \<le> bud"
    using assms(2) by (simp add: fits_def)
  have le: "pg_block_tokens st \<le> pg_prompt_total st" using assms(1) by (simp add: pager_inv_def)
  then have mono: "token_saturating_add (pg_block_tokens st) t \<le> token_saturating_add (pg_prompt_total st) t"
    by (simp add: word_le_nat_alt unat_simps)
  then have "token_saturating_add (pg_block_tokens st) t \<le> bud" using fit by simp
  moreover from this have "unat (token_saturating_add (pg_block_tokens st) t) = unat (pg_block_tokens st) + unat t"
    using assms(4) by (rule token_add_exact)
  ultimately show ?thesis
    using assms(1,3) mono tok_of_stored [OF assms(3)] by (auto simp: pager_inv_def)
qed

lemma pager_inv_omit: "pager_inv gp bud st \<Longrightarrow> pager_inv gp bud (omit_block c r st)"
  by (simp add: pager_inv_def)

lemma pager_inv_task:
  "pager_inv gp bud st \<Longrightarrow>
     pager_inv gp bud (st\<lparr>pg_prompt_total := token_saturating_add (pg_prompt_total st) t\<rparr>)"
  unfolding pager_inv_def token_saturating_add_def by (auto intro: order_trans sat_add_le_mono)

lemma pager_steps_inv:
  assumes "pager_steps gp bud st st'" "pager_inv gp bud st" "bud < - 1"
  shows "pager_inv gp bud st'"
  using assms by (induction rule: rtranclp_induct)
    (auto elim!: pager_stepE intro: pager_inv_select pager_inv_omit)

lemma pager_steps_pinned: "pager_steps gp bud st st' \<Longrightarrow> pinned_ids st' = pinned_ids st"
  by (induction rule: rtranclp_induct) (auto elim!: pager_stepE simp: pinned_ids_def)

lemma pager_steps_covered: "pager_steps gp bud st st' \<Longrightarrow> covered st \<subseteq> covered st'"
  by (induction rule: rtranclp_induct) (auto elim!: pager_stepE)

lemma pager_steps_prefix:
  "pager_steps gp bud st st' \<Longrightarrow> \<exists>xs. pg_selected st' = pg_selected st @ xs"
  by (induction rule: rtranclp_induct) (auto elim!: pager_stepE)

lemma pager_steps_total: "pager_steps gp bud st st' \<Longrightarrow> pg_prompt_total st \<le> pg_prompt_total st'"
  by (induction rule: rtranclp_induct)
    (auto elim!: pager_stepE simp: token_saturating_add_def intro: order_trans [OF _ sat_add_le_mono])

section \<open>Fills\<close>

definition sections_ok :: "greedy_pager \<Rightarrow> sections \<Rightarrow> bool" where
  "sections_ok gp by_section \<longleftrightarrow> (\<forall>s. \<forall>c\<in>set (by_section s). stored gp (cd_id c) (cd_tokens c))"

lemma fill_system_steps:
  assumes "\<forall>c\<in>set cs. stored gp (cd_id c) (cd_tokens c)"
  shows "pager_steps gp bud st (fill_system bud cs st) \<and> cd_id ` set cs \<subseteq> covered (fill_system bud cs st)"
  using assms
proof (induction cs arbitrary: st)
  case Nil
  then show ?case by (simp add: fill_system_def)
next
  case (Cons c cs)
  let ?st = "fill_system_candidate bud c st"
  have one: "pager_step gp bud st ?st \<and> cd_id c \<in> covered ?st"
    using Cons.prems by (auto simp: fill_system_candidate_def intro: pager_step.intros)
  have ih: "pager_steps gp bud ?st (fill_system bud cs ?st)"
    "cd_id ` set cs \<subseteq> covered (fill_system bud cs ?st)"
    using Cons.IH [of ?st] Cons.prems by auto
  have "cd_id c \<in> covered (fill_system bud cs ?st)"
    using one pager_steps_covered [OF ih(1)] by auto
  with one ih show ?case
    by (auto simp: fill_system_def intro: converse_rtranclp_into_rtranclp)
qed

lemma pager_get_stored:
  assumes "pager_get gp i = Inr (Some b)" "tokens_for (gp_tokenizer gp) b = Inr t"
  shows "stored gp i t"
  using assms by (auto simp: pager_get_def stored_def)

lemma fill_candidate_steps:
  assumes "fill_candidate gp ib sb sm c st = Inr st'" "stored gp (cd_id c) (cd_tokens c)"
  shows "pager_steps gp ib (pager_state.truncate st) (pager_state.truncate st') \<and>
    cd_id c \<in> covered st'"
proof -
  have om: "pager_steps gp ib s (omit_block c r s)" for s r
    by (intro r_into_rtranclp pager_step.omit)
  have s1: "pager_steps gp ib s (select_block (cd_id c) (cd_tokens c) (cd_score c) HighRelevance s)"
    if "fits (pg_prompt_total s) (cd_tokens c) ib" for s
    using that assms(2) by (intro r_into_rtranclp pager_step.sel) simp_all
  have s2: "pager_steps gp ib s (omit_block c r (select_block i t (cd_score c) HighRelevance s))"
    if "fits (pg_prompt_total s) t ib" "stored gp i t" for s r i t
  proof -
    have a: "pager_step gp ib s (select_block i t (cd_score c) HighRelevance s)"
      using that by (intro pager_step.sel) simp_all
    have b: "pager_step gp ib (select_block i t (cd_score c) HighRelevance s)
        (omit_block c r (select_block i t (cd_score c) HighRelevance s))"
      by (rule pager_step.omit)
    show ?thesis
      using converse_rtranclp_into_rtranclp [of "pager_step gp ib", OF a r_into_rtranclp [of "pager_step gp ib", OF b]] .
  qed
  have cov: "covered (fs_word_sets_update g s) = covered s" "covered (fs_compressed_into_update h s) = covered s"
    for g h and s :: fill_state
    by (simp_all add: covered_def)
  show ?thesis
    using assms(1) om s1 s2
    by (auto simp: fill_candidate_def Let_def rbind_Inr_iff cov pager_get_stored
        split: if_splits option.splits)
qed

lemma for_each_fill_steps:
  assumes "for_each (fill_candidate gp ib sb sm) cs st = Inr st'"
    and "\<forall>c\<in>set cs. stored gp (cd_id c) (cd_tokens c)"
  shows "pager_steps gp ib (pager_state.truncate st) (pager_state.truncate st') \<and>
    cd_id ` set cs \<subseteq> covered st'"
  using assms
proof (induction cs arbitrary: st)
  case Nil
  then show ?case by simp
next
  case (Cons c cs)
  then obtain s where s: "fill_candidate gp ib sb sm c st = Inr s"
    "for_each (fill_candidate gp ib sb sm) cs s = Inr st'"
    by (auto simp: rbind_Inr_iff)
  have one: "pager_steps gp ib (pager_state.truncate st) (pager_state.truncate s)" "cd_id c \<in> covered s"
    using fill_candidate_steps [OF s(1)] Cons.prems by auto
  have ih: "pager_steps gp ib (pager_state.truncate s) (pager_state.truncate st')" "cd_id ` set cs \<subseteq> covered st'"
    using Cons.IH [OF s(2)] Cons.prems by auto
  have "cd_id c \<in> covered st'" using one(2) pager_steps_covered [OF ih(1)] by auto
  with one ih show ?case by auto
qed

lemma fold_omit_steps:
  "pager_steps gp ib (pager_state.truncate st) (pager_state.truncate (fold (\<lambda>c. omit_block c r) cs st)) \<and>
   cd_id ` set cs \<subseteq> covered (fold (\<lambda>c. omit_block c r) cs st)"
proof (induction cs arbitrary: st)
  case Nil
  then show ?case by simp
next
  case (Cons c cs)
  let ?s = "fold (\<lambda>c. omit_block c r) cs (omit_block c r st)"
  have ih: "pager_steps gp ib (omit_block c r (pager_state.truncate st)) (pager_state.truncate ?s)"
    "cd_id ` set cs \<subseteq> covered ?s"
    using Cons.IH [of "omit_block c r st"] by auto
  have "pager_step gp ib (pager_state.truncate st) (omit_block c r (pager_state.truncate st))"
    by (rule pager_step.omit)
  moreover have "cd_id c \<in> covered ?s" using pager_steps_covered [OF ih(1)] by auto
  ultimately show ?case using ih by (auto intro: converse_rtranclp_into_rtranclp)
qed

lemma fill_section_steps:
  assumes "fill_section gp ib al sm by_section s st = Inr st'" "sections_ok gp by_section"
  shows "pager_steps gp ib (pager_state.truncate st) (pager_state.truncate st') \<and>
    cd_id ` set (by_section s) \<subseteq> covered st'"
proof (cases "s = Sec_Slack")
  case True
  with assms(1) have "st' = fold (\<lambda>c. omit_block c Om_Budget) (by_section s) st" by (simp add: fill_section_def)
  then show ?thesis using fold_omit_steps [of gp ib st Om_Budget "by_section s"] by simp
next
  case False
  let ?st = "st\<lparr>fs_section_used := token_count_zero, fs_word_sets := []\<rparr>"
  have "for_each (fill_candidate gp ib (for_section al s) sm) (by_section s) ?st = Inr st'"
    using assms(1) False by (simp add: fill_section_def)
  from for_each_fill_steps [OF this] assms(2) show ?thesis by (simp add: sections_ok_def)
qed

lemma for_each_section_steps:
  assumes "for_each (fill_section gp ib al sm by_section) ss st = Inr st'" "sections_ok gp by_section"
  shows "pager_steps gp ib (pager_state.truncate st) (pager_state.truncate st') \<and>
    (\<Union>s\<in>set ss. cd_id ` set (by_section s)) \<subseteq> covered st'"
  using assms(1)
proof (induction ss arbitrary: st)
  case Nil
  then show ?case by simp
next
  case (Cons s ss)
  then obtain m where m: "fill_section gp ib al sm by_section s st = Inr m"
    "for_each (fill_section gp ib al sm by_section) ss m = Inr st'"
    by (auto simp: rbind_Inr_iff)
  note one = fill_section_steps [OF m(1) assms(2)] and ih = Cons.IH [OF m(2)]
  have "cd_id ` set (by_section s) \<subseteq> covered st'"
    using one pager_steps_covered [OF conjunct1 [OF ih]] by auto
  with one ih show ?case by auto
qed

lemma set_all_sections [simp]: "s \<in> set all_sections"
  by (cases s) (simp_all add: all_sections_def)

lemma hash_orders_sets:
  assumes "hash_orders_ok ord"
  shows "set (ho_ids ord xs) = set xs" "set (ho_sections ord ss) = set ss" "set (ho_kinds ord b ks) = set ks"
  using assms unfolding hash_orders_ok_def by (metis set_mset_mset)+

lemma fill_variable_steps:
  assumes "fill_variable gp ord ib session by_section st = Inr st'"
    and "sections_ok gp by_section" "hash_orders_ok ord"
  shows "pager_steps gp ib st st' \<and> (\<Union>s\<in>- {Sec_System}. cd_id ` set (by_section s)) \<subseteq> covered st'"
proof -
  let ?ss = "ho_sections ord (filter (\<lambda>s. s \<noteq> Sec_System \<and> by_section s \<noteq> []) all_sections)"
  obtain al sm fl where f: "for_each (fill_section gp ib al sm by_section) ?ss
      (pager_state.extend st (fill_state.fields token_count_zero [] [])) = Inr fl"
    "st' = pager_state.truncate fl"
    using assms(1) by (auto simp: fill_variable_def Let_def rbind_Inr_iff)
  from for_each_section_steps [OF f(1) assms(2)]
  have "pager_steps gp ib st st'" "(\<Union>s\<in>set ?ss. cd_id ` set (by_section s)) \<subseteq> covered st'"
    using f(2) by simp_all
  moreover have "(\<Union>s\<in>- {Sec_System}. cd_id ` set (by_section s)) \<subseteq> (\<Union>s\<in>set ?ss. cd_id ` set (by_section s))"
    by (auto simp: hash_orders_sets [OF assms(3)])
  ultimately show ?thesis by blast
qed

section \<open>Expansion\<close>

lemma pull_dep_steps:
  assumes "pull_dep gp ib d i (v, new, st) = Inr (v', new', st')"
  shows "pager_steps gp ib st st'"
  using assms
  by (auto simp: pull_dep_def rbind_Inr_iff split: if_splits option.splits
      intro!: pager_steps_sel pager_get_stored)

lemma pull_deps_steps:
  assumes "for_each (pull_dep gp ib d) deps (v, new, st) = Inr (v', new', st')"
  shows "pager_steps gp ib st st'"
proof -
  have "case (v', new', st') of (_, _, s) \<Rightarrow> pager_steps gp ib st s"
    using assms
    by (rule for_each_inv [where P = "\<lambda>(_, _, s). pager_steps gp ib st s"])
      (auto dest: pull_dep_steps)
  then show ?thesis by simp
qed

lemma expand_loop_steps:
  "expand_loop gp ord policy ib m v fr st = Inr st' \<Longrightarrow> pager_steps gp ib st st'"
proof (induction gp ord policy ib m v fr st rule: expand_loop.induct)
  case (1 gp ord policy ib m v st)
  then show ?case by simp
next
  case (2 gp ord policy ib m v i d fr st)
  show ?case
  proof (cases "m \<le> d")
    case True
    with 2 show ?thesis by simp
  next
    case False
    with "2.prems" obtain ob where ob: "pager_get gp i = Inr ob" by (auto simp: rbind_Inr_iff)
    show ?thesis
    proof (cases ob)
      case None
      with False ob "2.prems" "2.IH"(2) show ?thesis by auto
    next
      case (Some b)
      with False ob "2.prems" obtain deps v' new s where
        d: "dependencies gp ord policy i b = Inr deps"
        "for_each (pull_dep gp ib d) deps (v, [], st) = Inr (v', new, s)"
        "expand_loop gp ord policy ib m v' (fr @ new) s = Inr st'"
        by (auto simp: rbind_Inr_iff)
      have "pager_steps gp ib s st'"
        using "2.IH"(3) [OF False ob Some d(1,2) refl refl d(3)] .
      with pull_deps_steps [OF d(2)] show ?thesis by simp
    qed
  qed
qed

lemma expand_edges_steps: "expand_edges gp ord policy ib st = Inr st' \<Longrightarrow> pager_steps gp ib st st'"
  by (auto simp: expand_edges_def Let_def expand_loop_steps split: if_splits)

section \<open>Loading and required blocks\<close>

lemma load_candidate_spec:
  assumes "load_candidate gp lower sc i by_s = Inr by_s'" "store_view_ok (gp_store gp)"
  shows "(sv_get (gp_store gp) i = Inr None \<and> by_s' = by_s) \<or>
    (\<exists>c s. stored gp i (cd_tokens c) \<and> cd_id c = i \<and> by_s' = by_s(s := by_s s @ [c]))"
proof -
  obtain ob where ob: "sv_get (gp_store gp) i = Inr ob"
    using assms(1) by (auto simp: load_candidate_def rbind_Inr_iff pager_get_def)
  show ?thesis
  proof (cases ob)
    case None
    with ob assms(1) show ?thesis by (simp add: load_candidate_def pager_get_def)
  next
    case (Some b)
    with ob assms have "cb_id b = i" by (simp add: store_view_ok_def)
    moreover obtain t where t: "tokens_for (gp_tokenizer gp) b = Inr t"
      using ob Some assms(1) by (auto simp: load_candidate_def rbind_Inr_iff pager_get_def)
    moreover have "by_s' = by_s(default_section (cb_kind b) :=
        by_s (default_section (cb_kind b)) @ [candidate_of gp lower (base_score sc i) b t])"
      using ob Some t assms(1) by (simp add: load_candidate_def pager_get_def Let_def)
    moreover have "stored gp i t" using ob Some t by (auto simp: stored_def)
    ultimately show ?thesis by (metis candidate_of_sel)
  qed
qed

text \<open>The ids of the candidates of all sections.\<close>

definition cand_ids :: "sections \<Rightarrow> block_id set" where
  "cand_ids by_section = (\<Union>s. cd_id ` set (by_section s))"

lemma cand_ids_add: "cand_ids (by_s(s := by_s s @ [c])) = insert (cd_id c) (cand_ids by_s)"
proof -
  have split: "cand_ids f = cd_id ` set (f s) \<union> (\<Union>t\<in>- {s}. cd_id ` set (f t))" for f
  proof -
    have "cand_ids f = (\<Union>t\<in>insert s (- {s}). cd_id ` set (f t))"
      unfolding cand_ids_def by (rule SUP_cong) auto
    then show ?thesis by simp
  qed
  have "(\<Union>t\<in>- {s}. cd_id ` set ((by_s(s := xs)) t)) = (\<Union>t\<in>- {s}. cd_id ` set (by_s t))" for xs
    by (rule SUP_cong) simp_all
  with split [of "by_s(s := by_s s @ [c])"] split [of by_s] show ?thesis by simp
qed

lemma for_each_load:
  assumes "for_each (load_candidate gp lower sc) ids by_s = Inr by_s'" "store_view_ok (gp_store gp)"
    and "sections_ok gp by_s"
  shows "sections_ok gp by_s' \<and>
    cand_ids by_s' = cand_ids by_s \<union> {i \<in> set ids. \<exists>b. sv_get (gp_store gp) i = Inr (Some b)}"
  using assms(1,3)
proof (induction ids arbitrary: by_s)
  case Nil
  then show ?case by simp
next
  case (Cons i ids)
  then obtain m where m: "load_candidate gp lower sc i by_s = Inr m"
    "for_each (load_candidate gp lower sc) ids m = Inr by_s'"
    by (auto simp: rbind_Inr_iff)
  from load_candidate_spec [OF m(1) assms(2)]
  have "sections_ok gp m \<and> cand_ids m = cand_ids by_s \<union> {j. j = i \<and> (\<exists>b. sv_get (gp_store gp) j = Inr (Some b))}"
    using Cons.prems(2)
    by (elim disjE exE conjE) (auto simp: sections_ok_def cand_ids_add, auto simp: stored_def)
  with Cons.IH [OF m(2)] show ?case by auto
qed

lemma load_candidates_spec:
  assumes "load_candidates gp ord lower scores = Inr by_s" "store_view_ok (gp_store gp)" "hash_orders_ok ord"
  shows "sections_ok gp by_s \<and>
    cand_ids by_s = {i \<in> fst ` set scores. \<exists>b. sv_get (gp_store gp) i = Inr (Some b)}"
proof -
  obtain b0 where b0: "for_each (load_candidate gp lower scores) (ho_ids ord (map fst scores)) (\<lambda>_. []) = Inr b0"
    "by_s = (\<lambda>s. sort_candidates (b0 s))"
    using assms(1) by (auto simp: load_candidates_def rbind_Inr_iff)
  from for_each_load [OF b0(1) assms(2)]
  have "sections_ok gp b0 \<and> cand_ids b0 = {i \<in> fst ` set scores. \<exists>b. sv_get (gp_store gp) i = Inr (Some b)}"
    by (simp add: sections_ok_def cand_ids_def hash_orders_sets [OF assms(3)])
  then show ?thesis
    by (simp add: b0(2) sections_ok_def cand_ids_def sort_candidates_def)
qed

lemma add_required_spec:
  assumes "add_required gp bud i st = Inr st'"
  shows "\<exists>t. stored gp i t \<and> fits (pg_prompt_total st) t bud \<and> st' = select_block i t f32_1 Pinned st"
  using assms by (auto simp: add_required_def rbind_Inr_iff pager_get_def stored_def split: if_splits)

lemma add_required_all:
  assumes "for_each (add_required gp bud) ids st = Inr st'" "pager_inv gp bud st" "bud < - 1"
  shows "pager_inv gp bud st' \<and> pinned_ids st' = pinned_ids st @ ids \<and>
    pg_selected st' = pg_selected st @ ids \<and> pg_omitted st' = pg_omitted st"
  using assms(1,2)
proof (induction ids arbitrary: st)
  case Nil
  then show ?case by simp
next
  case (Cons i ids)
  then obtain m where m: "add_required gp bud i st = Inr m" "for_each (add_required gp bud) ids m = Inr st'"
    by (auto simp: rbind_Inr_iff)
  from add_required_spec [OF m(1)] obtain t where
    t: "stored gp i t" "fits (pg_prompt_total st) t bud" "m = select_block i t f32_1 Pinned st" by blast
  have "pager_inv gp bud m"
    unfolding t(3) using Cons.prems(2) t(1,2) assms(3) by (intro pager_inv_select)
  from Cons.IH [OF m(2) this] t(3) show ?case by (simp add: pinned_ids_def)
qed

end
