(* ===== verification/Packer_Correct.thy ===== *)
theory Packer_Correct
  imports Packer Pager_Steps
begin

text \<open>
  Correctness of the packer: what the loops of \<open>pack\<close> and \<open>pack_chat\<close> build, the budget, the
  order of sections and blocks, independence of the order of the plan, and the cache boundary.
\<close>


section \<open>What the loops build\<close>

definition group_ref :: "context_block list \<Rightarrow> section_kind \<Rightarrow> context_block list" where
  "group_ref bs s = sort_by_key cb_id (filter (\<lambda>b. default_section (cb_kind b) = s) bs)"

definition block_entry :: "simple_packer \<Rightarrow> (block_id \<rightharpoonup> bytes) \<Rightarrow> context_block \<Rightarrow> bytes" where
  "block_entry pk notes b =
     opt_note notes b @ opt_stamp (po_include_timestamps (sk_options pk)) b @ cb_bytes b @ newline @ newline"

definition section_text ::
    "packer_env \<Rightarrow> simple_packer \<Rightarrow> page_request \<Rightarrow> (block_id \<rightharpoonup> bytes) \<Rightarrow>
       (section_kind \<Rightarrow> context_block list) \<Rightarrow> section_kind \<Rightarrow> bytes" where
  "section_text env pk req notes g s =
     (if s = Sec_Slack then []
      else if s = Sec_Task then
        if pr_task req = [] then []
        else header s @
          (if po_include_timestamps (sk_options pk)
           then ''Current time: '' @ format_iso8601_utc (now_ms env pk) @ newline @ newline else []) @
          pr_task req @ newline @ newline
      else if g s = [] then [] else header s @ concat (map (block_entry pk notes) (g s)))"

definition packed_of :: "simple_packer \<Rightarrow> section_kind \<Rightarrow> context_block \<Rightarrow> packed_block \<Rightarrow> bool" where
  "packed_of pk s b p \<longleftrightarrow>
     pb_block_id p = cb_id b \<and> pb_section p = s \<and> count_bytes pk (cb_bytes b) = Inr (pb_tokens p)"

definition reads :: "simple_packer \<Rightarrow> block_id list \<Rightarrow> context_block list \<Rightarrow> bool" where
  "reads pk ids bs \<longleftrightarrow> list_all2 (\<lambda>i b. sv_get (sk_store pk) i = Inr (Some b)) ids bs"

lemma load_selected_Inr:
  "load_selected pk i g = Inr g' \<longleftrightarrow>
     (\<exists>b. sv_get (sk_store pk) i = Inr (Some b) \<and>
        g' = g(default_section (cb_kind b) := g (default_section (cb_kind b)) @ [b]))"
  by (auto simp: load_selected_def rbind_Inr_iff Let_def)

lemma load_all_Inr:
  "for_each (load_selected pk) ids g = Inr g' \<longleftrightarrow>
     (\<exists>bs. reads pk ids bs \<and> g' = (\<lambda>s. g s @ filter (\<lambda>b. default_section (cb_kind b) = s) bs))"
proof (induction ids arbitrary: g)
  case Nil
  then show ?case by (auto simp: reads_def)
next
  case (Cons i ids)
  show ?case
  proof
    assume "for_each (load_selected pk) (i # ids) g = Inr g'"
    then obtain b bs where "sv_get (sk_store pk) i = Inr (Some b)" "reads pk ids bs"
      "g' = (\<lambda>s. (g(default_section (cb_kind b) := g (default_section (cb_kind b)) @ [b])) s @
                 filter (\<lambda>b. default_section (cb_kind b) = s) bs)"
      by (auto simp: rbind_Inr_iff load_selected_Inr Cons.IH)
    then show "\<exists>bs. reads pk (i # ids) bs \<and> g' = (\<lambda>s. g s @ filter (\<lambda>b. default_section (cb_kind b) = s) bs)"
      by (intro exI [of _ "b # bs"]) (auto simp: reads_def)
  next
    assume "\<exists>bs. reads pk (i # ids) bs \<and> g' = (\<lambda>s. g s @ filter (\<lambda>b. default_section (cb_kind b) = s) bs)"
    then obtain b bs where b: "sv_get (sk_store pk) i = Inr (Some b)" "reads pk ids bs"
      "g' = (\<lambda>s. g s @ filter (\<lambda>b. default_section (cb_kind b) = s) (b # bs))"
      by (auto simp: reads_def list_all2_Cons1)
    then have "for_each (load_selected pk) ids
        (g(default_section (cb_kind b) := g (default_section (cb_kind b)) @ [b])) = Inr g'"
      unfolding Cons.IH by (intro exI [of _ bs]) (simp add: fun_eq_iff)
    with b(1) show "for_each (load_selected pk) (i # ids) g = Inr g'"
      by (auto simp: rbind_Inr_iff load_selected_Inr)
  qed
qed

lemma group_selected_Inr:
  "group_selected pk plan = Inr g \<longleftrightarrow> (\<exists>bs. reads pk (pp_selected plan) bs \<and> g = group_ref bs)"
  by (auto simp: group_selected_def rbind_Inr_iff load_all_Inr group_ref_def [abs_def])

lemma block_text_Inr [simp]: "block_text env b = Inr s \<longleftrightarrow> utf8_valid (cb_bytes b) \<and> s = cb_bytes b"
  by (cases "from_utf8 (cb_bytes b)") (auto simp: block_text_def from_utf8_def split: if_splits)

lemma render_block_Inr:
  "render_block env pk notes s b rs = Inr rs' \<Longrightarrow>
     \<exists>p. packed_of pk s b p \<and> rs' = \<lparr>rs_rendered = rs_rendered rs @ block_entry pk notes b,
       rs_blocks = rs_blocks rs @ [p]\<rparr>"
  by (auto simp: rbind_Inr_iff render_block_def block_entry_def packed_of_def)

lemma render_blocks_Inr:
  "for_each (render_block env pk notes s) bs rs = Inr rs' \<Longrightarrow>
     rs_rendered rs' = rs_rendered rs @ concat (map (block_entry pk notes) bs) \<and>
     (\<exists>ps. rs_blocks rs' = rs_blocks rs @ ps \<and> list_all2 (packed_of pk s) bs ps)"
proof (induction bs arbitrary: rs)
  case Nil
  then show ?case by simp
next
  case (Cons b bs)
  then obtain p rs1 where 1: "packed_of pk s b p"
      "rs1 = \<lparr>rs_rendered = rs_rendered rs @ block_entry pk notes b, rs_blocks = rs_blocks rs @ [p]\<rparr>"
      and 2: "for_each (render_block env pk notes s) bs rs1 = Inr rs'"
    by (auto simp: rbind_Inr_iff dest!: render_block_Inr)
  from Cons.IH [OF 2] obtain ps where 3: "rs_rendered rs' = rs_rendered rs1 @ concat (map (block_entry pk notes) bs)"
      "rs_blocks rs' = rs_blocks rs1 @ ps" "list_all2 (packed_of pk s) bs ps"
    by blast
  with 1 show ?case
    by (auto intro!: exI [of _ "p # ps"])
qed

lemma render_section_Inr:
  assumes "render_section env pk req notes g s rs = Inr rs'"
  shows "rs_rendered rs' = rs_rendered rs @ section_text env pk req notes g s"
    and "\<exists>ps. rs_blocks rs' = rs_blocks rs @ ps \<and>
           list_all2 (packed_of pk s) (if s \<in> {Sec_Slack, Sec_Task} then [] else g s) ps"
  using assms render_blocks_Inr [where bs = "g s" and rs' = rs' and rs = "rs\<lparr>rs_rendered := rs_rendered rs @ header s\<rparr>"]
  by (auto simp: render_section_def section_text_def split: if_splits)

definition section_blocks :: "(section_kind \<Rightarrow> context_block list) \<Rightarrow> section_kind list \<Rightarrow> (section_kind \<times> context_block) list" where
  "section_blocks g ss =
     concat (map (\<lambda>s. map (Pair s) (if s \<in> {Sec_Slack, Sec_Task} then [] else g s)) ss)"

lemma render_all_Inr:
  "for_each (render_section env pk req notes g) ss rs = Inr rs' \<Longrightarrow>
     rs_rendered rs' = rs_rendered rs @ concat (map (section_text env pk req notes g) ss) \<and>
     (\<exists>ps. rs_blocks rs' = rs_blocks rs @ ps \<and>
        list_all2 (\<lambda>(s, b). packed_of pk s b) (section_blocks g ss) ps)"
proof (induction ss arbitrary: rs)
  case Nil
  then show ?case by (simp add: section_blocks_def)
next
  case (Cons s ss)
  then obtain rs1 where 1: "render_section env pk req notes g s rs = Inr rs1"
      and 2: "for_each (render_section env pk req notes g) ss rs1 = Inr rs'"
    by (auto simp: rbind_Inr_iff)
  obtain ps where ps: "rs_blocks rs1 = rs_blocks rs @ ps"
      "list_all2 (packed_of pk s) (if s \<in> {Sec_Slack, Sec_Task} then [] else g s) ps"
    using render_section_Inr(2) [OF 1] by blast
  obtain qs where qs: "rs_blocks rs' = rs_blocks rs1 @ qs"
      "list_all2 (\<lambda>(s, b). packed_of pk s b) (section_blocks g ss) qs"
    using Cons.IH [OF 2] by blast
  have "list_all2 (\<lambda>(s, b). packed_of pk s b) (section_blocks g (s # ss)) (ps @ qs)"
    using ps(2) qs(2) by (auto simp: section_blocks_def list_all2_map1 intro!: list_all2_appendI)
  then show ?case
    using Cons.IH [OF 2] render_section_Inr(1) [OF 1] ps(1) qs(1) by auto
qed

lemma check_budget_Inr [simp]: "check_budget req n = Inr u \<longleftrightarrow> n \<le> input_budget (pr_model req)"
  by (auto simp: check_budget_def not_less)

text \<open>A successful \<open>pack\<close>, read off.\<close>

definition prompt_text :: "packer_env \<Rightarrow> simple_packer \<Rightarrow> page_request \<Rightarrow> page_plan \<Rightarrow> context_block list \<Rightarrow> bytes" where
  "prompt_text env pk req plan bs =
     concat (map (section_text env pk req (collect_notes plan) (group_ref bs)) section_order)"

lemma pack_InrE:
  assumes "pack env pk req plan = Inr p"
  obtains bs where "reads pk (pp_selected plan) bs"
    "pk_rendered p = prompt_text env pk req plan bs"
    "list_all2 (\<lambda>(s, b). packed_of pk s b) (section_blocks (group_ref bs) section_order) (pk_blocks p)"
    "tok_count (sk_tokenizer pk) (pk_rendered p) = Inr (pk_input_tokens p)"
    "pk_input_tokens p \<le> input_budget (pr_model req)"
    "pk_model p = mp_name (pr_model req)"
proof -
  from assms obtain bs rs n where 1: "reads pk (pp_selected plan) bs"
    "for_each (render_section env pk req (collect_notes plan) (group_ref bs)) section_order
       \<lparr>rs_rendered = [], rs_blocks = []\<rparr> = Inr rs"
    "tok_count (sk_tokenizer pk) (rs_rendered rs) = Inr n" "n \<le> input_budget (pr_model req)"
    "p = \<lparr>pk_model = mp_name (pr_model req), pk_input_tokens = n,
            pk_blocks = rs_blocks rs, pk_rendered = rs_rendered rs\<rparr>"
    by (auto simp: pack_def rbind_Inr_iff group_selected_Inr count_bytes_def)
  from render_all_Inr [OF 1(2)] 1 show ?thesis
    by (intro that [of bs]) (auto simp: prompt_text_def)
qed

lemma reads_ids:
  "reads pk ids bs \<Longrightarrow> store_view_ok (sk_store pk) \<Longrightarrow> map cb_id bs = ids"
  unfolding reads_def by (induction rule: list_all2_induct) (auto simp: store_view_ok_def)

lemma reads_mem: "reads pk ids bs \<Longrightarrow> b \<in> set bs \<Longrightarrow> \<exists>i \<in> set ids. sv_get (sk_store pk) i = Inr (Some b)"
  unfolding reads_def by (rule list_all2_right)

lemma mset_section_blocks:
  "image_mset snd (mset (section_blocks (group_ref bs) section_order)) = mset bs"
proof -
  have "image_mset snd (mset (section_blocks (group_ref bs) section_order)) =
    mset (filter (\<lambda>b. default_section (cb_kind b) = Sec_System) bs) +
    mset (filter (\<lambda>b. default_section (cb_kind b) = Sec_State) bs) +
    mset (filter (\<lambda>b. default_section (cb_kind b) = Sec_Plan) bs) +
    mset (filter (\<lambda>b. default_section (cb_kind b) = Sec_Retrieved) bs) +
    mset (filter (\<lambda>b. default_section (cb_kind b) = Sec_Tools) bs) +
    mset (filter (\<lambda>b. default_section (cb_kind b) = Sec_Recent) bs) +
    mset (filter (\<lambda>b. default_section (cb_kind b) = Sec_Background) bs)"
    by (simp add: section_blocks_def section_order_def group_ref_def comp_def flip: mset_map)
  also have "\<dots> = mset bs"
  proof (induction bs)
    case (Cons b bs)
    then show ?case by (cases "cb_kind b") simp_all
  qed simp
  finally show ?thesis .
qed

lemma section_blocks_mem:
  "(s, b) \<in> set (section_blocks (group_ref bs) ss) \<Longrightarrow> s = default_section (cb_kind b) \<and> b \<in> set bs"
  by (auto simp: section_blocks_def group_ref_def split: if_splits)

definition packed_before :: "packed_block \<Rightarrow> packed_block \<Rightarrow> bool" where
  "packed_before p q \<longleftrightarrow> pb_section p < pb_section q \<or>
     pb_section p = pb_section q \<and> pb_block_id p \<le> pb_block_id q"

lemma section_order_sorted: "sorted_wrt (<) section_order"
  by (simp add: section_order_def less_section_kind_def)

lemma sorted_section_blocks:
  "sorted_wrt (<) ss \<Longrightarrow>
   sorted_wrt (\<lambda>x y. fst x < fst y \<or> fst x = fst y \<and> cb_id (snd x) \<le> cb_id (snd y)) (section_blocks (group_ref bs) ss)"
proof (induction ss)
  case Nil
  then show ?case by (simp add: section_blocks_def)
next
  case (Cons s ss)
  have 1: "sorted_wrt (\<lambda>b c. cb_id b \<le> cb_id c) (group_ref bs s)"
    using sorted_sort_by_key [of cb_id] by (simp add: group_ref_def sorted_map)
  have 2: "section_blocks (group_ref bs) (s # ss) =
      map (Pair s) (if s \<in> {Sec_Slack, Sec_Task} then [] else group_ref bs s) @ section_blocks (group_ref bs) ss"
    by (simp add: section_blocks_def)
  have 3: "fst x \<in> set ss" if "x \<in> set (section_blocks (group_ref bs) ss)" for x
    using that by (auto simp: section_blocks_def)
  show ?case
    unfolding 2 using Cons 1 3 by (auto simp: sorted_wrt_append sorted_wrt_map)
qed

lemma sorted_wrt_list_all2:
  assumes "list_all2 R xs ys" "sorted_wrt P xs"
    and "\<And>x x' y y'. R x y \<Longrightarrow> R x' y' \<Longrightarrow> P x x' \<Longrightarrow> Q y y'"
  shows "sorted_wrt Q ys"
  using assms(1,2)
proof (induction rule: list_all2_induct)
  case (Cons x xs y ys)
  have "Q y y'" if "y' \<in> set ys" for y'
  proof -
    from list_all2_right [OF Cons(2) that] obtain x' where "x' \<in> set xs" "R x' y'"
      by blast
    with Cons assms(3) show ?thesis by auto
  qed
  with Cons show ?case by simp
qed simp

lemma mset_list_all2_map:
  "list_all2 (\<lambda>x y. f x = g y) xs ys \<Longrightarrow> map f xs = map g ys"
  by (induction rule: list_all2_induct) auto

text \<open>
  C21: a packed prompt holds exactly the blocks the plan selected, once for each time they are
  selected; they stand in the canonical section order and, within a section, by ascending
  block id; each is labelled with the section of its kind and carries the token count of its
  bytes.
\<close>

theorem pack_blocks:
  assumes "pack env pk req plan = Inr p" and "store_view_ok (sk_store pk)"
  shows "mset (map pb_block_id (pk_blocks p)) = mset (pp_selected plan) \<and>
    sorted_wrt packed_before (pk_blocks p) \<and>
    (\<forall>q \<in> set (pk_blocks p). \<exists>b. sv_get (sk_store pk) (pb_block_id q) = Inr (Some b) \<and>
       pb_section q = default_section (cb_kind b) \<and>
       tok_count (sk_tokenizer pk) (cb_bytes b) = Inr (pb_tokens q))"
proof -
  from assms(1) obtain bs where bs: "reads pk (pp_selected plan) bs"
    "list_all2 (\<lambda>(s, b). packed_of pk s b) (section_blocks (group_ref bs) section_order) (pk_blocks p)"
    by (rule pack_InrE)
  note ids = reads_ids [OF bs(1) assms(2)]
  have "map (cb_id \<circ> snd) (section_blocks (group_ref bs) section_order) = map pb_block_id (pk_blocks p)"
    by (rule mset_list_all2_map, rule list_all2_mono [OF bs(2)]) (auto simp: packed_of_def)
  then have "mset (map pb_block_id (pk_blocks p)) =
      image_mset cb_id (image_mset snd (mset (section_blocks (group_ref bs) section_order)))"
    by (metis mset_map image_mset.compositionality)
  then have "mset (map pb_block_id (pk_blocks p)) = mset (pp_selected plan)"
    by (simp only: mset_section_blocks ids [symmetric] mset_map)
  moreover have "sorted_wrt packed_before (pk_blocks p)"
    by (rule sorted_wrt_list_all2 [OF bs(2) sorted_section_blocks [OF section_order_sorted]])
       (auto simp: packed_of_def packed_before_def)
  moreover have "\<exists>b. sv_get (sk_store pk) (pb_block_id q) = Inr (Some b) \<and>
       pb_section q = default_section (cb_kind b) \<and>
       tok_count (sk_tokenizer pk) (cb_bytes b) = Inr (pb_tokens q)" if "q \<in> set (pk_blocks p)" for q
  proof -
    from list_all2_right [OF bs(2) that] obtain s b where
      q: "(s, b) \<in> set (section_blocks (group_ref bs) section_order)" "packed_of pk s b q"
      by auto
    from section_blocks_mem [OF q(1)] have "s = default_section (cb_kind b)" "b \<in> set bs" by auto
    moreover from this(2) bs(1) have "\<exists>i. sv_get (sk_store pk) i = Inr (Some b)"
      by (blast dest: reads_mem)
    ultimately show ?thesis
      using q(2) assms(2) by (auto simp: packed_of_def count_bytes_def store_view_ok_def)
  qed
  ultimately show ?thesis by blast
qed

lemma reads_perm:
  assumes "reads pk ids bs" "mset ids' = mset ids" "store_view_ok (sk_store pk)"
  shows "\<exists>bs'. reads pk ids' bs' \<and> mset bs' = mset bs"
proof -
  define f where "f i = (case sv_get (sk_store pk) i of Inr (Some b) \<Rightarrow> b | _ \<Rightarrow> undefined)" for i
  have bs: "bs = map f ids"
    using assms(1) unfolding reads_def by (induction rule: list_all2_induct) (auto simp: f_def)
  have "set ids' = set ids" by (metis assms(2) set_mset_mset)
  moreover have "\<forall>i \<in> set ids. sv_get (sk_store pk) i = Inr (Some (f i))"
    using assms(1) unfolding reads_def by (induction rule: list_all2_induct) (auto simp: f_def)
  ultimately have "reads pk ids' (map f ids')"
    by (simp add: reads_def list_all2_map2 list_all2_same)
  with bs assms(2) show ?thesis by (metis mset_map)
qed

lemma reads_inj:
  assumes "reads pk ids bs" "store_view_ok (sk_store pk)"
  shows "inj_on cb_id (set bs)"
proof (rule inj_onI)
  fix b c assume "b \<in> set bs" "c \<in> set bs" "cb_id b = cb_id c"
  then obtain i j where "sv_get (sk_store pk) i = Inr (Some b)" "sv_get (sk_store pk) j = Inr (Some c)"
    using reads_mem [OF assms(1)] by blast
  with assms(2) \<open>cb_id b = cb_id c\<close> show "b = c" by (auto simp: store_view_ok_def)
qed

lemma group_ref_perm:
  assumes "mset bs = mset bs'" "inj_on cb_id (set bs)"
  shows "group_ref bs = group_ref bs'"
proof
  fix s
  show "group_ref bs s = group_ref bs' s"
    unfolding group_ref_def using assms
    by (intro sort_by_key_perm) (auto simp: mset_filter intro: inj_on_subset)
qed

lemma group_selected_perm:
  assumes "mset ids' = mset (pp_selected plan)" "store_view_ok (sk_store pk)"
    and "reads pk (pp_selected plan) bs" and "pp_selected plan' = ids'"
  shows "group_selected pk plan' = group_selected pk plan"
proof -
  from reads_perm [OF assms(3,1,2)] obtain bs' where bs': "reads pk ids' bs'" "mset bs' = mset bs"
    by blast
  have "group_ref bs = group_ref bs'"
    using bs'(2) reads_inj [OF assms(3,2)] by (intro group_ref_perm) auto
  moreover have "group_selected pk plan = Inr (group_ref bs)" "group_selected pk plan' = Inr (group_ref bs')"
    using assms(3,4) bs'(1) by (auto simp: group_selected_Inr)
  ultimately show ?thesis by simp
qed

lemma reads_ex:
  "(\<And>i. i \<in> set ids \<Longrightarrow> \<exists>b. sv_get (sk_store pk) i = Inr (Some b)) \<Longrightarrow> \<exists>bs. reads pk ids bs"
proof (induction ids)
  case Nil
  then show ?case by (simp add: reads_def)
next
  case (Cons i ids)
  then obtain bs b where "reads pk ids bs" "sv_get (sk_store pk) i = Inr (Some b)" by fastforce
  then show ?case by (intro exI [of _ "b # bs"]) (simp add: reads_def)
qed

text \<open>
  C22: the rendered prompt does not depend on the order in which the plan lists its blocks: two
  plans that select the same blocks, all in the store, with the same notes, render the same
  prompt, as a string and as chat messages (success or error alike).
\<close>

theorem pack_order_independent:
  assumes "store_view_ok (sk_store pk)"
    and "\<And>i. i \<in> set (pp_selected plan) \<Longrightarrow> \<exists>b. sv_get (sk_store pk) i = Inr (Some b)"
    and "mset (pp_selected plan') = mset (pp_selected plan)"
    and "collect_notes plan' = collect_notes plan"
  shows "pack env pk req plan' = pack env pk req plan \<and>
         pack_chat env pk req plan' = pack_chat env pk req plan"
proof -
  from reads_ex [of "pp_selected plan" pk] assms(2) obtain bs where "reads pk (pp_selected plan) bs"
    by blast
  then have "group_selected pk plan' = group_selected pk plan"
    using assms(1,3) by (intro group_selected_perm) auto
  with assms(4) show ?thesis by (simp add: pack_def pack_chat_def)
qed

lemma sublist_concat: "x \<in> set xs \<Longrightarrow> sublist x (concat xs)"
  by (metis concat.simps(2) concat_append split_list sublist_appendI)

lemma group_ref_mem: "b \<in> set bs \<Longrightarrow> b \<in> set (group_ref bs (default_section (cb_kind b)))"
  by (simp add: group_ref_def)

lemma default_section_in_order: "default_section k \<in> set section_order"
  by (cases k) (simp_all add: section_order_def)

lemma prompt_text_body:
  assumes "b \<in> set bs"
  shows "sublist (cb_bytes b) (prompt_text env pk req plan bs)"
proof -
  let ?s = "default_section (cb_kind b)"
  let ?es = "map (block_entry pk (collect_notes plan)) (group_ref bs ?s)"
  have mem: "b \<in> set (group_ref bs ?s)" using assms by (rule group_ref_mem)
  have "sublist (cb_bytes b) (block_entry pk (collect_notes plan) b)"
    unfolding block_entry_def by (metis append.assoc sublist_appendI)
  also have "sublist (block_entry pk (collect_notes plan) b) (concat ?es)"
    using mem by (intro sublist_concat) simp
  also have "sublist (concat ?es) (section_text env pk req (collect_notes plan) (group_ref bs) ?s)"
    using mem by (auto simp: section_text_def sublist_append)
  also have "sublist (section_text env pk req (collect_notes plan) (group_ref bs) ?s) (prompt_text env pk req plan bs)"
    unfolding prompt_text_def using default_section_in_order by (intro sublist_concat) simp
  finally show ?thesis .
qed

lemma pack_complete:
  assumes "pack env pk req plan = Inr p"
  shows "(\<forall>i \<in> set (pp_selected plan). \<exists>b. sv_get (sk_store pk) i = Inr (Some b) \<and> sublist (cb_bytes b) (pk_rendered p)) \<and>
    sublist (pr_task req) (pk_rendered p) \<and>
    tok_count (sk_tokenizer pk) (pk_rendered p) = Inr (pk_input_tokens p) \<and>
    pk_input_tokens p \<le> input_budget (pr_model req)"
proof -
  from assms obtain bs where bs: "reads pk (pp_selected plan) bs"
    "pk_rendered p = prompt_text env pk req plan bs"
    "tok_count (sk_tokenizer pk) (pk_rendered p) = Inr (pk_input_tokens p)"
    "pk_input_tokens p \<le> input_budget (pr_model req)"
    by (rule pack_InrE)
  have "\<exists>b. sv_get (sk_store pk) i = Inr (Some b) \<and> sublist (cb_bytes b) (pk_rendered p)"
    if "i \<in> set (pp_selected plan)" for i
  proof -
    have "list_all2 (\<lambda>b i. sv_get (sk_store pk) i = Inr (Some b)) bs (pp_selected plan)"
      using bs(1) unfolding reads_def by (simp add: list_all2_conv_all_nth)
    from list_all2_right [OF this that] show ?thesis
      using prompt_text_body bs(2) by auto
  qed
  moreover have "sublist (pr_task req) (pk_rendered p)"
  proof (cases "pr_task req = []")
    case False
    then have "sublist (pr_task req) (section_text env pk req (collect_notes plan) (group_ref bs) Sec_Task)"
      by (auto simp: section_text_def sublist_append)
    also have "sublist \<dots> (prompt_text env pk req plan bs)"
      unfolding prompt_text_def by (intro sublist_concat) (simp add: section_order_def)
    finally show ?thesis by (simp add: bs(2))
  qed simp
  ultimately show ?thesis using bs(3,4) by blast
qed

text \<open>
  C20: the string prompt loses nothing: the bytes of every selected block and the whole task
  text occur in it unchanged; its token count is the tokenizer's count of exactly the rendered
  bytes and is at most the input budget of the model.
\<close>

theorem pack_complete_within_budget:
  assumes "pack env pk req plan = Inr p"
  shows "(\<forall>i \<in> set (pp_selected plan). \<exists>b. sv_get (sk_store pk) i = Inr (Some b) \<and> sublist (cb_bytes b) (pk_rendered p)) \<and>
    sublist (pr_task req) (pk_rendered p) \<and>
    tok_count (sk_tokenizer pk) (pk_rendered p) = Inr (pk_input_tokens p) \<and>
    pk_input_tokens p \<le> input_budget (pr_model req)"
  using assms by (rule pack_complete)

lemma render_block_total:
  assumes "utf8_valid (cb_bytes b)" "\<And>x. \<exists>n. tok_count (sk_tokenizer pk) x = Inr n"
  shows "\<exists>rs'. render_block env pk notes s b rs = Inr rs'"
proof -
  obtain t where "block_text env b = Inr t" using assms(1) by (metis block_text_Inr)
  moreover obtain n where "tok_count (sk_tokenizer pk) (cb_bytes b) = Inr n" using assms(2) by blast
  ultimately show ?thesis by (simp add: render_block_def count_bytes_def del: block_text_Inr)
qed

lemma render_section_total:
  assumes "\<And>b. b \<in> set (g s) \<Longrightarrow> utf8_valid (cb_bytes b)" "\<And>x. \<exists>n. tok_count (sk_tokenizer pk) x = Inr n"
  shows "\<exists>rs'. render_section env pk req notes g s rs = Inr rs'"
  using assms for_each_total [of "g s" "render_block env pk notes s"] render_block_total [of _ pk]
  by (auto simp: render_section_def)

text \<open>
  C23: when every selected block can be read and is UTF-8 and the tokenizer does not fail, the
  budget is the only reason for \<open>pack\<close> to fail: it returns the rendering of the plan when its
  count is at most the input budget, and \<open>BudgetExceeded\<close> with that count and that budget when
  it is larger.
\<close>

theorem pack_outcome:
  assumes "reads pk (pp_selected plan) bs" and "\<And>b. b \<in> set bs \<Longrightarrow> utf8_valid (cb_bytes b)"
    and "\<And>x. tok_count (sk_tokenizer pk) x = Inr (cnt x)"
  shows "case pack env pk req plan of
      Inr p \<Rightarrow> pk_rendered p = prompt_text env pk req plan bs \<and> pk_input_tokens p = cnt (pk_rendered p) \<and>
               cnt (pk_rendered p) \<le> input_budget (pr_model req)
    | Inl e \<Rightarrow> e = BudgetExceeded (cnt (prompt_text env pk req plan bs)) (input_budget (pr_model req)) \<and>
               input_budget (pr_model req) < cnt (prompt_text env pk req plan bs)"
proof -
  let ?rs0 = "\<lparr>rs_rendered = [], rs_blocks = []\<rparr>"
  have "\<exists>rs'. render_section env pk req (collect_notes plan) (group_ref bs) s rs = Inr rs'" for s rs
    using assms by (intro render_section_total) (auto simp: group_ref_def)
  from for_each_total [of section_order "render_section env pk req (collect_notes plan) (group_ref bs)", OF this]
  obtain rs where rs: "for_each (render_section env pk req (collect_notes plan) (group_ref bs)) section_order ?rs0 = Inr rs"
    by blast
  from render_all_Inr [OF rs] have rend: "rs_rendered rs = prompt_text env pk req plan bs"
    by (simp add: prompt_text_def)
  have grp: "group_selected pk plan = Inr (group_ref bs)"
    using assms(1) by (auto simp: group_selected_Inr)
  show ?thesis
    by (simp add: pack_def grp rs rend count_bytes_def assms(3) check_budget_def not_less)
qed

section \<open>The chat prompt\<close>

lemma chat_section_Inr:
  assumes "chat_section env pk req notes g s ch = Inr ch'"
  shows "\<exists>ms. ch_messages ch' = ch_messages ch @ ms \<and>
    map cm_section ms = (if g s = [] then [] else [Some s]) \<and>
    (\<forall>m \<in> set ms. cm_role m = (if mp_supports_system_role (pr_model req) then Role_System else Role_User)) \<and>
    (s \<in> set (co_stable_sections (po_cache (sk_options pk))) \<and> ch_in_prefix ch \<longrightarrow>
       ch_in_prefix ch' \<and> ch_stable_count ch' = ch_stable_count ch + length ms) \<and>
    (s \<notin> set (co_stable_sections (po_cache (sk_options pk))) \<longrightarrow> ch_stable_count ch' = ch_stable_count ch)"
  using assms
  by (cases "g s = []"; cases "ch_in_prefix ch \<and> s \<in> set (co_stable_sections (po_cache (sk_options pk)))")
     (auto simp: chat_section_def Let_def rbind_Inr_iff)

lemma chat_sections_stable:
  assumes "for_each (chat_section env pk req notes g) ss ch = Inr ch'"
    and "set ss \<subseteq> set (co_stable_sections (po_cache (sk_options pk)))" "ch_in_prefix ch"
  shows "\<exists>ms. ch_messages ch' = ch_messages ch @ ms \<and> map cm_section ms = map Some (filter (\<lambda>s. g s \<noteq> []) ss) \<and>
    (\<forall>m \<in> set ms. cm_role m = (if mp_supports_system_role (pr_model req) then Role_System else Role_User)) \<and>
    ch_stable_count ch' = ch_stable_count ch + length ms \<and> ch_in_prefix ch'"
  using assms
proof (induction ss arbitrary: ch)
  case (Cons s ss)
  then obtain ch1 where 1: "chat_section env pk req notes g s ch = Inr ch1"
    and 2: "for_each (chat_section env pk req notes g) ss ch1 = Inr ch'"
    by (auto simp: rbind_Inr_iff)
  obtain ms where ms: "ch_messages ch1 = ch_messages ch @ ms"
    "map cm_section ms = (if g s = [] then [] else [Some s])"
    "\<forall>m \<in> set ms. cm_role m = (if mp_supports_system_role (pr_model req) then Role_System else Role_User)"
    "ch_in_prefix ch1" "ch_stable_count ch1 = ch_stable_count ch + length ms"
    using chat_section_Inr [OF 1] Cons.prems(2,3) by auto
  obtain ns where ns: "ch_messages ch' = ch_messages ch1 @ ns" "map cm_section ns = map Some (filter (\<lambda>s. g s \<noteq> []) ss)"
    "\<forall>m \<in> set ns. cm_role m = (if mp_supports_system_role (pr_model req) then Role_System else Role_User)"
    "ch_stable_count ch' = ch_stable_count ch1 + length ns" "ch_in_prefix ch'"
    using Cons.IH [OF 2] Cons.prems(2) ms(4) by auto
  show ?case using ms ns by (intro exI [of _ "ms @ ns"]) auto
qed simp

lemma chat_sections_unstable:
  assumes "for_each (chat_section env pk req notes g) ss ch = Inr ch'"
    and "set ss \<inter> set (co_stable_sections (po_cache (sk_options pk))) = {}"
  shows "\<exists>ms. ch_messages ch' = ch_messages ch @ ms \<and> map cm_section ms = map Some (filter (\<lambda>s. g s \<noteq> []) ss) \<and>
    (\<forall>m \<in> set ms. cm_role m = (if mp_supports_system_role (pr_model req) then Role_System else Role_User)) \<and>
    ch_stable_count ch' = ch_stable_count ch"
  using assms
proof (induction ss arbitrary: ch)
  case (Cons s ss)
  then obtain ch1 where 1: "chat_section env pk req notes g s ch = Inr ch1"
    and 2: "for_each (chat_section env pk req notes g) ss ch1 = Inr ch'"
    by (auto simp: rbind_Inr_iff)
  obtain ms where ms: "ch_messages ch1 = ch_messages ch @ ms"
    "map cm_section ms = (if g s = [] then [] else [Some s])"
    "\<forall>m \<in> set ms. cm_role m = (if mp_supports_system_role (pr_model req) then Role_System else Role_User)"
    "ch_stable_count ch1 = ch_stable_count ch"
    using chat_section_Inr [OF 1] Cons.prems(2) by auto
  obtain ns where ns: "ch_messages ch' = ch_messages ch1 @ ns" "map cm_section ns = map Some (filter (\<lambda>s. g s \<noteq> []) ss)"
    "\<forall>m \<in> set ns. cm_role m = (if mp_supports_system_role (pr_model req) then Role_System else Role_User)"
    "ch_stable_count ch' = ch_stable_count ch1"
    using Cons.IH [OF 2] Cons.prems(2) by auto
  show ?case using ms ns by (intro exI [of _ "ms @ ns"]) auto
qed simp

lemma unat_count_all:
  assumes "for_each (\<lambda>m t. rbind (count_bytes pk (cm_content m)) (\<lambda>n. Inr (token_saturating_add t n))) ms t0 = Inr t"
  shows "\<exists>ns. list_all2 (\<lambda>m n. tok_count (sk_tokenizer pk) (cm_content m) = Inr n) ms ns \<and>
    unat t = min (unat t0 + sum_list (map unat ns)) (2 ^ 32 - 1)"
  using assms
proof (induction ms arbitrary: t0)
  case Nil
  have "unat t0 < 2 ^ 32" using unat_lt_max [of t0] by simp
  with Nil show ?case by simp
next
  case (Cons m ms)
  then obtain n where 1: "tok_count (sk_tokenizer pk) (cm_content m) = Inr n"
    and 2: "for_each (\<lambda>m t. rbind (count_bytes pk (cm_content m)) (\<lambda>n. Inr (token_saturating_add t n))) ms
              (token_saturating_add t0 n) = Inr t"
    by (auto simp: rbind_Inr_iff count_bytes_def)
  from Cons.IH [OF 2] obtain ns where ns: "list_all2 (\<lambda>m n. tok_count (sk_tokenizer pk) (cm_content m) = Inr n) ms ns"
    "unat t = min (unat (token_saturating_add t0 n) + sum_list (map unat ns)) (2 ^ 32 - 1)"
    by blast
  then have "unat t = min (unat t0 + sum_list (map unat (n # ns))) (2 ^ 32 - 1)"
    by (simp add: token_saturating_add_def unat_sat_add)
  with 1 ns(1) show ?case by (intro exI [of _ "n # ns"]) auto
qed

abbreviation system_role :: "page_request \<Rightarrow> chat_role" where
  "system_role req \<equiv> (if mp_supports_system_role (pr_model req) then Role_System else Role_User)"

lemma messages_tags:
  assumes "map_res (\<lambda>b. chat_message_of env pk notes s (r b) b) bs = Inr ms"
  shows "map (\<lambda>m. (cm_role m, cm_section m)) ms = map (\<lambda>b. (r b, Some s)) bs"
  using assms
  by (induction bs arbitrary: ms) (auto simp: rbind_Inr_iff chat_message_of_def)

lemma tags_of:
  "map cm_section ms = map Some ss \<Longrightarrow> \<forall>m \<in> set ms. cm_role m = r \<Longrightarrow>
   map (\<lambda>m. (cm_role m, cm_section m)) ms = map (\<lambda>s. (r, Some s)) ss"
  by (induction ms arbitrary: ss) auto

text \<open>A successful \<open>pack_chat\<close>, read off.\<close>

lemma pack_chat_InrE:
  assumes "pack_chat env pk req plan = Inr c"
  obtains bs pre post recent tools ns where "reads pk (pp_selected plan) bs"
    "cp_messages c = pre @ post @ recent @ tools @ task_message env pk req"
    "map (\<lambda>m. (cm_role m, cm_section m)) pre = map (\<lambda>s. (system_role req, Some s))
       (filter (\<lambda>s. group_ref bs s \<noteq> [])
          (filter (\<lambda>s. s \<in> set (co_stable_sections (po_cache (sk_options pk)))) system_side))"
    "map (\<lambda>m. (cm_role m, cm_section m)) post = map (\<lambda>s. (system_role req, Some s))
       (filter (\<lambda>s. group_ref bs s \<noteq> [])
          (filter (\<lambda>s. s \<notin> set (co_stable_sections (po_cache (sk_options pk)))) system_side))"
    "map (\<lambda>m. (cm_role m, cm_section m)) recent = map (\<lambda>b. (recent_role b, Some Sec_Recent)) (group_ref bs Sec_Recent)"
    "map (\<lambda>m. (cm_role m, cm_section m)) tools = map (\<lambda>b. (Role_Tool, Some Sec_Tools)) (group_ref bs Sec_Tools)"
    "cp_cache_boundary c = (if pre = [] then None else Some (length pre - 1))"
    "list_all2 (\<lambda>m n. tok_count (sk_tokenizer pk) (cm_content m) = Inr n) (cp_messages c) ns"
    "unat (cp_input_tokens c) = min (sum_list (map unat ns)) (2 ^ 32 - 1)"
    "cp_input_tokens c \<le> input_budget (pr_model req)"
proof -
  let ?stab = "co_stable_sections (po_cache (sk_options pk))" and ?n = "collect_notes plan"
  let ?f = "\<lambda>m t. rbind (count_bytes pk (cm_content m)) (\<lambda>n. Inr (token_saturating_add t n))"
  from assms obtain bs ch recent tools t where 1: "reads pk (pp_selected plan) bs"
    "for_each (chat_section env pk req ?n (group_ref bs)) (ordered_sections ?stab)
       \<lparr>ch_messages = [], ch_stable_count = 0, ch_in_prefix = True\<rparr> = Inr ch"
    "map_res (\<lambda>b. chat_message_of env pk ?n Sec_Recent (recent_role b) b) (group_ref bs Sec_Recent) = Inr recent"
    "map_res (chat_message_of env pk ?n Sec_Tools Role_Tool) (group_ref bs Sec_Tools) = Inr tools"
    and 2: "for_each ?f (ch_messages ch @ recent @ tools @ task_message env pk req) token_count_zero = Inr t"
    and 3: "t \<le> input_budget (pr_model req)"
    and c: "c = \<lparr>cp_model = mp_name (pr_model req), cp_input_tokens = t,
            cp_messages = ch_messages ch @ recent @ tools @ task_message env pk req,
            cp_cache_boundary = (if ch_stable_count ch = 0 then None else Some (ch_stable_count ch - 1))\<rparr>"
    by (auto simp: pack_chat_def Let_def rbind_Inr_iff group_selected_Inr)
  let ?in = "filter (\<lambda>s. s \<in> set ?stab) system_side" and ?out = "filter (\<lambda>s. s \<notin> set ?stab) system_side"
  from 1(2) obtain ch1 where
    a: "for_each (chat_section env pk req ?n (group_ref bs)) ?in \<lparr>ch_messages = [], ch_stable_count = 0, ch_in_prefix = True\<rparr> = Inr ch1"
    and b: "for_each (chat_section env pk req ?n (group_ref bs)) ?out ch1 = Inr ch"
    by (auto simp: ordered_sections_def for_each_append rbind_Inr_iff)
  from chat_sections_stable [OF a] obtain pre where pre: "ch_messages ch1 = pre"
    "map cm_section pre = map Some (filter (\<lambda>s. group_ref bs s \<noteq> []) ?in)"
    "\<forall>m \<in> set pre. cm_role m = system_role req" "ch_stable_count ch1 = length pre"
    by auto
  from chat_sections_unstable [OF b] obtain post where post: "ch_messages ch = pre @ post"
    "map cm_section post = map Some (filter (\<lambda>s. group_ref bs s \<noteq> []) ?out)"
    "\<forall>m \<in> set post. cm_role m = system_role req" "ch_stable_count ch = length pre"
    using pre by auto
  from unat_count_all [OF 2] obtain ns where ns:
    "list_all2 (\<lambda>m n. tok_count (sk_tokenizer pk) (cm_content m) = Inr n) (cp_messages c) ns"
    "unat t = min (sum_list (map unat ns)) (2 ^ 32 - 1)"
    by (auto simp: c token_count_zero_def)
  show ?thesis
  proof (rule that [OF 1(1) _ tags_of [OF pre(2,3)] tags_of [OF post(2,3)]
        messages_tags [OF 1(3)] _ _ ns(1)])
    show "map (\<lambda>m. (cm_role m, cm_section m)) tools = map (\<lambda>b. (Role_Tool, Some Sec_Tools)) (group_ref bs Sec_Tools)"
      using messages_tags [of env pk ?n Sec_Tools "\<lambda>_. Role_Tool", OF 1(4)] .
  qed (use c ns(2) 3 post in \<open>simp_all\<close>)
qed

text \<open>
  C24: the message list of a chat prompt: one system message (a user message when the model has
  no system role) for each non-empty one of the sections system, state, plan, retrieved and
  background, the cache-stable ones first, either group in this order; then the transcript by
  ascending block id, the assistant's messages with the assistant role and the others with the
  user role; then the tool results; and the task, when there is one, as the last user message.
\<close>

theorem pack_chat_layout:
  assumes "pack_chat env pk req plan = Inr c"
  shows "let stab = set (co_stable_sections (po_cache (sk_options pk)));
      sides = [Sec_System, Sec_State, Sec_Plan, Sec_Retrieved, Sec_Background]
    in \<exists>bs. reads pk (pp_selected plan) bs \<and>
    map (\<lambda>m. (cm_role m, cm_section m)) (cp_messages c) =
      map (\<lambda>s. (if mp_supports_system_role (pr_model req) then Role_System else Role_User, Some s))
        (filter (\<lambda>s. group_ref bs s \<noteq> []) (filter (\<lambda>s. s \<in> stab) sides @ filter (\<lambda>s. s \<notin> stab) sides)) @
      map (\<lambda>b. (if cb_kind b = Kind_AssistantMessage then Role_Assistant else Role_User, Some Sec_Recent))
        (group_ref bs Sec_Recent) @
      map (\<lambda>b. (Role_Tool, Some Sec_Tools)) (group_ref bs Sec_Tools) @
      (if pr_task req = [] then [] else [(Role_User, Some Sec_Task)])"
  using assms
proof (rule pack_chat_InrE)
  fix bs pre post recent tools ns
  assume h: "reads pk (pp_selected plan) bs"
    "cp_messages c = pre @ post @ recent @ tools @ task_message env pk req"
    "map (\<lambda>m. (cm_role m, cm_section m)) pre = map (\<lambda>s. (system_role req, Some s))
       (filter (\<lambda>s. group_ref bs s \<noteq> [])
          (filter (\<lambda>s. s \<in> set (co_stable_sections (po_cache (sk_options pk)))) system_side))"
    "map (\<lambda>m. (cm_role m, cm_section m)) post = map (\<lambda>s. (system_role req, Some s))
       (filter (\<lambda>s. group_ref bs s \<noteq> [])
          (filter (\<lambda>s. s \<notin> set (co_stable_sections (po_cache (sk_options pk)))) system_side))"
    "map (\<lambda>m. (cm_role m, cm_section m)) recent = map (\<lambda>b. (recent_role b, Some Sec_Recent)) (group_ref bs Sec_Recent)"
    "map (\<lambda>m. (cm_role m, cm_section m)) tools = map (\<lambda>b. (Role_Tool, Some Sec_Tools)) (group_ref bs Sec_Tools)"
  have "map (\<lambda>m. (cm_role m, cm_section m)) (task_message env pk req) =
      (if pr_task req = [] then [] else [(Role_User, Some Sec_Task)])"
    by (simp add: task_message_def)
  with h show ?thesis
    unfolding Let_def by (intro exI [of _ bs]) (simp add: system_side_def recent_role_def)
qed

text \<open>
  C26: the cache boundary of a chat prompt is an index of the message list, and the messages of
  the system-side sections that the options call stable are exactly those up to it; without a
  boundary there is no such message.
\<close>

theorem pack_chat_cache_boundary:
  assumes "pack_chat env pk req plan = Inr c"
  shows "case cp_cache_boundary c of
      None \<Rightarrow> (\<forall>m \<in> set (cp_messages c). \<forall>s. cm_section m = Some s \<longrightarrow>
                \<not> (s \<in> set system_side \<and> s \<in> set (co_stable_sections (po_cache (sk_options pk)))))
    | Some n \<Rightarrow> n < length (cp_messages c) \<and> (\<forall>k < length (cp_messages c).
        k \<le> n \<longleftrightarrow> (\<exists>s. cm_section (cp_messages c ! k) = Some s \<and> s \<in> set system_side \<and>
                       s \<in> set (co_stable_sections (po_cache (sk_options pk)))))"
proof -
  let ?cached = "\<lambda>m. \<exists>s. cm_section m = Some s \<and> s \<in> set system_side \<and>
                       s \<in> set (co_stable_sections (po_cache (sk_options pk)))"
  obtain bs pre post recent tools ns where h:
    "cp_messages c = pre @ post @ recent @ tools @ task_message env pk req"
    "map (\<lambda>m. (cm_role m, cm_section m)) pre = map (\<lambda>s. (system_role req, Some s))
       (filter (\<lambda>s. group_ref bs s \<noteq> [])
          (filter (\<lambda>s. s \<in> set (co_stable_sections (po_cache (sk_options pk)))) system_side))"
    "map (\<lambda>m. (cm_role m, cm_section m)) post = map (\<lambda>s. (system_role req, Some s))
       (filter (\<lambda>s. group_ref bs s \<noteq> [])
          (filter (\<lambda>s. s \<notin> set (co_stable_sections (po_cache (sk_options pk)))) system_side))"
    "map (\<lambda>m. (cm_role m, cm_section m)) recent = map (\<lambda>b. (recent_role b, Some Sec_Recent)) (group_ref bs Sec_Recent)"
    "map (\<lambda>m. (cm_role m, cm_section m)) tools = map (\<lambda>b. (Role_Tool, Some Sec_Tools)) (group_ref bs Sec_Tools)"
    "cp_cache_boundary c = (if pre = [] then None else Some (length pre - 1))"
    using assms by (rule pack_chat_InrE)
  have pick: "(cm_role m, cm_section m) \<in> set xs" if "map (\<lambda>m. (cm_role m, cm_section m)) ms = xs" "m \<in> set ms" for m ms xs
    using that by force
  have pre: "?cached m" if "m \<in> set pre" for m
    using pick [OF h(2) that] by auto
  have post: "\<not> ?cached m" if "m \<in> set post" for m
    using pick [OF h(3) that] by auto
  have rest: "\<not> ?cached m" if "m \<in> set (recent @ tools @ task_message env pk req)" for m
  proof -
    have "cm_section m \<in> {Some Sec_Recent, Some Sec_Tools, Some Sec_Task}"
      using that pick [OF h(4)] pick [OF h(5)] by (force simp: task_message_def split: if_splits)
    then show ?thesis by (auto simp: system_side_def)
  qed
  define ms where "ms = post @ recent @ tools @ task_message env pk req"
  have ms: "\<not> ?cached m" if "m \<in> set ms" for m
    using that post rest by (auto simp: ms_def)
  have all: "cp_messages c = pre @ ms" by (simp add: h(1) ms_def)
  have "?cached ((pre @ ms) ! k) \<longleftrightarrow> k < length pre" if "k < length (pre @ ms)" for k
  proof (cases "k < length pre")
    case True
    then show ?thesis using pre [of "pre ! k"] by (simp add: nth_append)
  next
    case False
    then show ?thesis using ms [of "ms ! (k - length pre)"] that by (simp add: nth_append)
  qed
  moreover have "length pre - 1 < length (pre @ ms)" "k \<le> length pre - 1 \<longleftrightarrow> k < length pre" if "pre \<noteq> []" for k
    using that by (cases pre; auto)+
  ultimately show ?thesis
    using ms by (auto simp: h(6) all simp del: length_append)
qed

lemma pack_chat_budget: "pack_chat env pk req plan = Inr c \<Longrightarrow> cp_input_tokens c \<le> input_budget (pr_model req)"
  by (erule pack_chat_InrE)

text \<open>
  C27: the token count of a chat prompt is the sum of the tokenizer's counts of its messages,
  saturated at the largest 32-bit value, and is at most the input budget.
\<close>

theorem pack_chat_within_budget:
  assumes "pack_chat env pk req plan = Inr c"
  shows "\<exists>ns. list_all2 (\<lambda>m n. tok_count (sk_tokenizer pk) (cm_content m) = Inr n) (cp_messages c) ns \<and>
     unat (cp_input_tokens c) = min (sum_list (map unat ns)) (2 ^ 32 - 1) \<and>
     cp_input_tokens c \<le> input_budget (pr_model req)"
  using assms by (rule pack_chat_InrE) blast

end
