(* ===== verification/Cli_Runs.thy ===== *)
theory Cli_Runs
  imports Cli_Correct Packer_Correct
begin

text \<open>
  Sequences of commands: what a pack prints and records, and that no sequence of commands makes
  the integrity check fail, a repair among them, which changes nothing in a sound store.
\<close>

lemma cli_start_sel [simp]:
  "cs_store (cli_start s) = s" "cs_trace (cli_start s) = None" "cs_out (cli_start s) = []" "cs_err (cli_start s) = []"
  by (simp_all add: cli_start_def)

lemma prints_run:
  fixes m :: "('s, 't, unit) cli"
  assumes "prints m"
  obtains st' where "m st = (Inr (), st')" "cs_store st' = cs_store st"
  using assms unfolding prints_def by (metis old.unit.exhaust prod.collapse)

section \<open>Packing\<close>

lemma print_pack_out:
  assumes "print_pack host req prompt chat_prompt trace_id only st = (Inr u, st')"
  shows "cs_out st' = cs_out st @ (case chat_prompt of None \<Rightarrow> pk_rendered prompt | Some (cp, js) \<Rightarrow> js @ nl) \<and>
    cs_store st' = cs_store st \<and> cs_trace st' = cs_trace st"
  using assms unfolding print_pack_def print_trace_id_def
  by (cases trace_id; cases chat_prompt)
    (auto simp: cbind_Inr cli_Inr split: if_splits option.splits prod.splits)

text \<open>What a recorded call leaves in the log.\<close>

lemma record_call_log:
  assumes "trace_store (hs_lib host) tab (hs_codec host)"
    and "record_call host path req plan prompt t st = (Inr c, st')"
  shows "cs_out st' = cs_out st \<and> cs_store st' = cs_store st \<and>
    (case path of
       None \<Rightarrow> c = None \<and> cs_trace st' = cs_trace st
     | Some p \<Rightarrow> \<exists>i sink. c = Some i \<and> cs_trace st' = Some sink \<and> host_call_id host = Some i \<and>
         trace_view tab (hs_codec host) sink i =
           Some (call_record i req plan (pk_input_tokens prompt) (lib_hash (hs_lib host) (pk_rendered prompt)) t
             (host_duration_ms host)))"
proof (cases path)
  case None
  with assms(2) show ?thesis by (simp add: record_call_def cli_Inr)
next
  case (Some p)
  with assms(2) obtain sink sink' i where i: "host_call_id host = Some i"
    and r: "ts_record (host_sink host) sink (call_record i req plan (pk_input_tokens prompt)
      (lib_hash (hs_lib host) (pk_rendered prompt)) t (host_duration_ms host)) = Inr sink'"
    and st': "c = Some i" "st' = st\<lparr>cs_trace := Some sink'\<rparr>"
    by (auto simp: record_call_def open_trace_def cbind_Inr cli_Inr)
  from trace_store.sink_record [OF assms(1) r] show ?thesis
    by (simp add: Some i st' call_record_def)
qed

text \<open>
  C6: what pack prints and records. There is a string prompt that holds the task and the bytes
  of every block of the plan, whose tokens are counted and within the input budget of the model
  the name resolves to. Without \<open>--chat\<close> the output is this prompt. With \<open>--chat\<close> it is the JSON
  of a chat prompt of the same plan that is within the budget too. The store is left alone, and
  with a trace the record under the id of the call has the plan and the count and hash of the
  string prompt, in either mode: for a chat call that is not the text that was printed.
\<close>

theorem cli_pack_end_to_end:
  assumes "trace_store (hs_lib host) tab (hs_codec host)"
    and "dispatch_store host io config (Cmd_Pack session model task flags) (cli_start s) = (Inr (), st)"
  shows "\<exists>profile tok plan prompt n. profile_and_tokenizer config model = Inr (profile, tok) \<and>
    plan_of_store host (view_of (host_ops host) s) tok config (session_request session task profile) = Inr plan \<and>
    tok_count tok prompt = Inr n \<and> n \<le> input_budget profile \<and> sublist task prompt \<and>
    (\<forall>i \<in> set (pp_selected plan). \<exists>b. bs_get (host_ops host) s i = Inr (Some b) \<and> sublist (cb_bytes b) prompt) \<and>
    (if pf_chat flags
     then \<exists>cp js. pack_chat (hs_packer host)
         (make_packer (view_of (host_ops host) s) tok (packer_opts config (pf_timestamps flags)))
         (session_request session task profile) plan = Inr cp \<and>
       cp_input_tokens cp \<le> input_budget profile \<and> ci_chat_json io cp = Inr js \<and> cs_out st = js @ nl
     else cs_out st = prompt) \<and>
    cs_store st = s \<and>
    (pf_trace flags \<noteq> None \<longrightarrow> (\<exists>c sink r. host_call_id host = Some c \<and> cs_trace st = Some sink \<and>
       trace_view tab (hs_codec host) sink c = Some r \<and> tr_plan r = plan \<and> tr_prompt_tokens r = n \<and>
       tr_prompt_hash r = lib_hash (hs_lib host) prompt \<and> tr_session r = session))"
proof -
  let ?req = "session_request session task" and ?view = "view_of (host_ops host) s"
  from assms(2) obtain profile tok plan prompt cp c st1 where
    pt: "profile_and_tokenizer config model = Inr (profile, tok)"
    and ps: "pack_store host ?view (ci_chat_json io) tok config (?req profile) (packer_opts config (pf_timestamps flags))
      (pf_chat flags) = Inr (plan, prompt, cp)"
    and rc: "record_call host (pf_trace flags) (?req profile) plan prompt (host_now_ms host 0) (cli_start s) = (Inr c, st1)"
    and pp: "print_pack host (?req profile) prompt cp c (pf_prompt_only flags) st1 = (Inr (), st)"
    by (auto simp: cli_pack_def cbind_Inr cli_Inr Let_def cli_start_def split: prod.splits)
  let ?pk = "make_packer ?view tok (packer_opts config (pf_timestamps flags))"
  from ps have plan: "plan_of_store host ?view tok config (?req profile) = Inr plan"
    and prompt: "pack (hs_packer host) ?pk (?req profile) plan = Inr prompt"
    and cp: "if pf_chat flags
      then \<exists>c js. pack_chat (hs_packer host) ?pk (?req profile) plan = Inr c \<and> ci_chat_json io c = Inr js \<and> cp = Some (c, js)
      else cp = None"
    by (auto simp: pack_store_def plan_of_store_def rbind_Inr_iff Let_def split: if_splits)
  have pk [simp]: "sk_store ?pk = ?view" "sk_tokenizer ?pk = tok"
    by (simp_all add: make_packer_def with_options_def simple_packer_new_def)
  note out = print_pack_out [OF pp]
  note log = record_call_log [OF assms(1) rc]
  have st: "cs_store st = s" "cs_out st = (case cp of None \<Rightarrow> pk_rendered prompt | Some (cp, js) \<Rightarrow> js @ nl)"
    using out log by (simp_all add: cli_start_def)
  have "\<exists>c sink r. host_call_id host = Some c \<and> cs_trace st = Some sink \<and>
       trace_view tab (hs_codec host) sink c = Some r \<and> tr_plan r = plan \<and> tr_prompt_tokens r = pk_input_tokens prompt \<and>
       tr_prompt_hash r = lib_hash (hs_lib host) (pk_rendered prompt) \<and> tr_session r = session" if "pf_trace flags \<noteq> None"
    using that log out by (auto simp: call_record_def session_request_def split: option.splits)
  moreover have "sublist task (pk_rendered prompt)" "tok_count tok (pk_rendered prompt) = Inr (pk_input_tokens prompt)"
    "pk_input_tokens prompt \<le> input_budget profile"
    "\<forall>i \<in> set (pp_selected plan). \<exists>b. bs_get (host_ops host) s i = Inr (Some b) \<and> sublist (cb_bytes b) (pk_rendered prompt)"
    using pack_complete [OF prompt, unfolded pk] by (auto simp: session_request_def view_of_def)
  moreover have budget: "cp_input_tokens c \<le> input_budget profile"
    if "pack_chat (hs_packer host) ?pk (?req profile) plan = Inr c" for c
    using pack_chat_budget [OF that] by (simp add: session_request_def)
  have "if pf_chat flags
     then \<exists>c js. pack_chat (hs_packer host) ?pk (?req profile) plan = Inr c \<and>
       cp_input_tokens c \<le> input_budget profile \<and> ci_chat_json io c = Inr js \<and> cs_out st = js @ nl
     else cs_out st = pk_rendered prompt"
    using cp st(2) budget by (auto split: if_splits)
  ultimately show ?thesis using pt plan st(1) by blast
qed

section \<open>Repairing a sound store\<close>

context lmdb
begin

lemma repair_sound:
  assumes "lmdb_rel lib tab s a" "spec_wf a" "lmdb_repair lib ord s = Inr (rep, s')"
  shows "lmdb_rel lib tab s' a"
proof -
  note R = repair_spec [OF assms(3)]
  have same: "ls_by_id s' = ls_by_id s" "ls_edges_from s' = ls_edges_from s" "ls_edges_to s' = ls_edges_to s"
    using arg_cong [OF R(1), of ls_by_id] arg_cong [OF R(1), of ls_edges_from] arg_cong [OF R(1), of ls_edges_to] by simp_all
  have by_id: "key_rel (tab (ls_by_id s)) id_key (\<lambda>v b. lib_decode lib v = Inr b) (st_blocks a)"
    and sessions: "dom (tab (ls_by_session s)) = case_prod session_block_key ` st_members a"
    using assms(1) by (simp_all add: lmdb_rel_def)
  have entry: "\<exists>i. v = id_key i \<and> st_hash a (cb_hash b) = Some i"
    if "tab (ls_by_id s) v = Some w" "lib_decode lib w = Inr b" for v w b
    using rel_entry [OF assms(1) that(1)] that(2) spec_wfD(2) [OF assms(2)] by auto
  have "key_rel (tab (ls_by_hash s')) hash_key (\<lambda>v i. v = id_key i) (st_hash a)"
    unfolding key_rel_def
  proof (intro conjI allI impI)
    fix h
    show "rel_option (\<lambda>v i. v = id_key i) (tab (ls_by_hash s') (hash_key h)) (st_hash a h)"
    proof (cases "tab (ls_by_hash s') (hash_key h)")
      case (Some v)
      with R(3) obtain w b where "tab (ls_by_id s) v = Some w" "lib_decode lib w = Inr b" "hash_key h = hash_key (cb_hash b)"
        by blast
      moreover from this have "h = cb_hash b" by (auto dest: injD [OF inj_hash_key])
      ultimately show ?thesis using entry [of v w b] Some by auto
    next
      case None
      have "st_hash a h = None"
      proof (rule ccontr)
        assume "st_hash a h \<noteq> None"
        then obtain i b where b: "st_blocks a i = Some b" "cb_hash b = h" using spec_wfD(2) [OF assms(2)] by blast
        with by_id obtain v where "tab (ls_by_id s) (id_key i) = Some v" "lib_decode lib v = Inr b"
          by (auto simp: key_rel_def dest!: spec [of _ i] elim: option.rel_cases)
        with R(2) b(2) None show False by force
      qed
      with None show ?thesis by simp
    qed
  next
    fix k assume "tab (ls_by_hash s') k \<noteq> None"
    then show "\<exists>x. k = hash_key x" using R(3) by blast
  qed
  moreover have "dom (tab (ls_by_session s')) = dom (tab (ls_by_session s))"
  proof -
    have "drop 16 k \<in> dom (tab (ls_by_id s))" if "k \<in> dom (tab (ls_by_session s))" for k
    proof -
      from that sessions obtain t i where k: "k = session_block_key t i" "(t, i) \<in> st_members a" by auto
      with spec_wfD(3) [OF assms(2)] obtain b where "st_blocks a i = Some b" by blast
      with by_id have "tab (ls_by_id s) (id_key i) \<noteq> None"
        by (auto simp: key_rel_def dest!: spec [of _ i] elim: option.rel_cases)
      then show ?thesis by (auto simp: k(1) session_block_key_def)
    qed
    then show ?thesis by (auto simp: R(4))
  qed
  ultimately show ?thesis using assms(1) by (simp add: lmdb_rel_def same)
qed

end

section \<open>Sequences of commands\<close>

text \<open>
  The stores that commands, each on one of the given hosts, reach from an empty one, over one
  LMDB and one Postgres library. The ids made for new blocks are not taken and the clock fits 63 bits; commands may fail.
\<close>

inductive cli_reached ::
    "('e, 't, 'd, 'k, 'c) host set \<Rightarrow> 't lmdb_lib \<Rightarrow> ('t \<Rightarrow> raw \<rightharpoonup> raw) \<Rightarrow> 'd pg_lib \<Rightarrow> ('d \<Rightarrow> pg_tables) \<Rightarrow> ('t, 'd) opened \<Rightarrow> bool"
  for hosts lib tab plib tables where
  reached_start: "host_rel lib tab tables s spec_empty \<Longrightarrow> cli_reached hosts lib tab plib tables s"
| reached_command: "cli_reached hosts lib tab plib tables s \<Longrightarrow> host \<in> hosts \<Longrightarrow> hs_lib host = lib \<Longrightarrow> hs_pg host = plib \<Longrightarrow>
    (\<And>n i a. host_block_id host n = Some i \<Longrightarrow> host_rel lib tab tables s a \<Longrightarrow> st_blocks a i = None) \<Longrightarrow>
    (\<And>n. uint (host_now_ms host n) < 2 ^ 63) \<Longrightarrow>
    dispatch_store host io config c (cli_start s) = (r, st) \<Longrightarrow> cli_reached hosts lib tab plib tables (cs_store st)"

definition sound_store ::
    "'t lmdb_lib \<Rightarrow> ('t \<Rightarrow> raw \<rightharpoonup> raw) \<Rightarrow> ('d \<Rightarrow> pg_tables) \<Rightarrow> ('t, 'd) opened \<Rightarrow> bool" where
  "sound_store lib tab tables s \<longleftrightarrow>
     (\<exists>a. host_rel lib tab tables s a \<and> spec_wf a \<and> hashes_honest (lib_hash lib) a)"

lemma sound_storeI:
  "host_rel lib tab tables s a \<Longrightarrow> spec_wf a \<Longrightarrow> hashes_honest (lib_hash lib) a \<Longrightarrow> sound_store lib tab tables s"
  by (auto simp: sound_store_def)

lemma put_block_sound:
  assumes "store_contract ops (host_rel lib tab tables) pg_storable"
    and "host_rel lib tab tables s a" "spec_wf a" "hashes_honest (lib_hash lib) a"
    and "hs_lib host = lib" "uint (host_now_ms host n) < 2 ^ 63" "st_blocks a i = None"
    and "bs_put ops s session (fresh_block host i kind body pr (host_now_ms host n) prov) = Inr (j, s')"
  shows "sound_store lib tab tables s'"
proof -
  let ?b = "fresh_block host i kind body pr (host_now_ms host n) prov"
  have "fresh_for ?b a" using assms(7) by (simp add: fresh_for_def)
  with store_contract.put_law [OF assms(1-3) fresh_block_storable [OF assms(6)] assms(8)]
  show ?thesis
    using spec_wf_put [OF assms(3)] hashes_honest_ops(1) [OF assms(4), of ?b session] assms(5)
    by (intro sound_storeI [of _ _ _ _ "snd (spec_put session ?b a)"]) simp_all
qed

lemma cli_repair_sound:
  fixes st :: "(('t, 'd) opened, 't) cli_state"
  assumes "lmdb lib tab" "host_rel lib tab tables s a" "spec_wf a" "hashes_honest (lib_hash lib) a" "hs_lib host = lib"
    and "cli_repair host yes (cli_start s) = (Inr (), st)"
  shows "sound_store lib tab tables (cs_store st)"
proof -
  from assms(6) obtain l rep l' where l: "s = Backend_Lmdb l" "lmdb_repair lib (hs_id_order host) l = Inr (rep, l')"
    and st: "repair_report_lines rep (cli_start (Backend_Lmdb l')) = (Inr (), st)"
    using assms(5) by (cases s) (auto simp: cli_repair_def cbind_Inr cli_Inr rbind_Inr_iff lmdb_of_def as_lmdb_def
        cli_start_def split: if_splits)
  have "cs_store st = Backend_Lmdb l'"
    by (rule prints_run [OF repair_report_prints [of rep], of "cli_start (Backend_Lmdb l') :: (('t, 'd) opened, 't) cli_state"])
      (use st in simp)
  moreover have "lmdb_rel lib tab l' a"
    using lmdb.repair_sound [OF assms(1) _ assms(3) l(2)] assms(2) by (simp add: host_rel_def backend_rel_def l(1))
  ultimately show ?thesis
    using assms(3,4) by (intro sound_storeI [of _ _ _ _ a]) (simp_all add: host_rel_def backend_rel_def)
qed

lemma purge_sound:
  assumes "store_contract ops (host_rel lib tab tables) pg_storable"
    and "host_rel lib tab tables s a" "spec_wf a" "hashes_honest (lib_hash lib) a"
    and "purge ops b session yes (cli_start s) = (Inr (), st)"
  shows "sound_store lib tab tables (cs_store st)"
proof -
  consider i x s' where "bs_delete ops s i = Inr (x, s')" "cs_store st = s'"
    | t n s' where "bs_purge_session ops s t = Inr (n, s')" "cs_store st = s'"
    using assms(5) unfolding purge_def
    by (cases b; cases session) (auto simp: cbind_Inr cli_Inr cli_start_def split: if_splits)
  then show ?thesis
  proof cases
    case 1
    from store_contract.delete_law [OF assms(1-3) 1(1)]
    have "host_rel lib tab tables s' (spec_remove {i} a) \<or> host_rel lib tab tables s' a" by blast
    then show ?thesis
      using sound_storeI [OF _ spec_wf_remove [OF assms(3)] hashes_honest_ops(2) [OF assms(4)]]
        sound_storeI [OF _ assms(3,4)] 1(2) by blast
  next
    case 2
    from store_contract.purge_law [OF assms(1-3) 2(1)] show ?thesis
      using sound_storeI [OF _ spec_wf_purge [OF assms(3)] hashes_honest_ops(4) [OF assms(4)]] 2(2) by blast
  qed
qed

lemma command_sound:
  assumes "lmdb lib tab" "postgres plib tables collate" "sound_store lib tab tables s"
    and "hs_lib host = lib" "hs_pg host = plib"
    and fresh: "\<And>n i a. host_block_id host n = Some i \<Longrightarrow> host_rel lib tab tables s a \<Longrightarrow> st_blocks a i = None"
    and clock: "\<And>n. uint (host_now_ms host n) < 2 ^ 63"
    and run: "dispatch_store host io config c (cli_start s) = (r, st)"
  shows "sound_store lib tab tables (cs_store st)"
proof (cases r)
  case (Inl e)
  with dispatch_store_all [of host io config c] run have "cs_store st = s"
    by (auto simp: all_or_nothing_def cli_start_def dest: spec [of _ "cli_start s"])
  with assms(3) show ?thesis by simp
next
  case (Inr u)
  with run have ok: "dispatch_store host io config c (cli_start s) = (Inr (), st)" by simp
  note contract = host_contract [of host, unfolded assms(4,5), OF assms(1,2)]
  from assms(3) obtain a where a: "host_rel lib tab tables s a" "spec_wf a" "hashes_honest (lib_hash lib) a"
    by (auto simp: sound_store_def)
  note put = put_block_sound [OF contract a assms(4) clock]
  show ?thesis
  proof (cases "writes c")
    case False
    with dispatch_store_keeps [OF False, of host io config] ok assms(3) show ?thesis
      by (auto simp: keeps_def cli_start_def dest: spec [of _ "cli_start s"])
  next
    case True
    then show ?thesis
    proof (cases c)
      case (Cmd_Put session kind priority name)
      with ok have "cli_put host (host_ops host) (ci_read_file io) (ci_stdin io) session (kind_of_arg kind) priority name
          (cli_start s) = (Inr (), st)" by simp
      then show ?thesis
        by (rule cli_put_Inr) (auto simp: cli_start_def intro: put [OF fresh [OF _ a(1)]])
    next
      case (Cmd_AddEdge from' to' kind)
      with ok obtain s' where "bs_put_edge (host_ops host) s \<lparr>edge_from = from', edge_to = to', edge_kind = edge_kind_of_arg kind\<rparr>
          = Inr ((), s')" "cs_store st = s'"
        by (auto simp: add_edge_def cbind_Inr cli_Inr cli_start_def)
      with store_contract.put_edge_law [OF contract a(1,2) this(1)] show ?thesis
        using sound_storeI [OF _ spec_wf_put_edge [OF a(2)] hashes_honest_ops(5) [OF a(3)]] by simp
    next
      case (Cmd_Repair yes)
      with cli_repair_sound [OF assms(1) a assms(4)] ok show ?thesis by simp
    next
      case (Cmd_Purge b session yes)
      with purge_sound [OF contract a] ok show ?thesis by simp
    next
      case (Cmd_Summarize args)
      with ok True have "cli_summarize host (host_ops host) args (cli_start s) = (Inr (), st)" "sa_store_summary args"
        by simp_all
      then obtain i body prov j s' where "host_block_id host 1 = Some i" and
        "bs_put (host_ops host) s (sa_session args) (fresh_block host i Kind_Summary body f32_0 (host_now_ms host 0) prov) = Inr (j, s')"
        "cs_store st = s'"
        by (auto simp: cli_summarize_def Let_def cwhen_def new_block_id_def cbind_Inr cli_Inr cli_start_def)
      with put [OF fresh [OF _ a(1)]] show ?thesis by blast
    qed auto
  qed
qed

lemma cli_reached_sound:
  assumes "lmdb lib tab" "postgres plib tables collate" "cli_reached hosts lib tab plib tables s"
  shows "sound_store lib tab tables s"
  using assms(3)
proof induction
  case (reached_start s)
  then show ?case
    by (rule sound_storeI) (rule spec_wf_empty, simp add: hashes_honest_def spec_empty_def)
next
  case (reached_command s host io config c r st)
  show ?case
    by (rule command_sound [OF assms(1,2) reached_command(8) reached_command(3,4) _ _ reached_command(7)])
      (use reached_command(5,6) in blast)+
qed

text \<open>
  C17: no sequence of commands, puts, edges, purges, summaries and repairs, failed ones among
  them, makes the integrity check fail: \<open>verify\<close> on a store reached from an empty one never ends in
  "integrity check failed", and when it ends well its last line is "OK".
\<close>

theorem cli_verify_passes:
  fixes st :: "(('t, 'd) opened, 't) cli_state"
  assumes "lmdb lib tab" "postgres plib tables collate" "cli_reached hosts lib tab plib tables s"
    and "hs_lib host = lib" "\<And>xs. set (hs_id_order host xs) = set xs"
    and "dispatch_store host io config Cmd_Verify (cli_start s) = (r, st)"
  shows "r \<noteq> Inl (Message ''integrity check failed'') \<and> (r = Inr () \<longrightarrow> (\<exists>pre. cs_out st = pre @ ''OK'' @ nl))"
proof -
  from cli_reached_sound [OF assms(1-3)] obtain a where
    a: "host_rel lib tab tables s a" "spec_wf a" "hashes_honest (lib_hash lib) a" by (auto simp: sound_store_def)
  show ?thesis
  proof (cases s)
    case (Backend_Pg d)
    with assms(6) show ?thesis
      by (auto simp: cli_verify_def cbind_def cget_def lmdb_of_def as_lmdb_def)
  next
    case (Backend_Lmdb l)
    then have l: "lmdb_rel lib tab l a" using a(1) by (simp add: host_rel_def backend_rel_def)
    show ?thesis
    proof (cases "lmdb_verify lib (hs_id_order host) l")
      case (Inl e)
      with Backend_Lmdb assms(4,6) show ?thesis
        by (auto simp: cli_verify_def cbind_def cget_def lmdb_of_def as_lmdb_def)
    next
      case (Inr rep)
      have "is_clean rep"
        using lmdb.verify_spec [OF assms(1) l a(2) _ assms(5) Inr] a(3) by (simp add: hashes_honest_def)
      moreover from assms(6) Backend_Lmdb Inr assms(4) have
        "cbind (verify_report_lines rep) (\<lambda>_. if is_clean rep then println (nl @ ''OK'')
           else cfail (Message ''integrity check failed'')) (cli_start s) = (r, st)"
        by (simp add: cli_verify_def cbind_def cget_def lmdb_of_def as_lmdb_def)
      moreover have "prints (verify_report_lines rep :: (('t, 'd) opened, 't, unit) cli)"
        unfolding verify_report_lines_def by (intro prints_intros)
      then obtain st1 :: "(('t, 'd) opened, 't) cli_state"
        where "verify_report_lines rep (cli_start s) = (Inr (), st1)" by (rule prints_run)
      ultimately have "r = Inr ()" "cs_out st = (cs_out st1 @ nl) @ ''OK'' @ nl"
        by (auto simp: cbind_def print_def)
      then show ?thesis by blast
    qed
  qed
qed

end
