(* ===== verification/Py_Types.thy ===== *)
theory Py_Types
  imports Host Cli_Args
begin

text \<open>
  The Python bindings, \<open>src/python/src\<close>: the values that cross to Python (\<open>types.rs\<close>), the parsers
  of the arguments that come from it (\<open>store.rs\<close>), and the retriever that wraps a Python object
  (\<open>python_traits.rs\<close>). A Python object is what its attributes and calls give. The \<open>__repr__\<close>
  methods, which only print, are left out.
\<close>

section \<open>Values\<close>

record py_provenance =
  pv_source :: "bytes option"
  pv_parents :: "bytes list"
  pv_labels :: "bytes list"

definition py_provenance_of :: "provenance \<Rightarrow> py_provenance" where
  "py_provenance_of p =
     \<lparr>pv_source = prov_source p, pv_parents = map block_id_display (prov_parents p), pv_labels = prov_labels p\<rparr>"

definition hash_hex :: "content_hash \<Rightarrow> bytes" where
  "hash_hex h = hex_pad 64 (unat h)"

fun py_kind_to_str :: "block_kind \<Rightarrow> bytes" where
  "py_kind_to_str Kind_System = ''System''"
| "py_kind_to_str Kind_UserMessage = ''UserMessage''"
| "py_kind_to_str Kind_AssistantMessage = ''AssistantMessage''"
| "py_kind_to_str Kind_ToolResult = ''ToolResult''"
| "py_kind_to_str Kind_Summary = ''Summary''"
| "py_kind_to_str Kind_Fact = ''Fact''"
| "py_kind_to_str Kind_DocumentChunk = ''DocumentChunk''"
| "py_kind_to_str Kind_Plan = ''Plan''"
| "py_kind_to_str Kind_State = ''State''"
| "py_kind_to_str Kind_Trace = ''Trace''"

record py_block =
  pyb_id :: bytes
  pyb_kind :: bytes
  pyb_body :: bytes
  pyb_priority :: f32
  pyb_created_at :: u64
  pyb_updated_at :: u64
  pyb_hash :: bytes
  pyb_provenance :: py_provenance

definition py_block_of :: "context_block \<Rightarrow> py_block" where
  "py_block_of b =
     \<lparr>pyb_id = block_id_display (cb_id b), pyb_kind = py_kind_to_str (cb_kind b), pyb_body = cb_bytes b,
      pyb_priority = cb_priority b, pyb_created_at = cb_created_at b, pyb_updated_at = cb_updated_at b,
      pyb_hash = hash_hex (cb_hash b), pyb_provenance = py_provenance_of (cb_provenance b)\<rparr>"

record py_omitted =
  pyo_block_id :: bytes
  pyo_reason :: bytes
  pyo_score :: f32

definition py_omitted_of :: "omitted_block \<Rightarrow> py_omitted" where
  "py_omitted_of o' =
     \<lparr>pyo_block_id = block_id_display (om_block_id o'), pyo_reason = omission_reason_debug (om_reason o'),
      pyo_score = om_score o'\<rparr>"

fun selection_reason_to_str :: "selection_reason \<Rightarrow> bytes" where
  "selection_reason_to_str Pinned = ''pinned''"
| "selection_reason_to_str HighRelevance = ''high-relevance''"
| "selection_reason_to_str Recency = ''recency''"
| "selection_reason_to_str Dependency = ''dependency''"
| "selection_reason_to_str GlobalFact = ''global-fact''"
| "selection_reason_to_str Reason_ToolResult = ''tool-result''"

record py_selection =
  pys_block_id :: bytes
  pys_score :: f32
  pys_reason :: bytes
  pys_note :: "bytes option"

definition py_selection_of :: "selection \<Rightarrow> py_selection" where
  "py_selection_of s =
     \<lparr>pys_block_id = block_id_display (sel_block_id s), pys_score = sel_score s,
      pys_reason = selection_reason_to_str (sel_reason s), pys_note = sel_note s\<rparr>"

record py_plan =
  pyp_selected :: "bytes list"
  pyp_selections :: "py_selection list"
  pyp_omitted :: "py_omitted list"
  pyp_estimated_tokens :: u32

definition py_plan_of :: "page_plan \<Rightarrow> py_plan" where
  "py_plan_of plan =
     \<lparr>pyp_selected = map block_id_display (pp_selected plan), pyp_selections = map py_selection_of (pp_selections plan),
      pyp_omitted = map py_omitted_of (pp_omitted plan), pyp_estimated_tokens = pp_estimated_tokens plan\<rparr>"

fun chat_role_to_str :: "chat_role \<Rightarrow> bytes" where
  "chat_role_to_str Role_System = ''system''"
| "chat_role_to_str Role_User = ''user''"
| "chat_role_to_str Role_Assistant = ''assistant''"
| "chat_role_to_str Role_Tool = ''tool''"

fun section_kind_to_str :: "section_kind \<Rightarrow> bytes" where
  "section_kind_to_str Sec_System = ''system''"
| "section_kind_to_str Sec_Task = ''task''"
| "section_kind_to_str Sec_State = ''state''"
| "section_kind_to_str Sec_Plan = ''plan''"
| "section_kind_to_str Sec_Retrieved = ''retrieved''"
| "section_kind_to_str Sec_Tools = ''tools''"
| "section_kind_to_str Sec_Recent = ''recent''"
| "section_kind_to_str Sec_Background = ''background''"
| "section_kind_to_str Sec_Slack = ''slack''"

record py_chat_message =
  pyc_role :: bytes
  pyc_content :: bytes
  pyc_section :: "bytes option"

definition py_chat_message_of :: "chat_message \<Rightarrow> py_chat_message" where
  "py_chat_message_of m =
     \<lparr>pyc_role = chat_role_to_str (cm_role m), pyc_content = cm_content m,
      pyc_section = map_option section_kind_to_str (cm_section m)\<rparr>"

record py_pack_result =
  pyr_rendered :: "bytes option"
  pyr_messages :: "py_chat_message list option"
  pyr_cache_boundary :: "nat option"
  pyr_trace_id :: "bytes option"

record py_model =
  pym_name :: bytes
  pym_max_context_tokens :: u32
  pym_reserved_output_tokens :: u32
  pym_safety_margin_tokens :: u32
  pym_tokenizer :: bytes
  pym_supports_system_role :: bool
  pym_supports_tools :: bool

definition py_model_of :: "model_profile \<Rightarrow> py_model" where
  "py_model_of p =
     \<lparr>pym_name = mp_name p, pym_max_context_tokens = mp_max_context_tokens p,
      pym_reserved_output_tokens = mp_reserved_output_tokens p, pym_safety_margin_tokens = mp_safety_margin_tokens p,
      pym_tokenizer = mp_tokenizer p, pym_supports_system_role = mp_supports_system_role p,
      pym_supports_tools = mp_supports_tools p\<rparr>"

text \<open>The function of the module that lists the models the program comes with.\<close>

definition py_list_models :: "models_file \<Rightarrow> py_model list" where
  "py_list_models file = map py_model_of (reg_profiles (registry_of_file file))"

record py_trace =
  pyt_call_id :: bytes
  pyt_session :: bytes
  pyt_model :: bytes
  pyt_plan :: py_plan
  pyt_prompt_tokens :: u32
  pyt_prompt_hash :: bytes
  pyt_started_at :: u64
  pyt_duration_ms :: u32
  pyt_model_version :: bytes
  pyt_tokenizer_version :: bytes
  pyt_output :: "bytes option"
  pyt_output_tokens :: "u32 option"

definition py_trace_of :: "trace_record \<Rightarrow> py_trace" where
  "py_trace_of t =
     \<lparr>pyt_call_id = call_id_display (tr_call_id t), pyt_session = session_id_display (tr_session t),
      pyt_model = tr_model t, pyt_plan = py_plan_of (tr_plan t), pyt_prompt_tokens = tr_prompt_tokens t,
      pyt_prompt_hash = hash_hex (tr_prompt_hash t), pyt_started_at = tr_started_at t,
      pyt_duration_ms = tr_duration_ms t, pyt_model_version = tr_model_version t,
      pyt_tokenizer_version = tr_tokenizer_version t, pyt_output = tr_output t,
      pyt_output_tokens = tr_output_tokens t\<rparr>"

section \<open>Arguments\<close>

text \<open>\<open>Py_Raised\<close> is an exception of Python itself, and \<open>Py_Panic\<close> what PyO3 makes of a panic.\<close>

datatype py_error =
  LLM386Error bytes | PyTypeError bytes | PyAttributeError bytes | Py_Raised bytes | Py_Panic bytes

definition hex_u128 :: "bytes \<Rightarrow> parse_int_error + u128" where
  "hex_u128 s = rbind (parse_int 128 16 s) (\<lambda>n. Inr (word_of_nat n))"

definition py_parse_id :: "bytes \<Rightarrow> bytes \<Rightarrow> py_error + u128" where
  "py_parse_id what s =
     map_err (\<lambda>e. LLM386Error (''invalid '' @ what @ '' `'' @ s @ ''`: '' @ parse_int_error_display e)) (hex_u128 s)"

definition py_parse_call_id :: "bytes \<Rightarrow> py_error + call_id" where
  "py_parse_call_id = py_parse_id ''call id''"

definition py_parse_block_id :: "bytes \<Rightarrow> py_error + block_id" where
  "py_parse_block_id = py_parse_id ''block id''"

definition py_parse_kind :: "bytes \<Rightarrow> py_error + block_kind" where
  "py_parse_kind s =
     (if s = ''system'' \<or> s = ''System'' then Inr Kind_System
      else if s = ''user-message'' \<or> s = ''UserMessage'' then Inr Kind_UserMessage
      else if s = ''assistant-message'' \<or> s = ''AssistantMessage'' then Inr Kind_AssistantMessage
      else if s = ''tool-result'' \<or> s = ''ToolResult'' then Inr Kind_ToolResult
      else if s = ''summary'' \<or> s = ''Summary'' then Inr Kind_Summary
      else if s = ''fact'' \<or> s = ''Fact'' then Inr Kind_Fact
      else if s = ''document-chunk'' \<or> s = ''DocumentChunk'' then Inr Kind_DocumentChunk
      else if s = ''plan'' \<or> s = ''Plan'' then Inr Kind_Plan
      else if s = ''state'' \<or> s = ''State'' then Inr Kind_State
      else if s = ''trace'' \<or> s = ''Trace'' then Inr Kind_Trace
      else Inl (LLM386Error (''unknown block kind: '' @ s)))"

definition py_parse_edge_kind :: "bytes \<Rightarrow> py_error + edge_kind" where
  "py_parse_edge_kind s =
     (if s = ''parent'' \<or> s = ''Parent'' then Inr Parent
      else if s = ''derived-from'' \<or> s = ''DerivedFrom'' then Inr DerivedFrom
      else if s = ''supports'' \<or> s = ''Supports'' then Inr Supports
      else if s = ''contradicts'' \<or> s = ''Contradicts'' then Inr Contradicts
      else if s = ''tool-invocation'' \<or> s = ''ToolInvocation'' then Inr ToolInvocation
      else Inl (LLM386Error (''unknown edge kind: '' @ s)))"

fun py_edge_kind_to_str :: "edge_kind \<Rightarrow> bytes" where
  "py_edge_kind_to_str Parent = ''parent''"
| "py_edge_kind_to_str DerivedFrom = ''derived-from''"
| "py_edge_kind_to_str Supports = ''supports''"
| "py_edge_kind_to_str Contradicts = ''contradicts''"
| "py_edge_kind_to_str ToolInvocation = ''tool-invocation''"

text \<open>The body of a put: bytes, a string that may not be encodable, or anything else.\<close>

datatype py_body = Body_Bytes bytes | Body_Str "bytes + bytes" | Body_Other

definition py_body_bytes :: "py_body \<Rightarrow> py_error + bytes" where
  "py_body_bytes body =
     (case body of
        Body_Bytes b \<Rightarrow> Inr b
      | Body_Str r \<Rightarrow> map_err Py_Raised r
      | Body_Other \<Rightarrow> Inl (PyTypeError ''body must be bytes or str''))"

section \<open>Python retrievers\<close>

text \<open>
  Reading the attribute \<open>name\<close> fails, gives no string, or gives one; a call of \<open>retrieve\<close>
  raises, returns something of another shape, or returns pairs of an id and a score.
\<close>

record py_object =
  po_name :: "bytes + (bytes + bytes)"
  po_retrieve :: "u128 \<Rightarrow> bytes \<Rightarrow> nat \<Rightarrow> bytes + (bytes + (bytes \<times> f32) list)"

definition py_candidate :: "bytes \<Rightarrow> bytes \<times> f32 \<Rightarrow> retrieval_error + retrieval_candidate" where
  "py_candidate name p =
     (case p of (id_str, score) \<Rightarrow>
        rbind (map_err (\<lambda>e. RetrievalFailed (''invalid block id `'' @ id_str @ ''`: '' @ parse_int_error_display e))
          (hex_u128 id_str)) (\<lambda>i.
        Inr \<lparr>rc_block_id = i, rc_score = fclamp score f32_0 f32_1, rc_source = name\<rparr>))"

definition py_retrieve :: "py_object \<Rightarrow> bytes \<Rightarrow> session_id \<Rightarrow> bytes \<Rightarrow> nat \<Rightarrow> retrieval_error + retrieval_candidate list" where
  "py_retrieve obj name session task limit =
     rbind (map_err (\<lambda>e. RetrievalFailed (''python retrieve: '' @ e)) (po_retrieve obj session task limit)) (\<lambda>result.
     rbind (map_err (\<lambda>e. RetrievalFailed (''python retrieve must return list[tuple[str, float]]: '' @ e)) result) (\<lambda>raws.
     map_res (py_candidate name) raws))"

definition py_retriever_new :: "py_object \<Rightarrow> py_error + retriever" where
  "py_retriever_new obj =
     rbind (map_err (\<lambda>e. PyAttributeError (''python retriever object missing `name` attribute: '' @ e)) (po_name obj)) (\<lambda>attr.
     rbind (map_err (\<lambda>e. PyTypeError (''python retriever `name` must be a str: '' @ e)) attr) (\<lambda>name.
     Inr \<lparr>ret_name = name, ret_retrieve = py_retrieve obj name\<rparr>))"

section \<open>Round trips\<close>

lemma hex_u128_display: "hex_u128 (block_id_display i) = Inr i"
proof -
  have "unat i < 2 ^ 128" using unat_lt_max [of i] by simp
  then have "parse_int 128 16 (hex_pad 32 (unat i)) = Inr (unat i)"
    by (simp add: parse_int_Inr from_str_radix_hex_pad)
  then show ?thesis by (simp add: hex_u128_def block_id_display_def)
qed

lemma py_parse_id_display [simp]:
  "py_parse_block_id (block_id_display i) = Inr i" "py_parse_call_id (call_id_display i) = Inr i"
  using hex_u128_display [of i]
  by (simp_all add: py_parse_block_id_def py_parse_call_id_def py_parse_id_def call_id_display_def block_id_display_def)

lemma py_parse_edge_kind_str [simp]: "py_parse_edge_kind (py_edge_kind_to_str k) = Inr k"
  by (cases k) (simp_all add: py_parse_edge_kind_def)

lemma py_parse_kind_str [simp]: "py_parse_kind (py_kind_to_str k) = Inr k"
  by (cases k) (simp_all add: py_parse_kind_def)

end
