(* ===== verification/Py_Store.thy ===== *)
theory Py_Store
  imports Py_Types
begin

text \<open>
  \<open>src/python/src/store.rs\<close>: the class \<open>Store\<close> and the class \<open>Trace\<close>. A method is a function of the
  object, which it returns updated when it changes it; a failed method leaves it as it was. A
  closed store has no backend. The traces a call records are the sink it returns.
\<close>

record ('t, 'd) py_store =
  ps_inner :: "('t, 'd) opened option"
  ps_tokenizers :: tokenizer_registry
  ps_models :: model_registry
  ps_retriever_entries :: "retriever_entry list"
  ps_section_budgets :: "section_budget_table option"
  ps_packer_options :: packer_options
  ps_edge_policy :: "edge_policy option"
  ps_python_retrievers :: "retriever list"

abbreviation err :: "bytes \<Rightarrow> py_error" where
  "err \<equiv> LLM386Error"

text \<open>An error of a call below, with the label of the method.\<close>

abbreviation labelled :: "bytes \<Rightarrow> ('e \<Rightarrow> bytes) \<Rightarrow> 'e + 'a \<Rightarrow> py_error + 'a" where
  "labelled label display m \<equiv> map_err (\<lambda>e. LLM386Error (label @ '': '' @ display e)) m"

definition py_new :: "('e, 't, 'd, 'k, 'c) host \<Rightarrow> bytes option \<Rightarrow> bytes option \<Rightarrow> bytes option \<Rightarrow> py_error + ('t, 'd) py_store" where
  "py_new host path url profiles =
     rbind (labelled ''init tokenizers'' tokenizer_error_display (host_tokenizers host)) (\<lambda>tokenizers.
     rbind (map_err err (load_applied host (registry_of_file (hs_models host)) tokenizers profiles)) (\<lambda>config.
     rbind (map_err err (host_open_backend host (ld_store config) path url)) (\<lambda>inner.
     Inr \<lparr>ps_inner = Some inner, ps_tokenizers = ld_tokenizers config, ps_models = ld_models config,
          ps_retriever_entries = ld_retriever_entries config, ps_section_budgets = ld_section_budgets config,
          ps_packer_options = ld_packer_options config, ps_edge_policy = ld_edge_policy config,
          ps_python_retrievers = []\<rparr>)))"

definition py_close :: "('t, 'd) py_store \<Rightarrow> ('t, 'd) py_store" where
  "py_close self = self\<lparr>ps_inner := None, ps_python_retrievers := []\<rparr>"

definition add_python_retriever :: "('t, 'd) py_store \<Rightarrow> py_object \<Rightarrow> py_error + ('t, 'd) py_store" where
  "add_python_retriever self obj =
     rbind (py_retriever_new obj) (\<lambda>r. Inr (self\<lparr>ps_python_retrievers := ps_python_retrievers self @ [r]\<rparr>))"

definition clear_python_retrievers :: "('t, 'd) py_store \<Rightarrow> ('t, 'd) py_store" where
  "clear_python_retrievers self = self\<lparr>ps_python_retrievers := []\<rparr>"

definition ensure_open :: "('t, 'd) py_store \<Rightarrow> py_error + ('t, 'd) opened" where
  "ensure_open self = ok_or (err ''store is closed'') (ps_inner self)"

text \<open>A method that writes: the backend after it takes the place of the one before.\<close>

definition py_writes ::
    "('t, 'd) py_store \<Rightarrow> bytes \<Rightarrow> (('t, 'd) opened \<Rightarrow> store_error + 'a \<times> ('t, 'd) opened) \<Rightarrow> py_error + 'a \<times> ('t, 'd) py_store" where
  "py_writes self label f =
     rbind (ensure_open self) (\<lambda>inner.
     rbind (labelled label store_error_display (f inner)) (\<lambda>(x, inner').
     Inr (x, self\<lparr>ps_inner := Some inner'\<rparr>)))"

definition py_reads :: "('t, 'd) py_store \<Rightarrow> bytes \<Rightarrow> (('t, 'd) opened \<Rightarrow> store_error + 'a) \<Rightarrow> py_error + 'a" where
  "py_reads self label f = rbind (ensure_open self) (\<lambda>inner. labelled label store_error_display (f inner))"

section \<open>Blocks and edges\<close>

definition py_block_id :: "('e, 't, 'd, 'k, 'c) host \<Rightarrow> nat \<Rightarrow> py_error + block_id" where
  "py_block_id host n = ok_or (Py_Panic ''getrandom failed'') (host_block_id host n)"

definition py_fresh_block ::
    "('e, 't, 'd, 'k, 'c) host \<Rightarrow> block_id \<Rightarrow> block_kind \<Rightarrow> bytes \<Rightarrow> f32 \<Rightarrow> timestamp \<Rightarrow> provenance \<Rightarrow> context_block" where
  "py_fresh_block host i kind body priority now prov =
     \<lparr>cb_id = i, cb_kind = kind, cb_bytes = body, cb_token_counts = tc_new, cb_priority = priority,
      cb_created_at = now, cb_updated_at = now, cb_provenance = prov, cb_hash = lib_hash (hs_lib host) body\<rparr>"

definition py_put ::
    "('e, 't, 'd, 'k, 'c) host \<Rightarrow> ('t, 'd) py_store \<Rightarrow> u128 \<Rightarrow> bytes \<Rightarrow> py_body \<Rightarrow> f32 \<Rightarrow> py_error + bytes \<times> ('t, 'd) py_store" where
  "py_put host self session kind body priority =
     rbind (py_body_bytes body) (\<lambda>bs.
     rbind (py_parse_kind kind) (\<lambda>block_kind.
     rbind (py_block_id host 0) (\<lambda>i.
     rbind (py_writes self ''put'' (\<lambda>s. bs_put (host_ops host) s session
       (py_fresh_block host i block_kind bs priority (host_now_ms host 1) provenance_default))) (\<lambda>(stored, self').
     Inr (block_id_display stored, self')))))"

definition py_show :: "('e, 't, 'd, 'k, 'c) host \<Rightarrow> ('t, 'd) py_store \<Rightarrow> bytes \<Rightarrow> py_error + py_block" where
  "py_show host self block_id =
     rbind (py_parse_block_id block_id) (\<lambda>i.
     rbind (py_reads self ''get'' (\<lambda>s. bs_get (host_ops host) s i)) (\<lambda>found.
     rbind (ok_or (err (''block not found: '' @ block_id)) found) (\<lambda>b. Inr (py_block_of b))))"

definition py_list_sessions :: "('e, 't, 'd, 'k, 'c) host \<Rightarrow> ('t, 'd) py_store \<Rightarrow> py_error + bytes list" where
  "py_list_sessions host self =
     rbind (py_reads self ''list_sessions'' (bs_list_sessions (host_ops host))) (\<lambda>ss. Inr (map session_id_display ss))"

definition py_delete :: "('e, 't, 'd, 'k, 'c) host \<Rightarrow> ('t, 'd) py_store \<Rightarrow> bytes \<Rightarrow> py_error + bool \<times> ('t, 'd) py_store" where
  "py_delete host self block_id =
     rbind (py_parse_block_id block_id) (\<lambda>i. py_writes self ''delete'' (\<lambda>s. bs_delete (host_ops host) s i))"

definition py_purge_session :: "('e, 't, 'd, 'k, 'c) host \<Rightarrow> ('t, 'd) py_store \<Rightarrow> u128 \<Rightarrow> py_error + nat \<times> ('t, 'd) py_store" where
  "py_purge_session host self session =
     py_writes self ''purge_session'' (\<lambda>s. bs_purge_session (host_ops host) s session)"

definition py_add_edge ::
    "('e, 't, 'd, 'k, 'c) host \<Rightarrow> ('t, 'd) py_store \<Rightarrow> bytes \<Rightarrow> bytes \<Rightarrow> bytes \<Rightarrow> py_error + unit \<times> ('t, 'd) py_store" where
  "py_add_edge host self from_id to_id kind =
     rbind (py_parse_block_id from_id) (\<lambda>i.
     rbind (py_parse_block_id to_id) (\<lambda>j.
     rbind (py_parse_edge_kind kind) (\<lambda>k.
     py_writes self ''put_edge'' (\<lambda>s. bs_put_edge (host_ops host) s \<lparr>edge_from = i, edge_to = j, edge_kind = k\<rparr>))))"

definition py_edges_from :: "('e, 't, 'd, 'k, 'c) host \<Rightarrow> ('t, 'd) py_store \<Rightarrow> bytes \<Rightarrow> py_error + (bytes \<times> bytes) list" where
  "py_edges_from host self block_id =
     rbind (py_parse_block_id block_id) (\<lambda>i.
     rbind (py_reads self ''edges_from'' (\<lambda>s. bs_edges_from (host_ops host) s i)) (\<lambda>es.
     Inr (map (\<lambda>e. (block_id_display (edge_to e), py_edge_kind_to_str (edge_kind e))) es)))"

definition py_edges_to :: "('e, 't, 'd, 'k, 'c) host \<Rightarrow> ('t, 'd) py_store \<Rightarrow> bytes \<Rightarrow> py_error + (bytes \<times> bytes) list" where
  "py_edges_to host self block_id =
     rbind (py_parse_block_id block_id) (\<lambda>i.
     rbind (py_reads self ''edges_to'' (\<lambda>s. bs_edges_to (host_ops host) s i)) (\<lambda>es.
     Inr (map (\<lambda>e. (block_id_display (edge_from e), py_edge_kind_to_str (edge_kind e))) es)))"

section \<open>Paging\<close>

definition py_profile_and_tokenizer :: "('t, 'd) py_store \<Rightarrow> bytes \<Rightarrow> py_error + model_profile \<times> tokenizer" where
  "py_profile_and_tokenizer self model_name =
     rbind (ok_or (Py_Panic ''ModelRegistry is empty and has no default'') (resolve model_name (ps_models self))) (\<lambda>(profile, _).
     rbind (ok_or (err (''no tokenizer adapter for '' @ mp_tokenizer profile @ '' (used by model '' @ mp_name profile @ '')''))
       (tokenizers_get (ps_tokenizers self) (mp_tokenizer profile))) (\<lambda>tok.
     Inr (profile, tok)))"

text \<open>The retrievers of the file, then the Python ones; the default ones stay only when there is none.\<close>

definition py_make_pager ::
    "('e, 't, 'd, 'k, 'c) host \<Rightarrow> ('t, 'd) py_store \<Rightarrow> store_view \<Rightarrow> tokenizer \<Rightarrow> py_error + greedy_pager" where
  "py_make_pager host self view tok =
     (let gp = greedy_pager_new (rv_exp2 (hs_retrievers host)) view tok in
      rbind (map_err err (build_retrievers (hs_retrievers host) (ps_retriever_entries self) view)) (\<lambda>built.
      let rs = (case built of Some rs \<Rightarrow> rs | None \<Rightarrow> []) @ ps_python_retrievers self;
          gp = (if rs \<noteq> [] then with_retrievers rs gp else gp);
          gp = (case ps_section_budgets self of Some t \<Rightarrow> with_budgets t gp | None \<Rightarrow> gp)
      in Inr (case ps_edge_policy self of Some p \<Rightarrow> with_edge_policy p gp | None \<Rightarrow> gp)))"

definition py_plan_with ::
    "('e, 't, 'd, 'k, 'c) host \<Rightarrow> ('t, 'd) py_store \<Rightarrow> store_view \<Rightarrow> tokenizer \<Rightarrow> page_request \<Rightarrow> py_error + page_plan" where
  "py_plan_with host self view tok req =
     rbind (py_make_pager host self view tok) (\<lambda>gp. labelled ''page'' pager_error_display (run_page host gp req))"

definition py_page ::
    "('e, 't, 'd, 'k, 'c) host \<Rightarrow> ('t, 'd) py_store \<Rightarrow> u128 \<Rightarrow> bytes \<Rightarrow> bytes \<Rightarrow> py_error + py_plan" where
  "py_page host self session model task =
     rbind (py_profile_and_tokenizer self model) (\<lambda>(profile, tok).
     rbind (ensure_open self) (\<lambda>inner.
     rbind (py_plan_with host self (view_of (host_ops host) inner) tok (session_request session task profile)) (\<lambda>plan.
     Inr (py_plan_of plan))))"

section \<open>Packing\<close>

text \<open>The trace of a call of the Python class has the hash of no bytes for its prompt.\<close>

definition py_record_trace ::
    "('e, 't, 'd, 'k, 'c) host \<Rightarrow> bytes \<Rightarrow> page_request \<Rightarrow> page_plan \<Rightarrow> token_count \<Rightarrow> timestamp \<Rightarrow>
       py_error + bytes \<times> 't lmdb_trace_sink" where
  "py_record_trace host path req plan tokens started =
     rbind (labelled ''open trace'' trace_open_error_display (host_open_trace host path)) (\<lambda>sink.
     rbind (ok_or (Py_Panic ''getrandom failed'') (host_call_id host)) (\<lambda>c.
     rbind (labelled ''record trace'' trace_error_display (ts_record (host_sink host) sink
       \<lparr>tr_call_id = c, tr_session = pr_session_id req, tr_model = mp_name (pr_model req), tr_plan = plan,
        tr_prompt_tokens = tokens, tr_prompt_hash = lib_hash (hs_lib host) [], tr_started_at = started,
        tr_duration_ms = host_duration_ms host, tr_model_version = mp_name (pr_model req),
        tr_tokenizer_version = mp_tokenizer (pr_model req), tr_output = None, tr_output_tokens = None\<rparr>)) (\<lambda>sink'.
     Inr (call_id_display c, sink'))))"

definition py_opt_trace ::
    "('e, 't, 'd, 'k, 'c) host \<Rightarrow> bytes option \<Rightarrow> page_request \<Rightarrow> page_plan \<Rightarrow> token_count \<Rightarrow> timestamp \<Rightarrow>
       py_error + bytes option \<times> 't lmdb_trace_sink option" where
  "py_opt_trace host trace req plan tokens started =
     (case trace of
        None \<Rightarrow> Inr (None, None)
      | Some path \<Rightarrow> rbind (py_record_trace host path req plan tokens started) (\<lambda>(i, sink). Inr (Some i, Some sink)))"

definition py_render ::
    "('e, 't, 'd, 'k, 'c) host \<Rightarrow> ('t, 'd) py_store \<Rightarrow> store_view \<Rightarrow> page_request \<Rightarrow> page_plan \<Rightarrow> tokenizer \<Rightarrow> bool \<Rightarrow> bool \<Rightarrow>
       bytes option \<Rightarrow> timestamp \<Rightarrow> py_error + py_pack_result \<times> 't lmdb_trace_sink option" where
  "py_render host self view req plan tok chat timestamps trace started =
     (let opts = (if timestamps then (ps_packer_options self)\<lparr>po_include_timestamps := True\<rparr> else ps_packer_options self);
          packer = make_packer view tok opts
      in if chat
         then
           rbind (labelled ''pack_chat'' packer_error_display (pack_chat (hs_packer host) packer req plan)) (\<lambda>cp.
           rbind (py_opt_trace host trace req plan (cp_input_tokens cp) started) (\<lambda>(trace_id, sink).
           Inr (\<lparr>pyr_rendered = None, pyr_messages = Some (map py_chat_message_of (cp_messages cp)),
                 pyr_cache_boundary = cp_cache_boundary cp, pyr_trace_id = trace_id\<rparr>, sink)))
         else
           rbind (labelled ''pack'' packer_error_display (pack (hs_packer host) packer req plan)) (\<lambda>prompt.
           rbind (py_opt_trace host trace req plan (pk_input_tokens prompt) started) (\<lambda>(trace_id, sink).
           Inr (\<lparr>pyr_rendered = Some (pk_rendered prompt), pyr_messages = None, pyr_cache_boundary = None,
                 pyr_trace_id = trace_id\<rparr>, sink))))"

definition py_pack ::
    "('e, 't, 'd, 'k, 'c) host \<Rightarrow> ('t, 'd) py_store \<Rightarrow> u128 \<Rightarrow> bytes \<Rightarrow> bytes \<Rightarrow> bool \<Rightarrow> bool \<Rightarrow> bytes option \<Rightarrow>
       py_error + py_pack_result \<times> 't lmdb_trace_sink option" where
  "py_pack host self session model task chat timestamps trace =
     rbind (py_profile_and_tokenizer self model) (\<lambda>(profile, tok).
     rbind (ensure_open self) (\<lambda>inner.
     let view = view_of (host_ops host) inner; req = session_request session task profile in
     rbind (py_plan_with host self view tok req) (\<lambda>plan.
     py_render host self view req plan tok chat timestamps trace (host_now_ms host 0))))"

text \<open>The ids of a plan that comes back from Python are parsed again; its selections are dropped.\<close>

definition py_rust_plan :: "py_plan \<Rightarrow> py_error + page_plan" where
  "py_rust_plan plan =
     rbind (labelled ''invalid block id'' parse_block_id_error_display (map_res block_id_from_str (pyp_selected plan))) (\<lambda>selected.
     Inr \<lparr>pp_selected = selected, pp_selections = [], pp_omitted = [], pp_estimated_tokens = pyp_estimated_tokens plan\<rparr>)"

definition py_pack_with_plan ::
    "('e, 't, 'd, 'k, 'c) host \<Rightarrow> ('t, 'd) py_store \<Rightarrow> py_plan \<Rightarrow> u128 \<Rightarrow> bytes \<Rightarrow> bytes \<Rightarrow> bool \<Rightarrow> bool \<Rightarrow> bytes option \<Rightarrow>
       py_error + py_pack_result \<times> 't lmdb_trace_sink option" where
  "py_pack_with_plan host self plan session model task chat timestamps trace =
     rbind (py_profile_and_tokenizer self model) (\<lambda>(profile, tok).
     rbind (py_rust_plan plan) (\<lambda>rust_plan.
     rbind (ensure_open self) (\<lambda>inner.
     py_render host self (view_of (host_ops host) inner) (session_request session task profile) rust_plan tok
       chat timestamps trace (host_now_ms host 0))))"

section \<open>Summaries\<close>

definition py_summarizer ::
    "('e, 't, 'd, 'k, 'c) host \<Rightarrow> bytes \<Rightarrow> nat \<Rightarrow> bytes option \<Rightarrow> u32 option \<Rightarrow> py_error + summarizer" where
  "py_summarizer host name max_chars anthropic_model anthropic_max_tokens =
     (if name = ''noop'' then Inr noop_summarizer
      else if name = ''truncating''
      then Inr (truncating_interface (en_utf8_error (hs_packer host)) (truncating_new max_chars))
      else if name = ''anthropic''
      then rbind (labelled ''anthropic init'' summarizer_error_display (anthropic_from_env (hs_var host ''ANTHROPIC_API_KEY''))) (\<lambda>a.
           Inr (anthropic_interface (en_utf8_error (hs_packer host)) (hs_client host)
             (anthropic_of_flags anthropic_model anthropic_max_tokens a)))
      else Inl (err (''unknown summarizer `'' @ name @ ''` (expected: noop | truncating | anthropic)'')))"

record py_summarize_args =
  py_summarizer_name :: bytes
  py_max_chars :: nat
  py_last :: "nat option"
  py_store_summary :: bool
  py_anthropic_model :: "bytes option"
  py_anthropic_max_tokens :: "u32 option"

definition py_summarize ::
    "('e, 't, 'd, 'k, 'c) host \<Rightarrow> ('t, 'd) py_store \<Rightarrow> u128 \<Rightarrow> py_summarize_args \<Rightarrow> py_error + bytes \<times> ('t, 'd) py_store" where
  "py_summarize host self session args =
     rbind (py_reads self ''list_session'' (\<lambda>s. bs_list_session (host_ops host) s session)) (\<lambda>listed.
     let ids = session_tail (py_last args) listed in
     rbind (py_reads self ''get'' (\<lambda>s. load_blocks (host_ops host) s ids)) (\<lambda>blocks.
     rbind (py_summarizer host (py_summarizer_name args) (py_max_chars args) (py_anthropic_model args)
       (py_anthropic_max_tokens args)) (\<lambda>sm.
     rbind (labelled ''summarize'' summarizer_error_display (sum_summarize sm blocks)) (\<lambda>summary.
     if py_store_summary args
     then
       rbind (py_block_id host 1) (\<lambda>i.
       rbind (py_writes self ''store summary'' (\<lambda>s. bs_put (host_ops host) s session
         (py_fresh_block host i Kind_Summary summary f32_0 (host_now_ms host 0)
           \<lparr>prov_source = Some (''summarize:'' @ sum_name sm), prov_parents = ids, prov_labels = []\<rparr>))) (\<lambda>(_, self').
       Inr (summary, self')))
     else Inr (summary, self)))))"

section \<open>Traces\<close>

definition py_trace_new :: "('e, 't, 'd, 'k, 'c) host \<Rightarrow> bytes \<Rightarrow> py_error + 't lmdb_trace_sink" where
  "py_trace_new host path = labelled ''open trace store'' trace_open_error_display (host_open_trace host path)"

definition py_trace_show :: "('e, 't, 'd, 'k, 'c) host \<Rightarrow> 't lmdb_trace_sink \<Rightarrow> bytes \<Rightarrow> py_error + py_trace" where
  "py_trace_show host sink call_id =
     rbind (py_parse_call_id call_id) (\<lambda>i.
     rbind (labelled ''fetch trace'' trace_error_display (ts_fetch (host_sink host) sink i)) (\<lambda>found.
     rbind (ok_or (err (''no trace for '' @ call_id)) found) (\<lambda>r. Inr (py_trace_of r))))"

definition py_update_output ::
    "('e, 't, 'd, 'k, 'c) host \<Rightarrow> 't lmdb_trace_sink \<Rightarrow> bytes \<Rightarrow> bytes \<Rightarrow> u32 \<Rightarrow> py_error + 't lmdb_trace_sink" where
  "py_update_output host sink call_id output tokens =
     rbind (py_parse_call_id call_id) (\<lambda>i.
     labelled ''update_output'' trace_error_display (update_output (host_sink host) sink i output tokens))"

end
