(* ===== verification/Py_Correct.thy ===== *)
theory Py_Correct
  imports Py_Store Packer_Correct
begin

text \<open>
  The Python class: a plan that comes back from Python, packing it, closed stores, traces, and
  retrievers written in Python.
\<close>

section \<open>Plans that come back\<close>

lemma parse_ids_display: "map_res block_id_from_str (map block_id_display is) = Inr is"
  by (induction "is") (simp_all add: block_id_roundtrip)

lemma py_rust_plan_of:
  "py_rust_plan (py_plan_of plan) =
     Inr \<lparr>pp_selected = pp_selected plan, pp_selections = [], pp_omitted = [],
       pp_estimated_tokens = pp_estimated_tokens plan\<rparr>"
  by (simp add: py_rust_plan_def py_plan_of_def parse_ids_display)

lemma pack_cong:
  "pp_selected p = pp_selected q \<Longrightarrow> collect_notes p = collect_notes q \<Longrightarrow> pack env pk req p = pack env pk req q"
  "pp_selected p = pp_selected q \<Longrightarrow> collect_notes p = collect_notes q \<Longrightarrow>
     pack_chat env pk req p = pack_chat env pk req q"
  by (simp_all add: pack_def pack_chat_def group_selected_def)

lemma collect_notes_none:
  assumes "\<forall>s \<in> set (pp_selections plan). sel_note s = None"
  shows "collect_notes plan = Map.empty"
proof -
  have "fold (\<lambda>s m. case sel_note s of None \<Rightarrow> m | Some n \<Rightarrow> m(sel_block_id s \<mapsto> n)) xs m = m"
    if "\<forall>s \<in> set xs. sel_note s = None" for xs and m :: "block_id \<rightharpoonup> bytes"
    using that by (induction xs) auto
  with assms show ?thesis by (simp add: collect_notes_def)
qed

lemma py_page_Inr:
  assumes "py_page host self session model task = Inr plan"
  obtains profile tok inner p where "py_profile_and_tokenizer self model = Inr (profile, tok)"
    "ensure_open self = Inr inner"
    "py_plan_with host self (view_of (host_ops host) inner) tok (session_request session task profile) = Inr p"
    "plan = py_plan_of p"
  using assms unfolding py_page_def by (auto simp: rbind_Inr_iff)

text \<open>
  C25: packing a plan that was paged before and edited by nobody is packing at once: when no
  selection of the plan has a note, \<open>pack_with_plan\<close> on the plan that \<open>page\<close> gave returns what \<open>pack\<close>
  returns, error or prompt, as a string and as chat messages.
\<close>

theorem py_repack:
  assumes "py_page host self session model task = Inr plan"
    and "\<forall>s \<in> set (pyp_selections plan). pys_note s = None"
  shows "py_pack_with_plan host self plan session model task chat timestamps None =
     py_pack host self session model task chat timestamps None"
proof -
  from assms(1) obtain profile tok inner p where r: "py_profile_and_tokenizer self model = Inr (profile, tok)"
    "ensure_open self = Inr inner"
    "py_plan_with host self (view_of (host_ops host) inner) tok (session_request session task profile) = Inr p"
    and plan: "plan = py_plan_of p"
    by (rule py_page_Inr)
  let ?q = "\<lparr>pp_selected = pp_selected p, pp_selections = [], pp_omitted = [], pp_estimated_tokens = pp_estimated_tokens p\<rparr>"
  have "collect_notes ?q = collect_notes p"
    using assms(2) by (simp add: plan py_plan_of_def py_selection_of_def collect_notes_none)
  then have "pack env pk req ?q = pack env pk req p" "pack_chat env pk req ?q = pack_chat env pk req p" for env pk req
    by (auto intro: pack_cong)
  then show ?thesis
    by (simp add: py_pack_with_plan_def py_pack_def r plan py_rust_plan_of py_render_def py_opt_trace_def Let_def)
qed

text \<open>What \<open>pack_with_plan\<close> makes of a plan does not depend on its selections, notes included.\<close>

lemma py_pack_with_plan_selections:
  "py_pack_with_plan host self (plan\<lparr>pyp_selections := xs, pyp_omitted := ys\<rparr>) session model task chat timestamps trace =
   py_pack_with_plan host self plan session model task chat timestamps trace"
  by (simp add: py_pack_with_plan_def py_rust_plan_def)

section \<open>Closed stores\<close>

text \<open>Every method that reads or writes the store of a closed object fails, and writes nothing.\<close>

lemma py_closed:
  "ensure_open (py_close self) = Inl (LLM386Error ''store is closed'')"
  "py_reads (py_close self) label f = Inl (LLM386Error ''store is closed'')"
  "py_writes (py_close self) label g = Inl (LLM386Error ''store is closed'')"
  by (simp_all add: py_reads_def py_writes_def ensure_open_def py_close_def)

text \<open>A retriever is still taken by a closed object.\<close>

lemma add_python_retriever_closed:
  "py_retriever_new obj = Inr r \<Longrightarrow>
     \<exists>self'. add_python_retriever (py_close self) obj = Inr self' \<and> ps_python_retrievers self' = [r]"
  by (simp add: add_python_retriever_def py_close_def)

section \<open>Traces\<close>

text \<open>The record of a traced call has the hash of no bytes, whatever the prompt is.\<close>

lemma py_record_trace_hash:
  assumes "trace_store (hs_lib host) tab (hs_codec host)"
    and "py_record_trace host path req plan tokens started = Inr (shown, sink)"
  shows "\<exists>c r. shown = call_id_display c \<and> trace_view tab (hs_codec host) sink c = Some r \<and> tr_plan r = plan \<and>
    tr_prompt_tokens r = tokens \<and> tr_prompt_hash r = lib_hash (hs_lib host) []"
proof -
  from assms(2) obtain s c r where "ts_record (host_sink host) s r = Inr sink" "shown = call_id_display c"
    and r: "tr_call_id r = c" "tr_plan r = plan" "tr_prompt_tokens r = tokens"
      "tr_prompt_hash r = lib_hash (hs_lib host) []"
    unfolding py_record_trace_def by (auto simp: rbind_Inr_iff)
  with trace_store.sink_record [OF assms(1)] have "trace_view tab (hs_codec host) sink c = Some r"
    by fastforce
  with r \<open>shown = call_id_display c\<close> show ?thesis by blast
qed

section \<open>Python retrievers\<close>

text \<open>A page call with nothing required and nothing retrieved gives an empty plan.\<close>

lemma page_no_candidates:
  assumes "page gp ord lower req = Inr plan" "hash_orders_ok ord" "pr_required_blocks req = []"
    and "gather gp req = Inr []"
  shows "plan = plan_of pager_init"
proof -
  have ho: "ho_ids ord [] = []" "ho_sections ord [] = []"
    using assms(2) by (metis hash_orders_ok_def mset_zero_iff)+
  have fv: "fill_variable gp ord b session (\<lambda>_. []) st = Inr st' \<Longrightarrow> st' = st" for b session st st'
    by (auto simp: fill_variable_def Let_def rbind_Inr_iff ho pager_state.defs)
  have ep: "edge_passes gp ord b st = Inr st' \<Longrightarrow> pg_selected st = [] \<Longrightarrow> st' = st" for b st st'
    by (auto simp: edge_passes_def expand_edges_def reconcile_edges_def Let_def rbind_Inr_iff split: if_splits)
  have ld: "load_candidates gp ord lower [] = Inr (\<lambda>_. [])"
    by (simp add: load_candidates_def ho sort_candidates_def)
  from assms(1,3,4) obtain n sv st2 where
    "fill_variable gp ord (input_budget (pr_model req)) (pr_session_id req) (\<lambda>_. [])
       (pager_init\<lparr>pg_prompt_total := n\<rparr>) = Inr sv"
    "edge_passes gp ord (input_budget (pr_model req)) sv = Inr st2" "plan = plan_of st2"
    by (auto simp: page_def Let_def rbind_Inr_iff ld fill_system_def split: if_splits)
  moreover from this fv have "sv = pager_init\<lparr>pg_prompt_total := n\<rparr>" by blast
  moreover from this calculation ep have "st2 = sv" by (simp add: pager_init_def)
  ultimately show ?thesis by (simp add: plan_of_def)
qed

lemma gather_silent:
  assumes "\<forall>r \<in> set (gp_retrievers gp). \<forall>session task n. ret_retrieve r session task n = Inr []"
  shows "gather gp req = Inr []"
proof -
  have "for_each (\<lambda>r m. rbind (map_err Pager_Retrieval (ret_retrieve r (pr_session_id req) (pr_task req) retrieval_limit))
      (\<lambda>cands. Inr (merge_candidates required cands m))) rs m = Inr m"
    if "\<forall>r \<in> set rs. \<forall>session task n. ret_retrieve r session task n = Inr []" for rs m required
    using that by (induction rs arbitrary: m) (simp_all add: merge_candidates_def)
  with assms show ?thesis by (simp add: gather_def)
qed

lemma py_pager_retrievers:
  assumes "py_make_pager host self view tok = Inr gp" "ps_retriever_entries self = []"
  shows "gp_retrievers gp = (if ps_python_retrievers self = [] then [recency_retriever (rv_exp2 (hs_retrievers host)) view None]
    else ps_python_retrievers self)"
  using assms by (auto simp: py_make_pager_def build_retrievers_def Let_def greedy_pager_new_def with_retrievers_def
      with_budgets_def with_edge_policy_def split: option.splits)

lemma py_make_pager_default:
  "ps_retriever_entries self = [] \<Longrightarrow> \<exists>gp. py_make_pager host self view tok = Inr gp"
  by (simp add: py_make_pager_def build_retrievers_def Let_def)

text \<open>
  A Python retriever takes the place of the default one: in an object whose configuration
  names no retriever, Python retrievers that find nothing make every plan empty, whatever the
  session holds, and only without them does the default recency retriever run.
\<close>

lemma py_silent_retrievers:
  assumes "ps_retriever_entries self = []" "ps_python_retrievers self \<noteq> []"
    and "\<forall>r \<in> set (ps_python_retrievers self). \<forall>s t n. ret_retrieve r s t n = Inr []"
    and "hash_orders_ok (hs_orders host)" "py_page host self session model task = Inr plan"
  shows "pyp_selected plan = [] \<and> pyp_omitted plan = [] \<and>
    (\<exists>gp. py_make_pager host (clear_python_retrievers self) view tok = Inr gp \<and>
       gp_retrievers gp = [recency_retriever (rv_exp2 (hs_retrievers host)) view None])"
proof -
  from assms(5) obtain profile tok' inner p gp where
    gp: "py_make_pager host self (view_of (host_ops host) inner) tok' = Inr gp"
    and p: "run_page host gp (session_request session task profile) = Inr p" and plan: "plan = py_plan_of p"
    by (rule py_page_Inr) (auto simp: py_plan_with_def rbind_Inr_iff)
  have "\<forall>r \<in> set (gp_retrievers gp). \<forall>s t n. ret_retrieve r s t n = Inr []"
    using py_pager_retrievers [OF gp assms(1)] assms(2,3) by simp
  then have "p = plan_of pager_init"
    using p by (auto simp: run_page_def session_request_def
        intro!: page_no_candidates [OF _ assms(4) _ gather_silent])
  moreover have "ps_retriever_entries (clear_python_retrievers self) = []" "ps_python_retrievers (clear_python_retrievers self) = []"
    by (simp_all add: clear_python_retrievers_def assms(1))
  then have "\<exists>gp. py_make_pager host (clear_python_retrievers self) view tok = Inr gp \<and>
      gp_retrievers gp = [recency_retriever (rv_exp2 (hs_retrievers host)) view None]"
    using py_make_pager_default py_pager_retrievers by metis
  ultimately show ?thesis by (simp add: plan py_plan_of_def plan_of_def pager_init_def)
qed

end
