(* ===== verification/Lmdb_Examples.thy ===== *)
theory Lmdb_Examples
  imports Lmdb_Runs Retrievers
begin

text \<open>
  The LMDB store run by simplification on sorted-list tables: the witnesses of its properties,
  a run in which an id is used twice, and tables that need a repair.
\<close>


definition demo_hash :: "bytes \<Rightarrow> content_hash" where
  "demo_hash bs = word_of_nat (length bs)"

definition hashed_block :: "block_id \<Rightarrow> bytes \<Rightarrow> context_block" where
  "hashed_block i bs = (demo_block i Kind_Fact bs)\<lparr>cb_hash := demo_hash bs\<rparr>"

definition demo_lib :: "table lmdb_lib" where
  "demo_lib = list_lib [hashed_block 1 ''a'', hashed_block 2 ''bb'', hashed_block 1 ''ccc''] demo_hash"

definition demo_tables :: "table lmdb_store" where
  "demo_tables = \<lparr>ls_by_id = table_empty, ls_by_hash = table_empty, ls_by_session = table_empty,
     ls_edges_from = table_empty, ls_edges_to = table_empty, ls_meta = table_empty\<rparr>"

lemma demo_lmdb: "lmdb demo_lib table_get"
  unfolding demo_lib_def by (rule mem.lmdb_axioms)

lemma demo_lib_reliable: "lmdb_reliable demo_lib"
  unfolding demo_lib_def by (rule list_lib_reliable)

lemma demo_reachable: "lmdb_reachable demo_lib table_get demo_tables"
  by (rule lmdb_reachable.init) (simp_all add: demo_tables_def)

lemma demo_rel: "lmdb_rel demo_lib table_get demo_tables spec_empty"
  by (auto simp: lmdb_rel_def key_rel_def spec_empty_def demo_tables_def)

lemma hashed_block_simps [simp]:
  "cb_id (hashed_block i bs) = i" "cb_hash (hashed_block i bs) = demo_hash bs" "cb_bytes (hashed_block i bs) = bs"
  by (simp_all add: hashed_block_def demo_block_def)

lemma hashed_block_inject [simp]: "hashed_block i bs = hashed_block j cs \<longleftrightarrow> i = j \<and> bs = cs"
  by (metis hashed_block_simps(1,3))

lemmas lmdb_eval = lmdb_put_def lmdb_get_def lmdb_list_session_def lmdb_lookup_hash_def lmdb_verify_def
  list_lib_def list_encode_def list_decode_def decode_block_def walk_def decode_block_id_def
  verify_block_def verify_session_def primary_id_def Let_def

lemma demo_put:
  "\<exists>s'. lmdb_put demo_lib demo_tables 7 (hashed_block 1 ''a'') = Inr (1, s') \<and>
     lmdb_get demo_lib s' 1 = Inr (Some (hashed_block 1 ''a'')) \<and> (\<exists>ids. lmdb_list_session demo_lib s' 7 = Inr ids)"
  by (simp add: lmdb_eval demo_lib_def demo_tables_def from_be_be_bytes bt_get_def)

text \<open>
  An id used twice sends later puts to the wrong block. After a block is put, another
  block with the same id and other content is put, and then the first content again, the store
  deduplicates the third put to the id, under which it now holds the other content; the
  integrity check passes all the while.
\<close>

lemma lmdb_id_reuse:
  "\<exists>s1 s2 s3. lmdb_put demo_lib demo_tables 7 (hashed_block 1 ''a'') = Inr (1, s1) \<and>
     lmdb_put demo_lib s1 7 (hashed_block 1 ''ccc'') = Inr (1, s2) \<and>
     lmdb_put demo_lib s2 7 (hashed_block 2 ''a'') = Inr (1, s3) \<and>
     lmdb_get demo_lib s3 1 = Inr (Some (hashed_block 1 ''ccc'')) \<and>
     (\<exists>r. lmdb_verify demo_lib (\<lambda>xs. xs) s3 = Inr r \<and> is_clean r)"
  by (simp add: lmdb_eval demo_lib_def demo_tables_def from_be_be_bytes bt_get_def demo_hash_def
      is_clean_def verify_default_def)

theorem lmdb_refines_spec_witness:
  "\<exists>s'. lmdb_put demo_lib demo_tables 7 (hashed_block 1 ''a'') = Inr (1, s') \<and>
     lmdb_rel demo_lib table_get s' (snd (spec_put 7 (hashed_block 1 ''a'') spec_empty))"
  using demo_put lmdb_refines_spec [OF demo_lmdb demo_rel spec_wf_empty] by blast

lemma demo_put_run:
  obtains s where "lmdb_put demo_lib demo_tables 7 (hashed_block 1 ''a'') = Inr (1, s)"
    "lmdb_rel demo_lib table_get s (snd (spec_put 7 (hashed_block 1 ''a'') spec_empty))"
    "lmdb_get demo_lib s 1 = Inr (Some (hashed_block 1 ''a''))" "\<exists>ids. lmdb_list_session demo_lib s 7 = Inr ids"
  using demo_put lmdb.put_spec [OF demo_lmdb demo_rel] by blast

theorem lmdb_reads_spec_witness:
  "\<exists>s ids. lmdb_put demo_lib demo_tables 7 (hashed_block 1 ''a'') = Inr (1, s) \<and>
     lmdb_list_session demo_lib s 7 = Inr ids \<and> set ids = {1}"
proof -
  obtain s where s: "lmdb_put demo_lib demo_tables 7 (hashed_block 1 ''a'') = Inr (1, s)"
    "lmdb_rel demo_lib table_get s (snd (spec_put 7 (hashed_block 1 ''a'') spec_empty))"
    "\<exists>ids. lmdb_list_session demo_lib s 7 = Inr ids"
    by (rule demo_put_run)
  moreover have "spec_session 7 (snd (spec_put 7 (hashed_block 1 ''a'') spec_empty)) = {1}"
    by (simp add: spec_session_def spec_put_def spec_empty_def)
  ultimately show ?thesis
    using lmdb_reads_spec [OF demo_lmdb s(2)] by metis
qed

theorem lmdb_returns_witness: "returns (lmdb_repair demo_lib rev demo_tables)"
proof -
  have "\<forall>ord. returns (lmdb_repair demo_lib ord demo_tables)"
    using lmdb_returns [OF demo_lmdb demo_lib_reliable demo_rel spec_wf_empty] by (elim conjE)
  then show ?thesis by (rule spec)
qed

lemma demo_put_reachable:
  "lmdb_put demo_lib demo_tables 7 (hashed_block 1 ''a'') = Inr (i, s) \<Longrightarrow> lmdb_reachable demo_lib table_get s"
  by (rule lmdb_reachable.put [OF demo_reachable]) (simp_all add: demo_lib_def list_lib_def demo_tables_def)

lemma lmdb_verify_clean_witness:
  "\<exists>s r. lmdb_put demo_lib demo_tables 7 (hashed_block 1 ''a'') = Inr (1, s) \<and>
     lmdb_verify demo_lib rev s = Inr r \<and> is_clean r"
proof -
  obtain s where s: "lmdb_put demo_lib demo_tables 7 (hashed_block 1 ''a'') = Inr (1, s)"
    by (rule demo_put_run)
  have "\<exists>r. lmdb_verify demo_lib rev s = Inr r"
    using s by (auto simp: lmdb_eval demo_lib_def demo_tables_def from_be_be_bytes bt_get_def)
  with s lmdb_verify_clean [OF demo_lmdb demo_put_reachable [OF s], of rev] show ?thesis by auto
qed

lemma lmdb_put_get_witness:
  "\<exists>s ids. lmdb_put demo_lib demo_tables 7 (hashed_block 1 ''a'') = Inr (1, s) \<and>
     lmdb_list_session demo_lib s 7 = Inr ids \<and> 1 \<in> set ids"
proof -
  obtain s where s: "lmdb_put demo_lib demo_tables 7 (hashed_block 1 ''a'') = Inr (1, s)"
    "lmdb_get demo_lib s 1 = Inr (Some (hashed_block 1 ''a''))" "\<exists>ids. lmdb_list_session demo_lib s 7 = Inr ids"
    by (rule demo_put_run)
  moreover have "lib_hash demo_lib (cb_bytes (hashed_block 1 ''a'')) = cb_hash (hashed_block 1 ''a'')"
    by (simp add: demo_lib_def list_lib_def)
  moreover have "table_get (ls_by_id demo_tables) (id_key (cb_id (hashed_block 1 ''a''))) = None"
    by (simp add: demo_tables_def)
  ultimately show ?thesis
    using lmdb_put_get [OF demo_lmdb demo_reachable _ _ s(1,2)] by blast
qed

text \<open>
  Tables to repair: the hash index is empty, the hash of block 2 is not that of its bytes, and
  the session entries name block 1 and a block 5 that is not there.
\<close>

definition broken_block :: context_block where
  "broken_block = (hashed_block 2 ''bb'')\<lparr>cb_hash := 9\<rparr>"

definition broken_lib :: "table lmdb_lib" where
  "broken_lib = list_lib [hashed_block 1 ''a'', broken_block] demo_hash"

definition broken_tables :: "table lmdb_store" where
  "broken_tables = demo_tables\<lparr>
     ls_by_id := table_insert (id_key 2) (be_bytes 8 1) (table_insert (id_key 1) (be_bytes 8 0) table_empty),
     ls_by_session := table_insert (session_block_key 7 5) [] (table_insert (session_block_key 7 1) [] table_empty),
     ls_edges_from := table_insert (edge_key 1 2 2) [] table_empty\<rparr>"

lemma broken_block_simps [simp]: "cb_id broken_block = 2" "cb_hash broken_block = 9" "cb_bytes broken_block = ''bb''"
  by (simp_all add: broken_block_def)

lemma broken_repair: "\<exists>rep s'. lmdb_repair broken_lib rev broken_tables = Inr (rep, s')"
  by (simp add: lmdb_repair_def repair_block_def lmdb_eval broken_lib_def broken_tables_def demo_tables_def rebuild_hashes_def
      delete_keys_def from_be_be_bytes id_key_less bt_remove_def demo_hash_def)

theorem lmdb_repair_effect_witness:
  "\<exists>rep s'. lmdb_repair broken_lib rev broken_tables = Inr (rep, s') \<and>
     ls_edges_from s' = ls_edges_from broken_tables \<and> rr_hash_entries_written rep = 2 \<and>
     rr_orphan_session_entries_removed rep = 1 \<and> set (rr_hash_mismatches_quarantined rep) = {2} \<and>
     set (rr_blocks_with_no_session rep) = {2}"
proof -
  let ?keep = "{k. length k = 32 \<longrightarrow> drop 16 k \<in> dom (table_get (ls_by_id broken_tables))}"
  obtain rep s' where r: "lmdb_repair broken_lib rev broken_tables = Inr (rep, s')"
    using broken_repair by blast
  have lib: "lmdb broken_lib table_get" unfolding broken_lib_def by (rule mem.lmdb_axioms)
  note E = lmdb_repair_effect [OF lib r set_rev]
  have blocks: "table_get (ls_by_id broken_tables) (id_key i) =
      (if i = 2 then Some (be_bytes 8 1) else if i = 1 then Some (be_bytes 8 0) else None)" for i
    by (simp add: broken_tables_def demo_tables_def)
  have doms: "dom (table_get (ls_by_id broken_tables)) = {id_key 1, id_key 2}"
    "dom (table_get (ls_by_session broken_tables)) = {session_block_key 7 1, session_block_key 7 5}"
    by (auto simp: broken_tables_def demo_tables_def)
  have dec: "lib_decode broken_lib (be_bytes 8 0) = Inr (hashed_block 1 ''a'')"
      "lib_decode broken_lib (be_bytes 8 (Suc 0)) = Inr broken_block" "lib_hash broken_lib = demo_hash"
    by (simp_all add: broken_lib_def list_lib_def list_decode_def from_be_be_bytes)
  have "table_get (ls_by_session s') = table_get (ls_by_session broken_tables) |` ?keep"
    using E by (elim conjE)
  then have left: "dom (table_get (ls_by_session s')) = {session_block_key 7 1}"
    by (auto simp: doms)
  have "set (rr_hash_mismatches_quarantined rep) = {i. \<exists>v b. table_get (ls_by_id broken_tables) (id_key i) = Some v \<and>
      lib_decode broken_lib v = Inr b \<and> lib_hash broken_lib (cb_bytes b) \<noteq> cb_hash b}"
    using E by (elim conjE)
  moreover have "demo_hash ''bb'' \<noteq> 9" by (simp add: demo_hash_def)
  then have "(\<exists>v b. table_get (ls_by_id broken_tables) (id_key i) = Some v \<and>
      lib_decode broken_lib v = Inr b \<and> lib_hash broken_lib (cb_bytes b) \<noteq> cb_hash b) \<longleftrightarrow> i = 2" for i
    by (cases "i = 2"; cases "i = 1") (simp_all add: blocks dec)
  ultimately have "set (rr_hash_mismatches_quarantined rep) = {2}" by simp
  note quarantined = this
  have "set (rr_blocks_with_no_session rep) = {i. id_key i \<in> dom (table_get (ls_by_id broken_tables)) \<and>
      \<not> (\<exists>k \<in> dom (table_get (ls_by_session s')). length k = 32 \<and> drop 16 k = id_key i)}"
    using E by (elim conjE)
  moreover have "id_key i \<in> dom (table_get (ls_by_id broken_tables)) \<and>
      \<not> (\<exists>k \<in> dom (table_get (ls_by_session s')). length k = 32 \<and> drop 16 k = id_key i) \<longleftrightarrow> i = 2" for i
    unfolding doms left by (cases "i = 1") simp_all
  ultimately have "set (rr_blocks_with_no_session rep) = {2}" by simp
  note alone = this
  have "rr_hash_entries_written rep = card (dom (table_get (ls_by_id broken_tables)))"
    "rr_orphan_session_entries_removed rep =
       card (dom (table_get (ls_by_session broken_tables)) - dom (table_get (ls_by_session s')))"
    using E by blast+
  then have "rr_hash_entries_written rep = 2" "rr_orphan_session_entries_removed rep = 1"
    by (simp_all add: doms left)
  moreover have "ls_edges_from s' = ls_edges_from broken_tables"
    using arg_cong [OF conjunct1 [OF E], of ls_edges_from] by simp
  ultimately show ?thesis using r quarantined alone by blast
qed

end
