(* ===== verification/Pg_Examples.thy ===== *)
theory Pg_Examples
  imports Pg_Runs
begin

text \<open>
  The Postgres stores on finite relations: the witnesses of their properties, and a purge during
  which another thread puts a block into the session that is purged.
\<close>

definition pg_block :: "block_id \<Rightarrow> bytes \<Rightarrow> content_hash \<Rightarrow> context_block" where
  "pg_block i bs h = \<lparr>cb_id = i, cb_kind = Kind_Fact, cb_bytes = bs, cb_token_counts = [], cb_priority = f32_0,
     cb_created_at = 1, cb_updated_at = 1, cb_provenance = provenance_default, cb_hash = h\<rparr>"

definition empty_db :: pg_db where
  "empty_db = db_of no_rows"

lemma pg_block_simps [simp]:
  "cb_id (pg_block i bs h) = i" "cb_hash (pg_block i bs h) = h" "cb_token_counts (pg_block i bs h) = []"
  "pg_stored (pg_block i bs h) = pg_block i bs h"
  by (simp_all add: pg_block_def pg_stored_def ts_clamp_small)

lemma pg_storable_block [simp]: "pg_storable (pg_block i bs h)"
  by (simp add: pg_storable_def)

lemma empty_db_tables: "db_tables empty_db = no_rows"
  unfolding empty_db_def by (rule db_tables_of [OF keys_hold_no_rows])

lemma empty_db_rel: "pg_rel (db_tables empty_db) spec_empty"
  by (simp add: pg_rel_def empty_db_tables no_rows_def spec_empty_def)

lemma empty_db_reachable: "pg_reachable db_lib db_tables empty_db"
  by (rule reached_empty) (simp_all add: empty_db_tables no_rows_def)

lemma async_none_is_sync: "async_conn db_lib None m = with_conn db_lib m"
  by (simp add: async_conn_def with_conn_def db_lib_def)

text \<open>A put of a fresh block runs, returns what the specification says, and reaches what it says.\<close>

lemma db_put:
  assumes "pg_rel (db_tables d) a" "spec_wf a" "fresh_for b a" "pg_storable b"
  obtains d' where "put_tx db_lib f d session b = Inr (fst (spec_put session b a), d')"
    "pg_rel (db_tables d') (snd (spec_put session b a))" "spec_wf (snd (spec_put session b a))"
proof -
  obtain i d' where p: "put_tx db_lib f d session b = Inr (i, d')"
    using db.put_total [OF db_reliable assms(1-3), where f = f and session = session] by (auto simp: returns_def)
  from db.put_spec [OF assms(1,2) _ p] assms(4) spec_wf_put [OF assms(2,3)] that p show ?thesis
    by (auto simp: pg_storable_def)
qed

abbreviation one_block :: store_spec where
  "one_block \<equiv> snd (spec_put 7 (pg_block 1 ''a'' 10) spec_empty)"

lemma one_block_simps:
  "fst (spec_put 7 (pg_block 1 ''a'' 10) spec_empty) = 1" "st_members one_block = {(7, 1)}"
  "st_blocks one_block = [1 \<mapsto> pg_block 1 ''a'' 10]" "st_hash one_block = [10 \<mapsto> 1]"
  by (simp_all add: spec_put_def spec_empty_def)

lemma fresh_empty: "fresh_for b spec_empty"
  by (simp add: fresh_for_def spec_empty_def)

lemma db_one_block:
  obtains d where "pg_put db_lib empty_db 7 (pg_block 1 ''a'' 10) = Inr (1, d)" "pg_rel (db_tables d) one_block"
    "spec_wf one_block" "pg_reachable db_lib db_tables d"
proof -
  obtain d where d: "put_tx db_lib pe_text empty_db 7 (pg_block 1 ''a'' 10) = Inr (1, d)" "pg_rel (db_tables d) one_block"
    "spec_wf one_block"
    using db_put [OF empty_db_rel spec_wf_empty fresh_empty pg_storable_block] one_block_simps(1) by metis
  then have p: "pg_put db_lib empty_db 7 (pg_block 1 ''a'' 10) = Inr (1, d)"
    by (simp add: pg_put_def with_conn_def db_lib_def)
  then have "pg_reachable db_lib db_tables d" by (intro reached_put [OF empty_db_reachable]) auto
  with p d that show ?thesis by blast
qed

theorem pg_refines_spec_witness:
  "\<exists>d. pg_put db_lib empty_db 7 (pg_block 1 ''a'' 10) = Inr (1, d) \<and> pg_rel (db_tables d) one_block"
proof -
  obtain d where d: "pg_put db_lib empty_db 7 (pg_block 1 ''a'' 10) = Inr (1, d)" by (rule db_one_block)
  have "bt_sorted (cb_token_counts (pg_block 1 ''a'' 10))" by simp
  then have "pg_rel (db_tables d) (snd (spec_put 7 (pg_stored (pg_block 1 ''a'' 10)) spec_empty))"
    using pg_refines_spec [OF db.postgres_axioms empty_db_rel spec_wf_empty, of None] d by blast
  then show ?thesis using d by auto
qed

lemma db_query_returns:
  "returns (pl_ids db_lib d q)" "returns (pl_block db_lib d i)"
  using db_reliable by (simp_all add: pg_reliable_def)

theorem pg_reads_spec_witness:
  "\<exists>d ids. pg_put db_lib empty_db 7 (pg_block 1 ''a'' 10) = Inr (1, d) \<and>
     pg_list_session db_lib d 7 = Inr ids \<and> set ids = {1}"
proof -
  obtain d where d: "pg_put db_lib empty_db 7 (pg_block 1 ''a'' 10) = Inr (1, d)" "pg_rel (db_tables d) one_block"
    "spec_wf one_block" by (rule db_one_block)
  have "pt_refs (db_tables d) = {(session_bytes 7, id_bytes 1)}"
    using pg_relD(3) [OF d(2)] by (simp add: one_block_simps)
  then have "ids_set (Session_Blocks_Sorted (session_bytes 7)) (db_tables d) = {id_bytes 1}" by auto
  then have l: "pg_list_session db_lib d 7 = Inr [1]"
    by (simp add: pg_list_session_def with_conn_def list_session_query_def db_lib_def)
  have "set [1] = spec_session 7 one_block"
    using pg_reads_spec [OF db.postgres_axioms d(2,3), of None] l by blast
  also have "\<dots> = {1}" by (simp add: spec_session_def one_block_simps)
  finally show ?thesis using d(1) l by blast
qed

theorem pg_store_invariant_witness:
  "\<exists>d. pg_put db_lib empty_db 7 (pg_block 1 ''a'' 10) = Inr (1, d) \<and> inj_on br_hash (pt_blocks (db_tables d))"
proof -
  obtain d where "pg_put db_lib empty_db 7 (pg_block 1 ''a'' 10) = Inr (1, d)" "pg_reachable db_lib db_tables d"
    by (rule db_one_block)
  then show ?thesis using pg_store_invariant [OF db.postgres_axioms] by blast
qed

lemma pg_returns_witness: "returns (pg_purge_session db_lib empty_db 7)"
  using pg_returns [OF db.postgres_axioms db_reliable empty_db_rel spec_wf_empty] by blast

lemma pg_put_taken_id_witness:
  "\<exists>d e. pg_put db_lib empty_db 7 (pg_block 1 ''a'' 10) = Inr (1, d) \<and>
     pg_put db_lib d 7 (pg_block 1 ''ccc'' 11) = Inl e"
proof -
  obtain d where d: "pg_put db_lib empty_db 7 (pg_block 1 ''a'' 10) = Inr (1, d)" "pg_rel (db_tables d) one_block"
    "spec_wf one_block" "pg_reachable db_lib db_tables d" by (rule db_one_block)
  have blocks: "pt_blocks (db_tables d) = {block_params (pg_block 1 ''a'' 10)}"
    using pg_relD(1) [OF d(2)] by (simp add: one_block_simps)
  have none: "pg_lookup_hash db_lib d (cb_hash (pg_block 1 ''ccc'' 11)) = Inr None"
  proof -
    have "ids_set (Id_By_Hash (hash_key 11)) (db_tables d) = {}" by (auto simp: blocks)
    then show ?thesis
      by (simp add: pg_lookup_hash_def with_conn_def lookup_hash_query_def db_lib_def query_opt_def del: ids_set.simps)
  qed
  have "row_to_block (block_params (pg_block 1 ''a'' 10)) = Inr (pg_block 1 ''a'' 10)"
    by (simp add: row_block_params)
  then have some: "pg_get db_lib d (cb_id (pg_block 1 ''ccc'' 11)) = Inr (Some (pg_block 1 ''a'' 10))"
    by (simp add: pg_get_def with_conn_def get_query_def db_lib_def query_opt_def blocks db_block_def Let_def Collect_conv_if)
  from pg_put_taken_id [OF db.postgres_axioms d(4) _ none some] d(1) show ?thesis by auto
qed

section \<open>A put during a purge\<close>

abbreviation two_blocks :: store_spec where
  "two_blocks \<equiv> snd (spec_put 7 (pg_block 2 ''bb'' 11) one_block)"

lemma two_blocks_simps:
  "fst (spec_put 7 (pg_block 2 ''bb'' 11) one_block) = 2" "st_members two_blocks = {(7, 2), (7, 1)}"
  "st_blocks two_blocks = [1 \<mapsto> pg_block 1 ''a'' 10, 2 \<mapsto> pg_block 2 ''bb'' 11]"
  by (simp_all add: spec_put_def [of 7 "pg_block 2 ''bb'' 11"] one_block_simps)

lemma fresh_one: "fresh_for (pg_block 2 ''bb'' 11) one_block"
  by (simp add: fresh_for_def one_block_simps)

lemma distinct_singleton_list:
  assumes "distinct xs" and "set xs = {x}"
  shows "xs = [x]"
proof -
  have "card (set xs) = length xs" by (rule distinct_card [OF assms(1)])
  then have "length xs = 1" by (simp only: assms(2) card.insert card.empty finite.emptyI empty_iff simp_thms One_nat_def if_False)
  with assms(2) show ?thesis by (cases xs) auto
qed

text \<open>The run: collect the session's only block, put another into the session, go on with the purge.\<close>

lemma purge_put_run:
  obtains d1 d2 d3 where "pg_put db_lib empty_db 7 (pg_block 1 ''a'' 10) = Inr (1, d1)"
    "purge_collect db_lib d1 7 = Inr [1]" "pg_put db_lib d1 7 (pg_block 2 ''bb'' 11) = Inr (2, d2)"
    "purge_collected db_lib d2 7 [1] = Inr (1, d3)" "pg_rel (db_tables d1) one_block"
    "pg_rel (db_tables d2) two_blocks" "spec_wf two_blocks"
proof -
  obtain d1 where d1: "pg_put db_lib empty_db 7 (pg_block 1 ''a'' 10) = Inr (1, d1)" "pg_rel (db_tables d1) one_block"
    "spec_wf one_block" by (rule db_one_block)
  obtain ids where ids: "purge_collect db_lib d1 7 = Inr ids"
    using db.collect_total [OF db_reliable d1(2), of 7] by (auto simp: returns_def)
  have set_ids: "distinct ids" "set ids = {1}"
    using db.collect_spec [OF d1(2) ids] by (simp_all add: spec_session_def one_block_simps)
  have one: "ids = [1]" by (rule distinct_singleton_list [OF set_ids])
  obtain d2 where d2: "put_tx db_lib pe_text d1 7 (pg_block 2 ''bb'' 11) = Inr (2, d2)"
    "pg_rel (db_tables d2) two_blocks" "spec_wf two_blocks"
    using db_put [OF d1(2,3) fresh_one pg_storable_block] two_blocks_simps(1) by metis
  obtain n d3 where d3: "purge_collected db_lib d2 7 [1] = Inr (n, d3)"
    using db.purge_collected_total [OF db_reliable, of d2 7 "[1]"] by (auto simp: returns_def)
  have "n = 1" using db.purge_collected_spec [OF d2(2,3) d3] by simp
  moreover have "pg_put db_lib d1 7 (pg_block 2 ''bb'' 11) = Inr (2, d2)"
    using d2(1) by (simp add: pg_put_def with_conn_def db_lib_def)
  ultimately show ?thesis using that d1 ids one d2 d3 by blast
qed

text \<open>
  A put into a session during its purge leaks the block: when the put commits after the purge
  collected the blocks of the session and before it locks them, both succeed, the reference
  of the new block is gone and its row stays, so no session lists it and no later purge
  removes it.
\<close>

lemma pg_purge_put_leak:
  "\<exists>d1 d2 d3. pg_put db_lib empty_db 7 (pg_block 1 ''a'' 10) = Inr (1, d1) \<and>
     purge_collect db_lib d1 7 = Inr [1] \<and>
     pg_put db_lib d1 7 (pg_block 2 ''bb'' 11) = Inr (2, d2) \<and>
     purge_collected db_lib d2 7 [1] = Inr (1, d3) \<and>
     pt_refs (db_tables d3) = {} \<and> pt_blocks (db_tables d3) = {block_params (pg_block 2 ''bb'' 11)}"
proof -
  obtain d1 d2 d3 where d: "pg_put db_lib empty_db 7 (pg_block 1 ''a'' 10) = Inr (1, d1)"
    "purge_collect db_lib d1 7 = Inr [1]" "pg_put db_lib d1 7 (pg_block 2 ''bb'' 11) = Inr (2, d2)"
    "purge_collected db_lib d2 7 [1] = Inr (1, d3)" "pg_rel (db_tables d2) two_blocks" "spec_wf two_blocks"
    by (rule purge_put_run)
  let ?O = "spec_orphans (spec_leave 7 two_blocks) {1}"
  have rel: "pg_rel (db_tables d3) (spec_remove ?O (spec_leave 7 two_blocks))"
    using db.purge_collected_spec [OF d(5,6,4)] by simp
  have O: "?O = {1}" by (auto simp: spec_orphans_def two_blocks_simps)
  have "st_members (spec_remove ?O (spec_leave 7 two_blocks)) = {}"
    by (auto simp: spec_remove_def spec_leave_def two_blocks_simps)
  moreover have "st_blocks (spec_remove ?O (spec_leave 7 two_blocks)) = [2 \<mapsto> pg_block 2 ''bb'' 11]"
    unfolding O by (auto simp: spec_remove_def two_blocks_simps restrict_map_def)
  ultimately have "pt_refs (db_tables d3) = {}" "pt_blocks (db_tables d3) = {block_params (pg_block 2 ''bb'' 11)}"
    using pg_relD(1,3) [OF rel] by simp_all
  with d show ?thesis by blast
qed


text \<open>Both backends, empty, purge a session alike.\<close>

definition empty_lmdb :: "table lmdb_store" where
  "empty_lmdb = \<lparr>ls_by_id = table_empty, ls_by_hash = table_empty, ls_by_session = table_empty,
     ls_edges_from = table_empty, ls_edges_to = table_empty, ls_meta = table_empty\<rparr>"

lemma empty_lmdb_rel: "lmdb_rel (list_lib bs hsh) table_get empty_lmdb spec_empty"
  by (auto simp: lmdb_rel_def key_rel_def spec_empty_def empty_lmdb_def)

theorem backends_agree_witness:
  "\<exists>s' d'. lmdb_put (list_lib [pg_block 1 ''a'' 10] (\<lambda>_. 10)) empty_lmdb 7 (pg_block 1 ''a'' 10) = Inr (1, s') \<and>
     pg_put db_lib empty_db 7 (pg_block 1 ''a'' 10) = Inr (1, d') \<and>
     (\<exists>c. spec_wf c \<and> lmdb_rel (list_lib [pg_block 1 ''a'' 10] (\<lambda>_. 10)) table_get s' c \<and> pg_rel (db_tables d') c)"
proof -
  obtain d where d: "pg_put db_lib empty_db 7 (pg_block 1 ''a'' 10) = Inr (1, d)" by (rule db_one_block)
  obtain s' where s': "lmdb_put (list_lib [pg_block 1 ''a'' 10] (\<lambda>_. 10)) empty_lmdb 7 (pg_block 1 ''a'' 10) = Inr (1, s')"
    by (simp add: lmdb_put_def list_lib_def list_encode_def empty_lmdb_def Let_def)
  from backends_agree [OF mem.lmdb_axioms [of "[pg_block 1 ''a'' 10]" "\<lambda>_. 10"] empty_lmdb_rel db.postgres_axioms
      empty_db_rel spec_wf_empty, THEN conjunct1, rule_format, OF pg_storable_block s' d]
  show ?thesis using s' d by blast
qed

end
