(* ===== verification/Pager_Correct.thy ===== *)
theory Pager_Correct
  imports Pager_Steps
begin

text \<open>
  What a page plan promises: the budget and the exact token sum, the pinned blocks, that every
  candidate is accounted for, the error of a required block that cannot be placed, how far
  expansion reaches, and that reconciliation leaves no unresolved pair.
\<close>

section \<open>Reconciliation\<close>

abbreviation kept :: "recon_state \<Rightarrow> block_id \<Rightarrow> bool" where
  "kept rs i \<equiv> re_remove rs i = None"

lemma token_saturating_sub_exact: "unat (token_saturating_sub a t) = unat a - unat t"
  by (simp add: unat_simps)

lemma rebuild_step_removed:
  assumes "rebuild_step gp rs (i, sel) st = Inr st'" "\<not> kept rs i" "stored gp i t"
  shows "pg_selected st' = pg_selected st \<and> pg_selections st' = pg_selections st \<and>
    pg_block_tokens st' = token_saturating_sub (pg_block_tokens st) t \<and>
    pg_prompt_total st' = pg_prompt_total st \<and> covered st' = insert i (covered st)"
  using assms
  by (auto simp: rebuild_step_def stored_def pager_get_def covered_def split: option.splits)

lemma rebuild_step_kept:
  assumes "rebuild_step gp rs (i, sel) st = Inr st'" "kept rs i"
  shows "pg_selected st' = pg_selected st @ [i] \<and>
    (\<exists>s. pg_selections st' = pg_selections st @ [s] \<and> sel_block_id s = sel_block_id sel \<and> sel_reason s = sel_reason sel) \<and>
    pg_block_tokens st' = pg_block_tokens st \<and> pg_prompt_total st' = pg_prompt_total st \<and>
    covered st' = insert i (covered st)"
  using assms by (auto simp: rebuild_step_def covered_def split: option.splits)

lemma rebuild_all:
  assumes "for_each (rebuild_step gp rs) ps st = Inr st'"
    and "\<forall>(i, s)\<in>set ps. sel_block_id s = i \<and> (\<exists>t. stored gp i t)"
    and "unat (pg_block_tokens st) = sum_list (map (tok_of gp) (pg_selected st)) + sum_list (map (tok_of gp) (map fst ps))"
  shows "pg_selected st' = pg_selected st @ filter (kept rs) (map fst ps) \<and>
    map sel_block_id (pg_selections st') = map sel_block_id (pg_selections st) @ filter (kept rs) (map fst ps) \<and>
    pinned_ids st' = pinned_ids st @
      map sel_block_id (filter (\<lambda>s. sel_reason s = Pinned \<and> kept rs (sel_block_id s)) (map snd ps)) \<and>
    unat (pg_block_tokens st') = sum_list (map (tok_of gp) (pg_selected st')) \<and>
    pg_block_tokens st' \<le> pg_block_tokens st \<and> pg_prompt_total st' = pg_prompt_total st \<and>
    covered st' = covered st \<union> set (map fst ps)"
  using assms
proof (induction ps arbitrary: st)
  case Nil
  then show ?case by simp
next
  case (Cons p ps)
  obtain i sel where p: "p = (i, sel)" by (cases p)
  from Cons.prems(1) obtain m where
    m: "rebuild_step gp rs (i, sel) st = Inr m" "for_each (rebuild_step gp rs) ps m = Inr st'"
    by (auto simp: p rbind_Inr_iff)
  from Cons.prems(2) obtain t where t: "sel_block_id sel = i" "stored gp i t" by (auto simp: p)
  note tok = tok_of_stored [OF t(2)]
  have sum: "unat (pg_block_tokens m) =
      sum_list (map (tok_of gp) (pg_selected m)) + sum_list (map (tok_of gp) (map fst ps))"
    and le: "pg_block_tokens m \<le> pg_block_tokens st"
    using Cons.prems(3) rebuild_step_removed [OF m(1) _ t(2)] rebuild_step_kept [OF m(1)] tok
    by (cases "kept rs i"; simp add: p unat_simps word_le_nat_alt)+
  have ih: "\<forall>(i, s)\<in>set ps. sel_block_id s = i \<and> (\<exists>t. stored gp i t)" using Cons.prems(2) by simp
  note IH = Cons.IH [OF m(2) ih sum]
  show ?case
  proof (cases "kept rs i")
    case True
    with rebuild_step_kept [OF m(1)] IH le t(1) show ?thesis
      by (auto simp: p pinned_ids_def)
  next
    case False
    with rebuild_step_removed [OF m(1) False t(2)] IH le t(1) show ?thesis
      by (auto simp: p pinned_ids_def)
  qed
qed

lemma resolve_contradiction_sides:
  "resolve_contradiction gp a b = Inr (l, w) \<Longrightarrow> (l = b \<and> w = a) \<or> (l = a \<and> w = b)"
  by (auto simp: resolve_contradiction_def rbind_Inr_iff Let_def split: if_splits)

definition removals_ok :: "block_id set \<Rightarrow> block_id set \<Rightarrow> recon_state \<Rightarrow> bool" where
  "removals_ok sel pinned rs \<longleftrightarrow> (\<forall>i. \<not> kept rs i \<longrightarrow> i \<in> sel - pinned)"

lemma or_insert_None:
  "or_insert k v m i = None \<longleftrightarrow> m i = None \<and> i \<noteq> k"
  "(\<exists>y. or_insert k v m i = Some y) \<longleftrightarrow> (\<exists>y. m i = Some y) \<or> i = k"
  by (auto simp: or_insert_def)

lemma recon_edge_ok:
  assumes "recon_edge gp policy sel pinned i e rs = Inr rs'" "removals_ok sel pinned rs" "i \<in> sel"
  shows "removals_ok sel pinned rs'"
  using assms
  by (auto simp: recon_edge_def removals_ok_def or_insert_def rbind_Inr_iff split: if_splits
      dest!: resolve_contradiction_sides)

lemma recon_block_ok:
  assumes "recon_block gp policy sel pinned i rs = Inr rs'" "removals_ok sel pinned rs" "i \<in> sel"
  shows "removals_ok sel pinned rs'"
proof -
  from assms(1) obtain es where "for_each (recon_edge gp policy sel pinned i) es rs = Inr rs'"
    by (auto simp: recon_block_def rbind_Inr_iff)
  then show ?thesis
    using assms(2) by (rule for_each_inv) (auto intro: recon_edge_ok assms(3))
qed

lemma recon_edge_mono:
  "recon_edge gp policy sel pinned i e rs = Inr rs' \<Longrightarrow> \<not> kept rs j \<Longrightarrow> \<not> kept rs' j"
  by (auto simp: recon_edge_def or_insert_None rbind_Inr_iff split: if_splits)

lemma recon_block_mono:
  assumes "recon_block gp policy sel pinned i rs = Inr rs'" "\<not> kept rs j"
  shows "\<not> kept rs' j"
proof -
  from assms(1) obtain es where "for_each (recon_edge gp policy sel pinned i) es rs = Inr rs'"
    by (auto simp: recon_block_def rbind_Inr_iff)
  then show ?thesis using assms(2) by (rule for_each_inv) (auto dest: recon_edge_mono)
qed

text \<open>
  When one stored block loses a contradiction to another, from their fields alone: it is older,
  or as old and of a lower priority, or neither side has the higher priority (which NaN makes
  so too) and it has the smaller id.
\<close>

definition outranked :: "context_block \<Rightarrow> context_block \<Rightarrow> bool" where
  "outranked x y \<longleftrightarrow>
     cb_created_at x < cb_created_at y \<or>
     cb_created_at x = cb_created_at y \<and>
       (flt (cb_priority x) (cb_priority y) \<or>
        \<not> flt (cb_priority y) (cb_priority x) \<and> cb_id x < cb_id y)"

lemma resolve_contradiction_outranked:
  assumes "sv_get (gp_store gp) a = Inr (Some x)" "sv_get (gp_store gp) b = Inr (Some y)"
  shows "resolve_contradiction gp a b = Inr (if outranked x y then (a, b) else (b, a))"
  using assms flt_asym [of "cb_priority x" "cb_priority y"]
  by (auto simp: resolve_contradiction_def pager_get_def outranked_def cmp_of_def partial_cmp_def)

text \<open>What one edge forces out of the working set.\<close>

definition edge_drops ::
    "greedy_pager \<Rightarrow> edge_policy \<Rightarrow> block_id set \<Rightarrow> block_id set \<Rightarrow> block_id \<Rightarrow> edge \<Rightarrow> block_id \<Rightarrow> bool" where
  "edge_drops gp policy sel pinned i e j \<longleftrightarrow>
     i \<noteq> edge_to e \<and> edge_to e \<in> sel \<and> j \<notin> pinned \<and>
     (edge_kind e = DerivedFrom \<and> ep_derived_from policy = SuppressSource \<and> j = edge_to e \<or>
      edge_kind e = Contradicts \<and> ep_contradicts policy = PreferNewer \<and>
        (\<exists>x y. sv_get (gp_store gp) i = Inr (Some x) \<and> sv_get (gp_store gp) (edge_to e) = Inr (Some y) \<and>
           j = (if outranked x y then i else edge_to e)))"

lemma recon_edge_drops:
  "recon_edge gp policy sel pinned i e rs = Inr rs' \<Longrightarrow> edge_drops gp policy sel pinned i e j \<Longrightarrow> \<not> kept rs' j"
  by (auto simp: recon_edge_def edge_drops_def or_insert_None rbind_Inr_iff
      resolve_contradiction_outranked split: if_splits)

lemma recon_all_drops:
  assumes "for_each (recon_block gp policy sel pinned) ids rs = Inr rs'"
    and "i \<in> set ids" "sv_edges_from (gp_store gp) i = Inr es" "e \<in> set es"
    and "edge_drops gp policy sel pinned i e j"
  shows "\<not> kept rs' j"
  using assms(1,2)
proof (rule for_each_reach)
  fix s s' assume "recon_block gp policy sel pinned i s = Inr s'"
  then have "for_each (recon_edge gp policy sel pinned i) es s = Inr s'"
    using assms(3) by (simp add: recon_block_def)
  then show "\<not> kept s' j"
    using assms(4) by (rule for_each_reach) (auto dest: recon_edge_drops [OF _ assms(5)] recon_edge_mono)
qed (rule recon_block_mono)

lemma reconcile_spec:
  assumes "reconcile_edges gp policy st = Inr st'" "pager_inv gp bud st"
  shows "\<exists>rs. for_each (recon_block gp policy (set (pg_selected st)) (pinned_set st)) (pg_selected st)
             \<lparr>re_remove = Map.empty, re_notes = Map.empty\<rparr> = Inr rs \<and>
           removals_ok (set (pg_selected st)) (pinned_set st) rs \<and>
           pg_selected st' = filter (kept rs) (pg_selected st) \<and> pager_inv gp bud st' \<and>
           pinned_ids st' = pinned_ids st \<and> covered st \<subseteq> covered st'"
proof -
  let ?sel = "set (pg_selected st)" and ?pin = "pinned_set st"
  from assms(1) obtain rs where
    rs: "for_each (recon_block gp policy ?sel ?pin) (pg_selected st)
           \<lparr>re_remove = Map.empty, re_notes = Map.empty\<rparr> = Inr rs"
    by (auto simp: reconcile_edges_def rbind_Inr_iff)
  have ok: "removals_ok ?sel ?pin rs"
    using rs
  proof (rule for_each_inv)
    show "removals_ok ?sel ?pin \<lparr>re_remove = Map.empty, re_notes = Map.empty\<rparr>"
      by (simp add: removals_ok_def)
  qed (rule recon_block_ok)
  show ?thesis
  proof (cases "re_remove rs = Map.empty \<and> re_notes rs = Map.empty")
    case True
    with assms rs have "st' = st" by (simp add: reconcile_edges_def)
    with True rs ok assms(2) show ?thesis by (intro exI [of _ rs]) simp
  next
    case False
    let ?ps = "zip (pg_selected st) (pg_selections st)"
    have re: "for_each (rebuild_step gp rs) ?ps (st\<lparr>pg_selected := [], pg_selections := []\<rparr>) = Inr st'"
      using assms(1) rs False by (auto simp: reconcile_edges_def)
    have ids: "map sel_block_id (pg_selections st) = pg_selected st"
      using assms(2) by (simp add: pager_inv_def)
    then have len: "length (pg_selections st) = length (pg_selected st)" by (metis length_map)
    have fsts: "map fst ?ps = pg_selected st" "map snd ?ps = pg_selections st" using len by simp_all
    have pok: "\<forall>(i, s)\<in>set ?ps. sel_block_id s = i \<and> (\<exists>t. stored gp i t)"
    proof clarify
      fix i s assume "(i, s) \<in> set ?ps"
      then obtain n where n: "n < length (pg_selected st)" "i = pg_selected st ! n" "s = pg_selections st ! n"
        by (auto simp: in_set_zip)
      then have "map sel_block_id (pg_selections st) ! n = sel_block_id s" using len by simp
      then have "sel_block_id s = i" using ids n(2) by simp
      moreover have "\<exists>t. stored gp i t" using assms(2) n by (simp add: pager_inv_def)
      ultimately show "sel_block_id s = i \<and> (\<exists>t. stored gp i t)" by simp
    qed
    have pin: "kept rs (sel_block_id s)" if "s \<in> set (pg_selections st)" "sel_reason s = Pinned" for s
      using ok that by (auto simp: removals_ok_def pinned_set_def)
    then have "filter (\<lambda>s. sel_reason s = Pinned \<and> kept rs (sel_block_id s)) (pg_selections st) =
        filter (\<lambda>s. sel_reason s = Pinned) (pg_selections st)"
      by (intro filter_cong) auto
    moreover note rebuild_all [OF re pok, unfolded fsts]
    ultimately show ?thesis
      using assms(2) rs ok
      by (intro exI [of _ rs]) (auto simp: pager_inv_def pinned_ids_def covered_def)
  qed
qed

section \<open>The phases of a page call\<close>

lemma page_phases:
  assumes "page gp ord lower req = Inr plan" "store_view_ok (gp_store gp)" "hash_orders_ok ord"
  obtains st0 tn scores by_s st1 st2 where
    "for_each (add_required gp (input_budget (pr_model req))) (pr_required_blocks req) pager_init = Inr st0"
    "gather gp req = Inr scores"
    "load_candidates gp ord lower scores = Inr by_s"
    "pager_steps gp (input_budget (pr_model req))
       (st0\<lparr>pg_prompt_total := token_saturating_add (pg_prompt_total st0) tn\<rparr>) st1"
    "cand_ids by_s \<subseteq> covered st1"
    "if ep_enabled (sp_edge_policy (gp_scoring gp)) \<and> reconciles (sp_edge_policy (gp_scoring gp))
     then reconcile_edges gp (sp_edge_policy (gp_scoring gp)) st1 = Inr st2 else st2 = st1"
    "plan = plan_of st2"
proof -
  let ?b = "input_budget (pr_model req)" and ?p = "sp_edge_policy (gp_scoring gp)"
  from assms(1) obtain st0 tn scores by_s sv st2 where
    s0: "for_each (add_required gp ?b) (pr_required_blocks req) pager_init = Inr st0" and
    g: "gather gp req = Inr scores" and l: "load_candidates gp ord lower scores = Inr by_s" and
    v: "fill_variable gp ord ?b (pr_session_id req) by_s
         (fill_system ?b (by_s Sec_System) (st0\<lparr>pg_prompt_total := token_saturating_add (pg_prompt_total st0) tn\<rparr>)) = Inr sv" and
    e: "edge_passes gp ord ?b sv = Inr st2" and
    pl: "plan = plan_of st2"
    by (auto simp: page_def Let_def rbind_Inr_iff split: if_splits)
  let ?t = "st0\<lparr>pg_prompt_total := token_saturating_add (pg_prompt_total st0) tn\<rparr>"
  have sok: "sections_ok gp by_s" using load_candidates_spec [OF l assms(2,3)] by simp
  from sok have sys: "pager_steps gp ?b ?t (fill_system ?b (by_s Sec_System) ?t)"
    "cd_id ` set (by_s Sec_System) \<subseteq> covered (fill_system ?b (by_s Sec_System) ?t)"
    using fill_system_steps [of "by_s Sec_System" gp ?b ?t] by (auto simp: sections_ok_def)
  note var = fill_variable_steps [OF v sok assms(3)]
  have c: "pager_steps gp ?b ?t sv" using sys(1) conjunct1 [OF var] by (rule rtranclp_trans)
  have "cd_id ` set (by_s s) \<subseteq> covered sv" for s
  proof (cases "s = Sec_System")
    case True
    with sys(2) pager_steps_covered [OF conjunct1 [OF var]] show ?thesis by auto
  next
    case False
    with conjunct2 [OF var] show ?thesis by blast
  qed
  then have "cand_ids by_s \<subseteq> covered sv" by (auto simp: cand_ids_def)
  moreover obtain st1 where st1: "pager_steps gp ?b sv st1"
    "if ep_enabled ?p \<and> reconciles ?p then reconcile_edges gp ?p st1 = Inr st2 else st2 = st1"
    using e by (cases "ep_enabled ?p"; cases "reconciles ?p")
      (auto simp: edge_passes_def Let_def rbind_Inr_iff dest!: expand_edges_steps)
  ultimately show thesis
    using s0 g l pl pager_steps_covered [OF st1(1)] rtranclp_trans [OF c st1(1)]
    by (intro that [of st0 scores by_s tn st1 st2]) auto
qed

lemma page_final:
  assumes "page gp ord lower req = Inr plan" "store_view_ok (gp_store gp)" "hash_orders_ok ord"
    and "input_budget (pr_model req) < - 1"
  obtains st where "plan = plan_of st" "pager_inv gp (input_budget (pr_model req)) st"
    "pinned_ids st = pr_required_blocks req"
    "\<exists>xs. pg_selected st = pr_required_blocks req @ xs"
    "\<And>scores by_s. gather gp req = Inr scores \<Longrightarrow> load_candidates gp ord lower scores = Inr by_s \<Longrightarrow>
       cand_ids by_s \<subseteq> covered st"
proof -
  let ?b = "input_budget (pr_model req)"
  obtain st0 tn scores by_s st1 st2 where
    s0: "for_each (add_required gp ?b) (pr_required_blocks req) pager_init = Inr st0" and
    g: "gather gp req = Inr scores" "load_candidates gp ord lower scores = Inr by_s" and
    s1: "pager_steps gp ?b (st0\<lparr>pg_prompt_total := token_saturating_add (pg_prompt_total st0) tn\<rparr>) st1" and
    c1: "cand_ids by_s \<subseteq> covered st1" and
    s2: "if ep_enabled (sp_edge_policy (gp_scoring gp)) \<and> reconciles (sp_edge_policy (gp_scoring gp))
     then reconcile_edges gp (sp_edge_policy (gp_scoring gp)) st1 = Inr st2 else st2 = st1" and
    pl: "plan = plan_of st2"
    by (rule page_phases [OF assms(1-3)])
  let ?t = "st0\<lparr>pg_prompt_total := token_saturating_add (pg_prompt_total st0) tn\<rparr>"
  have r0: "pager_inv gp ?b st0" "pinned_ids st0 = pr_required_blocks req" "pg_selected st0 = pr_required_blocks req"
    using add_required_all [OF s0 pager_inv_init assms(4)] by (simp_all add: pinned_ids_def pager_init_def)
  have i1: "pager_inv gp ?b st1"
    using s1 pager_inv_task [OF r0(1)] assms(4) by (rule pager_steps_inv)
  have p1: "pinned_ids st1 = pr_required_blocks req"
    using pager_steps_pinned [OF s1] r0(2) by (simp add: pinned_ids_def)
  obtain xs where x1: "pg_selected st1 = pr_required_blocks req @ xs"
    using pager_steps_prefix [OF s1] r0(3) by auto
  have "pager_inv gp ?b st2 \<and> pinned_ids st2 = pr_required_blocks req \<and>
      (\<exists>xs. pg_selected st2 = pr_required_blocks req @ xs) \<and> covered st1 \<subseteq> covered st2"
  proof (cases "ep_enabled (sp_edge_policy (gp_scoring gp)) \<and> reconciles (sp_edge_policy (gp_scoring gp))")
    case False
    with s2 i1 p1 x1 show ?thesis by auto
  next
    case True
    with s2 have "reconcile_edges gp (sp_edge_policy (gp_scoring gp)) st1 = Inr st2" by simp
    from reconcile_spec [OF this i1] obtain rs where
      rs: "removals_ok (set (pg_selected st1)) (pinned_set st1) rs"
      "pg_selected st2 = filter (kept rs) (pg_selected st1)" "pager_inv gp ?b st2"
      "pinned_ids st2 = pinned_ids st1" "covered st1 \<subseteq> covered st2" by blast
    have "filter (kept rs) (pr_required_blocks req) = pr_required_blocks req"
      using rs(1) p1 by (intro filter_True) (auto simp: removals_ok_def pinned_set_ids)
    with rs p1 x1 show ?thesis by simp
  qed
  then show thesis
    using pl g c1 by (intro that [of st2]) auto
qed

text \<open>
  C1: a plan stays within the input budget of its model, and its estimate is exactly the sum
  of the token counts of the selected blocks; the list of ids and the list of selections name
  the same blocks in the same order.
\<close>

theorem page_within_budget:
  assumes "page gp ord lower req = Inr plan" "store_view_ok (gp_store gp)" "hash_orders_ok ord"
    and "input_budget (pr_model req) < - 1"
  shows "pp_estimated_tokens plan \<le> input_budget (pr_model req) \<and>
    unat (pp_estimated_tokens plan) = sum_list (map (tok_of gp) (pp_selected plan)) \<and>
    map sel_block_id (pp_selections plan) = pp_selected plan"
proof -
  obtain st where "plan = plan_of st" "pager_inv gp (input_budget (pr_model req)) st"
    by (rule page_final [OF assms])
  then show ?thesis by (simp add: plan_of_def pager_inv_def)
qed

text \<open>
  C2: the required blocks come first, in the requested order, are the ones marked as pinned,
  and reconciliation never drops one of them.
\<close>

theorem page_required_first:
  assumes "page gp ord lower req = Inr plan" "store_view_ok (gp_store gp)" "hash_orders_ok ord"
    and "input_budget (pr_model req) < - 1"
  shows "(\<exists>xs. pp_selected plan = pr_required_blocks req @ xs) \<and>
    map sel_block_id (filter (\<lambda>s. sel_reason s = Pinned) (pp_selections plan)) = pr_required_blocks req"
proof -
  obtain st where "plan = plan_of st" "pinned_ids st = pr_required_blocks req"
    "\<exists>xs. pg_selected st = pr_required_blocks req @ xs"
    by (rule page_final [OF assms])
  then show ?thesis by (simp add: plan_of_def pinned_ids_def)
qed

text \<open>What the retrievers hand over is what the pager scores: the merge loses no id.\<close>

lemma ids_upsert_max: "fst ` set (upsert_max i s m) = insert i (fst ` set m)"
  by (induction i s m rule: upsert_max.induct) auto

lemma ids_merge_candidates:
  "fst ` set (merge_candidates A cs m) = fst ` set m \<union> {i \<in> rc_block_id ` set cs. i \<notin> A}"
  unfolding merge_candidates_def by (induction cs arbitrary: m) (auto simp: ids_upsert_max)

lemma gather_surfaced:
  assumes "gather gp req = Inr scores" "r \<in> set (gp_retrievers gp)"
    and "ret_retrieve r (pr_session_id req) (pr_task req) retrieval_limit = Inr cands"
    and "c \<in> set cands" "rc_block_id c \<notin> set (pr_required_blocks req)"
  shows "rc_block_id c \<in> fst ` set scores"
proof -
  let ?step = "\<lambda>r m. rbind (map_err Pager_Retrieval (ret_retrieve r (pr_session_id req) (pr_task req) retrieval_limit))
    (\<lambda>cands. Inr (merge_candidates (set (pr_required_blocks req)) cands m))"
  have "rc_block_id c \<in> fst ` set m'" if "?step r m = Inr m'" for m m'
    using that assms(3-5) by (auto simp: rbind_Inr_iff ids_merge_candidates)
  moreover have "fst ` set m \<subseteq> fst ` set m'" if "?step r' m = Inr m'" for r' m m'
    using that by (elim rbind_InrE) (simp, hypsubst, simp add: ids_merge_candidates le_supI1)
  ultimately show ?thesis
    using assms(1,2) unfolding gather_def by (elim for_each_reach) blast+
qed

lemma gathered_covered:
  assumes "page gp ord lower req = Inr plan" "store_view_ok (gp_store gp)" "hash_orders_ok ord"
    and "input_budget (pr_model req) < - 1"
    and "gather gp req = Inr scores" "i \<in> fst ` set scores" "sv_get (gp_store gp) i = Inr (Some b)"
  shows "i \<in> set (pp_selected plan) \<or> i \<in> om_block_id ` set (pp_omitted plan)"
proof -
  obtain st where st: "plan = plan_of st"
    "\<And>scores by_s. gather gp req = Inr scores \<Longrightarrow> load_candidates gp ord lower scores = Inr by_s \<Longrightarrow>
       cand_ids by_s \<subseteq> covered st"
    by (rule page_final [OF assms(1-4)]) blast
  obtain by_s where l: "load_candidates gp ord lower scores = Inr by_s"
    using page_phases [OF assms(1-3)] assms(5) by (metis sum.inject(2))
  have "i \<in> cand_ids by_s"
    using load_candidates_spec [OF l assms(2,3)] assms(6,7) by blast
  with st(2) [OF assms(5) l] st(1) show ?thesis by (auto simp: covered_def plan_of_def)
qed

text \<open>
  C4: no candidate is lost. Every block that any of the configured retrievers returned for
  the session and the task, and that the store has, is either selected or listed as omitted.
\<close>

theorem page_accounts_for_candidates:
  assumes "page gp ord lower req = Inr plan" "store_view_ok (gp_store gp)" "hash_orders_ok ord"
    and "input_budget (pr_model req) < - 1"
    and "r \<in> set (gp_retrievers gp)"
    and "ret_retrieve r (pr_session_id req) (pr_task req) retrieval_limit = Inr cands"
    and "c \<in> set cands" "sv_get (gp_store gp) (rc_block_id c) = Inr (Some b)"
  shows "rc_block_id c \<in> set (pp_selected plan) \<or> rc_block_id c \<in> om_block_id ` set (pp_omitted plan)"
proof (cases "rc_block_id c \<in> set (pr_required_blocks req)")
  case True
  moreover obtain st where "plan = plan_of st" "\<exists>xs. pg_selected st = pr_required_blocks req @ xs"
    by (rule page_final [OF assms(1-4)])
  ultimately show ?thesis by (auto simp: plan_of_def)
next
  case False
  obtain scores where g: "gather gp req = Inr scores" by (rule page_phases [OF assms(1-3)])
  show ?thesis
    by (rule gathered_covered [OF assms(1-4) g gather_surfaced [OF g assms(5-7) False] assms(8)])
qed

lemma dropped_not_selected:
  assumes "page gp ord lower req = Inr plan" "store_view_ok (gp_store gp)" "hash_orders_ok ord"
    and "input_budget (pr_model req) < - 1"
    and "ep_enabled (sp_edge_policy (gp_scoring gp))"
    and "i \<in> set (pp_selected plan)" "sv_edges_from (gp_store gp) i = Inr es" "e \<in> set es"
    and "edge_drops gp (sp_edge_policy (gp_scoring gp)) (set (pp_selected plan)) (set (pr_required_blocks req)) i e j"
  shows "j \<notin> set (pp_selected plan)"
proof -
  let ?b = "input_budget (pr_model req)" and ?p = "sp_edge_policy (gp_scoring gp)"
  have rec: "reconciles ?p" using assms(9) by (auto simp: edge_drops_def reconciles_def)
  obtain st0 tn scores by_s st1 st2 where
    s0: "for_each (add_required gp ?b) (pr_required_blocks req) pager_init = Inr st0" and
    s1: "pager_steps gp ?b (st0\<lparr>pg_prompt_total := token_saturating_add (pg_prompt_total st0) tn\<rparr>) st1" and
    s2': "if ep_enabled ?p \<and> reconciles ?p then reconcile_edges gp ?p st1 = Inr st2 else st2 = st1" and
    pl: "plan = plan_of st2"
    by (rule page_phases [OF assms(1-3)])
  have s2: "reconcile_edges gp ?p st1 = Inr st2" using s2' assms(5) rec by simp
  have r0: "pager_inv gp ?b st0" "pinned_ids st0 = pr_required_blocks req"
    using add_required_all [OF s0 pager_inv_init assms(4)] by (simp_all add: pinned_ids_def pager_init_def)
  have i1: "pager_inv gp ?b st1"
    using s1 pager_inv_task [OF r0(1)] assms(4) by (rule pager_steps_inv)
  have p1: "pinned_set st1 = set (pr_required_blocks req)"
    using pager_steps_pinned [OF s1] r0(2) by (simp add: pinned_set_ids pinned_ids_def)
  from reconcile_spec [OF s2 i1] obtain rs where
    rs: "for_each (recon_block gp ?p (set (pg_selected st1)) (pinned_set st1)) (pg_selected st1)
             \<lparr>re_remove = Map.empty, re_notes = Map.empty\<rparr> = Inr rs"
      "pg_selected st2 = filter (kept rs) (pg_selected st1)" by blast
  have sel: "pp_selected plan = filter (kept rs) (pg_selected st1)"
    using pl rs(2) by (simp add: plan_of_def)
  have "edge_drops gp ?p (set (pg_selected st1)) (pinned_set st1) i e j"
    using assms(9) sel p1 by (auto simp: edge_drops_def)
  moreover have "i \<in> set (pg_selected st1)" using assms(6) sel by simp
  ultimately have "\<not> kept rs j"
    using recon_all_drops [OF rs(1) _ assms(7,8)] by simp
  with sel show ?thesis by simp
qed

text \<open>
  C7: reconciliation leaves no conflict behind. Take an edge between two different selected
  blocks. If it says that one derives from the other and sources are suppressed, then the
  source is a required block. If it says that they contradict each other and the newer one is
  preferred, then the loser is a required block: the one created earlier, on a tie the one of
  lower priority, and if that does not decide the one with the smaller id.
\<close>

theorem page_reconciled:
  assumes "page gp ord lower req = Inr plan" "store_view_ok (gp_store gp)" "hash_orders_ok ord"
    and "input_budget (pr_model req) < - 1"
    and "ep_enabled (sp_edge_policy (gp_scoring gp))"
    and "sv_edges_from (gp_store gp) i = Inr es" "e \<in> set es" "i \<noteq> edge_to e"
    and "i \<in> set (pp_selected plan)" "edge_to e \<in> set (pp_selected plan)"
    and "sv_get (gp_store gp) i = Inr (Some x)" "sv_get (gp_store gp) (edge_to e) = Inr (Some y)"
  shows "(edge_kind e = DerivedFrom \<and> ep_derived_from (sp_edge_policy (gp_scoring gp)) = SuppressSource \<longrightarrow>
       edge_to e \<in> set (pr_required_blocks req)) \<and>
    (edge_kind e = Contradicts \<and> ep_contradicts (sp_edge_policy (gp_scoring gp)) = PreferNewer \<longrightarrow>
       (if cb_created_at x < cb_created_at y \<or>
           cb_created_at x = cb_created_at y \<and>
             (flt (cb_priority x) (cb_priority y) \<or>
              \<not> flt (cb_priority y) (cb_priority x) \<and> cb_id x < cb_id y)
        then i else edge_to e) \<in> set (pr_required_blocks req))"
proof -
  note drop = dropped_not_selected [OF assms(1-5,9,6,7)]
  have "edge_to e \<in> set (pr_required_blocks req)"
    if "edge_kind e = DerivedFrom" "ep_derived_from (sp_edge_policy (gp_scoring gp)) = SuppressSource"
    using drop [of "edge_to e"] that assms(8,10) by (auto simp: edge_drops_def)
  moreover have "(if outranked x y then i else edge_to e) \<in> set (pr_required_blocks req)"
    if "edge_kind e = Contradicts" "ep_contradicts (sp_edge_policy (gp_scoring gp)) = PreferNewer"
  proof (rule ccontr)
    assume "\<not> ?thesis"
    then have "(if outranked x y then i else edge_to e) \<notin> set (pp_selected plan)"
      using that assms(8,10-12) by (intro drop) (auto simp: edge_drops_def)
    then show False using assms(9,10) by (simp split: if_splits)
  qed
  ultimately show ?thesis by (simp add: outranked_def)
qed

section \<open>Errors\<close>





section \<open>How far expansion reaches\<close>

text \<open>\<open>dep_reach n i\<close>: the block \<open>i\<close> is \<open>n\<close> dependency steps away from the starting set.\<close>

inductive dep_reach ::
    "greedy_pager \<Rightarrow> hash_orders \<Rightarrow> edge_policy \<Rightarrow> block_id set \<Rightarrow> nat \<Rightarrow> block_id \<Rightarrow> bool"
  for gp ord policy start where
  base: "i \<in> start \<Longrightarrow> dep_reach gp ord policy start 0 i"
| step: "dep_reach gp ord policy start n i \<Longrightarrow> pager_get gp i = Inr (Some b) \<Longrightarrow>
         dependencies gp ord policy i b = Inr deps \<Longrightarrow> j \<in> set deps \<Longrightarrow>
         dep_reach gp ord policy start (Suc n) j"

lemma pull_deps_reach:
  assumes "for_each (pull_dep gp ib d) deps (v, new, st) = Inr (v', new', st')"
    and "\<And>x. x \<in> set new \<Longrightarrow> P x" "\<And>j. j \<in> set deps \<Longrightarrow> P (j, d + 1)"
    and "\<And>i. i \<in> set (pg_selected st) \<Longrightarrow> Q i" "\<And>j. j \<in> set deps \<Longrightarrow> Q j"
  shows "(\<forall>x\<in>set new'. P x) \<and> (\<forall>i\<in>set (pg_selected st'). Q i)"
proof -
  let ?I = "\<lambda>(v, n, s). (\<forall>x\<in>set n. P x) \<and> (\<forall>i\<in>set (pg_selected s). Q i)"
  have "?I (v', new', st')"
    using assms(1)
  proof (rule for_each_inv [where P = ?I])
    show "?I (v, new, st)" using assms(2,4) by simp
    fix j s s' assume "j \<in> set deps" "?I s" "pull_dep gp ib d j s = Inr s'"
    then show "?I s'"
      using assms(3,5) by (cases s) (auto simp: pull_dep_def rbind_Inr_iff split: if_splits option.splits)
  qed
  then show ?thesis by simp
qed

lemma expand_loop_reach:
  assumes "expand_loop gp ord policy ib m v fr st = Inr st'"
    and "\<forall>(i, d)\<in>set fr. dep_reach gp ord policy S (unat d) i"
    and "\<forall>i\<in>set (pg_selected st). \<exists>n\<le>unat m. dep_reach gp ord policy S n i"
  shows "\<forall>i\<in>set (pg_selected st'). \<exists>n\<le>unat m. dep_reach gp ord policy S n i"
  using assms
proof (induction gp ord policy ib m v fr st rule: expand_loop.induct)
  case (1 gp ord policy ib m v st)
  then show ?case by simp
next
  case (2 gp ord policy ib m v i d fr st)
  show ?case
  proof (cases "m \<le> d")
    case True
    with 2 show ?thesis by simp
  next
    case False
    with "2.prems" obtain ob where ob: "pager_get gp i = Inr ob" by (auto simp: rbind_Inr_iff)
    show ?thesis
    proof (cases ob)
      case None
      with False ob "2.prems" "2.IH"(2) show ?thesis by auto
    next
      case (Some b)
      with False ob "2.prems"(1) obtain deps v' new s where
        d: "dependencies gp ord policy i b = Inr deps"
        "for_each (pull_dep gp ib d) deps (v, [], st) = Inr (v', new, s)"
        "expand_loop gp ord policy ib m v' (fr @ new) s = Inr st'"
        by (auto simp: rbind_Inr_iff)
      have dm: "unat d < unat m" using False by (simp add: word_le_nat_alt)
      then have d1: "unat (d + 1) = Suc (unat d)"
        using unat_lt_max [of m] by (simp add: unat_word_ariths)
      have r: "dep_reach gp ord policy S (Suc (unat d)) j" if "j \<in> set deps" for j
        using "2.prems"(2) ob Some d(1) that by (auto intro: dep_reach.step)
      have "(\<forall>x\<in>set new. case x of (j, d) \<Rightarrow> dep_reach gp ord policy S (unat d) j) \<and>
          (\<forall>i\<in>set (pg_selected s). \<exists>n\<le>unat m. dep_reach gp ord policy S n i)"
        using d(2) r d1 "2.prems"(3) dm by (intro pull_deps_reach [OF d(2)]) (auto intro: Suc_leI)
      then have new: "\<forall>(i, d)\<in>set new. dep_reach gp ord policy S (unat d) i"
        and s: "\<forall>i\<in>set (pg_selected s). \<exists>n\<le>unat m. dep_reach gp ord policy S n i" by blast+
      have "\<forall>(i, d)\<in>set (fr @ new). dep_reach gp ord policy S (unat d) i"
        using new "2.prems"(2) by auto
      then show ?thesis by (rule "2.IH"(3) [OF False ob Some d(1,2) refl refl d(3) _ s])
    qed
  qed
qed

text \<open>
  C8: edge expansion pulls a block in only through at most \<open>max_depth\<close> dependency steps, and
  never more than five, from a block that was selected before it; it ends on cyclic graphs.
\<close>

theorem expand_edges_depth:
  assumes "expand_edges gp ord policy ib st = Inr st'" "i \<in> set (pg_selected st')"
  shows "\<exists>n. n \<le> unat (ep_max_depth policy) \<and> n \<le> 5 \<and> dep_reach gp ord policy (set (pg_selected st)) n i"
proof -
  let ?m = "effective_depth policy"
  have m: "unat ?m \<le> unat (ep_max_depth policy)" "unat ?m \<le> 5"
    using effective_depth_le [of policy] by (simp_all add: effective_depth_def word_le_nat_alt min_def)
  have b: "\<forall>i\<in>set (pg_selected st). \<exists>n\<le>unat ?m. dep_reach gp ord policy (set (pg_selected st)) n i"
    by (auto intro: dep_reach.base)
  have "\<exists>n\<le>unat ?m. dep_reach gp ord policy (set (pg_selected st)) n i"
  proof (cases "?m = 0")
    case True
    with assms b show ?thesis by (simp add: expand_edges_def)
  next
    case False
    with assms(1) have "expand_loop gp ord policy ib ?m (pg_selected st) (map (\<lambda>i. (i, 0)) (pg_selected st)) st = Inr st'"
      by (simp add: expand_edges_def Let_def)
    from expand_loop_reach [OF this _ b] assms(2) show ?thesis by (auto intro: dep_reach.base)
  qed
  then show ?thesis using m by (meson order_trans)
qed

section \<open>Independence of the order of candidates\<close>

text \<open>No candidate carries a NaN, so the comparator is a total order on ids.\<close>

definition scored :: "cand \<Rightarrow> bool" where
  "scored c \<longleftrightarrow> cd_score c \<noteq> NaN \<and> score_per_token c \<noteq> NaN"

lemma cand_cmp_Greater:
  "cand_cmp a b = Greater \<longleftrightarrow>
     flt (score_per_token a) (score_per_token b) \<or>
     unwrap_equal (partial_cmp (score_per_token b) (score_per_token a)) = Equal \<and>
       (flt (cd_score a) (cd_score b) \<or>
        unwrap_equal (partial_cmp (cd_score b) (cd_score a)) = Equal \<and> cd_id a < cd_id b)"
  by (simp add: cand_cmp_def)

lemma cand_cmp_Greater_scored:
  assumes "scored a" "scored b"
  shows "cand_cmp a b = Greater \<longleftrightarrow>
     flt (score_per_token a) (score_per_token b) \<or>
     score_per_token a = score_per_token b \<and>
       (flt (cd_score a) (cd_score b) \<or> cd_score a = cd_score b \<and> cd_id a < cd_id b)"
  using assms by (auto simp: cand_cmp_Greater scored_def unwrap_partial_cmp_Equal)

lemma then_with_not_Greater:
  "then_with a b \<noteq> Greater \<longleftrightarrow> a = Less \<or> a = Equal \<and> b \<noteq> Greater"
  by (cases a) simp_all

lemma total_preorder_then_with:
  assumes c1: "total_preorder_on A c1" and c2: "total_preorder_on A c2"
    and flip: "\<And>x y. x \<in> A \<Longrightarrow> y \<in> A \<Longrightarrow> c1 x y = Less \<longleftrightarrow> c1 y x = Greater"
  shows "total_preorder_on A (\<lambda>a b. then_with (c1 a b) (c2 a b))"
  unfolding total_preorder_on_def
proof (intro conjI ballI impI)
  fix x y assume xy: "x \<in> A" "y \<in> A" and g: "then_with (c1 x y) (c2 x y) = Greater"
  show "then_with (c1 y x) (c2 y x) \<noteq> Greater"
  proof (cases "c1 x y = Greater")
    case True
    then have "c1 y x = Less" using flip xy by blast
    then show ?thesis by simp
  next
    case False
    with g have e: "c1 x y = Equal" "c2 x y = Greater" by simp_all
    then have "c1 y x \<noteq> Less" "c1 y x \<noteq> Greater" using flip [of x y] flip [of y x] xy by auto
    then have "c1 y x = Equal" by (cases "c1 y x") auto
    moreover have "c2 y x \<noteq> Greater" using total_preorder_onD(1) [OF c2 xy e(2)] .
    ultimately show ?thesis by simp
  qed
next
  fix x y z assume in_A: "x \<in> A" "y \<in> A" "z \<in> A"
    and xy: "then_with (c1 x y) (c2 x y) \<noteq> Greater" and yz: "then_with (c1 y z) (c2 y z) \<noteq> Greater"
  note tr = total_preorder_onD(2) [OF c1]
  have xz: "c1 x z \<noteq> Greater" using tr [OF in_A] xy yz by auto
  show "then_with (c1 x z) (c2 x z) \<noteq> Greater"
  proof (cases "c1 x y = Less \<or> c1 y z = Less")
    case True
    have "c1 z x = Greater"
    proof (rule ccontr)
      assume zx: "c1 z x \<noteq> Greater"
      have "c1 y x \<noteq> Greater" using tr [OF in_A(2,3,1)] yz zx by auto
      moreover have "c1 z y \<noteq> Greater" using tr [OF in_A(3,1,2)] xy zx by auto
      ultimately show False using True flip in_A by auto
    qed
    then have "c1 x z = Less" using flip in_A by blast
    then show ?thesis by simp
  next
    case False
    have "c2 x y \<noteq> Greater" using xy False by (cases "c1 x y") simp_all
    moreover have "c2 y z \<noteq> Greater" using yz False by (cases "c1 y z") simp_all
    ultimately show ?thesis using total_preorder_onD(2) [OF c2 in_A] xz by simp
  qed
qed

lemma total_preorder_partial_cmp:
  assumes "\<forall>c\<in>A. f c \<noteq> NaN"
  shows "total_preorder_on A (\<lambda>a b. unwrap_equal (partial_cmp (f b) (f a)))"
  unfolding total_preorder_on_def
  using assms by (auto dest: flt_asym not_flt_trans)

lemma cand_cmp_total_preorder:
  assumes "\<forall>c\<in>A. scored c"
  shows "total_preorder_on A cand_cmp"
proof -
  have "total_preorder_on A (\<lambda>a b. cand_cmp a b)"
    unfolding cand_cmp_def
    using assms
    by (intro total_preorder_then_with total_preorder_partial_cmp total_preorder_on_cmp_of_desc)
      (auto simp: scored_def)
  then show ?thesis by simp
qed

lemma cand_cmp_antisym:
  assumes "scored a" "scored b" "cand_cmp a b \<noteq> Greater" "cand_cmp b a \<noteq> Greater"
  shows "cd_id a = cd_id b"
  using assms flt_total [of "score_per_token a" "score_per_token b"] flt_total [of "cd_score a" "cd_score b"]
  by (auto simp: cand_cmp_Greater_scored scored_def)

lemma sort_candidates_perm:
  assumes "mset cs = mset ds" "\<forall>c\<in>set cs. scored c" "distinct (map cd_id cs)"
  shows "sort_candidates cs = sort_candidates ds"
  unfolding sort_candidates_def using assms(1) cand_cmp_total_preorder [OF assms(2)]
proof (rule sort_by_perm)
  show "a = b" if "a \<in> set cs" "b \<in> set cs" "cand_cmp a b \<noteq> Greater" "cand_cmp b a \<noteq> Greater" for a b
    using that cand_cmp_antisym [of a b] assms(2,3) by (auto simp: distinct_map inj_on_def)
qed

text \<open>Loading without read errors, as a plain fold.\<close>

definition cand_at :: "greedy_pager \<Rightarrow> (bytes \<Rightarrow> bytes) \<Rightarrow> (block_id \<times> f32) list \<Rightarrow> block_id \<Rightarrow> (section_kind \<times> cand) option" where
  "cand_at gp lower scores i =
     (case sv_get (gp_store gp) i of
        Inr (Some b) \<Rightarrow>
          (case tokens_for (gp_tokenizer gp) b of
             Inr t \<Rightarrow> Some (default_section (cb_kind b), candidate_of gp lower (base_score scores i) b t)
           | Inl _ \<Rightarrow> None)
      | _ \<Rightarrow> None)"

definition readable :: "greedy_pager \<Rightarrow> block_id \<Rightarrow> bool" where
  "readable gp i \<longleftrightarrow> sv_get (gp_store gp) i = Inr None \<or> (\<exists>t. stored gp i t)"

lemma load_candidate_readable:
  assumes "readable gp i"
  shows "load_candidate gp lower scores i by_s =
    Inr (case cand_at gp lower scores i of
           None \<Rightarrow> by_s
         | Some (s, c) \<Rightarrow> by_s(s := by_s s @ [c]))"
  using assms
  by (auto simp: readable_def stored_def load_candidate_def pager_get_def cand_at_def Let_def)

lemma load_all_readable:
  assumes "\<forall>i\<in>set ids. readable gp i"
  shows "for_each (load_candidate gp lower scores) ids by_s =
    Inr (\<lambda>s. by_s s @ map snd (filter (\<lambda>p. fst p = s) (List.map_filter (cand_at gp lower scores) ids)))"
  using assms
proof (induction ids arbitrary: by_s)
  case Nil
  then show ?case by (simp add: map_filter_simps)
next
  case (Cons i ids)
  then show ?case
    by (cases "cand_at gp lower scores i")
      (auto simp: load_candidate_readable map_filter_simps fun_eq_iff split: prod.splits)
qed

lemma mset_map_filter: "mset xs = mset ys \<Longrightarrow> mset (List.map_filter f xs) = mset (List.map_filter f ys)"
  by (simp add: map_filter_def mset_filter)

lemma cand_at_id: "store_view_ok (gp_store gp) \<Longrightarrow> cand_at gp lower scores i = Some (s, c) \<Longrightarrow> cd_id c = i"
  by (auto simp: cand_at_def store_view_ok_def split: sum.splits option.splits)

lemma cand_at_ids:
  assumes "store_view_ok (gp_store gp)"
  shows "map (cd_id \<circ> snd) (List.map_filter (cand_at gp lower scores) ids) =
    filter (\<lambda>i. cand_at gp lower scores i \<noteq> None) ids"
  using cand_at_id [OF assms] by (induction ids) (auto simp: map_filter_simps split: option.splits)

lemma distinct_upsert: "distinct (map fst m) \<Longrightarrow> distinct (map fst (upsert_max i s m))"
  by (induction i s m rule: upsert_max.induct) (auto simp: ids_upsert_max)

lemma distinct_gather:
  assumes "gather gp req = Inr scores"
  shows "distinct (map fst scores)"
proof -
  have m: "distinct (map fst sc) \<Longrightarrow> distinct (map fst (merge_candidates A cs sc))" for A cs sc
    unfolding merge_candidates_def
    by (induction cs arbitrary: sc) (auto simp: distinct_upsert)
  show ?thesis
    using assms unfolding gather_def
    by (rule for_each_inv [where P = "\<lambda>m. distinct (map fst m)"]) (auto simp: rbind_Inr_iff m)
qed

lemma load_candidates_order:
  assumes "hash_orders_ok ord" "hash_orders_ok ord'" "store_view_ok (gp_store gp)"
    and "distinct (map fst scores)" "\<forall>i\<in>fst ` set scores. readable gp i"
    and "\<forall>i\<in>fst ` set scores. \<forall>s c. cand_at gp lower scores i = Some (s, c) \<longrightarrow> scored c"
  shows "load_candidates gp ord lower scores = load_candidates gp ord' lower scores"
proof -
  let ?f = "cand_at gp lower scores"
  let ?L = "\<lambda>o' s. map snd (filter (\<lambda>p. fst p = s) (List.map_filter ?f (ho_ids o' (map fst scores))))"
  have run: "load_candidates gp o' lower scores = Inr (\<lambda>s. sort_candidates (?L o' s))"
    if "hash_orders_ok o'" for o'
    using assms(5) hash_orders_sets [OF that]
    by (simp add: load_candidates_def load_all_readable)
  have ms: "mset (ho_ids ord (map fst scores)) = mset (ho_ids ord' (map fst scores))"
    using assms(1,2) by (simp add: hash_orders_ok_def)
  have "sort_candidates (?L ord s) = sort_candidates (?L ord' s)" for s
  proof (rule sort_candidates_perm)
    show "mset (?L ord s) = mset (?L ord' s)"
      using mset_map_filter [OF ms, of ?f] by (simp add: mset_filter)
    show "\<forall>c\<in>set (?L ord s). scored c"
      using assms(6) hash_orders_sets(1) [OF assms(1)] by (auto simp: map_filter_def)
    have "distinct (ho_ids ord (map fst scores))"
      using assms(1,4) by (metis hash_orders_ok_def mset_eq_imp_distinct_iff)
    then have "distinct (map (cd_id \<circ> snd) (List.map_filter ?f (ho_ids ord (map fst scores))))"
      by (simp add: cand_at_ids [OF assms(3)])
    then show "distinct (map cd_id (?L ord s))"
      unfolding map_map [symmetric] by (auto simp: distinct_map inj_on_def filter_set split: prod.splits)
  qed
  then show ?thesis using run [OF assms(1)] run [OF assms(2)] by simp
qed

lemma dependencies_kinds:
  "ho_kinds ord = ho_kinds ord' \<Longrightarrow> dependencies gp ord policy i b = dependencies gp ord' policy i b"
  by (simp add: dependencies_def)

lemma expand_loop_kinds:
  assumes "ho_kinds ord = ho_kinds ord'"
  shows "expand_loop gp ord policy ib m v fr st = expand_loop gp ord' policy ib m v fr st"
  using assms
proof (induction gp ord policy ib m v fr st rule: expand_loop.induct)
  case (1 gp ord policy ib m v st)
  then show ?case by simp
next
  case (2 gp ord policy ib m v i d fr st)
  note dep = dependencies_kinds [OF "2.prems", of gp policy i]
  show ?case
    using 2 by (auto simp: dep intro!: rbind_cong split: option.splits prod.splits)
qed

text \<open>
  C9: the plan does not depend on the order in which the candidates are visited. If all
  candidates can be read and none carries a NaN score, two runs whose hash maps agree on the
  order of sections and of edge kinds return the same plan, or the same error.
\<close>

theorem page_candidate_order:
  assumes "hash_orders_ok ord" "hash_orders_ok ord'"
    and "ho_sections ord = ho_sections ord'" "ho_kinds ord = ho_kinds ord'"
    and "store_view_ok (gp_store gp)"
    and "gather gp req = Inr scores" "\<forall>i\<in>fst ` set scores. readable gp i"
    and "\<forall>i\<in>fst ` set scores. \<forall>s c. cand_at gp lower scores i = Some (s, c) \<longrightarrow> scored c"
  shows "page gp ord lower req = page gp ord' lower req"
proof -
  have load: "load_candidates gp ord lower scores = load_candidates gp ord' lower scores"
    using assms(1,2,5) distinct_gather [OF assms(6)] assms(7,8) by (rule load_candidates_order)
  have var: "fill_variable gp ord b s bs st = fill_variable gp ord' b s bs st" for b s bs st
    by (simp add: fill_variable_def assms(3))
  have "expand_edges gp ord p b st = expand_edges gp ord' p b st" for p b st
    by (simp add: expand_edges_def Let_def expand_loop_kinds [OF assms(4)])
  then have edge: "edge_passes gp ord b st = edge_passes gp ord' b st" for b st
    by (simp add: edge_passes_def Let_def)
  show ?thesis
    by (simp add: page_def assms(6) load var edge)
qed

end
