(* ===== verification/Pager_Examples.thy ===== *)
theory Pager_Examples
  imports Pager_Correct
begin

text \<open>
  Small stores and requests on which the pager runs by simplification: the witnesses of its
  properties, and the runs that show where a plan depends on more than its inputs.
\<close>

definition demo_tokenizer :: tokenizer where
  "demo_tokenizer = \<lparr>tok_id = ''cl100k_base'', tok_count = (\<lambda>b. Inr (word_of_nat (length b)))\<rparr>"

definition demo_orders :: hash_orders where
  "demo_orders = \<lparr>ho_ids = (\<lambda>x. x), ho_sections = (\<lambda>x. x), ho_kinds = (\<lambda>_ x. x)\<rparr>"

definition demo_orders_rev :: hash_orders where
  "demo_orders_rev = \<lparr>ho_ids = (\<lambda>x. x), ho_sections = rev, ho_kinds = (\<lambda>_ x. x)\<rparr>"

definition demo_graph :: "context_block list \<Rightarrow> edge list \<Rightarrow> store_view" where
  "demo_graph bs es =
     (demo_view bs)\<lparr>sv_edges_from := (\<lambda>i. Inr (filter (\<lambda>e. edge_from e = i) es)),
        sv_edges_to := (\<lambda>i. Inr (filter (\<lambda>e. edge_to e = i) es))\<rparr>"

definition demo_pager :: "context_block list \<Rightarrow> edge list \<Rightarrow> scoring_policy \<Rightarrow> block_id list \<Rightarrow> greedy_pager" where
  "demo_pager bs es pol ids =
     \<lparr>gp_store = demo_graph bs es, gp_tokenizer = demo_tokenizer, gp_scoring = pol,
      gp_budgets = table_default, gp_retrievers = [pinned_retriever ids]\<rparr>"

definition demo_request :: "block_id list \<Rightarrow> page_request" where
  "demo_request req =
     \<lparr>pr_session_id = 7, pr_task = [], pr_model = demo_profile ''gpt-4'' None 150, pr_required_blocks = req\<rparr>"

definition demo_blocks :: "context_block list" where
  "demo_blocks = [demo_block 1 Kind_System ''sys'', demo_block 2 Kind_Fact ''fact'',
     demo_block 3 Kind_Fact ''a fact too long for this budget'', demo_block 4 Kind_State ''st'']"

definition demo_edges :: "edge list" where
  "demo_edges = [\<lparr>edge_from = 2, edge_to = 4, edge_kind = Contradicts\<rparr>]"

definition prefer_newer :: scoring_policy where
  "prefer_newer = scoring_default\<lparr>sp_edge_policy := edge_policy_default\<lparr>ep_contradicts := PreferNewer\<rparr>\<rparr>"

lemma demo_orders_ok: "hash_orders_ok demo_orders" "hash_orders_ok demo_orders_rev"
  by (simp_all add: hash_orders_ok_def demo_orders_def demo_orders_rev_def)

lemma demo_store_ok: "store_view_ok (gp_store (demo_pager bs es pol ids))"
  by (auto simp: store_view_ok_def demo_pager_def demo_graph_def demo_view_def find_Some_iff)

lemma demo_budget: "input_budget (pr_model (demo_request req)) = 50"
  by (simp add: demo_request_def demo_profile_def input_budget_def sat_sub_def)

lemmas pager_eval = page_def edge_passes_def plan_of_def add_required_def pager_get_def tokens_for_def
  task_tokens_def gather_def merge_candidates_def load_candidates_def load_candidate_def
  candidate_of_def base_score_def sort_candidates_def cand_cmp_Greater score_per_token_def
  unwrap_equal_def partial_cmp_def feq_def fill_system_def fill_system_candidate_def
  fill_variable_def fill_section_def fill_candidate_def redundant_def use_section_def fits_def
  select_block_def omit_block_def pager_init_def token_count_zero_def token_saturating_add_def
  token_saturating_sub_def expand_edges_def dependencies_def collect_outgoing_def newest_first_def
  collect_children_def all_edge_kinds_def pull_dep_def reconcile_edges_def recon_block_def
  recon_edge_def resolve_contradiction_def rebuild_step_def or_insert_def pinned_set_def
  pinned_retriever_def pinned_retrieve_def candidate_def retrieval_limit_def all_sections_def
  for_section_def fclamp_def nat_as_f32_def section_tokens_def f64_as_u32_def
  cmp_of_def pager_state.defs fill_state.defs Let_def

lemmas demo_eval = demo_tokenizer_def demo_orders_def demo_orders_rev_def demo_pager_def
  demo_graph_def demo_view_def demo_block_def demo_request_def demo_profile_def demo_blocks_def
  demo_edges_def prefer_newer_def scoring_default_def edge_policy_default_def input_budget_def
  sat_add_def sat_sub_def tc_get_def bt_get_def allocate_default reconciles_def effective_depth_def
  max_depth_ceiling_def pulls_children_def pulls_outgoing_def provenance_default_def

text \<open>Block 3 does not fit; blocks 2 and 4 contradict each other and the smaller id loses.\<close>

lemma demo_page:
  "\<exists>plan. page (demo_pager demo_blocks demo_edges prefer_newer [2, 3, 4]) demo_orders (\<lambda>s. s) (demo_request [1]) = Inr plan \<and>
     pp_selected plan = [1, 4] \<and> map om_block_id (pp_omitted plan) = [3, 2] \<and> pp_estimated_tokens plan = 5"
  by (simp add: pager_eval demo_eval rnd_eval del: set_filter set_map list.set_map)

lemma demo_gather:
  "gather (demo_pager demo_blocks demo_edges prefer_newer [2, 3, 4]) (demo_request [1]) =
     Inr [(2, f32_1), (3, f32_1), (4, f32_1)]"
  by (simp add: pager_eval demo_eval)

text \<open>Two retrievers: what the second one surfaces is paged too.\<close>

definition demo_two_retrievers :: greedy_pager where
  "demo_two_retrievers = (demo_pager demo_blocks [] scoring_default [])
     \<lparr>gp_retrievers := [pinned_retriever [2], pinned_retriever [3, 4]]\<rparr>"

lemma demo_two_page:
  "\<exists>plan. page demo_two_retrievers demo_orders (\<lambda>s. s) (demo_request [1]) = Inr plan \<and>
     pp_selected plan = [1, 4, 2] \<and> map om_block_id (pp_omitted plan) = [3]"
  by (simp add: demo_two_retrievers_def pager_eval demo_eval rnd_eval del: set_filter set_map list.set_map)

text \<open>
  Blocks 2 and 4 contradict each other and block 4 is the older one: it is dropped, unless
  the request pins it.
\<close>

definition demo_dated :: "context_block list" where
  "demo_dated = [demo_block 1 Kind_System ''sys'', (demo_block 2 Kind_Fact ''fact'')\<lparr>cb_created_at := 9\<rparr>,
     (demo_block 4 Kind_State ''st'')\<lparr>cb_created_at := 5\<rparr>]"

lemma demo_dated_page:
  "\<exists>plan. page (demo_pager demo_dated demo_edges prefer_newer [2, 4]) demo_orders (\<lambda>s. s) (demo_request [1]) = Inr plan \<and>
     pp_selected plan = [1, 2] \<and> map om_block_id (pp_omitted plan) = [4]"
  by (simp add: demo_dated_def pager_eval demo_eval rnd_eval del: set_filter set_map list.set_map)

lemma demo_dated_pinned:
  "\<exists>plan. page (demo_pager demo_dated demo_edges prefer_newer [2]) demo_orders (\<lambda>s. s) (demo_request [1, 4]) = Inr plan \<and>
     pp_selected plan = [1, 4, 2]"
  by (simp add: demo_dated_def pager_eval demo_eval rnd_eval del: set_filter set_map list.set_map)

text \<open>
  The order in which the hash map of sections is visited shows in the plan. The same
  store and the same request give two different selections under two orders.
\<close>

lemma page_section_order_matters:
  "\<exists>p q. hash_orders_ok demo_orders \<and> hash_orders_ok demo_orders_rev \<and>
     page (demo_pager demo_blocks [] scoring_default [2, 4]) demo_orders (\<lambda>s. s) (demo_request [1]) = Inr p \<and>
     page (demo_pager demo_blocks [] scoring_default [2, 4]) demo_orders_rev (\<lambda>s. s) (demo_request [1]) = Inr q \<and>
     pp_selected p = [1, 4, 2] \<and> pp_selected q = [1, 2, 4]"
  by (simp add: demo_orders_ok [unfolded demo_orders_def demo_orders_rev_def] pager_eval demo_eval rnd_eval del: set_filter set_map list.set_map)

text \<open>
  The summary fallback can select a block twice. A summary that already won its place as
  a candidate is selected again in place of a parent that does not fit.
\<close>

lemma page_summary_selected_twice:
  "\<exists>plan. page (demo_pager (demo_blocks @ [(demo_block 5 Kind_Summary ''sum'')\<lparr>cb_provenance := \<lparr>prov_source = None, prov_parents = [3], prov_labels = []\<rparr>\<rparr>]) []
        (scoring_default\<lparr>sp_summary_fallback := True\<rparr>) [3, 5]) demo_orders (\<lambda>s. s) (demo_request [1]) = Inr plan \<and>
     pp_selected plan = [1, 5, 5] \<and> pp_estimated_tokens plan = 9"
  by (simp add: build_summary_index_def index_summary_def pager_eval demo_eval rnd_eval
      del: set_filter set_map list.set_map)

section \<open>Witnesses\<close>

theorem page_within_budget_witness:
  "\<exists>plan. page (demo_pager demo_blocks demo_edges prefer_newer [2, 3, 4]) demo_orders (\<lambda>s. s) (demo_request [1]) = Inr plan \<and>
     unat (pp_estimated_tokens plan) =
       sum_list (map (tok_of (demo_pager demo_blocks demo_edges prefer_newer [2, 3, 4])) [1, 4])"
proof -
  obtain plan where p: "page (demo_pager demo_blocks demo_edges prefer_newer [2, 3, 4]) demo_orders (\<lambda>s. s) (demo_request [1]) = Inr plan"
    "pp_selected plan = [1, 4]"
    using demo_page by blast
  from page_within_budget [OF p(1) demo_store_ok demo_orders_ok(1)] p show ?thesis
    by (simp add: demo_budget)
qed

theorem page_required_first_witness:
  "\<exists>plan xs. page (demo_pager demo_blocks demo_edges prefer_newer [2, 3, 4]) demo_orders (\<lambda>s. s) (demo_request [1]) = Inr plan \<and>
     pp_selected plan = 1 # xs"
proof -
  obtain plan where p: "page (demo_pager demo_blocks demo_edges prefer_newer [2, 3, 4]) demo_orders (\<lambda>s. s) (demo_request [1]) = Inr plan"
    using demo_page by blast
  have "\<exists>xs. pp_selected plan = pr_required_blocks (demo_request [1]) @ xs"
    using page_required_first [OF p demo_store_ok demo_orders_ok(1)] by (simp add: demo_budget)
  with p show ?thesis by (simp add: demo_request_def)
qed

theorem page_accounts_for_candidates_witness:
  "\<exists>plan. page demo_two_retrievers demo_orders (\<lambda>s. s) (demo_request [1]) = Inr plan \<and>
     (4 \<in> set (pp_selected plan) \<or> 4 \<in> om_block_id ` set (pp_omitted plan))"
proof -
  let ?c = "candidate 4 f32_1 ''pinned''"
  obtain plan where p: "page demo_two_retrievers demo_orders (\<lambda>s. s) (demo_request [1]) = Inr plan"
    using demo_two_page by blast
  have r: "pinned_retriever [3, 4] \<in> set (gp_retrievers demo_two_retrievers)"
    by (simp add: demo_two_retrievers_def)
  have c: "ret_retrieve (pinned_retriever [3, 4]) s t retrieval_limit =
      Inr [candidate 3 f32_1 ''pinned'', ?c]" for s t
    by (simp add: pinned_retriever_def pinned_retrieve_def retrieval_limit_def)
  have g: "sv_get (gp_store demo_two_retrievers) (rc_block_id ?c) = Inr (Some (demo_block 4 Kind_State ''st''))"
    by (simp add: candidate_def demo_two_retrievers_def demo_pager_def demo_graph_def demo_view_def
        demo_blocks_def demo_block_def)
  have "store_view_ok (gp_store demo_two_retrievers)"
    using demo_store_ok [of demo_blocks "[]" scoring_default "[]"] by (simp add: demo_two_retrievers_def)
  from page_accounts_for_candidates [OF p this demo_orders_ok(1) _ r c _ g] p show ?thesis
    by (simp add: demo_budget candidate_def)
qed

theorem page_reconciled_witness:
  "\<exists>plan. page (demo_pager demo_dated demo_edges prefer_newer [2]) demo_orders (\<lambda>s. s) (demo_request [1, 4]) = Inr plan \<and>
     {2, 4} \<subseteq> set (pp_selected plan) \<and> 4 \<in> set (pr_required_blocks (demo_request [1, 4]))"
proof -
  let ?gp = "demo_pager demo_dated demo_edges prefer_newer [2]"
  let ?e = "\<lparr>edge_from = 2, edge_to = 4, edge_kind = Contradicts\<rparr>"
  obtain plan where p: "page ?gp demo_orders (\<lambda>s. s) (demo_request [1, 4]) = Inr plan"
    "pp_selected plan = [1, 4, 2]"
    using demo_dated_pinned by blast
  have pol: "ep_enabled (sp_edge_policy (gp_scoring ?gp))" "ep_contradicts (sp_edge_policy (gp_scoring ?gp)) = PreferNewer"
    by (simp_all add: demo_pager_def prefer_newer_def edge_policy_default_def scoring_default_def)
  have es: "sv_edges_from (gp_store ?gp) 2 = Inr [?e]"
    by (simp add: demo_pager_def demo_graph_def demo_edges_def)
  have x: "sv_get (gp_store ?gp) 2 = Inr (Some ((demo_block 2 Kind_Fact ''fact'')\<lparr>cb_created_at := 9\<rparr>))"
    "sv_get (gp_store ?gp) (edge_to ?e) = Inr (Some ((demo_block 4 Kind_State ''st'')\<lparr>cb_created_at := 5\<rparr>))"
    by (simp_all add: demo_pager_def demo_graph_def demo_view_def demo_dated_def demo_block_def)
  from page_reconciled [OF p(1) demo_store_ok demo_orders_ok(1) _ pol(1) es, of ?e, OF _ _ _ _ _ x]
  have "4 \<in> set (pr_required_blocks (demo_request [1, 4]))"
    using p(2) pol(2) by (simp add: demo_budget)
  with p show ?thesis by auto
qed


theorem page_candidate_order_witness:
  "page (demo_pager demo_blocks demo_edges prefer_newer [2, 3, 4]) demo_orders (\<lambda>s. s) (demo_request [1]) =
   page (demo_pager demo_blocks demo_edges prefer_newer [2, 3, 4]) (demo_orders\<lparr>ho_ids := rev\<rparr>) (\<lambda>s. s) (demo_request [1])"
proof -
  let ?gp = "demo_pager demo_blocks demo_edges prefer_newer [2, 3, 4]"
  let ?sc = "[(2, f32_1), (3, f32_1), (4, f32_1)] :: (block_id \<times> f32) list"
  have ok: "hash_orders_ok (demo_orders\<lparr>ho_ids := rev\<rparr>)"
    by (simp add: hash_orders_ok_def demo_orders_def)
  have rd: "\<forall>i\<in>fst ` set ?sc. readable ?gp i"
    by (simp add: readable_def stored_def tokens_for_def demo_eval)
  have nn: "\<forall>i\<in>fst ` set ?sc. \<forall>s c. cand_at ?gp (\<lambda>s. s) ?sc i = Some (s, c) \<longrightarrow> scored c"
    by (simp add: cand_at_def scored_def pager_eval demo_eval rnd_eval)
  show ?thesis
    by (rule page_candidate_order [OF demo_orders_ok(1) ok _ _ demo_store_ok demo_gather rd nn]) simp_all
qed

theorem expand_edges_depth_witness:
  "\<exists>n. n \<le> 1 \<and> dep_reach (demo_pager demo_blocks [\<lparr>edge_from = 2, edge_to = 4, edge_kind = Supports\<rparr>] scoring_default [])
     demo_orders edge_policy_default {2} n 4"
proof -
  let ?gp = "demo_pager demo_blocks [\<lparr>edge_from = 2, edge_to = 4, edge_kind = Supports\<rparr>] scoring_default []"
  let ?st = "select_block 2 4 f32_1 HighRelevance pager_init"
  have "\<exists>st'. expand_edges ?gp demo_orders edge_policy_default 50 ?st = Inr st' \<and> 4 \<in> set (pg_selected st')"
    by (simp add: pager_eval demo_eval del: set_filter set_map list.set_map)
  then show ?thesis
    using expand_edges_depth [of ?gp demo_orders edge_policy_default 50 ?st _ 4]
    by (auto simp: edge_policy_default_def pager_init_def)
qed

end
