(* ===== verification/Packer_Examples.thy ===== *)
theory Packer_Examples
  imports Packer_Correct Pager_Examples
begin

text \<open>
  A small plan packed by simplification: the witnesses of the properties of the packer.
\<close>

definition demo_packer :: simple_packer where
  "demo_packer = simple_packer_new
     (demo_view [demo_block 1 Kind_System ''sys'', demo_block 2 Kind_UserMessage ''hi'',
                 demo_block 4 Kind_State ''st''])
     demo_tokenizer"

definition demo_packer_env :: packer_env where
  "demo_packer_env = \<lparr>en_clock_ms = 0, en_utf8_error = (\<lambda>_. [])\<rparr>"

definition demo_pack_request :: page_request where
  "demo_pack_request = \<lparr>pr_session_id = 7, pr_task = ''go'', pr_model = demo_profile ''gpt-4'' None 300,
     pr_required_blocks = []\<rparr>"

definition demo_plan :: "block_id list \<Rightarrow> page_plan" where
  "demo_plan ids = \<lparr>pp_selected = ids,
     pp_selections = [\<lparr>sel_block_id = 4, sel_score = f32_1, sel_reason = Recency, sel_note = Some ''old''\<rparr>],
     pp_omitted = [], pp_estimated_tokens = 0\<rparr>"

lemmas pack_eval = pack_def pack_chat_def group_selected_def load_selected_def collect_notes_def
  section_order_def render_section_def render_block_def block_text_def from_utf8_def count_bytes_def
  opt_note_def opt_stamp_def header_def note_line_def check_budget_def system_side_def
  ordered_sections_def chat_section_def chat_body_def chat_message_of_def recent_role_def
  task_message_def simple_packer_new_def packer_options_default_def cache_options_default_def
  sort_by_key_def token_count_zero_def token_saturating_add_def Let_def

lemmas pack_demo = demo_packer_def demo_packer_env_def demo_pack_request_def demo_plan_def

lemma demo_packer_store_ok: "store_view_ok (sk_store demo_packer)"
  by (auto simp: store_view_ok_def demo_packer_def simple_packer_new_def demo_view_def find_Some_iff)

lemma demo_utf8: "utf8_valid ''sys''" "utf8_valid ''hi''" "utf8_valid ''st''"
  by (rule utf8_valid_ascii, simp)+

lemma demo_pack:
  "\<exists>p. pack demo_packer_env demo_packer demo_pack_request (demo_plan [2, 4, 1]) = Inr p \<and>
     map pb_block_id (pk_blocks p) = [1, 4, 2] \<and>
     pk_rendered p = ''## System'' @ newline @ newline @ ''sys'' @ newline @ newline @
       ''## Task'' @ newline @ newline @ ''go'' @ newline @ newline @
       ''## State'' @ newline @ newline @ ''[!] old'' @ newline @ ''st'' @ newline @ newline @
       ''## Recent'' @ newline @ newline @ ''hi'' @ newline @ newline"
  by (simp add: pack_eval pack_demo demo_eval demo_utf8)

lemma demo_reads:
  "reads demo_packer [2, 4, 1] [demo_block 2 Kind_UserMessage ''hi'', demo_block 4 Kind_State ''st'', demo_block 1 Kind_System ''sys'']"
  by (simp add: reads_def pack_demo simple_packer_new_def demo_view_def demo_block_def)

lemma demo_trim:
  "trim_end (''## System'' @ newline @ newline @ ''sys'' @ newline @ newline) = ''## System'' @ newline @ newline @ ''sys''"
  "trim_end (''## State'' @ newline @ newline @ ''[!] old'' @ newline @ ''st'' @ newline @ newline) =
     ''## State'' @ newline @ newline @ ''[!] old'' @ newline @ ''st''"
  by (subst trim_end_ascii, simp, simp add: is_whitespace_def code_point_def)+

lemma demo_pack_chat:
  "\<exists>c. pack_chat demo_packer_env demo_packer demo_pack_request (demo_plan [2, 4, 1]) = Inr c \<and>
     map cm_section (cp_messages c) = [Some Sec_System, Some Sec_State, Some Sec_Recent, Some Sec_Task] \<and>
     cp_cache_boundary c = Some 0"
  using demo_trim by (simp add: pack_eval pack_demo demo_eval demo_utf8)

text \<open>With a message of the assistant in the transcript.\<close>

definition demo_chat_packer :: simple_packer where
  "demo_chat_packer = simple_packer_new
     (demo_view [demo_block 1 Kind_System ''sys'', demo_block 2 Kind_UserMessage ''hi'',
                 demo_block 3 Kind_AssistantMessage ''yo'', demo_block 4 Kind_State ''st''])
     demo_tokenizer"

lemma demo_chat_options:
  "co_stable_sections (po_cache (sk_options demo_chat_packer)) = co_stable_sections cache_options_default"
  by (simp add: demo_chat_packer_def simple_packer_new_def packer_options_default_def)

lemma demo_chat_layout:
  "\<exists>c. pack_chat demo_packer_env demo_chat_packer demo_pack_request (demo_plan [3, 2, 4, 1]) = Inr c"
  using demo_trim utf8_valid_ascii [of "''yo''"]
  by (simp add: pack_eval demo_chat_packer_def pack_demo demo_eval demo_utf8)

theorem pack_blocks_witness:
  "\<exists>p. pack demo_packer_env demo_packer demo_pack_request (demo_plan [2, 4, 1]) = Inr p \<and>
     mset (map pb_block_id (pk_blocks p)) = {#1, 2, 4#} \<and> sorted_wrt packed_before (pk_blocks p)"
proof -
  obtain p where p: "pack demo_packer_env demo_packer demo_pack_request (demo_plan [2, 4, 1]) = Inr p"
    using demo_pack by blast
  show ?thesis
    using pack_blocks [OF p demo_packer_store_ok] p by (simp add: demo_plan_def add_mset_commute)
qed

theorem pack_complete_within_budget_witness:
  "\<exists>p. pack demo_packer_env demo_packer demo_pack_request (demo_plan [2, 4, 1]) = Inr p \<and>
     sublist ''go'' (pk_rendered p) \<and> pk_input_tokens p \<le> 200"
proof -
  obtain p where p: "pack demo_packer_env demo_packer demo_pack_request (demo_plan [2, 4, 1]) = Inr p"
    using demo_pack by blast
  show ?thesis
    using pack_complete_within_budget [OF p] p
    by (simp add: demo_pack_request_def demo_profile_def input_budget_def sat_sub_def)
qed

theorem pack_order_independent_witness:
  "pack demo_packer_env demo_packer demo_pack_request (demo_plan [1, 2, 4]) =
   pack demo_packer_env demo_packer demo_pack_request (demo_plan [4, 2, 1])"
proof -
  have "\<exists>b. sv_get (sk_store demo_packer) i = Inr (Some b)" if "i \<in> set (pp_selected (demo_plan [4, 2, 1]))" for i
    using that by (auto simp: demo_plan_def demo_packer_def simple_packer_new_def demo_view_def demo_block_def)
  moreover have "mset (pp_selected (demo_plan [1, 2, 4])) = mset (pp_selected (demo_plan [4, 2, 1]))"
    by (simp add: demo_plan_def)
  moreover have "collect_notes (demo_plan [1, 2, 4]) = collect_notes (demo_plan [4, 2, 1])"
    by (simp add: demo_plan_def collect_notes_def)
  ultimately show ?thesis
    using pack_order_independent [OF demo_packer_store_ok] by blast
qed

theorem pack_outcome_witness:
  "pack demo_packer_env demo_packer (demo_pack_request\<lparr>pr_model := demo_profile ''gpt-4'' None 120\<rparr>) (demo_plan [2, 4, 1])
     = Inl (BudgetExceeded 66 20)"
proof -
  let ?bs = "[demo_block 2 Kind_UserMessage ''hi'', demo_block 4 Kind_State ''st'', demo_block 1 Kind_System ''sys'']"
  let ?req = "demo_pack_request\<lparr>pr_model := demo_profile ''gpt-4'' None 120\<rparr>"
  have "reads demo_packer (pp_selected (demo_plan [2, 4, 1])) ?bs"
    using demo_reads by (simp add: demo_plan_def)
  moreover have "\<And>b. b \<in> set ?bs \<Longrightarrow> utf8_valid (cb_bytes b)"
    using demo_utf8 by (auto simp: demo_block_def)
  moreover have "tok_count (sk_tokenizer demo_packer) x = Inr (word_of_nat (length x))" for x
    by (simp add: demo_packer_def simple_packer_new_def demo_tokenizer_def)
  moreover have "prompt_text demo_packer_env demo_packer ?req (demo_plan [2, 4, 1]) ?bs =
     ''## System'' @ newline @ newline @ ''sys'' @ newline @ newline @
       ''## Task'' @ newline @ newline @ ''go'' @ newline @ newline @
       ''## State'' @ newline @ newline @ ''[!] old'' @ newline @ ''st'' @ newline @ newline @
       ''## Recent'' @ newline @ newline @ ''hi'' @ newline @ newline"
    by (simp add: prompt_text_def section_text_def block_entry_def group_ref_def pack_eval pack_demo
        demo_eval cmp_of_def)
  moreover have "input_budget (pr_model ?req) = 20"
    by (simp add: demo_profile_def input_budget_def sat_sub_def)
  ultimately show ?thesis
    using pack_outcome [of demo_packer "demo_plan [2, 4, 1]" ?bs "\<lambda>x. word_of_nat (length x)" demo_packer_env ?req]
    by (auto split: sum.splits)
qed

theorem pack_chat_layout_witness:
  "\<exists>c. pack_chat demo_packer_env demo_chat_packer demo_pack_request (demo_plan [3, 2, 4, 1]) = Inr c \<and>
     map cm_role (cp_messages c) = [Role_System, Role_System, Role_User, Role_Assistant, Role_User]"
proof -
  let ?bs = "[demo_block 3 Kind_AssistantMessage ''yo'', demo_block 2 Kind_UserMessage ''hi'',
    demo_block 4 Kind_State ''st'', demo_block 1 Kind_System ''sys'']"
  obtain c where c: "pack_chat demo_packer_env demo_chat_packer demo_pack_request (demo_plan [3, 2, 4, 1]) = Inr c"
    using demo_chat_layout by blast
  from pack_chat_layout [OF c] obtain bs where
    bs: "reads demo_chat_packer (pp_selected (demo_plan [3, 2, 4, 1])) bs" and
    m: "map (\<lambda>m. (cm_role m, cm_section m)) (cp_messages c) =
      map (\<lambda>s. (Role_System, Some s)) (filter (\<lambda>s. group_ref bs s \<noteq> []) [Sec_System, Sec_Background, Sec_State, Sec_Plan, Sec_Retrieved]) @
      map (\<lambda>b. (if cb_kind b = Kind_AssistantMessage then Role_Assistant else Role_User, Some Sec_Recent)) (group_ref bs Sec_Recent) @
      map (\<lambda>b. (Role_Tool, Some Sec_Tools)) (group_ref bs Sec_Tools) @ [(Role_User, Some Sec_Task)]"
    unfolding Let_def by (auto simp: demo_chat_options cache_options_default_def demo_pack_request_def demo_profile_def)
  have "bs = ?bs"
    using bs by (simp add: reads_def list_all2_Cons1 demo_plan_def demo_chat_packer_def simple_packer_new_def demo_view_def demo_block_def)
  with arg_cong [OF m, of "map fst"] have
    "map cm_role (cp_messages c) = [Role_System, Role_System, Role_User, Role_Assistant, Role_User]"
    by (simp add: group_ref_def sort_by_key_def demo_block_def cmp_of_def comp_def)
  with c show ?thesis by (intro exI [of _ c] conjI)
qed

theorem pack_chat_cache_boundary_witness:
  "\<exists>c. pack_chat demo_packer_env demo_packer demo_pack_request (demo_plan [2, 4, 1]) = Inr c \<and>
     cp_cache_boundary c = Some 0 \<and> 0 < length (cp_messages c)"
proof -
  obtain c where c: "pack_chat demo_packer_env demo_packer demo_pack_request (demo_plan [2, 4, 1]) = Inr c"
     "cp_cache_boundary c = Some 0"
    using demo_pack_chat by blast
  with pack_chat_cache_boundary [OF c(1)] show ?thesis by auto
qed

theorem pack_chat_within_budget_witness:
  "\<exists>c. pack_chat demo_packer_env demo_packer demo_pack_request (demo_plan [2, 4, 1]) = Inr c \<and>
     cp_input_tokens c \<le> 200"
proof -
  obtain c where c: "pack_chat demo_packer_env demo_packer demo_pack_request (demo_plan [2, 4, 1]) = Inr c"
    using demo_pack_chat by blast
  with pack_chat_within_budget [OF c] show ?thesis
    by (auto simp: demo_pack_request_def demo_profile_def input_budget_def sat_sub_def)
qed

end
