(* ===== verification/Front_Examples.thy ===== *)
theory Front_Examples
  imports Cli_Runs Py_Correct Lmdb_Examples Pg_Examples Packer_Examples
begin

text \<open>
  The command line and the Python class run by simplification on sorted-list tables: the
  witnesses of their properties, and a plan that loses its notes on the way through Python.
\<close>

section \<open>A host\<close>

type_synonym demo_opened = "(table, pg_db) opened"

definition demo_models :: model_registry where
  "demo_models = set_default ''gpt-4'' (register (demo_profile ''gpt-4'' None 400) registry_new)"

definition demo_tokenizers :: tokenizer_registry where
  "demo_tokenizers = [(''cl100k_base'', demo_tokenizer)]"

definition demo_config :: loaded_config where
  "demo_config = loaded_of demo_models demo_tokenizers applied_none"

definition demo_host :: "context_block list \<Rightarrow> trace_record list \<Rightarrow> (unit, table, pg_db, unit, unit) host" where
  "demo_host bs rs =
     \<lparr>hs_io = \<lparr>oi_create_dir = \<lambda>_. Inr (), oi_open_env = \<lambda>_ _ _. Inr (), oi_create_database = \<lambda>_ _. Inr Kv.table_empty\<rparr>,
      hs_trace_io = \<lparr>oi_create_dir = \<lambda>_. Inr (), oi_open_env = \<lambda>_ _ _. Inr (), oi_create_database = \<lambda>_ _. Inr Kv.table_empty\<rparr>,
      hs_lib = list_lib bs demo_hash, hs_codec = list_codec rs, hs_pg = db_lib, hs_tls_feature = False,
      hs_tls = \<lparr>tl_new = Inl ''no tls'', tl_noverify = Inl ''no tls'', tl_read = \<lambda>_. Inl ''no file'',
        tl_from_pem = \<lambda>_. Inr (), tl_with_root = \<lambda>_. Inl ''no tls''\<rparr>,
      hs_path_debug = \<lambda>p. p, hs_id_order = rev, hs_reason_order = \<lambda>rs. rs, hs_clock = \<lambda>_. Some 5,
      hs_random = Some [1], hs_elapsed_ms = 3, hs_var = \<lambda>_. None, hs_client = \<lambda>_ _ _. undefined,
      hs_retrievers = \<lparr>rv_exp2 = \<lambda>x. x, rv_ln = \<lambda>x. x,
        rv_text = \<lparr>tx_is_alphanumeric = \<lambda>_. True, tx_to_lowercase = \<lambda>s. s\<rparr>, rv_term_order = \<lambda>_ ts. ts\<rparr>,
      hs_orders = demo_orders, hs_packer = demo_packer_env, hs_cl100k = Inl ''no table'', hs_o200k = Inl ''no table'',
      hs_hf_file = \<lambda>_ _. Inl (EncodingFailed ''no file''), hs_models = \<lparr>mf_default = None, mf_models = []\<rparr>,
      hs_read_to_string = \<lambda>_. Inl ''no file'', hs_from_toml = \<lambda>_. Inl ''no file''\<rparr>"

definition demo_io :: "bytes \<Rightarrow> cli_io" where
  "demo_io stdin =
     \<lparr>ci_read_file = \<lambda>_. Inl ''no file'', ci_stdin = Inr stdin, ci_plan_json = \<lambda>_. Inr ''{}'',
      ci_chat_json = \<lambda>_. Inr ''{}'', ci_block_json = \<lambda>_. Inr ''{}''\<rparr>"

lemma demo_host_sel [simp]:
  "hs_lib (demo_host bs rs) = list_lib bs demo_hash" "hs_codec (demo_host bs rs) = list_codec rs"
  "hs_pg (demo_host bs rs) = db_lib" "hs_id_order (demo_host bs rs) = rev" "hs_orders (demo_host bs rs) = demo_orders"
  "hs_packer (demo_host bs rs) = demo_packer_env" "hs_random (demo_host bs rs) = Some [1]"
  "host_now_ms (demo_host bs rs) n = 5" "tx_to_lowercase (rv_text (hs_retrievers (demo_host bs rs))) = (\<lambda>s. s)"
  by (simp_all add: demo_host_def host_now_ms_def u64_try_from_def)

section \<open>Two blocks that contradict each other\<close>

definition noted_blocks :: "context_block list" where
  "noted_blocks = [hashed_block 1 ''a'', hashed_block 2 ''bb'']"

definition noted_store :: "table lmdb_store" where
  "noted_store =
     \<lparr>ls_by_id = table_insert (id_key 2) (be_bytes 8 1) (table_insert (id_key 1) (be_bytes 8 0) Kv.table_empty),
      ls_by_hash = table_insert (hash_key 2) (id_key 2) (table_insert (hash_key 1) (id_key 1) Kv.table_empty),
      ls_by_session = table_insert (session_block_key 7 2) [] (table_insert (session_block_key 7 1) [] Kv.table_empty),
      ls_edges_from = table_insert (edge_key 2 (edge_kind_to_byte Contradicts) 1) [] Kv.table_empty,
      ls_edges_to = table_insert (edge_key 1 (edge_kind_to_byte Contradicts) 2) [] Kv.table_empty,
      ls_meta = Kv.table_empty\<rparr>"

lemma noted_store_put:
  "\<exists>s1 s2. lmdb_put (list_lib noted_blocks demo_hash) demo_tables 7 (hashed_block 1 ''a'') = Inr (1, s1) \<and>
     lmdb_put (list_lib noted_blocks demo_hash) s1 7 (hashed_block 2 ''bb'') = Inr (2, s2) \<and>
     lmdb_put_edge (list_lib noted_blocks demo_hash) s2 \<lparr>edge_from = 2, edge_to = 1, edge_kind = Contradicts\<rparr> =
       Inr ((), noted_store)"
  by (simp add: lmdb_eval lmdb_put_edge_def noted_blocks_def noted_store_def demo_tables_def demo_hash_def)

abbreviation noted_view :: store_view where
  "noted_view \<equiv> view_of (host_ops (demo_host noted_blocks [])) (Backend_Lmdb noted_store)"

lemmas ops_eval = view_of_def host_ops_def backend_ops_def backend_reads_def backend_writes_def lmdb_ops_def

lemma noted_view_get:
  "sv_get noted_view 1 = Inr (Some (hashed_block 1 ''a''))" "sv_get noted_view 2 = Inr (Some (hashed_block 2 ''bb''))"
  by (simp_all add: ops_eval lmdb_eval noted_store_def noted_blocks_def from_be_be_bytes)

lemma noted_view_edges:
  "sv_edges_from noted_view 1 = Inr []" "sv_edges_to noted_view 2 = Inr []"
  "sv_edges_from noted_view 2 = Inr [\<lparr>edge_from = 2, edge_to = 1, edge_kind = Contradicts\<rparr>]"
  "sv_edges_to noted_view 1 = Inr [\<lparr>edge_from = 2, edge_to = 1, edge_kind = Contradicts\<rparr>]"
  by (simp_all add: ops_eval lmdb_eval lmdb_edges_from_def lmdb_edges_to_def noted_store_def edge_kind_from_byte_def)

text \<open>A Python retriever that finds what it is made with.\<close>

definition finder :: "(bytes \<times> f32) list \<Rightarrow> py_object" where
  "finder found = \<lparr>po_name = Inr (Inr ''finder''), po_retrieve = \<lambda>_ _ _. Inr (Inr found)\<rparr>"

definition demo_py :: "py_object \<Rightarrow> table lmdb_store \<Rightarrow> (table, pg_db) py_store" where
  "demo_py obj s =
     \<lparr>ps_inner = Some (Backend_Lmdb s), ps_tokenizers = demo_tokenizers, ps_models = demo_models,
      ps_retriever_entries = [], ps_section_budgets = None, ps_packer_options = packer_options_default,
      ps_edge_policy = None, ps_python_retrievers = [\<lparr>ret_name = ''finder'', ret_retrieve = py_retrieve obj ''finder''\<rparr>]\<rparr>"

lemma demo_resolve: "resolve ''gpt-4'' demo_models = Some (demo_profile ''gpt-4'' None 400, demo_models)"
  by (simp add: resolve_def resolve_with_outcome_def demo_models_def demo_profile_def Let_def register_def registry_new_def
      set_default_def registry_get_def strip_provider_prefix_def rsplit_next_def)

lemma demo_py_profile:
  "py_profile_and_tokenizer (demo_py obj s) ''gpt-4'' = Inr (demo_profile ''gpt-4'' None 400, demo_tokenizer)"
  by (simp add: py_profile_and_tokenizer_def demo_py_def demo_resolve demo_profile_def tokenizers_get_def
      demo_tokenizers_def bt_get_def)

lemma finder_retrieve:
  "py_retrieve (finder [(block_id_display 1, f32_1), (block_id_display 2, f32_1)]) ''finder'' session task n =
     Inr [candidate 1 f32_1 ''finder'', candidate 2 f32_1 ''finder'']"
  "py_retrieve (finder [(block_id_display 1, f32_1)]) ''finder'' session task n = Inr [candidate 1 f32_1 ''finder'']"
  "py_retrieve (finder []) ''finder'' session task n = Inr []"
  by (simp_all add: py_retrieve_def finder_def py_candidate_def hex_u128_display candidate_def fclamp_def)

abbreviation both :: py_object where
  "both \<equiv> finder [(block_id_display 1, f32_1), (block_id_display 2, f32_1)]"

abbreviation noted_py :: "py_object \<Rightarrow> (table, pg_db) py_store" where
  "noted_py obj \<equiv> demo_py obj noted_store"

definition noted_plan :: page_plan where
  "noted_plan = \<lparr>pp_selected = [1, 2],
     pp_selections = [\<lparr>sel_block_id = 1, sel_score = f32_1, sel_reason = HighRelevance,
        sel_note = Some (''contradicted by newer block '' @ block_id_display 2)\<rparr>,
       \<lparr>sel_block_id = 2, sel_score = f32_1, sel_reason = HighRelevance, sel_note = None\<rparr>],
     pp_omitted = [], pp_estimated_tokens = 3\<rparr>"

definition noted_pager :: "py_object \<Rightarrow> greedy_pager" where
  "noted_pager obj =
     \<lparr>gp_store = noted_view, gp_tokenizer = demo_tokenizer, gp_scoring = scoring_default, gp_budgets = table_default,
      gp_retrievers = ps_python_retrievers (noted_py obj)\<rparr>"

lemma noted_py_pager:
  "py_make_pager (demo_host noted_blocks []) (noted_py obj) noted_view demo_tokenizer = Inr (noted_pager obj)"
  by (simp add: py_make_pager_def build_retrievers_def demo_py_def greedy_pager_new_def with_retrievers_def Let_def
      noted_pager_def)

abbreviation go_request :: page_request where
  "go_request \<equiv> session_request 7 ''go'' (demo_profile ''gpt-4'' None 400)"

lemma noted_py_plan:
  "py_plan_with (demo_host noted_blocks []) (noted_py obj) noted_view demo_tokenizer go_request =
     labelled ''page'' pager_error_display (page (noted_pager obj) demo_orders (\<lambda>s. s) go_request)"
  by (simp add: py_plan_with_def noted_py_pager run_page_def)

lemma noted_page: "page (noted_pager both) demo_orders (\<lambda>s. s) go_request = Inr noted_plan"
  by (simp add: noted_pager_def session_request_def demo_py_def finder_retrieve
      noted_view_get noted_view_edges hashed_block_def demo_hash_def noted_plan_def pager_eval demo_eval rnd_eval
      del: set_filter set_map list.set_map)

lemma one_page:
  "\<exists>plan. page (noted_pager (finder [(block_id_display 1, f32_1)])) demo_orders (\<lambda>s. s) go_request = Inr plan \<and>
     pp_selected plan = [1] \<and> (\<forall>s \<in> set (pp_selections plan). sel_note s = None)"
  by (simp add: noted_pager_def session_request_def demo_py_def finder_retrieve
      noted_view_get noted_view_edges hashed_block_def demo_hash_def pager_eval demo_eval rnd_eval
      del: set_filter set_map list.set_map)

lemma none_page: "\<exists>plan. page (noted_pager (finder [])) demo_orders (\<lambda>s. s) go_request = Inr plan"
  by (simp add: noted_pager_def session_request_def demo_py_def finder_retrieve pager_eval demo_eval rnd_eval
      del: set_filter set_map list.set_map)

abbreviation noted_host :: "(unit, table, pg_db, unit, unit) host" where
  "noted_host \<equiv> demo_host noted_blocks []"

definition prompt_with :: "bytes \<Rightarrow> bytes" where
  "prompt_with note = ''## Task'' @ nl @ nl @ ''go'' @ nl @ nl @ ''## Retrieved'' @ nl @ nl @
     note @ ''a'' @ nl @ nl @ ''bb'' @ nl @ nl"

lemma noted_utf8: "utf8_valid ''a''" "utf8_valid ''bb''"
  by (rule utf8_valid_ascii, simp)+

lemma noted_pack:
  "\<exists>p. pack demo_packer_env (make_packer noted_view demo_tokenizer packer_options_default) go_request noted_plan = Inr p \<and>
     pk_rendered p = prompt_with (''[!] contradicted by newer block '' @ block_id_display 2 @ nl)"
  by (simp add: make_packer_def with_options_def noted_plan_def pack_eval noted_view_get hashed_block_def
      demo_eval noted_utf8 session_request_def prompt_with_def length_block_id_display)

lemma unnoted_pack:
  "\<exists>p. pack demo_packer_env (make_packer noted_view demo_tokenizer packer_options_default) go_request
       (noted_plan\<lparr>pp_selections := []\<rparr>) = Inr p \<and> pk_rendered p = prompt_with []"
  by (simp add: make_packer_def with_options_def noted_plan_def pack_eval noted_view_get hashed_block_def
      demo_eval noted_utf8 session_request_def prompt_with_def)

lemma noted_py_open:
  "ensure_open (noted_py obj) = Inr (Backend_Lmdb noted_store)" "ps_packer_options (noted_py obj) = packer_options_default"
  by (simp_all add: ensure_open_def demo_py_def)

lemma noted_py_page:
  "page (noted_pager obj) demo_orders (\<lambda>s. s) go_request = Inr plan \<Longrightarrow>
     py_page noted_host (noted_py obj) 7 ''gpt-4'' ''go'' = Inr (py_plan_of plan)"
  by (simp add: py_page_def demo_py_profile noted_py_open noted_py_plan)

text \<open>
  C38: a prompt packed from a plan that went through Python loses the notes of the plan. With
  the default edge policy and two blocks of which one contradicts the other, \<open>pack\<close> warns in front
  of the contradicted block, and \<open>pack_with_plan\<close> on the plan that \<open>page\<close> gives, its note included,
  renders the same block without the warning.
\<close>

theorem py_repack_drops_notes:
  "\<exists>plan r q. py_page noted_host (noted_py both) 7 ''gpt-4'' ''go'' = Inr plan \<and>
     map pys_note (pyp_selections plan) = [Some (''contradicted by newer block '' @ block_id_display 2), None] \<and>
     py_pack noted_host (noted_py both) 7 ''gpt-4'' ''go'' False False None = Inr (r, None) \<and>
     py_pack_with_plan noted_host (noted_py both) plan 7 ''gpt-4'' ''go'' False False None = Inr (q, None) \<and>
     pyr_rendered r = Some (prompt_with (''[!] contradicted by newer block '' @ block_id_display 2 @ nl)) \<and>
     pyr_rendered q = Some (prompt_with [])"
proof -
  have ns: "map pys_note (pyp_selections (py_plan_of noted_plan)) =
      [Some (''contradicted by newer block '' @ block_id_display 2), None]"
    by (simp add: py_plan_of_def noted_plan_def py_selection_of_def)
  obtain p q where
    p: "pack demo_packer_env (make_packer noted_view demo_tokenizer packer_options_default) go_request noted_plan = Inr p"
      "pk_rendered p = prompt_with (''[!] contradicted by newer block '' @ block_id_display 2 @ nl)"
    and q: "pack demo_packer_env (make_packer noted_view demo_tokenizer packer_options_default) go_request
        (noted_plan\<lparr>pp_selections := []\<rparr>) = Inr q"
      "pk_rendered q = prompt_with []"
    using noted_pack unnoted_pack by blast
  have plan: "py_rust_plan (py_plan_of noted_plan) = Inr (noted_plan\<lparr>pp_selections := []\<rparr>)"
    by (simp add: py_rust_plan_of noted_plan_def)
  let ?r = "\<lambda>x. \<lparr>pyr_rendered = Some (pk_rendered x), pyr_messages = None, pyr_cache_boundary = None, pyr_trace_id = None\<rparr>"
  have r: "py_pack noted_host (noted_py both) 7 ''gpt-4'' ''go'' False False None = Inr (?r p, None)"
    by (simp add: py_pack_def demo_py_profile noted_py_open noted_py_plan noted_page py_render_def py_opt_trace_def p(1) Let_def)
  have w: "py_pack_with_plan noted_host (noted_py both) (py_plan_of noted_plan) 7 ''gpt-4'' ''go'' False False None =
      Inr (?r q, None)"
    by (simp add: py_pack_with_plan_def demo_py_profile noted_py_open plan py_render_def py_opt_trace_def q(1) Let_def)
  have t: "pyr_rendered (?r p) = Some (prompt_with (''[!] contradicted by newer block '' @ block_id_display 2 @ nl))"
    "pyr_rendered (?r q) = Some (prompt_with [])"
    by (simp_all only: py_pack_result.simps p(2) q(2))
  show ?thesis
    by (rule exI [of _ "py_plan_of noted_plan"], rule exI [of _ "?r p"], rule exI [of _ "?r q"])
      (intro conjI noted_py_page [OF noted_page] ns r w t)
qed

theorem py_repack_witness:
  "\<exists>plan. py_page noted_host (noted_py (finder [(block_id_display 1, f32_1)])) 7 ''gpt-4'' ''go'' = Inr plan \<and>
     pyp_selected plan = [block_id_display 1] \<and>
     py_pack_with_plan noted_host (noted_py (finder [(block_id_display 1, f32_1)])) plan 7 ''gpt-4'' ''go'' True False None =
       py_pack noted_host (noted_py (finder [(block_id_display 1, f32_1)])) 7 ''gpt-4'' ''go'' True False None"
proof -
  obtain plan where plan: "page (noted_pager (finder [(block_id_display 1, f32_1)])) demo_orders (\<lambda>s. s) go_request = Inr plan"
    "pp_selected plan = [1]" "\<forall>s \<in> set (pp_selections plan). sel_note s = None"
    using one_page by blast
  have "\<forall>s \<in> set (pyp_selections (py_plan_of plan)). pys_note s = None"
    using plan(3) by (simp add: py_plan_of_def py_selection_of_def)
  from py_repack [OF noted_py_page [OF plan(1)] this] noted_py_page [OF plan(1)] plan(2) show ?thesis
    by (auto simp: py_plan_of_def)
qed

lemma py_silent_retrievers_witness:
  "\<exists>plan. py_page noted_host (noted_py (finder [])) 7 ''gpt-4'' ''go'' = Inr plan \<and> pyp_selected plan = []"
proof -
  obtain plan where plan: "page (noted_pager (finder [])) demo_orders (\<lambda>s. s) go_request = Inr plan"
    using none_page by blast
  have "pyp_selected (py_plan_of plan) = []"
    using py_silent_retrievers [OF _ _ _ _ noted_py_page [OF plan]] demo_orders_ok(1)
    by (simp add: demo_py_def finder_retrieve)
  with noted_py_page [OF plan] show ?thesis by blast
qed

end
