(* ===== verification/Front_Agree.thy ===== *)
theory Front_Agree
  imports Cli_Runs Py_Correct
begin









end
