(* ===== verification/Cli_Examples.thy ===== *)
theory Cli_Examples
  imports Front_Examples Front_Agree
begin

text \<open>
  Commands run on the host of \<open>Front_Examples\<close>: the witnesses of the properties of the command
  line, over an empty store and over the store with two blocks that contradict each other, and of
  the agreement of the two front ends.
\<close>

abbreviation started :: "table lmdb_store \<Rightarrow> (demo_opened, table) cli_state" where
  "started s \<equiv> cli_start (Backend_Lmdb s)"

lemmas cli_eval = cbind_def cret_def cfail_def clift_def cget_def cput_def print_def eprint_def cexpect_def cwhen_def

section \<open>A command that fails\<close>

lemma purge_neither:
  "\<exists>s. cr_store (dispatch (demo_host [] []) (demo_io []) (Cmd_Purge None None True) (Some ''db'') None demo_config) = Some s"
  "cr_result (dispatch (demo_host [] []) (demo_io []) (Cmd_Purge None None True) (Some ''db'') None demo_config) \<noteq> Inr ()"
  by (simp_all add: dispatch_def open_block_store_def host_open_backend_def open_backend_def open_lmdb_store_def lmdb_open_def
      open_schema_def demo_config_def loaded_of_def applied_none_def demo_host_def list_lib_def purge_def cli_eval
      cli_start_def split_def)

theorem dispatch_all_or_nothing_witness:
  "\<exists>s. open_block_store (demo_host [] []) demo_config (Some ''db'') None = Inr s"
proof -
  obtain s where "cr_store (dispatch (demo_host [] []) (demo_io []) (Cmd_Purge None None True) (Some ''db'') None demo_config) = Some s"
    using purge_neither(1) by blast
  from dispatch_all_or_nothing [OF this] purge_neither(2) show ?thesis by blast
qed

section \<open>A put, and what reads it\<close>

definition put_block :: context_block where
  "put_block = fresh_block (demo_host [] []) (from_parts 5 1) Kind_Fact ''a'' f32_0 5 provenance_default"

abbreviation put_host :: "(unit, table, pg_db, unit, unit) host" where
  "put_host \<equiv> demo_host [put_block] []"

lemma put_host_id: "host_block_id put_host n = Some (from_parts 5 1)"
  by (simp add: host_block_id_def from_be_def)

lemma put_host_block: "fresh_block put_host (from_parts 5 1) Kind_Fact ''a'' f32_0 5 provenance_default = put_block"
  by (simp add: put_block_def fresh_block_def list_lib_def)

lemma put_block_sel [simp]:
  "cb_id put_block = from_parts 5 1" "cb_hash put_block = 1" "cb_bytes put_block = ''a''"
  "cb_provenance put_block = provenance_default" "cb_token_counts put_block = tc_new"
  by (simp_all add: put_block_def fresh_block_def list_lib_def demo_hash_def)

definition put_store :: "table lmdb_store" where
  "put_store = demo_tables\<lparr>ls_by_id := table_insert (id_key (from_parts 5 1)) (be_bytes 8 0) Kv.table_empty,
     ls_by_hash := table_insert (hash_key 1) (id_key (from_parts 5 1)) Kv.table_empty,
     ls_by_session := table_insert (session_block_key 7 (from_parts 5 1)) [] Kv.table_empty\<rparr>"

lemma demo_cli_put:
  "dispatch_store put_host (demo_io ''a'') demo_config (Cmd_Put 7 KindArg_Fact f32_0 ''-'') (started demo_tables) =
     (Inr (), \<lparr>cs_store = Backend_Lmdb put_store, cs_trace = None, cs_out = block_id_display (from_parts 5 1) @ nl, cs_err = []\<rparr>)"
  by (simp add: cli_put_def cli_eval demo_io_def new_block_id_def put_host_id put_host_block cli_start_def ops_eval lmdb_eval
      demo_tables_def put_store_def)

lemma put_host_rel: "host_rel (hs_lib put_host) table_get db_tables (Backend_Lmdb demo_tables) spec_empty"
  by (simp add: host_rel_def backend_rel_def lmdb_rel_def key_rel_def spec_empty_def demo_tables_def)

lemma put_store_get: "lmdb_get (list_lib [put_block] demo_hash) put_store (from_parts 5 1) = Inr (Some put_block)"
  by (simp add: lmdb_eval put_store_def from_be_be_bytes)

lemma utf8_a: "utf8_valid ''a''"
  by (rule utf8_valid_ascii) simp

lemma demo_cli_show:
  "\<exists>st. dispatch_store put_host (demo_io []) demo_config (Cmd_Show (from_parts 5 1) False) (started put_store) = (Inr (), st)"
  by (simp add: cli_show_def cli_eval cli_start_def ops_eval put_store_get show_block_def show_provenance_def show_body_def
      from_utf8_def utf8_a provenance_default_def tc_new_def tc_is_empty_def)

theorem put_then_show_witness:
  "\<exists>st pre. dispatch_store put_host (demo_io []) demo_config (Cmd_Show (from_parts 5 1) False) (started put_store) = (Inr (), st) \<and>
     cs_out st = pre @ ''---'' @ nl @ ''a'' @ nl"
proof -
  obtain st where st: "dispatch_store put_host (demo_io []) demo_config (Cmd_Show (from_parts 5 1) False)
      (started put_store) = (Inr (), st)"
    using demo_cli_show by blast
  from put_then_show [OF _ _ put_host_rel spec_wf_empty demo_cli_put, where body = "''a''" and i = "from_parts 5 1" and
      collate = id and host' = put_host and io' = "demo_io []" and config' = demo_config and st' = st]
  have "\<exists>pre. cs_out st = pre @ ''---'' @ nl @ ''a'' @ nl"
    using mem.lmdb_axioms db.postgres_axioms st
    by (simp add: put_input_def demo_io_def utf8_a spec_empty_def parse_u128_display butlast_append)
  with st show ?thesis by auto
qed

lemma put_reached: "cli_reached {put_host} (hs_lib put_host) table_get db_lib db_tables (Backend_Lmdb put_store)"
proof -
  have start: "cli_reached {put_host} (hs_lib put_host) table_get db_lib db_tables (Backend_Lmdb demo_tables)"
    by (rule reached_start [OF put_host_rel])
  have free: "st_blocks a i = None"
    if "host_rel (hs_lib put_host) table_get db_tables (Backend_Lmdb demo_tables) a" for a i
    using that by (auto simp: host_rel_def backend_rel_def lmdb_rel_def key_rel_def demo_tables_def)
  have pg: "hs_pg put_host = db_lib" and clock: "uint (host_now_ms put_host n) < 2 ^ 63" for n by simp_all
  show ?thesis
    using reached_command [OF start singletonI refl pg free clock demo_cli_put] by simp
qed

lemma demo_cli_verify:
  "\<exists>st. dispatch_store put_host (demo_io []) demo_config Cmd_Verify (started put_store) = (Inr (), st)"
  by (simp add: cli_verify_def cli_eval cli_start_def lmdb_of_def as_lmdb_def lmdb_eval put_store_def demo_tables_def
      from_be_be_bytes demo_hash_def is_clean_def verify_default_def verify_report_lines_def print_ids_def bt_get_def)

theorem cli_verify_passes_witness:
  "\<exists>st pre. dispatch_store put_host (demo_io []) demo_config Cmd_Verify (started put_store) = (Inr (), st) \<and>
     cs_out st = pre @ ''OK'' @ nl"
proof -
  obtain st where st: "dispatch_store put_host (demo_io []) demo_config Cmd_Verify (started put_store) = (Inr (), st)"
    using demo_cli_verify by blast
  have "Inr () = (Inr () :: cli_error + unit) \<longrightarrow> (\<exists>pre. cs_out st = pre @ ''OK'' @ nl)"
    by (rule conjunct2 [OF cli_verify_passes [OF _ _ put_reached _ _ st]])
      (use mem.lmdb_axioms db.postgres_axioms in simp_all)
  with st show ?thesis by blast
qed

section \<open>A traced pack\<close>

definition session_config :: loaded_config where
  "session_config = demo_config\<lparr>ld_retriever_entries := [\<lparr>re_kind = ''session'', re_half_life_secs = None,
     re_min_word_len = None, re_k1 = None, re_b = None, re_score = Some f32_1\<rparr>]\<rparr>"

definition demo_note :: bytes where
  "demo_note = ''[!] contradicted by newer block '' @ block_id_display 2 @ nl"

definition traced :: trace_record where
  "traced = call_record 1 go_request noted_plan (word_of_nat (length (prompt_with demo_note))) (demo_hash (prompt_with demo_note)) 5 3"

abbreviation traced_host :: "(unit, table, pg_db, unit, unit) host" where
  "traced_host \<equiv> demo_host noted_blocks [traced]"

lemma traced_view: "view_of (host_ops traced_host) s = view_of (host_ops noted_host) s"
  by (simp add: host_ops_def)

lemma noted_view_session: "sv_list_session noted_view 7 = Inr [1, 2]"
  by (simp add: ops_eval lmdb_eval noted_store_def)

lemma traced_profile: "profile_and_tokenizer session_config ''gpt-4'' = Inr (demo_profile ''gpt-4'' None 400, demo_tokenizer)"
  by (simp add: profile_and_tokenizer_def session_config_def demo_config_def loaded_of_def demo_resolve demo_profile_def
      tokenizers_get_def demo_tokenizers_def bt_get_def)

definition session_pager :: greedy_pager where
  "session_pager = \<lparr>gp_store = noted_view, gp_tokenizer = demo_tokenizer, gp_scoring = scoring_default,
     gp_budgets = table_default, gp_retrievers = [session_retriever noted_view f32_1]\<rparr>"

lemma traced_make_pager: "make_pager traced_host noted_view demo_tokenizer session_config = Inr session_pager"
  by (simp add: make_pager_def build_retrievers_def build_retriever_def session_config_def demo_config_def loaded_of_def
      applied_none_def greedy_pager_new_def with_retrievers_def tune_pager_def Let_def session_pager_def field_or_def
      session_with_score_def fclamp_def)

lemma session_page: "page session_pager demo_orders (\<lambda>s. s) go_request = Inr noted_plan"
  by (simp add: session_pager_def session_request_def session_retriever_def session_retrieve_def noted_view_session
      noted_view_get noted_view_edges hashed_block_def demo_hash_def noted_plan_def pager_eval demo_eval rnd_eval
      del: set_filter set_map list.set_map)

lemma traced_pack:
  "\<exists>p. pack demo_packer_env (make_packer noted_view demo_tokenizer packer_options_default) go_request noted_plan = Inr p \<and>
     pk_rendered p = prompt_with demo_note \<and> pk_input_tokens p = word_of_nat (length (prompt_with demo_note))"
  by (simp add: make_packer_def with_options_def noted_plan_def pack_eval noted_view_get hashed_block_def
      demo_eval noted_utf8 session_request_def prompt_with_def length_block_id_display demo_note_def)

abbreviation traced_command :: cli_command where
  "traced_command \<equiv> Cmd_Pack 7 ''gpt-4'' ''go'' \<lparr>pf_prompt_only = True, pf_chat = False, pf_timestamps = False, pf_trace = Some ''t''\<rparr>"

lemma demo_cli_pack:
  "\<exists>st. dispatch_store traced_host (demo_io []) session_config traced_command (started noted_store) = (Inr (), st)"
proof -
  obtain p where p:
    "pack demo_packer_env (make_packer noted_view demo_tokenizer packer_options_default) go_request noted_plan = Inr p"
    "pk_rendered p = prompt_with demo_note" "pk_input_tokens p = word_of_nat (length (prompt_with demo_note))"
    using traced_pack by blast
  have o: "packer_opts session_config False = packer_options_default"
    by (simp add: packer_opts_def session_config_def demo_config_def loaded_of_def applied_none_def)
  have ps: "pack_store traced_host noted_view (ci_chat_json (demo_io [])) demo_tokenizer session_config go_request
      packer_options_default False = Inr (noted_plan, p, None)"
    by (simp add: pack_store_def traced_make_pager run_page_def session_page p(1) Let_def)
  have i: "host_call_id traced_host = Some 1" "host_duration_ms traced_host = 3"
    by (simp_all add: host_call_id_def from_be_def host_duration_ms_def demo_host_def)
  obtain sink where s: "host_open_trace traced_host ''t'' = Inr sink"
    by (simp add: host_open_trace_def trace_open_def trace_schema_check_def demo_host_def list_lib_def)
  have r: "call_record 1 go_request noted_plan (word_of_nat (length (prompt_with demo_note)))
      (lib_hash (hs_lib traced_host) (prompt_with demo_note)) 5 3 = traced"
    by (simp add: traced_def list_lib_def)
  have t: "\<exists>sink'. ts_record (host_sink traced_host) sink traced = Inr sink'"
    by (simp add: lmdb_sink_def trace_record_call_def list_codec_def list_lib_def)
  then obtain sink' where t: "ts_record (host_sink traced_host) sink traced = Inr sink'" by blast
  show ?thesis
    using t by (simp add: cli_pack_def cli_eval cli_start_def traced_profile traced_view o ps record_call_def open_trace_def s i
        p(2,3) r print_pack_def Let_def del: demo_host_sel(1,2))
qed

theorem cli_pack_end_to_end_witness:
  "\<exists>st sink r. dispatch_store traced_host (demo_io []) session_config traced_command (started noted_store) = (Inr (), st) \<and>
     sublist ''go'' (cs_out st) \<and> cs_trace st = Some sink \<and> trace_view table_get (list_codec [traced]) sink 1 = Some r \<and>
     tr_prompt_hash r = demo_hash (cs_out st)"
proof -
  obtain st where st: "dispatch_store traced_host (demo_io []) session_config traced_command (started noted_store) = (Inr (), st)"
    using demo_cli_pack by blast
  have i: "host_call_id traced_host = Some 1"
    by (simp add: host_call_id_def from_be_def)
  have "trace_store (hs_lib traced_host) table_get (hs_codec traced_host)"
    using mem_trace.trace_store_axioms by simp
  from cli_pack_end_to_end [OF this st] st show ?thesis
    by (auto simp: i list_lib_def)
qed

section \<open>The two front ends on one store\<close>














end
