(* ===== verification/Spec2Isabelle.thy ===== *)
theory Spec2Isabelle
  imports Reduce Diff Iso8601 Ann_Examples Cli_Examples
begin

text \<open>
  LLM386: a verification development.

  LLM386 is a Rust program that keeps the context of a language model outside the model. Blocks
  of bytes are filed under sessions in a persistent store and linked by typed edges. For a task
  and a model, a \<^emph>\<open>pager\<close> asks retrievers for candidates, fills the input budget of the model
  section by section, follows edges and settles contradictions, and returns a plan; a \<^emph>\<open>packer\<close>
  renders the plan as one prompt or as chat messages; a \<^emph>\<open>trace\<close> keeps the plan, the count and the
  hash of what was sent. A command line and a Python class put these together. Sources are named
  below by their crate, \<open>core\<close> for \<open>src/crates/llm386-core/src\<close>, and so on.

  \<^bold>\<open>How the parts interact.\<close> A command (\<open>Cli_Run.dispatch\<close>) or a method of the Python class
  (\<open>Py_Store\<close>) loads the registries of models and tokenizers, folds in a configuration
  (\<open>Host.load_applied\<close>, \<open>Config.apply_config\<close>) and opens one of two stores (\<open>Config.open_backend\<close>).
  The pager, the retrievers and the packer read the opened store through a view
  (\<open>Store_Ops.view_of\<close>); writes go through the record \<open>Store_Ops.block_store\<close>, which is the trait
  \<open>BlockStore\<close>. The plan of \<open>Pager.page\<close> is the input of \<open>Packer.pack\<close> and \<open>Packer.pack_chat\<close>, and is
  recorded in a trace store (\<open>Trace\<close>), where \<open>Diff\<close> compares it with others.

  \<^bold>\<open>Shared ground.\<close>
  \<^item> \<open>Prelude\<close>: results as sums with the error on the left (\<open>rbind\<close> is the \<open>?\<close> operator), folds over
    results (\<open>for_each\<close>, \<open>map_res\<close>), saturating arithmetic, \<open>Ordering\<close> and a stable comparator sort.
  \<^item> \<open>Rust_Text\<close>, \<open>Rust_Chars\<close>, \<open>Rust_Num\<close>: UTF-8 validation, characters, white space, trimming, and
    numbers printed and parsed in a radix. A string is the list of its UTF-8 bytes.
  \<^item> \<open>Rust_Float\<close>, \<open>Float_Bits\<close>: \<open>f32\<close> and \<open>f64\<close> as exact rationals that every operation rounds to
    nearest, ties to even; the square root and the bit patterns of \<open>f32\<close>.
  \<^item> \<open>Ordered_Map\<close>: \<open>BTreeMap\<close> as a sorted list, behind the locale \<open>ordered_map\<close>.

  \<^bold>\<open>Core and configuration.\<close>
  \<^item> \<open>Ids\<close> (\<open>core/ids.rs\<close>): identifiers as 128-bit words, their layout, order and textual forms.
  \<^item> \<open>Model\<close> (\<open>core/model.rs\<close>): profiles, input budgets, and the registry whose resolution of a name
    is exact, then by longest family, then the default.
  \<^item> \<open>Core_Types\<close> (\<open>core\<close>): blocks, edges, plans, prompts, errors, and the traits as records.
  \<^item> \<open>Config\<close> (\<open>config/lib.rs\<close>): what every section of the file builds, and the choice of backend.
  \<^item> \<open>Tokenizers\<close> (\<open>tokenizer\<close>): adapters, registry, and the caching wrapper, whose steps in several
    threads interleave (\<open>caching_reach\<close>): caching never changes a count.

  \<^bold>\<open>Stores.\<close>
  \<^item> \<open>Store_Spec\<close>: the abstract store, blocks by id, one id for each content hash, members of sessions,
    edges; \<open>spec_wf\<close> is its invariant.
  \<^item> \<open>Kv\<close>, \<open>Lmdb_Store\<close>, \<open>Lmdb_Correct\<close>, \<open>Lmdb_Runs\<close>, \<open>Lmdb_Examples\<close> (\<open>store-lmdb/store.rs\<close>): the keys, the
    opening with its schema check, every operation with verify and repair; a simulation of the
    abstract store for each, what a repair does to any tables and reports, and that every operation
    returns when LMDB does.
  \<^item> \<open>Pg_Common\<close>, \<open>Pg_Sql\<close>, \<open>Pg_Store\<close>, \<open>Pg_Correct\<close>, \<open>Pg_Runs\<close>, \<open>Pg_Examples\<close> (\<open>store-pg\<close>): rows and JSON
    columns, TLS modes, the statements with their meaning over relations, the blocking and the
    asynchronous store, a simulation of the same abstract store, and purges of a session while
    others write, as sequences of transactions.
  \<^item> \<open>Store_Ops\<close> (\<open>core/store.rs\<close>, \<open>dispatch!\<close> of \<open>config\<close>): the trait as a record of operations and the
    locale \<open>store_contract\<close>; the LMDB store, the Postgres store and the sum of the two that a
    command opens are shown to meet it, so what is proved from the contract holds on either.

  \<^bold>\<open>Paging.\<close>
  \<^item> \<open>Budget\<close>, \<open>Edges\<close>, \<open>Retrievers\<close> (\<open>pager\<close>): section budgets in the precision of the source, the edge
    policy, the retrievers.
  \<^item> \<open>Pager\<close>, \<open>Pager_Steps\<close>, \<open>Pager_Correct\<close>, \<open>Pager_Examples\<close> (\<open>pager/greedy.rs\<close>): the whole of \<open>page\<close>. The
    growth of the working set is a step relation; its invariants give the budget, the exact token
    sum, the pinned blocks, that nothing a retriever returned is lost, the error of a required
    block that cannot be placed, the reach of the expansion, and that reconciliation leaves no pair
    it should have settled, the loser of a contradiction being told from the fields of the two blocks.
  \<^item> \<open>Ann\<close>, \<open>Ann_Correct\<close>, \<open>Ann_Examples\<close> (\<open>retrieve-ann\<close>): the cache of embeddings, the brute-force and
    the HNSW retriever, the OpenAI embedder; answers do not depend on what the caches hold.

  \<^bold>\<open>Packing, traces, text.\<close>
  \<^item> \<open>Iso8601\<close>, \<open>Packer\<close>, \<open>Packer_Correct\<close>, \<open>Packer_Examples\<close> (\<open>packer/simple.rs\<close>): time stamps, the string
    and the chat prompt, their layout, budget, completeness and independence of the plan's order.
  \<^item> \<open>Trace\<close> (\<open>core/trace.rs\<close>, \<open>trace/lmdb.rs\<close>), \<open>Diff\<close> (\<open>diff/lib.rs\<close>): records of calls, runs of a sink
    that record calls and patch in their outputs, and the difference of two plans.
  \<^item> \<open>Reduce\<close> (\<open>core/reducer.rs\<close>, \<open>reduce\<close>), \<open>Compress\<close> (\<open>core/summarizer.rs\<close>, \<open>compress\<close>,
    \<open>compress-anthropic\<close>): model output to blocks, and blocks to summaries.

  \<^bold>\<open>Front ends.\<close>
  \<^item> \<open>Host\<close>: the world that both read, as a record: files, clock, random bytes, environment, the
    libraries. What a call reads twice, such as the clock, is indexed by the number of the reading.
  \<^item> \<open>Cli_Args\<close>, \<open>Cli\<close>, \<open>Cli_Run\<close> (\<open>cli/cli.rs\<close>, \<open>cli/commands.rs\<close>, \<open>cli/main.rs\<close>): a handler runs over the
    opened store, the trace store and the two outputs, which keep what was printed before an error.
  \<^item> \<open>Cli_Correct\<close>, \<open>Cli_Runs\<close>, \<open>Cli_Examples\<close>: a command that fails or only reads leaves the store as it
    was; what is put is shown, as text or as a dump; a packed prompt is complete, within its budget
    and what the trace says, printed as it is or, with \<open>--chat\<close>, as the JSON of its messages; no sequence of commands makes the integrity check fail (\<open>cli_reached\<close>).
  \<^item> \<open>Py_Types\<close>, \<open>Py_Store\<close>, \<open>Py_Correct\<close>, \<open>Front_Examples\<close> (\<open>src/python/src\<close>): the classes \<open>Store\<close> and \<open>Trace\<close>
    with every method, and retrievers written in Python. Packing a plan that was paged before is
    packing at once when the plan has no notes; a run shows that the notes are lost otherwise.
  \<^item> \<open>Front_Agree\<close>: from the start of the program on, an object of the class and a command that are
    given the same store, file and arguments give the same prompt, or neither gives one.

  \<^bold>\<open>Bounds and termination.\<close> Integers have their width: ids are 128-bit words, times and lengths
  64-bit, token counts 32-bit with saturating addition. No definition needs fuel: loops
  are folds, or recursions with a measure; the breadth-first expansion of the pager (\<open>expand_loop\<close>)
  ends by a multiset of remaining depths, the depth being at most 5. Properties on budgets ask
  for an input budget below the largest 32-bit number, at which saturation would hide an overrun.

  \<^bold>\<open>Parameters and the laws they are given.\<close> Code outside the repository is an argument:
  LMDB through heed and the postcard encoding (locale \<open>lmdb\<close>: tables are ordered maps, a failed
  transaction leaves no trace, decoding inverts encoding; a call may fail at any time), the
  Postgres server and driver (locale \<open>postgres\<close>: a statement that succeeds means what its text
  says), the encoding of traces (locale \<open>trace_store\<close>), the crate lru (locale \<open>lru\<close>), the HNSW index
  (locale \<open>hnsw_index\<close>), blake3, the TOML and JSON parsers and printers, the tokenizer encoders, HTTP
  clients, native-tls, \<open>exp2\<close> and \<open>ln\<close>, the Unicode tables, the order in which a hash map is walked,
  the text of a \<open>Utf8Error\<close>, and the objects and exceptions of Python. Every locale has an
  interpretation: sorted lists as tables, finite relations as a database, a list as the LRU cache,
  a scan as the index.

  \<^bold>\<open>Modelling decisions.\<close> Errors are values with their texts. A panic is an error of its own
  (\<open>Panics\<close>, \<open>Py_Panic\<close>) or \<open>None\<close>. A transaction is one step, so threads interleave at transactions.
  Floating-point values do not keep the sign of zero and the payload of a NaN. A content hash is
  a 256-bit word. A set or map whose order matters to the result is a list or takes its order as
  a parameter.

  \<^bold>\<open>Not modelled.\<close> The benchmark \<open>store-bench\<close>, which only measures the two stores; tests, examples
  and benches; the parser of the arguments (clap) beyond the conversions it is given; the set-up
  and the lines of the log; the \<open>Debug\<close> and \<open>__repr__\<close> forms that nothing but a developer reads, the
  JSON that serde derives, and the registration of the classes with PyO3, which have no logic of
  this program; locks, since each protects one step of the model.
\<close>

end
